(* ===== verification/Prelude.thy ===== *)
theory Prelude
  imports Main "HOL-Library.Word" "HOL-Library.Monad_Syntax"
begin

text \<open>
  The values of the language the scripts are written in, as far as the scripts use them, and the
  generic lemmas the components share.

  \<^item> A string is a \<open>string\<close> (a list of 8-bit characters). The two case mappings change the ASCII
    letters only; every other operation is exact on characters below 256.
  \<^item> A byte array (\<open>Uint8Array\<close>) is a list of \<open>8 word\<close>.
  \<^item> A BigInt is an \<open>int\<close>, or a \<open>nat\<close> where it is never negative.
  \<^item> A thrown value is the left side of a sum; the constructors of \<open>js_error\<close> are the error
    classes the scripts define.
\<close>

unbundle bit_operations_syntax

named_theorems js_eval \<open>definitions unfolded when a concrete input is evaluated\<close>

section \<open>Errors\<close>

text \<open>
  \<open>RpcError\<close> carries the node's message and its numeric code, \<open>ApiError\<close> the HTTP status, the
  message and the Retry-After header.
\<close>

datatype js_error =
    Error string
  | TypeError
  | SyntaxError
  | LaneError string
  | RpcError string "int option"
  | ApiError int string "string option"

type_synonym 'a result = "js_error + 'a"

definition then_do :: "'a result \<Rightarrow> ('a \<Rightarrow> 'b result) \<Rightarrow> 'b result" where
  "then_do r f = (case r of Inl e \<Rightarrow> Inl e | Inr x \<Rightarrow> f x)"

lemma then_do_simps [simp]:
  "then_do (Inl e) f = Inl e"
  "then_do (Inr x) f = f x"
  by (simp_all add: then_do_def)

lemma then_do_Inr: "then_do r f = Inr y \<longleftrightarrow> (\<exists>x. r = Inr x \<and> f x = Inr y)"
  by (cases r) auto

lemma then_do_Inl: "then_do r f = Inl e \<longleftrightarrow> r = Inl e \<or> (\<exists>x. r = Inr x \<and> f x = Inl e)"
  by (cases r) auto

definition guard_err :: "bool \<Rightarrow> js_error \<Rightarrow> unit result" where
  "guard_err b e = (if b then Inr () else Inl e)"

lemma guard_err_Inr [simp]: "guard_err b e = Inr u \<longleftrightarrow> b"
  by (simp add: guard_err_def)

lemma guard_err_Inl [simp]: "guard_err b e = Inl e' \<longleftrightarrow> \<not> b \<and> e' = e"
  by (auto simp: guard_err_def)

fun ok_part :: "'a result \<Rightarrow> 'a option" where
  "ok_part (Inl e) = None"
| "ok_part (Inr x) = Some x"

lemma ok_part_Some [simp]: "ok_part r = Some x \<longleftrightarrow> r = Inr x"
  by (cases r) auto

text \<open>\<open>xs.map(f)\<close> with an \<open>f\<close> that may throw: the first throw ends it.\<close>

fun traverse :: "('a \<Rightarrow> 'b result) \<Rightarrow> 'a list \<Rightarrow> 'b list result" where
  "traverse f [] = Inr []"
| "traverse f (x # xs) = then_do (f x) (\<lambda>y. then_do (traverse f xs) (\<lambda>ys. Inr (y # ys)))"

lemma traverse_Inr: "traverse f xs = Inr ys \<longleftrightarrow> list_all2 (\<lambda>x y. f x = Inr y) xs ys"
  by (induction xs arbitrary: ys) (auto simp: then_do_Inr list_all2_Cons1)

section \<open>Characters and strings\<close>

definition code :: "char \<Rightarrow> nat" where
  "code c = of_char c"

definition in_range :: "char \<Rightarrow> char \<Rightarrow> char \<Rightarrow> bool" where
  "in_range lo hi c \<longleftrightarrow> code lo \<le> code c \<and> code c \<le> code hi"

definition is_digit :: "char \<Rightarrow> bool" where
  "is_digit c \<longleftrightarrow> in_range (CHR ''0'') (CHR ''9'') c"

definition is_upper :: "char \<Rightarrow> bool" where
  "is_upper c \<longleftrightarrow> in_range (CHR ''A'') (CHR ''Z'') c"

definition is_lower :: "char \<Rightarrow> bool" where
  "is_lower c \<longleftrightarrow> in_range (CHR ''a'') (CHR ''z'') c"

definition is_hex :: "char \<Rightarrow> bool" where
  "is_hex c \<longleftrightarrow> is_digit c \<or> in_range (CHR ''a'') (CHR ''f'') c \<or> in_range (CHR ''A'') (CHR ''F'') c"

text \<open>\<open>toLowerCase\<close> and \<open>toUpperCase\<close> on the ASCII letters.\<close>

definition lower_char :: "char \<Rightarrow> char" where
  "lower_char c = (if is_upper c then char_of (code c + 32) else c)"

definition upper_char :: "char \<Rightarrow> char" where
  "upper_char c = (if is_lower c then char_of (code c - 32) else c)"

definition to_lower :: "string \<Rightarrow> string" where
  "to_lower s = map lower_char s"

definition to_upper :: "string \<Rightarrow> string" where
  "to_upper s = map upper_char s"

text \<open>\<open>trim\<close> drops white space at both ends: TAB, LF, VT, FF, CR, space and no-break space.\<close>

definition is_space :: "char \<Rightarrow> bool" where
  "is_space c \<longleftrightarrow> code c \<in> {9, 10, 11, 12, 13, 32, 160}"

definition js_trim :: "string \<Rightarrow> string" where
  "js_trim s = rev (dropWhile is_space (rev (dropWhile is_space s)))"

definition pad_start :: "nat \<Rightarrow> char \<Rightarrow> string \<Rightarrow> string" where
  "pad_start n c s = replicate (n - length s) c @ s"

definition pad_end :: "nat \<Rightarrow> char \<Rightarrow> string \<Rightarrow> string" where
  "pad_end n c s = s @ replicate (n - length s) c"

fun starts_with :: "string \<Rightarrow> string \<Rightarrow> bool" where
  "starts_with [] s = True"
| "starts_with (p # ps) [] = False"
| "starts_with (p # ps) (c # s) = (p = c \<and> starts_with ps s)"

fun str_includes :: "string \<Rightarrow> string \<Rightarrow> bool" where
  "str_includes sub [] = (sub = [])"
| "str_includes sub (c # s) = (starts_with sub (c # s) \<or> str_includes sub s)"

text \<open>\<open>s.replace(/^0x/i, "")\<close>.\<close>

definition strip_0x :: "string \<Rightarrow> string" where
  "strip_0x s = (if to_lower (take 2 s) = ''0x'' then drop 2 s else s)"

lemma starts_with_append [simp]: "starts_with p (p @ s)"
  by (induction p) auto

lemma starts_with_iff: "starts_with p s \<longleftrightarrow> (\<exists>t. s = p @ t)"
  by (induction p s rule: starts_with.induct) auto

lemma length_pad_start [simp]: "length (pad_start n c s) = max n (length s)"
  by (auto simp: pad_start_def)

lemma length_pad_end [simp]: "length (pad_end n c s) = max n (length s)"
  by (auto simp: pad_end_def)

lemma length_to_lower [simp]: "length (to_lower s) = length s"
  by (simp add: to_lower_def)

lemma length_to_upper [simp]: "length (to_upper s) = length s"
  by (simp add: to_upper_def)

lemma to_lower_append [simp]: "to_lower (s @ t) = to_lower s @ to_lower t"
  by (simp add: to_lower_def)

lemma code_lt_256: "code c < 256"
  by (simp add: code_def)

lemma code_inject: "code c = code d \<longleftrightarrow> c = d"
  by (simp add: code_def)

lemma char_of_code [simp]: "char_of (code c) = c"
  by (simp add: code_def)

lemma code_char_of: "n < 256 \<Longrightarrow> code (char_of n) = n"
  by (simp add: code_def)

lemma replicate_takeWhile: "replicate (length (takeWhile ((=) x) xs)) x @ dropWhile ((=) x) xs = xs"
proof -
  have "takeWhile ((=) x) xs = replicate (length (takeWhile ((=) x) xs)) x"
    by (rule replicate_length_same [symmetric]) (auto dest: set_takeWhileD)
  then show ?thesis using takeWhile_dropWhile_id [of "(=) x" xs] by simp
qed

section \<open>Positional digits\<close>

text \<open>
  The digits of a number in a base, most significant first and none for zero, and the number a
  digit list denotes. The number printers and parsers, base58, the little-endian encoders and
  the hexadecimal codecs are all stated over these two.
\<close>

fun digits_of :: "nat \<Rightarrow> nat \<Rightarrow> nat list" where
  "digits_of b n = (if b < 2 \<or> n = 0 then [] else digits_of b (n div b) @ [n mod b])"

declare digits_of.simps [simp del]

definition of_digits :: "nat \<Rightarrow> nat list \<Rightarrow> nat" where
  "of_digits b ds = foldl (\<lambda>a d. a * b + d) 0 ds"

lemma of_digits_Nil [simp]: "of_digits b [] = 0"
  by (simp add: of_digits_def)

lemma of_digits_snoc [simp]: "of_digits b (ds @ [d]) = of_digits b ds * b + d"
  by (simp add: of_digits_def)

lemma digits_of_0 [simp]: "digits_of b 0 = []"
  by (simp add: digits_of.simps)

lemma digits_of_pos: "2 \<le> b \<Longrightarrow> 0 < n \<Longrightarrow> digits_of b n = digits_of b (n div b) @ [n mod b]"
  by (subst digits_of.simps) auto

lemma of_digits_digits_of: "2 \<le> b \<Longrightarrow> of_digits b (digits_of b n) = n"
proof (induction b n rule: digits_of.induct)
  case (1 b n)
  show ?case
  proof (cases "n = 0")
    case False
    with 1 show ?thesis by (simp add: digits_of_pos)
  qed simp
qed

lemma digits_of_less: "2 \<le> b \<Longrightarrow> d \<in> set (digits_of b n) \<Longrightarrow> d < b"
proof (induction b n rule: digits_of.induct)
  case (1 b n)
  show ?case
  proof (cases "n = 0")
    case False
    with 1 show ?thesis by (auto simp: digits_of_pos)
  qed (use 1 in simp)
qed

lemma of_digits_pos:
  assumes "2 \<le> b" "d \<noteq> 0"
  shows "0 < of_digits b (d # ds)"
  using assms by (induction ds rule: rev_induct) (auto simp: of_digits_def)

lemma digits_of_of_digits_pos:
  assumes "2 \<le> b" "\<forall>d \<in> set ds. d < b" "ds = [] \<or> hd ds \<noteq> 0"
  shows "digits_of b (of_digits b ds) = ds"
  using assms(2,3)
proof (induction ds rule: rev_induct)
  case (snoc d ds)
  have "of_digits b ds * b + d > 0"
  proof (cases ds)
    case Nil
    with snoc.prems show ?thesis by simp
  next
    case (Cons e es)
    with snoc.prems have "0 < of_digits b (e # es)" by (intro of_digits_pos assms(1)) auto
    with Cons assms(1) show ?thesis by simp
  qed
  moreover have "(of_digits b ds * b + d) div b = of_digits b ds" "(of_digits b ds * b + d) mod b = d"
    using snoc.prems(1) assms(1) by auto
  moreover have "digits_of b (of_digits b ds) = ds"
    using snoc by (cases ds) auto
  ultimately show ?case by (simp add: digits_of_pos assms(1))
qed simp

lemma of_digits_replicate_0 [simp]: "of_digits b (replicate k 0 @ ds) = of_digits b ds"
proof -
  have "foldl (\<lambda>a d. a * b + d) 0 (replicate k (0::nat)) = 0"
    by (induction k) auto
  then show ?thesis by (simp add: of_digits_def)
qed

lemma of_digits_dropWhile: "of_digits b (dropWhile ((=) 0) ds) = of_digits b ds"
proof (induction ds)
  case (Cons d ds)
  then show ?case using of_digits_replicate_0 [of b 1] by auto
qed simp

lemma digits_of_of_digits:
  assumes "2 \<le> b" "\<forall>d \<in> set ds. d < b"
  shows "digits_of b (of_digits b ds) = dropWhile ((=) 0) ds"
proof -
  have "digits_of b (of_digits b (dropWhile ((=) 0) ds)) = dropWhile ((=) 0) ds"
  proof (rule digits_of_of_digits_pos)
    show "\<forall>d \<in> set (dropWhile ((=) 0) ds). d < b"
      using assms(2) by (auto dest: set_dropWhileD)
    show "dropWhile ((=) 0) ds = [] \<or> hd (dropWhile ((=) 0) ds) \<noteq> 0"
      using hd_dropWhile [of "(=) 0" ds] by force
  qed (rule assms(1))
  then show ?thesis by (simp add: of_digits_dropWhile)
qed

lemma of_digits_Cons: "of_digits b (d # ds) = d * b ^ length ds + of_digits b ds"
proof (induction ds rule: rev_induct)
  case (snoc e es)
  have "of_digits b (d # es @ [e]) = of_digits b (d # es) * b + e"
    using of_digits_snoc [of b "d # es" e] by simp
  with snoc show ?case by (simp add: algebra_simps)
qed (simp add: of_digits_def)

lemma of_digits_append: "of_digits b (xs @ ys) = of_digits b xs * b ^ length ys + of_digits b ys"
  by (induction xs) (auto simp: of_digits_Cons power_add algebra_simps)

lemma of_digits_less: "\<forall>d \<in> set ds. d < b \<Longrightarrow> of_digits b ds < b ^ length ds"
proof (induction ds)
  case (Cons d ds)
  then have "d + 1 \<le> b" "of_digits b ds < b ^ length ds" by auto
  then have "d * b ^ length ds + of_digits b ds < (d + 1) * b ^ length ds" by simp
  also have "\<dots> \<le> b * b ^ length ds" using \<open>d + 1 \<le> b\<close> by (rule mult_le_mono1)
  finally show ?case by (simp add: of_digits_Cons)
qed simp

lemma digits_of_length_le: "2 \<le> b \<Longrightarrow> n < b ^ k \<Longrightarrow> length (digits_of b n) \<le> k"
proof (induction k arbitrary: n)
  case (Suc k)
  show ?case
  proof (cases "n = 0")
    case False
    have "n div b < b ^ k"
      using Suc.prems by (simp add: less_mult_imp_div_less mult.commute)
    then have "length (digits_of b (n div b)) \<le> k" by (rule Suc.IH [OF Suc.prems(1)])
    with False Suc.prems(1) show ?thesis by (simp add: digits_of_pos)
  qed simp
qed simp

end
