(* ===== verification/Numerals.thy ===== *)
theory Numerals
  imports Prelude
begin

text \<open>
  Numbers as text and as bytes: \<open>n.toString(b)\<close>, \<open>BigInt(s)\<close>, the two-digit hexadecimal form of a
  byte, the UTF-8 encoder, and the codec interface with the laws every encoder of the scripts is
  shown to satisfy.
\<close>

type_synonym byte = "8 word"
type_synonym bytes = "byte list"

section \<open>Digits as characters\<close>

definition digit_char :: "nat \<Rightarrow> char" where
  "digit_char d = ''0123456789abcdef'' ! d"

definition digit_val :: "char \<Rightarrow> nat option" where
  "digit_val c =
     (if is_digit c then Some (code c - 48)
      else if in_range (CHR ''a'') (CHR ''f'') c then Some (code c - 87)
      else if in_range (CHR ''A'') (CHR ''F'') c then Some (code c - 55)
      else None)"

definition digit_below :: "nat \<Rightarrow> char \<Rightarrow> bool" where
  "digit_below b c = (case digit_val c of None \<Rightarrow> False | Some d \<Rightarrow> d < b)"

definition digit_num :: "char \<Rightarrow> nat" where
  "digit_num c = (case digit_val c of None \<Rightarrow> 0 | Some d \<Rightarrow> d)"

text \<open>\<open>n.toString(b)\<close> of a number that is not negative, and of any BigInt.\<close>

definition nat_string :: "nat \<Rightarrow> nat \<Rightarrow> string" where
  "nat_string b n = (if n = 0 then ''0'' else map digit_char (digits_of b n))"

definition int_string :: "nat \<Rightarrow> int \<Rightarrow> string" where
  "int_string b i = (if i < 0 then CHR ''-'' # nat_string b (nat (- i)) else nat_string b (nat i))"

definition parse_nat :: "nat \<Rightarrow> string \<Rightarrow> nat option" where
  "parse_nat b s = (if s \<noteq> [] \<and> list_all (digit_below b) s then Some (of_digits b (map digit_num s)) else None)"

text \<open>
  \<open>BigInt(s)\<close> of a string: white space around it is dropped, the empty string is zero, \<open>0x\<close>,
  \<open>0o\<close> and \<open>0b\<close> choose the base, a sign is allowed before decimal digits only; anything else is
  a SyntaxError, the \<open>None\<close> here.
\<close>

definition js_BigInt :: "string \<Rightarrow> int option" where
  "js_BigInt v =
     (let s = js_trim v; p = to_lower (take 2 s) in
      if s = [] then Some 0
      else if p = ''0x'' then map_option int (parse_nat 16 (drop 2 s))
      else if p = ''0o'' then map_option int (parse_nat 8 (drop 2 s))
      else if p = ''0b'' then map_option int (parse_nat 2 (drop 2 s))
      else if hd s = CHR ''-'' then map_option (\<lambda>n. - int n) (parse_nat 10 (tl s))
      else if hd s = CHR ''+'' then map_option int (parse_nat 10 (tl s))
      else map_option int (parse_nat 10 s))"

lemma less_16_cases: "d < 16 \<Longrightarrow> d \<in> {0, 1, 2, 3, 4, 5, 6, 7, 8, 9, 10, 11, 12, 13, 14, 15::nat}"
  by (auto simp: eval_nat_numeral less_Suc_eq)

lemma digit_val_digit_char [simp]: "d < 16 \<Longrightarrow> digit_val (digit_char d) = Some d"
  by (drule less_16_cases) (auto simp: digit_val_def digit_char_def is_digit_def in_range_def code_def)

lemma digit_num_digit_char [simp]: "d < 16 \<Longrightarrow> digit_num (digit_char d) = d"
  by (simp add: digit_num_def)

lemma digit_below_digit_char [simp]: "d < 16 \<Longrightarrow> digit_below b (digit_char d) \<longleftrightarrow> d < b"
  by (simp add: digit_below_def)

lemma is_hex_digit_char [simp]: "d < 16 \<Longrightarrow> is_hex (digit_char d)"
  by (drule less_16_cases) (auto simp: is_hex_def digit_char_def is_digit_def in_range_def code_def)

lemma lower_digit_char [simp]: "d < 16 \<Longrightarrow> lower_char (digit_char d) = digit_char d"
  by (drule less_16_cases) (auto simp: lower_char_def is_upper_def digit_char_def in_range_def code_def)

lemma is_hex_digit_val: "is_hex c \<longleftrightarrow> digit_val c \<noteq> None"
  by (auto simp: is_hex_def digit_val_def)

lemma digit_val_less: "digit_val c = Some d \<Longrightarrow> d < 16"
  by (auto simp: digit_val_def is_digit_def in_range_def code_def split: if_splits)

lemma digit_num_less [simp]: "digit_num c < 16"
  using digit_val_less by (auto simp: digit_num_def split: option.splits)

lemma digit_below_num: "digit_below b c \<Longrightarrow> digit_num c < b"
  by (auto simp: digit_below_def digit_num_def split: option.splits)

lemma digit_below_hex: "digit_below 16 c \<longleftrightarrow> is_hex c"
  using digit_val_less by (auto simp: digit_below_def is_hex_digit_val split: option.splits)

lemma digit_below_10: "digit_below 10 c \<longleftrightarrow> is_digit c"
  by (auto simp: digit_below_def digit_val_def is_digit_def in_range_def code_def split: option.splits if_splits)

lemma set_nat_string: "2 \<le> b \<Longrightarrow> c \<in> set (nat_string b n) \<Longrightarrow> \<exists>d < b. c = digit_char d"
proof (cases "n = 0")
  case False
  assume "2 \<le> b" "c \<in> set (nat_string b n)"
  with False show ?thesis by (auto simp: nat_string_def dest: digits_of_less)
qed (auto simp: nat_string_def digit_char_def intro!: exI [of _ "0::nat"])

lemma nat_string_not_Nil [simp]: "2 \<le> b \<Longrightarrow> nat_string b n \<noteq> []"
  by (auto simp: nat_string_def digits_of_pos)

lemma digits_nat_string:
  assumes "2 \<le> b" "b \<le> 16"
  shows "of_digits b (map digit_num (nat_string b n)) = n"
proof (cases "n = 0")
  case True
  then show ?thesis by (simp add: nat_string_def of_digits_def digit_num_def digit_val_def is_digit_def
        in_range_def code_def)
next
  case False
  have "map digit_num (map digit_char (digits_of b n)) = digits_of b n"
    unfolding map_map by (rule map_idI) (use digits_of_less [of b _ n] assms in fastforce)
  with False assms(1) show ?thesis
    by (simp only: nat_string_def if_False of_digits_digits_of)
qed

lemma parse_nat_string [simp]:
  assumes "2 \<le> b" "b \<le> 16"
  shows "parse_nat b (nat_string b n) = Some n"
  using assms set_nat_string [of b _ n]
  by (fastforce simp: parse_nat_def digits_nat_string list_all_iff)

lemma digit_num_0 [simp]: "digit_num CHR ''0'' = 0"
  by (simp add: digit_num_def digit_val_def is_digit_def in_range_def code_def)

lemma digit_below_0 [simp]: "digit_below b CHR ''0'' \<longleftrightarrow> 0 < b"
  by (simp add: digit_below_def digit_val_def is_digit_def in_range_def code_def)

lemma parse_nat_pad_start [simp]:
  assumes "2 \<le> b"
  shows "parse_nat b (pad_start k CHR ''0'' s) = (if s = [] \<and> k = 0 then None
           else if list_all (digit_below b) s then Some (of_digits b (map digit_num s)) else None)"
  using assms by (auto simp: parse_nat_def pad_start_def list_all_iff)

lemma parse_nat_Some: "parse_nat b s = Some n \<Longrightarrow> list_all (digit_below b) s \<and> s \<noteq> [] \<and> n = of_digits b (map digit_num s)"
  by (auto simp: parse_nat_def split: if_splits)

lemma parse_nat_less: "parse_nat b s = Some n \<Longrightarrow> n < b ^ length s"
  using of_digits_less [of "map digit_num s" b]
  by (auto simp: parse_nat_def list_all_iff digit_below_num split: if_splits)

lemma length_nat_string: "2 \<le> b \<Longrightarrow> n < b ^ k \<Longrightarrow> 0 < k \<Longrightarrow> length (nat_string b n) \<le> k"
  using digits_of_length_le [of b n k] by (auto simp: nat_string_def)

lemma digits_nat_string10: "list_all is_digit (nat_string 10 n)"
  using set_nat_string [of 10 _ n] by (fastforce simp: list_all_iff digit_below_10 [symmetric])

section \<open>BigInt of prefixed and of plain digits\<close>

lemma digit_not_space: "is_hex c \<Longrightarrow> \<not> is_space c"
  by (auto simp: is_hex_def is_space_def is_digit_def in_range_def code_def)

lemma js_trim_id:
  assumes "s \<noteq> []" "\<not> is_space (hd s)" "\<not> is_space (last s)"
  shows "js_trim s = s"
proof -
  have "dropWhile is_space s = s" using assms by (cases s) auto
  moreover have "dropWhile is_space (rev s) = rev s"
    using assms by (cases s rule: rev_cases) auto
  ultimately show ?thesis by (simp add: js_trim_def)
qed

lemma js_trim_no_space: "\<forall>c \<in> set s. \<not> is_space c \<Longrightarrow> js_trim s = s"
proof (cases "s = []")
  case False
  assume "\<forall>c \<in> set s. \<not> is_space c"
  with False show ?thesis by (intro js_trim_id) auto
qed (simp add: js_trim_def)

lemma js_BigInt_hex:
  assumes "h \<noteq> []" "list_all is_hex h"
  shows "js_BigInt (''0x'' @ h) = Some (int (of_digits 16 (map digit_num h)))"
proof -
  have "js_trim (''0x'' @ h) = ''0x'' @ h"
    using assms digit_not_space
    by (intro js_trim_no_space) (auto simp: list_all_iff is_space_def code_def)
  then show ?thesis
    using assms by (simp add: js_BigInt_def Let_def to_lower_def lower_char_def is_upper_def in_range_def
        code_def parse_nat_def digit_below_hex [abs_def])
qed

lemma js_BigInt_hex_string [simp]: "js_BigInt (''0x'' @ nat_string 16 n) = Some (int n)"
proof -
  have "list_all is_hex (nat_string 16 n)"
    using set_nat_string [of 16 _ n] by (fastforce simp: list_all_iff)
  then show ?thesis
    by (subst js_BigInt_hex) (auto simp: digits_nat_string)
qed

lemma js_BigInt_digits:
  assumes "s \<noteq> []" "list_all is_digit s"
  shows "js_BigInt s = Some (int (of_digits 10 (map digit_num s)))"
proof -
  have hex: "\<forall>c \<in> set s. is_hex c" using assms(2) by (auto simp: list_all_iff is_hex_def)
  then have trim: "js_trim s = s" using digit_not_space by (intro js_trim_no_space) auto
  obtain c t where s: "s = c # t" using assms(1) by (cases s) auto
  have c: "is_digit c" using assms(2) s by simp
  have second: "is_digit d" if "take 1 t = [d]" for d
    using assms(2) s that by (cases t) auto
  have "to_lower (take 2 s) \<noteq> ''0x'' \<and> to_lower (take 2 s) \<noteq> ''0o'' \<and> to_lower (take 2 s) \<noteq> ''0b''"
    using second by (cases t) (auto simp: s to_lower_def lower_char_def is_upper_def is_digit_def
        in_range_def code_def split: if_splits)
  moreover have "c \<noteq> CHR ''-''" "c \<noteq> CHR ''+''"
    using c by (auto simp: is_digit_def in_range_def code_def)
  ultimately show ?thesis
    using assms trim by (simp add: s js_BigInt_def Let_def parse_nat_def digit_below_10 [abs_def])
qed

lemma js_BigInt_nat_string [simp]: "js_BigInt (nat_string 10 n) = Some (int n)"
proof -
  have "list_all is_digit (nat_string 10 n)"
    using set_nat_string [of 10 _ n] by (fastforce simp: list_all_iff digit_below_10 [symmetric])
  then show ?thesis by (simp add: js_BigInt_digits digits_nat_string)
qed

section \<open>Bytes as two hexadecimal digits, UTF-8\<close>

text \<open>\<open>b.toString(16).padStart(2, "0")\<close> and the concatenation of these over an array.\<close>

definition hex_byte :: "byte \<Rightarrow> string" where
  "hex_byte b = pad_start 2 CHR ''0'' (nat_string 16 (unat b))"

definition hex_of_bytes :: "bytes \<Rightarrow> string" where
  "hex_of_bytes bs = concat (map hex_byte bs)"

text \<open>\<open>new TextEncoder().encode(s)\<close>: UTF-8, two bytes for a character from 128 on.\<close>

definition utf8_char :: "char \<Rightarrow> bytes" where
  "utf8_char c = (if code c < 128 then [word_of_nat (code c)]
     else [word_of_nat (192 + code c div 64), word_of_nat (128 + code c mod 64)])"

definition utf8 :: "string \<Rightarrow> bytes" where
  "utf8 s = concat (map utf8_char s)"

text \<open>The number a byte array denotes, most significant byte first.\<close>

definition be_nat :: "bytes \<Rightarrow> nat" where
  "be_nat bs = of_digits 256 (map unat bs)"

lemma unat_byte_less [simp]: "unat (b :: byte) < 256"
  using unsigned_less [of b] by simp

lemma unat_byte_div [simp]: "unat (b :: byte) div 16 < 16"
  using unat_byte_less [of b] by (simp add: less_mult_imp_div_less)

lemma be_nat_less: "be_nat bs < 256 ^ length bs"
  using of_digits_less [of "map unat bs" 256] by (auto simp: be_nat_def)

lemma hex_byte_digits: "hex_byte b = [digit_char (unat b div 16), digit_char (unat b mod 16)]"
proof -
  have lt: "unat b div 16 < 16" by (rule unat_byte_div)
  show ?thesis
  proof (cases "unat b < 16")
    case True
    then show ?thesis
      by (cases "unat b = 0")
        (auto simp: hex_byte_def pad_start_def nat_string_def digits_of.simps [of 16 "unat b"] digit_char_def)
  next
    case False
    then show ?thesis using lt
      by (auto simp: hex_byte_def pad_start_def nat_string_def digits_of_pos)
  qed
qed

lemma length_hex_byte [simp]: "length (hex_byte b) = 2"
  by (simp add: hex_byte_digits)

lemma length_hex_of_bytes [simp]: "length (hex_of_bytes bs) = 2 * length bs"
  by (induction bs) (auto simp: hex_of_bytes_def)

lemma hex_of_bytes_simps [simp]:
  "hex_of_bytes [] = []" "hex_of_bytes (b # bs) = hex_byte b @ hex_of_bytes bs"
  by (simp_all add: hex_of_bytes_def)

lemma hex_of_bytes_hex: "list_all is_hex (hex_of_bytes bs)"
  by (induction bs) (auto simp: hex_byte_digits)

lemma to_lower_hex_of_bytes [simp]: "to_lower (hex_of_bytes bs) = hex_of_bytes bs"
  by (induction bs) (auto simp: hex_byte_digits to_lower_def)

lemma of_digits_hex_of_bytes: "of_digits 16 (map digit_num (hex_of_bytes bs)) = be_nat bs"
proof (induction bs)
  case (Cons b bs)
  have "map digit_num (hex_byte b) = [unat b div 16, unat b mod 16]"
    by (simp add: hex_byte_digits)
  then have "of_digits 16 (map digit_num (hex_byte b)) = unat b"
    by (simp add: of_digits_def)
  moreover have "(16::nat) ^ (2 * length bs) = 256 ^ length bs"
    by (simp add: power_mult)
  ultimately show ?case
    using Cons by (simp add: be_nat_def of_digits_append of_digits_Cons)
qed (simp add: be_nat_def)

lemma js_BigInt_hex_of_bytes: "bs \<noteq> [] \<Longrightarrow> js_BigInt (''0x'' @ hex_of_bytes bs) = Some (int (be_nat bs))"
  by (subst js_BigInt_hex) (auto simp: hex_of_bytes_hex of_digits_hex_of_bytes hex_byte_digits neq_Nil_conv)

lemma hex_of_bytes_inject:
  assumes "hex_of_bytes xs = hex_of_bytes ys"
  shows "xs = ys"
  using assms
proof (induction xs arbitrary: ys)
  case Nil
  then show ?case using length_hex_of_bytes [of ys] by simp
next
  case (Cons x xs)
  then obtain y ys' where ys: "ys = y # ys'"
    using length_hex_of_bytes [of ys] by (cases ys) (auto simp: hex_byte_digits)
  have parts: "hex_byte x = hex_byte y" "hex_of_bytes xs = hex_of_bytes ys'"
    using Cons.prems by (simp_all add: ys append_eq_append_conv)
  have "be_nat [x] = be_nat [y]"
    using parts(1) by (simp only: of_digits_hex_of_bytes [symmetric] hex_of_bytes_simps)
  then have "x = y" by (simp add: be_nat_def of_digits_def word_unat_eq_iff)
  with Cons.IH [OF parts(2)] ys show ?case by simp
qed

lemma utf8_ascii: "\<forall>c \<in> set s. code c < 128 \<Longrightarrow> utf8 s = map (\<lambda>c. word_of_nat (code c)) s"
  by (induction s) (auto simp: utf8_def utf8_char_def)

section \<open>The interface of a codec\<close>

text \<open>
  An encoder on the values its decoder can return, and the decoder that undoes it. A canonical
  codec accepts only what its encoder prints, so no two texts denote one value.
\<close>

locale codec =
  fixes enc :: "'a \<Rightarrow> 'b" and dec :: "'b \<Rightarrow> 'a option" and dom_ok :: "'a \<Rightarrow> bool"
  assumes dec_enc: "dom_ok x \<Longrightarrow> dec (enc x) = Some x"
begin

lemma enc_inject: "dom_ok x \<Longrightarrow> dom_ok y \<Longrightarrow> enc x = enc y \<longleftrightarrow> x = y"
  using dec_enc by (metis option.inject)

lemma inj_on_enc: "inj_on enc (Collect dom_ok)"
  by (auto intro!: inj_onI simp: enc_inject)

end

locale canonical_codec = codec +
  assumes enc_dec: "dec s = Some x \<Longrightarrow> enc x = s"
    and dec_ok: "dec s = Some x \<Longrightarrow> dom_ok x"
begin

lemma dec_iff: "dec s = Some x \<longleftrightarrow> dom_ok x \<and> s = enc x"
  using dec_enc enc_dec dec_ok by auto

lemma dec_inject: "dec s = Some x \<Longrightarrow> dec t = Some x \<Longrightarrow> s = t"
  by (auto simp: dec_iff)

lemma distinct_dec:
  assumes "list_all2 (\<lambda>s x. dec s = Some x) ss xs"
  shows "distinct ss \<longleftrightarrow> distinct xs"
proof -
  have "ss = map enc xs" "list_all dom_ok xs"
    using assms by (induction rule: list_all2_induct) (auto simp: dec_iff)
  then show ?thesis
    using inj_on_enc by (auto simp: distinct_map list_all_iff intro: inj_on_subset)
qed

end

end
