(* ===== verification/Json.thy ===== *)
theory Json
  imports Numerals
begin

text \<open>
  Parsed JSON values, as the scripts see them after \<open>JSON.parse\<close> or \<open>res.json()\<close>. \<open>undefined\<close>
  (a missing property, a hole) is \<open>None\<close>. A number is an integer, another finite number (with its
  text) or an infinity; an object is its list of own properties. Objects of the scripts use no
  property name that \<open>Object.prototype\<close> defines.
\<close>

datatype json =
    JNull
  | JBool bool
  | JNum int
  | JReal string
  | JInf
  | JStr string
  | JArr "json list"
  | JObj "(string \<times> json) list"

text \<open>\<open>v?.k\<close>, and \<open>v.k\<close>, which throws when \<open>v\<close> is \<open>null\<close> or \<open>undefined\<close>.\<close>

definition opt_prop :: "json option \<Rightarrow> string \<Rightarrow> json option" where
  "opt_prop v k = (case v of Some (JObj kvs) \<Rightarrow> map_of kvs k | _ \<Rightarrow> None)"

definition get_prop :: "json option \<Rightarrow> string \<Rightarrow> json option result" where
  "get_prop v k = (if v = None \<or> v = Some JNull then Inl TypeError else Inr (opt_prop v k))"

text \<open>\<open>v?.[i]\<close>\<close>

definition opt_elem :: "json option \<Rightarrow> nat \<Rightarrow> json option" where
  "opt_elem v i = (case v of Some (JArr xs) \<Rightarrow> if i < length xs then Some (xs ! i) else None | _ \<Rightarrow> None)"

definition nullish :: "json option \<Rightarrow> bool" where
  "nullish v \<longleftrightarrow> v = None \<or> v = Some JNull"

definition js_truthy :: "json option \<Rightarrow> bool" where
  "js_truthy v = (case v of
      None \<Rightarrow> False | Some JNull \<Rightarrow> False | Some (JBool b) \<Rightarrow> b | Some (JNum n) \<Rightarrow> n \<noteq> 0
    | Some (JStr s) \<Rightarrow> s \<noteq> [] | Some _ \<Rightarrow> True)"

fun join :: "string \<Rightarrow> string list \<Rightarrow> string" where
  "join sep [] = []"
| "join sep [x] = x"
| "join sep (x # y # xs) = x @ sep @ join sep (y # xs)"

text \<open>\<open>String(v)\<close> of a value, and \<open>String(v ?? "")\<close> of a value or \<open>undefined\<close>.\<close>

fun js_String :: "json \<Rightarrow> string" where
  "js_String JNull = ''null''"
| "js_String (JBool b) = (if b then ''true'' else ''false'')"
| "js_String (JNum n) = int_string 10 n"
| "js_String (JReal s) = s"
| "js_String JInf = ''Infinity''"
| "js_String (JStr s) = s"
| "js_String (JArr xs) = join '','' (map (\<lambda>x. if x = JNull then [] else js_String x) xs)"
| "js_String (JObj kvs) = ''[object Object]''"

definition coerce :: "json option \<Rightarrow> string" where
  "coerce v = (case v of None \<Rightarrow> [] | Some x \<Rightarrow> if x = JNull then [] else js_String x)"

text \<open>
  \<open>Number(v)\<close> where it is an integer, and \<open>None\<close> where it is NaN, infinite or has a fraction. A
  text is white space, a prefixed hexadecimal, octal or binary number, or a decimal literal with
  an optional fraction and exponent, whose value is computed exactly.
\<close>

definition scale10 :: "int \<Rightarrow> int \<Rightarrow> int option" where
  "scale10 m e = (if 0 \<le> e then Some (m * 10 ^ nat e)
     else if m mod 10 ^ nat (- e) = 0 then Some (m div 10 ^ nat (- e)) else None)"

definition parse_sign :: "string \<Rightarrow> int \<times> string" where
  "parse_sign s = (if s \<noteq> [] \<and> hd s = CHR ''-'' then (-1, tl s)
     else if s \<noteq> [] \<and> hd s = CHR ''+'' then (1, tl s) else (1, s))"

definition decimal_number :: "string \<Rightarrow> int option" where
  "decimal_number s =
     (let (sg, u) = parse_sign s;
          w = takeWhile is_digit u; r = dropWhile is_digit u;
          f = (if r \<noteq> [] \<and> hd r = CHR ''.'' then takeWhile is_digit (tl r) else []);
          r' = (if r \<noteq> [] \<and> hd r = CHR ''.'' then dropWhile is_digit (tl r) else r);
          m = sg * int (of_digits 10 (map digit_num (w @ f))) in
      if w @ f = [] then None
      else if r' = [] then scale10 m (- int (length f))
      else if hd r' = CHR ''e'' \<or> hd r' = CHR ''E'' then
        (let (esg, x) = parse_sign (tl r') in
           case parse_nat 10 x of None \<Rightarrow> None | Some e \<Rightarrow> scale10 m (esg * int e - int (length f)))
      else None)"

definition string_number :: "string \<Rightarrow> int option" where
  "string_number v =
     (let s = js_trim v; p = to_lower (take 2 s) in
      if s = [] then Some 0
      else if p = ''0x'' \<or> p = ''0o'' \<or> p = ''0b'' then js_BigInt s
      else decimal_number s)"

definition js_Number :: "json option \<Rightarrow> int option" where
  "js_Number v = (case v of
      None \<Rightarrow> None
    | Some (JNum n) \<Rightarrow> Some n
    | Some JNull \<Rightarrow> Some 0
    | Some (JBool b) \<Rightarrow> Some (if b then 1 else 0)
    | Some (JStr s) \<Rightarrow> string_number s
    | Some (JArr xs) \<Rightarrow> string_number (js_String (JArr xs))
    | Some _ \<Rightarrow> None)"

text \<open>
  \<open>`${v}`\<close>; a number as it is stored (NaN, the \<open>None\<close> of a number, becomes \<open>null\<close>); a property
  that is left out of the JSON text when it is \<open>undefined\<close>.
\<close>

definition template :: "json option \<Rightarrow> string" where
  "template v = (case v of None \<Rightarrow> ''undefined'' | Some x \<Rightarrow> js_String x)"

definition json_num :: "int option \<Rightarrow> json" where
  "json_num n = (case n of None \<Rightarrow> JNull | Some i \<Rightarrow> JNum i)"

definition opt_field :: "string \<Rightarrow> json option \<Rightarrow> (string \<times> json) list" where
  "opt_field k v = (case v of None \<Rightarrow> [] | Some x \<Rightarrow> [(k, x)])"

definition as_string :: "json option \<Rightarrow> string option" where
  "as_string v = (case v of Some (JStr s) \<Rightarrow> Some s | _ \<Rightarrow> None)"

definition as_array :: "json option \<Rightarrow> json list option" where
  "as_array v = (case v of Some (JArr xs) \<Rightarrow> Some xs | _ \<Rightarrow> None)"

lemma as_string_Some [simp]: "as_string v = Some s \<longleftrightarrow> v = Some (JStr s)"
  by (auto simp: as_string_def split: option.splits json.splits)

lemma as_array_Some [simp]: "as_array v = Some xs \<longleftrightarrow> v = Some (JArr xs)"
  by (auto simp: as_array_def split: option.splits json.splits)

lemma coerce_simps [simp]: "coerce (Some (JStr s)) = s" "coerce None = []" "coerce (Some JNull) = []"
  by (simp_all add: coerce_def)

lemma opt_prop_simps [simp]:
  "opt_prop None k = None" "opt_prop (Some JNull) k = None" "opt_prop (Some (JObj kvs)) k = map_of kvs k"
  by (simp_all add: opt_prop_def)

end
