(* ===== verification/Base58.thy ===== *)
theory Base58
  imports Numerals
begin

text \<open>
  The byte-level primitives of \<open>scripts/solana.js\<close>: base58, public keys, concatenation and
  comparison of byte arrays, and hexadecimal input. Base58 is shown to be a canonical codec.
\<close>

section \<open>Base58\<close>

definition ALPHABET :: string where
  "ALPHABET = ''123456789ABCDEFGHJKLMNPQRSTUVWXYZabcdefghijkmnopqrstuvwxyz''"

definition INDEX :: "char \<Rightarrow> nat option" where
  "INDEX = map_of (zip ALPHABET [0..<58])"

fun decode_loop :: "nat \<Rightarrow> string \<Rightarrow> nat option" where
  "decode_loop n [] = Some n"
| "decode_loop n (ch # s) = (case INDEX ch of None \<Rightarrow> None | Some v \<Rightarrow> decode_loop (n * 58 + v) s)"

function byte_loop :: "nat \<Rightarrow> bytes" where
  "byte_loop n = (if n > 0 then word_of_nat (n AND 255) # byte_loop (drop_bit 8 n) else [])"
  by pat_completeness auto
termination
  by (relation "measure id") (auto simp: drop_bit_eq_div)

definition base58Decode :: "string \<Rightarrow> bytes option" where
  "base58Decode s =
     (if s = [] then None
      else case decode_loop 0 s of
        None \<Rightarrow> None
      | Some n \<Rightarrow> Some (replicate (length (takeWhile ((=) CHR ''1'') s)) 0 @ rev (byte_loop n)))"

function out_loop :: "nat \<Rightarrow> string \<Rightarrow> string" where
  "out_loop n out = (if n > 0 then out_loop (n div 58) (ALPHABET ! (n mod 58) # out) else out)"
  by pat_completeness auto
termination
  by (relation "measure fst") auto

definition base58Encode :: "bytes \<Rightarrow> string" where
  "base58Encode bs =
     (let n = foldl (\<lambda>n b. push_bit 8 n OR unat b) 0 bs
      in replicate (length (takeWhile ((=) 0) bs)) CHR ''1'' @ out_loop n [])"

declare byte_loop.simps [simp del] out_loop.simps [simp del]

subsection \<open>The alphabet\<close>

lemma length_ALPHABET [simp]: "length ALPHABET = 58"
  by (simp add: ALPHABET_def)

lemma distinct_ALPHABET: "distinct ALPHABET"
  by (simp add: ALPHABET_def)

lemma INDEX_nth [simp]: "i < 58 \<Longrightarrow> INDEX (ALPHABET ! i) = Some i"
  using map_of_zip_nth [of ALPHABET "[0..<58]" i] distinct_ALPHABET by (simp add: INDEX_def)

lemma INDEX_Some: "INDEX c = Some i \<Longrightarrow> i < 58 \<and> ALPHABET ! i = c"
  using map_of_SomeD [of "zip ALPHABET [0..<58]" c i]
  by (auto simp: INDEX_def in_set_zip)

lemma ALPHABET_0: "ALPHABET ! 0 = CHR ''1''"
  by (simp add: ALPHABET_def)

lemma ALPHABET_eq_1: "i < 58 \<Longrightarrow> CHR ''1'' = ALPHABET ! i \<longleftrightarrow> i = 0"
  using nth_eq_iff_index_eq [OF distinct_ALPHABET, of 0 i] ALPHABET_0 by auto

definition index_num :: "char \<Rightarrow> nat" where
  "index_num c = (case INDEX c of None \<Rightarrow> 0 | Some i \<Rightarrow> i)"

lemma index_num_nth [simp]: "i < 58 \<Longrightarrow> index_num (ALPHABET ! i) = i"
  by (simp add: index_num_def)

lemma index_num_eq: "INDEX c = Some i \<Longrightarrow> index_num c = i"
  by (simp add: index_num_def)

lemma index_num_less [simp]: "index_num c < 58"
  using INDEX_Some by (fastforce simp: index_num_def split: option.splits)

lemma nth_index_num: "INDEX c \<noteq> None \<Longrightarrow> ALPHABET ! index_num c = c"
  using INDEX_Some by (auto simp: index_num_def)

lemma index_num_1: "INDEX c \<noteq> None \<Longrightarrow> 0 = index_num c \<longleftrightarrow> CHR ''1'' = c"
  using ALPHABET_eq_1 [of "index_num c"] nth_index_num [of c] by auto

subsection \<open>The loops compute positional digits\<close>

lemma byte_loop_digits: "rev (byte_loop n) = map word_of_nat (digits_of 256 n)"
proof (induction n rule: byte_loop.induct)
  case (1 n)
  have "n AND 255 = n mod 256"
    using take_bit_eq_mask [of 8 n] by (simp add: take_bit_eq_mod mask_numeral)
  then show ?case
    using 1 by (subst byte_loop.simps) (auto simp: drop_bit_eq_div digits_of_pos)
qed

lemma out_loop_digits: "out_loop n out = map ((!) ALPHABET) (digits_of 58 n) @ out"
proof (induction n out rule: out_loop.induct)
  case (1 n out)
  then show ?case by (subst out_loop.simps) (auto simp: digits_of_pos)
qed

lemma fold_bytes_be_nat: "foldl (\<lambda>n b. push_bit 8 n OR unat b) 0 bs = be_nat bs"
proof (induction bs rule: rev_induct)
  case (snoc b bs)
  have "push_bit 8 m OR unat b = m * 256 + unat b" for m
  proof -
    have "push_bit 8 m OR take_bit 8 (unat b) = push_bit 8 m + take_bit 8 (unat b)"
      by (rule disjunctive_add [symmetric]) (simp add: bit_push_bit_iff bit_take_bit_iff)
    moreover have "take_bit 8 (unat b) = unat b" by (simp add: take_bit_nat_eq_self)
    ultimately show ?thesis by (simp add: push_bit_eq_mult)
  qed
  with snoc show ?case by (simp add: be_nat_def)
qed (simp add: be_nat_def)

lemma decode_loop_Some:
  "decode_loop n s = (if \<forall>c \<in> set s. INDEX c \<noteq> None
     then Some (foldl (\<lambda>a d. a * 58 + d) n (map index_num s)) else None)"
  by (induction n s rule: decode_loop.induct) (auto simp: index_num_eq split: option.splits)

lemma decode_loop_0: "decode_loop 0 s = (if \<forall>c \<in> set s. INDEX c \<noteq> None
     then Some (of_digits 58 (map index_num s)) else None)"
  by (simp add: decode_loop_Some of_digits_def)

lemma base58Decode_eq:
  "base58Decode s = (if s \<noteq> [] \<and> (\<forall>c \<in> set s. INDEX c \<noteq> None)
     then Some (replicate (length (takeWhile ((=) CHR ''1'') s)) 0
                @ map word_of_nat (digits_of 256 (of_digits 58 (map index_num s))))
     else None)"
  by (auto simp: base58Decode_def decode_loop_0 byte_loop_digits)

lemma base58Encode_eq:
  "base58Encode bs = replicate (length (takeWhile ((=) 0) bs)) CHR ''1''
     @ map ((!) ALPHABET) (digits_of 58 (be_nat bs))"
  by (simp add: base58Encode_def Let_def fold_bytes_be_nat out_loop_digits)

subsection \<open>Round trips\<close>

lemma map_word_unat: "map (word_of_nat \<circ> unat) (bs :: bytes) = bs"
  by (induction bs) auto

lemma digits_256_be_nat: "map word_of_nat (digits_of 256 (be_nat bs)) = dropWhile ((=) 0) bs"
proof -
  have "(=) 0 \<circ> unat = (=) (0 :: byte)"
    by (auto simp: fun_eq_iff unat_eq_0)
  then have "digits_of 256 (be_nat bs) = map unat (dropWhile ((=) 0) bs)"
    by (simp add: be_nat_def digits_of_of_digits dropWhile_map)
  then show ?thesis by (simp add: map_word_unat)
qed

lemma base58_out_digits:
  assumes "\<forall>c \<in> set s. INDEX c \<noteq> None"
  shows "map ((!) ALPHABET) (digits_of 58 (of_digits 58 (map index_num s))) = dropWhile ((=) CHR ''1'') s"
proof -
  have "dropWhile ((=) 0 \<circ> index_num) s = dropWhile ((=) CHR ''1'') s"
    using assms by (intro dropWhile_cong) (auto simp: index_num_1)
  then have "digits_of 58 (of_digits 58 (map index_num s)) = map index_num (dropWhile ((=) CHR ''1'') s)"
    by (simp add: digits_of_of_digits dropWhile_map)
  moreover have "map (\<lambda>c. ALPHABET ! index_num c) (dropWhile ((=) CHR ''1'') s) = dropWhile ((=) CHR ''1'') s"
    using assms by (intro map_idI nth_index_num) (auto dest: set_dropWhileD)
  ultimately show ?thesis by (simp add: comp_def)
qed

lemma base58Encode_chars: "c \<in> set (base58Encode bs) \<Longrightarrow> INDEX c \<noteq> None"
proof -
  have "INDEX (CHR ''1'') \<noteq> None" using INDEX_nth [of 0] ALPHABET_0 by simp
  then show "c \<in> set (base58Encode bs) \<Longrightarrow> INDEX c \<noteq> None"
    using digits_of_less [of 58 _ "be_nat bs"] by (auto simp: base58Encode_eq)
qed

lemma base58_value: "of_digits 58 (map index_num (base58Encode bs)) = be_nat bs"
proof -
  have "map index_num (map ((!) ALPHABET) (digits_of 58 (be_nat bs))) = digits_of 58 (be_nat bs)"
    unfolding map_map by (rule map_idI) (use digits_of_less [of 58 _ "be_nat bs"] in fastforce)
  moreover have "index_num CHR ''1'' = 0" using index_num_nth [of 0] ALPHABET_0 by simp
  ultimately show ?thesis
    by (simp only: base58Encode_eq map_append map_replicate of_digits_replicate_0) (simp add: of_digits_digits_of)
qed

lemma base58_leading: "length (takeWhile ((=) CHR ''1'') (base58Encode bs)) = length (takeWhile ((=) 0) bs)"
proof -
  let ?ds = "digits_of 58 (be_nat bs)"
  have "takeWhile ((=) CHR ''1'') (map ((!) ALPHABET) ?ds) = []"
  proof (cases ?ds)
    case (Cons d ds)
    have "dropWhile ((=) 0) ?ds = ?ds"
      using digits_of_of_digits [of 58 ?ds] digits_of_less [of 58 _ "be_nat bs"]
      by (auto simp: of_digits_digits_of)
    with Cons have "d \<noteq> 0" using hd_dropWhile [of "(=) 0" ?ds] by auto
    moreover have "d < 58" using Cons digits_of_less [of 58 d "be_nat bs"] by simp
    ultimately show ?thesis using Cons ALPHABET_eq_1 [of d] by simp
  qed simp
  then show ?thesis by (simp add: base58Encode_eq takeWhile_append)
qed

lemma base58Encode_Nil: "base58Encode bs = [] \<longleftrightarrow> bs = []"
proof
  assume e: "base58Encode bs = []"
  then have "be_nat bs = 0" using base58_value [of bs] by simp
  then have "dropWhile ((=) 0) bs = []" using digits_256_be_nat [of bs] by (simp del: dropWhile_eq_Nil_conv)
  moreover have "takeWhile ((=) 0) bs = []" using base58_leading [of bs] e by (simp add: takeWhile_eq_Nil_iff)
  ultimately show "bs = []" by (metis takeWhile_dropWhile_id append_Nil)
qed (simp add: base58Encode_eq be_nat_def)

lemma base58Decode_Encode: "bs \<noteq> [] \<Longrightarrow> base58Decode (base58Encode bs) = Some bs"
  using base58Encode_chars [of _ bs] replicate_takeWhile [of 0 bs]
  by (auto simp: base58Decode_eq base58Encode_Nil base58_value base58_leading digits_256_be_nat)

lemma base58Encode_Decode:
  assumes "base58Decode s = Some bs"
  shows "base58Encode bs = s \<and> bs \<noteq> []"
proof -
  let ?n = "of_digits 58 (map index_num s)" and ?z = "length (takeWhile ((=) CHR ''1'') s)"
  let ?w = "map word_of_nat (digits_of 256 ?n) :: bytes"
  have s: "s \<noteq> []" "\<forall>c \<in> set s. INDEX c \<noteq> None" and bs: "bs = replicate ?z 0 @ ?w"
    using assms by (auto simp: base58Decode_eq split: if_splits)
  have unat: "map unat ?w = digits_of 256 ?n"
    unfolding map_map by (rule map_idI) (use digits_of_less [of 256 _ ?n] in \<open>fastforce simp: unat_of_nat\<close>)
  have n: "be_nat bs = ?n"
    by (simp only: bs be_nat_def map_append map_replicate unat unsigned_0 of_digits_replicate_0)
      (simp add: of_digits_digits_of)
  have "dropWhile ((=) 0) bs = ?w" using digits_256_be_nat [of bs] by (simp add: n)
  then have "length (takeWhile ((=) 0) bs) = ?z"
    using takeWhile_dropWhile_id [of "(=) 0" bs] bs by (metis append_same_eq length_replicate)
  then show ?thesis
    using s replicate_takeWhile [of "CHR ''1''" s] base58_out_digits [of s] base58Encode_Nil [of bs]
    by (auto simp: base58Encode_eq n)
qed

interpretation b58: canonical_codec base58Encode base58Decode "\<lambda>bs. bs \<noteq> []"
  by unfold_locales (auto simp: base58Decode_Encode base58Encode_Decode)

text \<open>
  Base58 is a bijection between the non-empty byte strings and the accepted texts: a text
  decodes to \<open>bs\<close> exactly when it is the encoding of \<open>bs\<close>, so decoding inverts encoding, no two
  texts name one key, and no accepted text is printed differently.
\<close>

lemma base58_bijection: "base58Decode s = Some bs \<longleftrightarrow> bs \<noteq> [] \<and> s = base58Encode bs"
  by (rule b58.dec_iff)

section \<open>Public keys\<close>

definition pubkeyBytes :: "string \<Rightarrow> string \<Rightarrow> bytes result" where
  "pubkeyBytes address label =
     (case base58Decode address of
        None \<Rightarrow> Inl (Error (''Invalid Solana '' @ label @ ''.''))
      | Some b \<Rightarrow> if length b \<noteq> 32 then Inl (Error (''Invalid Solana '' @ label @ ''.'')) else Inr b)"

lemma pubkeyBytes_Inr: "pubkeyBytes a l = Inr b \<longleftrightarrow> length b = 32 \<and> a = base58Encode b"
proof
  have "base58Decode (base58Encode b) = Some b" if "length b = 32"
    using that by (intro base58Decode_Encode) auto
  then show "length b = 32 \<and> a = base58Encode b \<Longrightarrow> pubkeyBytes a l = Inr b"
    by (auto simp: pubkeyBytes_def)
qed (auto simp: pubkeyBytes_def dest: base58Encode_Decode split: option.splits if_splits)

lemma pubkeyBytes_Inl: "pubkeyBytes a l = Inl e \<Longrightarrow> e = Error (''Invalid Solana '' @ l @ ''.'')"
  by (auto simp: pubkeyBytes_def split: option.splits if_splits)

lemma pubkeyBytes_Encode [simp]: "length b = 32 \<Longrightarrow> pubkeyBytes (base58Encode b) l = Inr b"
  by (simp add: pubkeyBytes_Inr)

lemma pubkeyBytes_inject:
  "pubkeyBytes a l = Inr x \<Longrightarrow> pubkeyBytes b m = Inr y \<Longrightarrow> a = b \<longleftrightarrow> x = y"
  by (auto simp: pubkeyBytes_Inr) (metis b58.enc_inject list.size(3) zero_neq_numeral)

section \<open>Byte arrays\<close>

text \<open>\<open>out.set(p, off)\<close> on an array that is long enough.\<close>

definition set_at :: "bytes \<Rightarrow> nat \<Rightarrow> bytes \<Rightarrow> bytes" where
  "set_at out off p = take off out @ p @ drop (off + length p) out"

definition concatBytes :: "bytes list \<Rightarrow> bytes" where
  "concatBytes parts =
     fst (foldl (\<lambda>(out, off) p. (set_at out off p, off + length p))
            (replicate (sum_list (map length parts)) 0, 0) parts)"

definition bytesEqual :: "bytes \<Rightarrow> bytes \<Rightarrow> bool" where
  "bytesEqual a b \<longleftrightarrow> length a = length b \<and> list_all (\<lambda>i. a ! i = b ! i) [0..<length a]"

lemma concatBytes_aux:
  "fst (foldl (\<lambda>(out, off) p. (set_at out off p, off + length p))
     (pre @ replicate (sum_list (map length parts)) 0, length pre) parts) = pre @ concat parts"
proof (induction parts arbitrary: pre)
  case (Cons p ps)
  have "set_at (pre @ replicate (sum_list (map length (p # ps))) 0) (length pre) p
      = (pre @ p) @ replicate (sum_list (map length ps)) 0"
    by (simp add: set_at_def)
  then have "fst (foldl (\<lambda>(out, off) p. (set_at out off p, off + length p))
       (pre @ replicate (sum_list (map length (p # ps))) 0, length pre) (p # ps))
     = fst (foldl (\<lambda>(out, off) p. (set_at out off p, off + length p))
       ((pre @ p) @ replicate (sum_list (map length ps)) 0, length (pre @ p)) ps)"
    by (simp only: foldl_Cons case_prod_conv length_append)
  then show ?case by (simp only: Cons) (simp only: concat.simps append_assoc)
qed (simp only: foldl_Nil fst_conv concat.simps list.map sum_list.Nil replicate_0)

lemma concatBytes_concat [simp]: "concatBytes parts = concat parts"
  using concatBytes_aux [of "[]" parts] by (simp add: concatBytes_def)

lemma bytesEqual_iff [simp]: "bytesEqual a b \<longleftrightarrow> a = b"
  by (subst list_eq_iff_nth_eq) (auto simp: bytesEqual_def list_all_iff)

text \<open>
  \<open>hexToBytes\<close>: an optional prefix, then an even number of hexadecimal digits, two to a byte.
\<close>

fun hex_pairs :: "string \<Rightarrow> bytes" where
  "hex_pairs (a # b # s) = word_of_nat (digit_num a * 16 + digit_num b) # hex_pairs s"
| "hex_pairs s = []"

definition hexToBytes :: "string \<Rightarrow> bytes result" where
  "hexToBytes hex =
     (let h = strip_0x hex in
      if even (length h) \<and> list_all is_hex h then Inr (hex_pairs h) else Inl (Error ''Invalid hex.''))"

lemma hex_pairs_hex_of_bytes [simp]: "hex_pairs (hex_of_bytes bs) = bs"
  by (induction bs) (auto simp: hex_byte_digits)

lemma strip_0x_0x [simp]: "strip_0x (''0x'' @ s) = s" "strip_0x (CHR ''0'' # CHR ''x'' # s) = s"
  by (simp_all add: strip_0x_def to_lower_def lower_char_def is_upper_def in_range_def code_def)

lemma hexToBytes_hex_of_bytes [simp]: "hexToBytes (''0x'' @ hex_of_bytes bs) = Inr bs"
  by (simp add: hexToBytes_def Let_def hex_of_bytes_hex)

lemma length_hex_pairs: "length (hex_pairs s) = length s div 2"
  by (induction s rule: hex_pairs.induct) auto

end
