(* ===== verification/Solana_Tx.thy ===== *)
theory Solana_Tx
  imports Base58
begin

text \<open>
  The transaction encoding of \<open>scripts/solana.js\<close> (with the second copies of two helpers in
  \<open>scripts/stealth.claim.js\<close>): the compact length prefix, little-endian amounts, the legacy
  message for one \<open>TransferChecked\<close>, and the parser for what a wallet returns. The message is
  compared with an abstract legacy message and its decoder.
\<close>

section \<open>The compact length prefix\<close>

text \<open>
  \<open>n & 0x7f\<close>, \<open>n >>= 7\<close> are 32-bit operations and the shift is arithmetic, so a negative \<open>n\<close>
  never becomes zero and the loop never returns: \<open>None\<close>.
\<close>

partial_function (option) shortvec_loop :: "32 word \<Rightarrow> bytes \<Rightarrow> bytes option" where
  "shortvec_loop n out =
     (let b = n AND 0x7f; n' = signed_drop_bit 7 n in
      if n' \<noteq> 0 then shortvec_loop n' (out @ [ucast (b OR 0x80)]) else Some (out @ [ucast b]))"

definition shortvec :: "32 word \<Rightarrow> bytes option" where
  "shortvec n = shortvec_loop n []"

text \<open>The copy in \<open>stealth.claim.js\<close> shifts with \<open>>>>\<close>, the logical shift.\<close>

lemma unat_drop_7: "unat (drop_bit 7 (n :: 32 word)) = unat n div 128"
  by (subst unat_drop_bit_eq) (simp add: drop_bit_eq_div)

function claim_shortvec_loop :: "32 word \<Rightarrow> bytes \<Rightarrow> bytes" where
  "claim_shortvec_loop n out =
     (let b = n AND 0x7f; n' = drop_bit 7 n in
      if n' \<noteq> 0 then claim_shortvec_loop n' (out @ [ucast (b OR 0x80)]) else out @ [ucast b])"
  by pat_completeness auto
termination
proof (relation "measure (unat \<circ> fst)")
  fix n :: "32 word" and out b n'
  assume "n' = drop_bit 7 n" "n' \<noteq> 0"
  then have "unat n' = unat n div 128" "unat n' \<noteq> 0"
    using unat_drop_7 [of n] unat_eq_0 [of n'] by metis+
  then show "((n', out @ [ucast (b OR 0x80)]), n, out) \<in> measure (unat \<circ> fst)"
    by auto
qed auto

definition claim_shortvec :: "32 word \<Rightarrow> bytes" where
  "claim_shortvec n = claim_shortvec_loop n []"

declare claim_shortvec_loop.simps [simp del]

text \<open>The encoding both are meant to compute.\<close>

fun leb :: "nat \<Rightarrow> bytes" where
  "leb n = (if n < 128 then [word_of_nat n] else word_of_nat (n mod 128 + 128) # leb (n div 128))"

declare leb.simps [simp del]

lemma leb_small: "n < 128 \<Longrightarrow> leb n = [word_of_nat n]"
  by (simp add: leb.simps)

lemma and_7f: "(w :: 32 word) AND 0x7f = word_of_nat (unat w mod 128)"
proof -
  have "w AND 0x7f = take_bit 7 w"
    using take_bit_eq_mask [of 7 w] by (simp add: mask_numeral)
  then show ?thesis by (simp add: take_bit_eq_mod unat_mod word_arith_nat_mod)
qed

lemma ucast_low: "m < 128 \<Longrightarrow> (ucast (word_of_nat m :: 32 word) :: byte) = word_of_nat m"
  by (intro word_unat_eq_iff [THEN iffD2]) (simp add: unsigned_ucast_eq unsigned_of_nat take_bit_nat_eq_self)

lemma ucast_high:
  assumes "m < 128"
  shows "(ucast (word_of_nat m OR 0x80 :: 32 word) :: byte) = word_of_nat (m + 128)"
proof -
  have "m OR 128 = m + 128"
  proof -
    have "take_bit 7 m OR push_bit 7 1 = take_bit 7 m + push_bit 7 (1::nat)"
      by (rule disjunctive_add [symmetric]) (auto simp only: bit_take_bit_iff bit_push_bit_iff)
    then show ?thesis using assms by (simp add: take_bit_nat_eq_self push_bit_eq_mult)
  qed
  then have "(word_of_nat m OR 0x80 :: 32 word) = word_of_nat (m + 128)"
    by (metis of_nat_numeral of_nat_or_eq)
  then show ?thesis using assms
    by (intro word_unat_eq_iff [THEN iffD2]) (simp only: unsigned_ucast_eq unsigned_of_nat, simp add: take_bit_nat_eq_self)
qed

lemma top_bit_unat:
  assumes len: "LENGTH('a) = Suc k"
  shows "bit (w :: 'a::len word) k \<longleftrightarrow> \<not> unat w < 2 ^ k"
proof
  assume b: "bit w k"
  show "\<not> unat w < 2 ^ k"
  proof
    assume "unat w < 2 ^ k"
    then have "take_bit k (unat w) = unat w" by (rule take_bit_nat_eq_self)
    then have "\<not> bit (unat w) k" by (metis bit_take_bit_iff less_irrefl)
    with b show False by (simp add: bit_unsigned_iff)
  qed
next
  assume lt: "\<not> unat w < 2 ^ k"
  show "bit w k"
  proof (rule ccontr)
    assume b: "\<not> bit w k"
    have "n < k" if "bit w n" for n
      using that b bit_imp_le_length [of w n] len by (cases "n = k") auto
    then have "take_bit k (unat w) = unat w"
      by (intro bit_eqI) (auto simp: bit_take_bit_iff bit_unsigned_iff)
    then show False using lt take_bit_nat_less_exp [of k "unat w"] by simp
  qed
qed

lemma top_bit: "bit (w :: 32 word) 31 \<longleftrightarrow> \<not> unat w < 2 ^ 31"
  by (rule top_bit_unat) simp

lemma signed_drop_nonneg:
  assumes "unat (w :: 32 word) < 2 ^ 31"
  shows "signed_drop_bit 7 w = drop_bit 7 w"
proof -
  have "\<not> bit w 31" using assms top_bit by blast
  then show ?thesis
    by (intro bit_word_eqI) (auto simp: bit_signed_drop_bit_iff bit_drop_bit_eq dest: bit_imp_le_length)
qed

lemma claim_shortvec_loop_leb: "claim_shortvec_loop n out = out @ leb (unat n)"
proof (induction n out rule: claim_shortvec_loop.induct)
  case (1 n out)
  have d: "unat (drop_bit 7 n) = unat n div 128"
    by (rule unat_drop_7)
  show ?case
  proof (cases "drop_bit 7 n = 0")
    case True
    then have "unat n < 128" using d by simp
    with True show ?thesis
      by (subst claim_shortvec_loop.simps) (simp add: Let_def and_7f leb_small ucast_low)
  next
    case False
    then have "\<not> unat n < 128" using d by (metis div_less unat_eq_0)
    with False show ?thesis
      using 1 [OF refl refl False] d
      by (subst claim_shortvec_loop.simps) (simp add: Let_def and_7f ucast_high leb.simps [of "unat n"])
  qed
qed

lemma shortvec_loop_leb: "unat n < 2 ^ 31 \<Longrightarrow> shortvec_loop n out = Some (out @ leb (unat n))"
proof (induction n out rule: claim_shortvec_loop.induct)
  case (1 n out)
  have d: "unat (drop_bit 7 n) = unat n div 128"
    by (rule unat_drop_7)
  have s: "signed_drop_bit 7 n = drop_bit 7 n" using "1.prems" by (rule signed_drop_nonneg)
  show ?case
  proof (cases "drop_bit 7 n = 0")
    case True
    then have "unat n < 128" using d by simp
    with True show ?thesis
      by (subst shortvec_loop.simps) (simp add: Let_def s and_7f leb_small ucast_low)
  next
    case False
    then have "\<not> unat n < 128" using d by (metis div_less unat_eq_0)
    moreover have "unat (drop_bit 7 n) < 2 ^ 31" using d "1.prems" by simp
    ultimately show ?thesis
      using "1.IH" [OF refl refl False] d False
      by (subst shortvec_loop.simps) (simp add: Let_def s and_7f ucast_high leb.simps [of "unat n"])
  qed
qed

lemma shortvec_loop_nonneg:
  assumes "shortvec_loop n out = Some r"
  shows "0 \<le> sint n"
proof (rule shortvec_loop.raw_induct [where P = "\<lambda>n out r. 0 \<le> sint n", OF _ assms])
  fix f :: "32 word \<Rightarrow> bytes \<Rightarrow> bytes option" and n :: "32 word" and out r
  assume IH: "\<And>n out r. f n out = Some r \<Longrightarrow> 0 \<le> sint n"
    and eq: "(let b = n AND 0x7f; n' = signed_drop_bit 7 n in
      if n' \<noteq> 0 then f n' (out @ [ucast (b OR 0x80)]) else Some (out @ [ucast b])) = Some r"
  have s: "sint (signed_drop_bit 7 n) = sint n div 128"
    by (simp add: sint_signed_drop_bit_eq drop_bit_eq_div)
  show "0 \<le> sint n"
  proof (cases "signed_drop_bit 7 n = 0")
    case True
    then have "sint n div 128 = 0" using s by simp
    then show ?thesis by linarith
  next
    case False
    then have "0 \<le> sint (signed_drop_bit 7 n)" using eq IH by (auto simp: Let_def)
    then have "0 \<le> sint n div 128" using s by simp
    then show ?thesis by linarith
  qed
qed

lemma sint_nonneg_iff: "0 \<le> sint (n :: 32 word) \<longleftrightarrow> unat n < 2 ^ 31"
  using bit_last_iff [of n] top_bit [of n] by (auto simp: not_less)

text \<open>
  The length prefix returns exactly for the 32-bit values that are not negative, and then it is
  the base-128 encoding of the value; on a negative value its loop runs forever.
\<close>

lemma shortvec_spec: "shortvec n = (if 0 \<le> sint n then Some (leb (unat n)) else None)"
proof (cases "0 \<le> sint n")
  case True
  then show ?thesis by (simp add: shortvec_def shortvec_loop_leb sint_nonneg_iff)
next
  case False
  then show ?thesis using shortvec_loop_nonneg [of n "[]"] by (cases "shortvec n") (auto simp: shortvec_def)
qed

text \<open>
  The second copy of the prefix encoder agrees with the first wherever the first returns, and
  returns the unsigned encoding everywhere.
\<close>

lemma claim_shortvec_agrees:
  "claim_shortvec n = leb (unat n) \<and> shortvec n = (if 0 \<le> sint n then Some (claim_shortvec n) else None)"
proof -
  have "shortvec n = (if 0 \<le> sint n then Some (leb (unat n)) else None)"
    using shortvec_loop_leb [of n "[]"] shortvec_loop_nonneg [of n "[]"] sint_nonneg_iff [of n]
    by (cases "shortvec n") (auto simp: shortvec_def)
  moreover have "claim_shortvec n = leb (unat n)"
    by (simp add: claim_shortvec_def claim_shortvec_loop_leb)
  ultimately show ?thesis by simp
qed

text \<open>The prefix of a length; the scripts encode lengths below 64 only.\<close>

definition vec_len :: "nat \<Rightarrow> bytes" where
  "vec_len n = the (shortvec (word_of_nat n))"

lemma vec_len_leb: "n < 2 ^ 31 \<Longrightarrow> vec_len n = leb n"
proof -
  assume n: "n < 2 ^ 31"
  then have u: "unat (word_of_nat n :: 32 word) = n"
    by (simp add: unsigned_of_nat take_bit_nat_eq_self)
  with n show ?thesis by (simp add: vec_len_def shortvec_def shortvec_loop_leb)
qed

section \<open>Little-endian amounts\<close>

fun u64_loop :: "nat \<Rightarrow> int \<Rightarrow> bytes" where
  "u64_loop 0 v = []"
| "u64_loop (Suc k) v = word_of_int (v AND 0xff) # u64_loop k (drop_bit 8 v)"

definition u64le :: "int \<Rightarrow> bytes result" where
  "u64le v = (if v < 0 \<or> v \<ge> push_bit 64 1 then Inl (Error ''Amount out of range.'') else Inr (u64_loop 8 v))"

text \<open>The copy in \<open>stealth.claim.js\<close> differs in the message only.\<close>

definition claim_u64le :: "int \<Rightarrow> bytes result" where
  "claim_u64le v =
     (if v < 0 \<or> v \<ge> push_bit 64 1 then Inl (Error ''Solana transfer amount is out of range.'')
      else Inr (u64_loop 8 v))"

definition le_nat :: "bytes \<Rightarrow> nat" where
  "le_nat bs = be_nat (rev bs)"

lemma length_u64_loop [simp]: "length (u64_loop k v) = k"
  by (induction k arbitrary: v) auto

lemma le_nat_Cons: "le_nat (b # bs) = unat b + 256 * le_nat bs"
  by (simp add: le_nat_def be_nat_def)

lemma le_nat_u64_loop: "0 \<le> v \<Longrightarrow> int (le_nat (u64_loop k v)) = v mod 256 ^ k"
proof (induction k arbitrary: v)
  case (Suc k)
  have b: "v AND 0xff = v mod 256"
    using take_bit_eq_mask [of 8 v] by (simp add: take_bit_eq_mod mask_numeral)
  have "int (unat (word_of_int (v mod 256) :: byte)) = v mod 256"
    by (simp add: uint_word_of_int)
  moreover have "int (le_nat (u64_loop k (v div 256))) = (v div 256) mod 256 ^ k"
    using Suc by (simp add: pos_imp_zdiv_nonneg_iff)
  ultimately show ?case
    by (simp add: le_nat_Cons b drop_bit_eq_div zmod_zmult2_eq)
qed (simp add: le_nat_def be_nat_def)

lemma u64_loop_le_nat: "u64_loop (length bs) (int (le_nat bs)) = bs"
proof (induction bs)
  case (Cons b bs)
  let ?v = "int (le_nat (b # bs))"
  have "uint b < 256" "0 \<le> uint b" using unsigned_less [of b, where 'a = int] by auto
  then have d: "?v div 256 = int (le_nat bs)" and m: "?v mod 256 = int (unat b)"
    by (simp_all add: le_nat_Cons)
  have "?v AND 0xff = int (unat b)"
    using take_bit_eq_mask [of 8 ?v] m by (simp add: take_bit_eq_mod mask_numeral)
  moreover have "(word_of_int (int (unat b)) :: byte) = b" by simp
  ultimately show ?case using Cons d by (simp add: drop_bit_eq_div)
qed simp

text \<open>The loops that read a little-endian number from the last byte down.\<close>

lemma foldl_upt_Suc:
  "foldl (\<lambda>y i. f y ((b # bs) ! i)) a (rev [0..<Suc n])
   = f (foldl (\<lambda>y i. f y (bs ! i)) a (rev [0..<n])) b"
proof -
  have "rev [0..<Suc n] = map Suc (rev [0..<n]) @ [0]"
    by (simp add: rev_map [symmetric] map_Suc_upt upt_conv_Cons del: upt_Suc)
  then show ?thesis by (simp add: foldl_map del: upt_Suc)
qed

lemma foldl_le_nat:
  "length bs = n \<Longrightarrow> foldl (\<lambda>y i. push_bit 8 y OR uint (bs ! i)) 0 (rev [0..<n]) = int (le_nat bs)"
proof (induction bs arbitrary: n)
  case (Cons b bs)
  have step: "push_bit 8 y OR uint b = 256 * y + uint b" for y :: int
  proof -
    have "push_bit 8 y OR take_bit 8 (uint b) = push_bit 8 y + take_bit 8 (uint b)"
      by (rule disjunctive_add [symmetric]) (simp add: bit_push_bit_iff bit_take_bit_iff)
    moreover have "take_bit 8 (uint b) = uint b"
      using unsigned_less [of b, where 'a = int] by (intro take_bit_int_eq_self) auto
    ultimately show ?thesis by (simp add: push_bit_eq_mult)
  qed
  obtain m where n: "n = Suc m" "length bs = m" using Cons.prems by (cases n) auto
  show ?case
    unfolding n foldl_upt_Suc [where f = "\<lambda>y w. push_bit 8 y OR uint w"]
    using Cons.IH [OF n(2)] by (simp add: step le_nat_Cons)
qed (simp add: le_nat_def be_nat_def)

text \<open>The decoder of an eight-byte amount.\<close>

definition u64_dec :: "bytes \<Rightarrow> int option" where
  "u64_dec bs = (if length bs = 8 then Some (int (le_nat bs)) else None)"

interpretation u64: canonical_codec "u64_loop 8" u64_dec "\<lambda>v. 0 \<le> v \<and> v < 2 ^ 64"
proof unfold_locales
  fix v :: int
  assume "0 \<le> v \<and> v < 2 ^ 64"
  then show "u64_dec (u64_loop 8 v) = Some v"
    by (simp add: u64_dec_def le_nat_u64_loop)
next
  fix bs :: bytes and v
  assume "u64_dec bs = Some v"
  then have l: "length bs = 8" and v: "v = int (le_nat bs)" by (auto simp: u64_dec_def split: if_splits)
  then show "u64_loop 8 v = bs" using u64_loop_le_nat [of bs] by simp
  have "le_nat bs < 256 ^ 8" using be_nat_less [of "rev bs"] l by (simp add: le_nat_def)
  then show "0 \<le> v \<and> v < 2 ^ 64" using v by simp
qed

text \<open>
  An amount is encoded exactly when it fits 64 bits, and the eight bytes then denote it: \<open>bs\<close> is
  the encoding of \<open>v\<close> exactly when \<open>bs\<close> reads back as \<open>v\<close>. The copy in the claim script accepts
  the same amounts and writes the same bytes.
\<close>

lemma u64le_spec:
  "(u64le v = Inr bs \<longleftrightarrow> u64_dec bs = Some v) \<and>
   (claim_u64le v = Inr bs \<longleftrightarrow> u64_dec bs = Some v)"
  by (auto simp: u64le_def claim_u64le_def u64.dec_iff push_bit_eq_mult)

section \<open>The abstract legacy message and its decoder\<close>

text \<open>
  What a legacy Solana message says: the three header counts, the account keys, the recent block
  hash, and the instructions, each a program index, account indices and data. \<open>decode_message\<close> is
  the reading a node makes of the bytes; it accepts a message only if every byte is used.
\<close>

record sol_instr =
  prog_index :: byte
  acct_indices :: bytes
  instr_data :: bytes

record sol_message =
  required_sigs :: byte
  ro_signed :: byte
  ro_unsigned :: byte
  account_keys :: "bytes list"
  recent_hash :: bytes
  instructions :: "sol_instr list"

definition ser_vec :: "bytes \<Rightarrow> bytes" where
  "ser_vec bs = leb (length bs) @ bs"

definition ser_instr :: "sol_instr \<Rightarrow> bytes" where
  "ser_instr i = prog_index i # ser_vec (acct_indices i) @ ser_vec (instr_data i)"

definition ser_message :: "sol_message \<Rightarrow> bytes" where
  "ser_message m = [required_sigs m, ro_signed m, ro_unsigned m]
     @ leb (length (account_keys m)) @ concat (account_keys m) @ recent_hash m
     @ leb (length (instructions m)) @ concat (map ser_instr (instructions m))"

type_synonym 'a reader = "bytes \<Rightarrow> ('a \<times> bytes) option"

fun read_leb :: "nat reader" where
  "read_leb [] = None"
| "read_leb (b # bs) =
     (if unat b < 128 then Some (unat b, bs)
      else do { (n, rest) \<leftarrow> read_leb bs; Some (unat b - 128 + 128 * n, rest) })"

definition read_byte :: "byte reader" where
  "read_byte bs = (case bs of [] \<Rightarrow> None | b # rest \<Rightarrow> Some (b, rest))"

definition read_bytes :: "nat \<Rightarrow> bytes reader" where
  "read_bytes k bs = (if length bs < k then None else Some (take k bs, drop k bs))"

fun read_many :: "'a reader \<Rightarrow> nat \<Rightarrow> 'a list reader" where
  "read_many r 0 bs = Some ([], bs)"
| "read_many r (Suc k) bs = do { (x, rest) \<leftarrow> r bs; (xs, rest') \<leftarrow> read_many r k rest; Some (x # xs, rest') }"

definition read_vec :: "bytes reader" where
  "read_vec bs = do { (n, rest) \<leftarrow> read_leb bs; read_bytes n rest }"

definition read_instr :: "sol_instr reader" where
  "read_instr bs = do {
     (p, r1) \<leftarrow> read_byte bs;
     (a, r2) \<leftarrow> read_vec r1;
     (d, r3) \<leftarrow> read_vec r2;
     Some (\<lparr>prog_index = p, acct_indices = a, instr_data = d\<rparr>, r3) }"

definition decode_message :: "bytes \<Rightarrow> sol_message option" where
  "decode_message bs = do {
     (h1, r1) \<leftarrow> read_byte bs;
     (h2, r2) \<leftarrow> read_byte r1;
     (h3, r3) \<leftarrow> read_byte r2;
     (nk, r4) \<leftarrow> read_leb r3;
     (ks, r5) \<leftarrow> read_many (read_bytes 32) nk r4;
     (h, r6) \<leftarrow> read_bytes 32 r5;
     (ni, r7) \<leftarrow> read_leb r6;
     (is, r8) \<leftarrow> read_many read_instr ni r7;
     if r8 = [] then Some \<lparr>required_sigs = h1, ro_signed = h2, ro_unsigned = h3,
                       account_keys = ks, recent_hash = h, instructions = is\<rparr>
     else None }"

lemma read_leb_leb [simp]: "read_leb (leb n @ rest) = Some (n, rest)"
proof (induction n arbitrary: rest rule: leb.induct)
  case (1 n)
  show ?case
  proof (cases "n < 128")
    case True
    then show ?thesis by (simp add: leb_small unsigned_of_nat take_bit_nat_eq_self)
  next
    case False
    have "unat (word_of_nat k :: byte) = k" if "k < 256" for k
      using that by (simp add: unsigned_of_nat take_bit_nat_eq_self)
    then have "unat (word_of_nat (n mod 128 + 128) :: byte) = n mod 128 + 128"
      by (simp del: of_nat_add)
    with 1 False show ?thesis
      by (subst leb.simps) (simp add: mod_mult_div_eq)
  qed
qed

lemma read_bytes_append [simp]: "length xs = k \<Longrightarrow> read_bytes k (xs @ rest) = Some (xs, rest)"
  by (simp add: read_bytes_def)

lemma read_byte_Cons [simp]: "read_byte (b # rest) = Some (b, rest)"
  by (simp add: read_byte_def)

lemma read_vec_ser_vec [simp]: "read_vec (ser_vec xs @ rest) = Some (xs, rest)"
  by (simp add: read_vec_def ser_vec_def)

lemma read_instr_ser_instr [simp]: "read_instr (ser_instr i @ rest) = Some (i, rest)"
  by (simp add: read_instr_def ser_instr_def)

lemma read_many_concat:
  assumes "\<And>x rest. x \<in> set xs \<Longrightarrow> r (f x @ rest) = Some (x, rest)"
  shows "read_many r (length xs) (concat (map f xs) @ rest) = Some (xs, rest)"
  using assms by (induction xs arbitrary: rest) auto

definition wf_message :: "sol_message \<Rightarrow> bool" where
  "wf_message m \<longleftrightarrow> list_all (\<lambda>k. length k = 32) (account_keys m) \<and> length (recent_hash m) = 32"

lemma decode_ser_message: "wf_message m \<Longrightarrow> decode_message (ser_message m) = Some m"
  using read_many_concat [of "account_keys m" "read_bytes 32" id]
    read_many_concat [of "instructions m" read_instr ser_instr _]
    read_many_concat [of "instructions m" read_instr ser_instr "[]"]
  by (simp add: decode_message_def ser_message_def wf_message_def list_all_iff)

interpretation message: codec ser_message decode_message wf_message
  by unfold_locales (rule decode_ser_message)

section \<open>One TransferChecked\<close>

definition TOKEN_PROGRAM :: string where
  "TOKEN_PROGRAM = ''TokenkegQfeZyiNwAJbNbGKPFXCWuBvf9Ss623VQ5DA''"

definition ATA_PROGRAM :: string where
  "ATA_PROGRAM = ''ATokenGPvbdGVxr1b2hvZbsiqW5xWH25efTNsLJA8knL''"

record transfer_args =
  t_feePayer :: string
  t_owner :: string
  t_source :: string
  t_destination :: string
  t_mint :: string
  t_amount :: string
  t_decimals :: nat
  t_blockhash :: string

definition transfer_keys :: "transfer_args \<Rightarrow> string list" where
  "transfer_keys a = [t_feePayer a, t_owner a, t_source a, t_destination a, t_mint a, TOKEN_PROGRAM]"

text \<open>\<open>keys.map((k, i) => pubkeyBytes(k, `label i`))\<close>.\<close>

definition key_bytes :: "string \<Rightarrow> string list \<Rightarrow> bytes list result" where
  "key_bytes label ks =
     traverse (\<lambda>(k, i). pubkeyBytes k (label @ '' '' @ nat_string 10 i)) (zip ks [0..<length ks])"

definition buildTransferCheckedMessage :: "transfer_args \<Rightarrow> bytes result" where
  "buildTransferCheckedMessage a =
     then_do (key_bytes ''key'' (transfer_keys a)) (\<lambda>keys.
     then_do (guard_err (length (remdups (transfer_keys a)) = 6)
        (Error ''Solana transfer accounts must all be distinct.'')) (\<lambda>_.
     then_do (pubkeyBytes (t_blockhash a) ''blockhash'') (\<lambda>hash.
     then_do (case js_BigInt (t_amount a) of None \<Rightarrow> Inl SyntaxError | Some v \<Rightarrow> u64le v) (\<lambda>amt.
       let data = concatBytes [[12], amt, [word_of_nat (t_decimals a)]];
           ixAccounts = [2, 4, 3, 1]
       in Inr (concatBytes ([[2, 1, 2], vec_len (length keys)] @ keys @
            [hash, vec_len 1, [5], vec_len (length ixAccounts), ixAccounts, vec_len (length data), data]))))))"

text \<open>The message it is meant to be: payer and owner sign, one instruction of the token program.\<close>

definition transfer_message :: "bytes list \<Rightarrow> bytes \<Rightarrow> int \<Rightarrow> nat \<Rightarrow> sol_message" where
  "transfer_message keys hash v dec =
     \<lparr>required_sigs = 2, ro_signed = 1, ro_unsigned = 2, account_keys = keys, recent_hash = hash,
      instructions = [\<lparr>prog_index = 5, acct_indices = [2, 4, 3, 1],
                       instr_data = 12 # u64_loop 8 v @ [word_of_nat dec]\<rparr>]\<rparr>"

lemma key_bytes_Inr:
  "key_bytes l ks = Inr bs \<longleftrightarrow> list_all2 (\<lambda>k b. length b = 32 \<and> k = base58Encode b) ks bs"
  by (auto simp: key_bytes_def traverse_Inr list_all2_conv_all_nth pubkeyBytes_Inr)

lemma key_bytes_length: "key_bytes l ks = Inr bs \<Longrightarrow> length bs = length ks \<and> list_all (\<lambda>b. length b = 32) bs"
  by (auto simp: key_bytes_Inr list_all2_conv_all_nth list_all_length)

lemma key_bytes_distinct: "key_bytes l ks = Inr bs \<Longrightarrow> distinct ks \<longleftrightarrow> distinct bs"
proof (rule b58.distinct_dec)
  assume "key_bytes l ks = Inr bs"
  then show "list_all2 (\<lambda>s x. base58Decode s = Some x) ks bs"
    unfolding key_bytes_Inr by (rule list_all2_mono) (auto simp: b58.dec_iff)
qed

lemma card_remdups: "length (remdups xs) = length xs \<longleftrightarrow> distinct xs"
  by (simp add: length_remdups_card_conv distinct_card card_distinct) (metis card_distinct distinct_card)

lemma buildTransferCheckedMessage_Inr:
  "buildTransferCheckedMessage a = Inr m \<longleftrightarrow>
    (\<exists>keys hash v. key_bytes ''key'' (transfer_keys a) = Inr keys \<and> distinct (transfer_keys a) \<and>
       pubkeyBytes (t_blockhash a) ''blockhash'' = Inr hash \<and> js_BigInt (t_amount a) = Some v \<and>
       0 \<le> v \<and> v < 2 ^ 64 \<and> m = ser_message (transfer_message keys hash v (t_decimals a)))"
proof -
  have len: "length (transfer_keys a) = 6" by (simp add: transfer_keys_def)
  have amt: "(case js_BigInt (t_amount a) of None \<Rightarrow> Inl SyntaxError | Some v \<Rightarrow> u64le v) = Inr amt \<longleftrightarrow>
      (\<exists>v. js_BigInt (t_amount a) = Some v \<and> 0 \<le> v \<and> v < 2 ^ 64 \<and> amt = u64_loop 8 v)" for amt
    by (auto simp: u64le_def push_bit_eq_mult split: option.splits)
  show ?thesis
    using card_remdups [of "transfer_keys a"] key_bytes_length [of "''key''" "transfer_keys a"]
    by (auto simp: buildTransferCheckedMessage_def then_do_Inr Let_def amt len ser_message_def
        transfer_message_def ser_instr_def ser_vec_def vec_len_leb)
qed

text \<open>
  The message built for a gasless Solana payment says what it should. Reading the bytes back
  yields one \<open>TransferChecked\<close> of exactly the amount, from the payer's token account to the
  receiver's, signed by the keeper and the owner, with six different keys; and a message is built
  exactly when all keys and the block hash are 32 bytes, the keys differ and the amount fits u64.
\<close>

lemma transfer_message_decodes:
  "(\<exists>bs. buildTransferCheckedMessage a = Inr bs \<and> decode_message bs = Some msg) \<longleftrightarrow>
   (\<exists>keys hash v. list_all2 (\<lambda>k b. length b = 32 \<and> k = base58Encode b) (transfer_keys a) keys \<and>
      distinct keys \<and> length hash = 32 \<and> t_blockhash a = base58Encode hash \<and>
      js_BigInt (t_amount a) = Some v \<and> 0 \<le> v \<and> v < 2 ^ 64 \<and>
      msg = transfer_message keys hash v (t_decimals a))"
proof -
  have dec: "decode_message (ser_message (transfer_message keys hash v d)) = Some (transfer_message keys hash v d)"
    if "key_bytes ''key'' (transfer_keys a) = Inr keys" "length hash = 32" for keys hash v d
    using that key_bytes_length by (intro decode_ser_message) (auto simp: wf_message_def transfer_message_def)
  note dist = key_bytes_distinct [of "''key''" "transfer_keys a"]
  show ?thesis
    unfolding key_bytes_Inr [symmetric, where l = "''key''"] buildTransferCheckedMessage_Inr pubkeyBytes_Inr
    using dec dist by (safe; fastforce)
qed

section \<open>The claim message of the stealth accounts\<close>

record claim_args =
  c_relayer :: string
  c_client :: string
  c_cosigner :: string
  c_source :: string
  c_destination :: string
  c_mint :: string
  c_amount :: int
  c_blockhash :: string
  c_authority :: string

definition USDC_DECIMALS :: nat where
  "USDC_DECIMALS = 6"

definition claim_keys :: "claim_args \<Rightarrow> string list" where
  "claim_keys a = [c_relayer a, c_client a, c_cosigner a, c_source a, c_destination a, c_mint a, TOKEN_PROGRAM, c_authority a]"

definition cvec :: "nat \<Rightarrow> bytes" where
  "cvec n = claim_shortvec (word_of_nat n)"

definition buildSolanaMessage :: "claim_args \<Rightarrow> bytes result" where
  "buildSolanaMessage a =
     then_do (guard_err (length (remdups (claim_keys a)) = 8)
        (Error ''Solana transfer accounts must be distinct.'')) (\<lambda>_.
     then_do (key_bytes ''account'' (claim_keys a)) (\<lambda>rawKeys.
     then_do (claim_u64le (c_amount a)) (\<lambda>amt.
     then_do (pubkeyBytes (c_blockhash a) ''blockhash'') (\<lambda>hash.
       let ixData = concatBytes [[12], amt, [word_of_nat USDC_DECIMALS]]
       in Inr (concatBytes ([[3, 2, 3], cvec (length rawKeys)] @ rawKeys @
            [hash, cvec 1, [6], cvec 6, [3, 5, 4, 7, 1, 2], cvec (length ixData), ixData]))))))"

definition claim_message :: "bytes list \<Rightarrow> bytes \<Rightarrow> int \<Rightarrow> sol_message" where
  "claim_message keys hash v =
     \<lparr>required_sigs = 3, ro_signed = 2, ro_unsigned = 3, account_keys = keys, recent_hash = hash,
      instructions = [\<lparr>prog_index = 6, acct_indices = [3, 5, 4, 7, 1, 2],
                       instr_data = 12 # u64_loop 8 v @ [6]\<rparr>]\<rparr>"

lemma cvec_leb: "n < 2 ^ 31 \<Longrightarrow> cvec n = leb n"
  by (simp add: cvec_def claim_shortvec_def claim_shortvec_loop_leb unsigned_of_nat take_bit_nat_eq_self)

lemma buildSolanaMessage_Inr:
  "buildSolanaMessage a = Inr m \<longleftrightarrow>
    (\<exists>keys hash. key_bytes ''account'' (claim_keys a) = Inr keys \<and> distinct (claim_keys a) \<and>
       pubkeyBytes (c_blockhash a) ''blockhash'' = Inr hash \<and>
       0 \<le> c_amount a \<and> c_amount a < 2 ^ 64 \<and> m = ser_message (claim_message keys hash (c_amount a)))"
proof -
  have len: "length (claim_keys a) = 8" by (simp add: claim_keys_def)
  have amt: "claim_u64le v = Inr amt \<longleftrightarrow> 0 \<le> v \<and> v < 2 ^ 64 \<and> amt = u64_loop 8 v" for v amt
    by (auto simp: claim_u64le_def push_bit_eq_mult)
  show ?thesis
    using card_remdups [of "claim_keys a"] key_bytes_length [of "''account''" "claim_keys a"]
    by (auto simp: buildSolanaMessage_def then_do_Inr Let_def amt len ser_message_def
        claim_message_def ser_instr_def ser_vec_def cvec_leb leb_small USDC_DECIMALS_def)
qed

lemma ser_message_length:
  assumes "wf_message m" "length (account_keys m) < 128" "length (instructions m) < 128"
  shows "length (ser_message m)
     = 37 + 32 * length (account_keys m) + sum_list (map (length \<circ> ser_instr) (instructions m))"
proof -
  have "list_all (\<lambda>k. length k = 32) ks \<Longrightarrow> length (concat ks) = 32 * length ks" for ks :: "bytes list"
    by (induction ks) auto
  then have "length (concat (account_keys m)) = 32 * length (account_keys m)"
    using assms(1) by (simp add: wf_message_def)
  with assms show ?thesis
    by (simp add: ser_message_def wf_message_def leb_small length_concat comp_def)
qed

text \<open>
  The claim message reads back as one \<open>TransferChecked\<close> of exactly the balance, from the
  stealth account's token account, with the relayer paying and client and cosigner co-signing;
  it is 312 bytes long, below the 1232 the caller checks, so that check never fires.
\<close>

lemma claim_message_decodes:
  "(\<exists>bs. buildSolanaMessage a = Inr bs \<and> decode_message bs = Some msg \<and> length bs = 312) \<longleftrightarrow>
   (\<exists>keys hash. list_all2 (\<lambda>k b. length b = 32 \<and> k = base58Encode b) (claim_keys a) keys \<and>
      distinct keys \<and> length hash = 32 \<and> c_blockhash a = base58Encode hash \<and>
      0 \<le> c_amount a \<and> c_amount a < 2 ^ 64 \<and> msg = claim_message keys hash (c_amount a))"
proof -
  have wf: "wf_message (claim_message keys hash v) \<and> length keys = 8"
    if "key_bytes ''account'' (claim_keys a) = Inr keys" "length hash = 32" for keys hash v
    using that key_bytes_length [of _ "claim_keys a" keys]
    by (auto simp: wf_message_def claim_message_def claim_keys_def)
  have len: "length (ser_message (claim_message keys hash v)) = 312"
    if "key_bytes ''account'' (claim_keys a) = Inr keys" "length hash = 32" for keys hash v
    using wf [OF that, of v]
    by (subst ser_message_length) (auto simp: claim_message_def ser_instr_def ser_vec_def leb_small)
  note dist = key_bytes_distinct [of "''account''" "claim_keys a"]
  show ?thesis
    unfolding key_bytes_Inr [symmetric, where l = "''account''"] buildSolanaMessage_Inr pubkeyBytes_Inr
    using wf [THEN conjunct1, THEN decode_ser_message] len dist by (safe; fastforce)
qed

section \<open>Wire format\<close>

definition unsignedTransaction :: "bytes \<Rightarrow> nat \<Rightarrow> bytes" where
  "unsignedTransaction message signers =
     concatBytes [vec_len signers, replicate (64 * signers) 0, message]"

text \<open>
  The count is accumulated in a 32-bit number, shift counts are taken modulo 32, and the count is
  read as signed. \<open>slice_from\<close> is \<open>slice(s)\<close>: a negative start counts from the end.
\<close>

fun read_count :: "bytes \<Rightarrow> 32 word \<Rightarrow> nat \<Rightarrow> nat \<Rightarrow> (32 word \<times> nat) option" where
  "read_count [] n shift i = None"
| "read_count (b # bs) n shift i =
     (let n' = n OR push_bit (shift mod 32) (ucast (b AND 0x7f)) in
      if b AND 0x80 = 0 then Some (n', Suc i) else read_count bs n' (shift + 7) (Suc i))"

definition slice_from :: "int \<Rightarrow> 'a list \<Rightarrow> 'a list" where
  "slice_from s xs = (if s < 0 then drop (nat (max 0 (int (length xs) + s))) xs else drop (nat s) xs)"

definition parseTransaction :: "bytes \<Rightarrow> (bytes list \<times> bytes) result" where
  "parseTransaction bs =
     (case read_count bs 0 0 0 of
        None \<Rightarrow> Inl (Error ''Malformed transaction.'')
      | Some (n, i) \<Rightarrow>
          if int i + sint n * 64 > int (length bs) then Inl (Error ''Malformed transaction.'')
          else Inr (map (\<lambda>k. take 64 (drop (i + k * 64) bs)) [0..<nat (sint n)],
                    slice_from (int i + sint n * 64) bs))"

lemma byte_and_80: "(b :: byte) AND 0x80 = 0 \<longleftrightarrow> unat b < 128"
proof -
  have "(0x80 :: byte) = push_bit 7 1" by (simp add: push_bit_eq_mult)
  then have "b AND 0x80 = 0 \<longleftrightarrow> \<not> bit b 7" by (simp only: bit_iff_and_push_bit_not_eq_0 not_not)
  then show ?thesis using top_bit_unat [of 7 b] by simp
qed

lemma byte_low_bits: "(ucast ((b :: byte) AND 0x7f) :: 32 word) = word_of_nat (unat b mod 128)"
proof -
  have "b AND 0x7f = take_bit 7 b"
    using take_bit_eq_mask [of 7 b] by (simp add: mask_numeral)
  then show ?thesis
    by (intro word_unat_eq_iff [THEN iffD2])
      (simp add: unsigned_ucast_eq unsigned_of_nat take_bit_eq_mod unat_mod)
qed

lemma low_or_high: "n mod 128 OR push_bit 7 (n div 128) = (n :: nat)"
proof -
  have "take_bit 7 n OR push_bit 7 (drop_bit 7 n) = n"
  proof (rule bit_eqI)
    show "bit (take_bit 7 n OR push_bit 7 (drop_bit 7 n)) m \<longleftrightarrow> bit n m" for m
      by (cases "m < 7") (auto simp: bit_simps)
  qed
  then show ?thesis by (simp add: take_bit_eq_mod drop_bit_eq_div)
qed

lemma read_count_leb:
  assumes "s < 32" "n < 2 ^ (31 - s)"
  shows "read_count (leb n @ rest) acc s i
     = Some (acc OR word_of_nat (push_bit s n), i + length (leb n))"
  using assms
proof (induction n arbitrary: acc s i rule: leb.induct)
  case (1 n)
  show ?case
  proof (cases "n < 128")
    case True
    then have u: "unat (word_of_nat n :: byte) = n"
      by (simp add: unsigned_of_nat take_bit_nat_eq_self)
    with True 1 show ?thesis
      by (simp add: leb_small byte_and_80 byte_low_bits push_bit_of_nat)
  next
    case False
    let ?b = "word_of_nat (n mod 128 + 128) :: byte"
    have u: "unat ?b = n mod 128 + 128"
    proof -
      have "unat (word_of_nat k :: byte) = k" if "k < 256" for k
        using that by (simp add: unsigned_of_nat take_bit_nat_eq_self)
      then show ?thesis by (simp del: of_nat_add)
    qed
    have s: "s + 7 < 31"
    proof (rule ccontr)
      assume "\<not> s + 7 < 31"
      then have "(2::nat) ^ (31 - s) \<le> 2 ^ 7" by (intro power_increasing) auto
      with "1.prems"(2) False show False by simp
    qed
    have "2 ^ (31 - s) = (2::nat) ^ 7 * 2 ^ (31 - (s + 7))"
      using s by (subst power_add [symmetric]) simp
    then have lt: "n div 128 < 2 ^ (31 - (s + 7))"
      using "1.prems"(2) by (simp add: less_mult_imp_div_less mult.commute)
    have hd: "leb n = ?b # leb (n div 128)" using False by (simp add: leb.simps [of n])
    have "push_bit s (n mod 128) OR push_bit (s + 7) (n div 128) = push_bit s n"
      using low_or_high [of n] by (metis push_bit_or push_bit_push_bit add.commute)
    then have merge: "word_of_nat (push_bit s (n mod 128)) OR word_of_nat (push_bit (s + 7) (n div 128))
        = (word_of_nat (push_bit s n) :: 32 word)"
      by (metis of_nat_or_eq)
    show ?thesis
      using "1.IH" [OF False _ lt, of _ "Suc i"] s u "1.prems"(1)
      by (simp add: hd byte_and_80 byte_low_bits push_bit_of_nat Let_def or.assoc merge del: of_nat_add)
  qed
qed

lemma sint_of_count:
  assumes "n < 2 ^ 31"
  shows "sint (word_of_nat n :: 32 word) = int n"
proof -
  have "uint (word_of_nat n :: 32 word) = int n"
    using assms by (simp add: unsigned_of_nat take_bit_nat_eq_self)
  then show ?thesis
    using assms signed_take_bit_int_eq_self [of 31 "int n"] by (simp only: sint_uint) simp
qed

lemma concat_replicate_replicate: "concat (replicate n (replicate k x)) = replicate (n * k) x"
  by (induction n) (auto simp: replicate_add)

lemma slice_concat:
  assumes "list_all (\<lambda>s. length s = w) xs" "k < length xs"
  shows "take w (drop (k * w) (concat xs @ rest)) = xs ! k"
  using assms by (induction xs arbitrary: k) (auto simp: nth_Cons' diff_mult_distrib gr0_conv_Suc)

lemma parse_wire:
  assumes "length sigs < 2 ^ 31" "list_all (\<lambda>s. length s = 64) sigs"
  shows "parseTransaction (leb (length sigs) @ concat sigs @ msg) = Inr (sigs, msg)"
proof -
  let ?l = "length (leb (length sigs))" and ?bs = "leb (length sigs) @ concat sigs @ msg"
  have lc: "length (concat sigs) = 64 * length sigs"
    using assms(2) by (induction sigs) auto
  have sl: "map (\<lambda>k. take 64 (drop (k * 64) (concat sigs @ msg))) [0..<length sigs] = sigs"
    by (rule nth_equalityI) (simp_all add: slice_concat [OF assms(2)] del: drop_append take_append)
  have "read_count ?bs 0 0 0 = Some (word_of_nat (length sigs), ?l)"
    using read_count_leb [of 0 "length sigs" "concat sigs @ msg" 0 0] assms(1) by simp
  moreover have "int ?l + int (length sigs) * 64 \<le> int (length ?bs)" using lc by simp
  moreover have "map (\<lambda>k. take 64 (drop (?l + k * 64) ?bs)) [0..<length sigs] = sigs"
    using sl by simp
  moreover have "slice_from (int ?l + int (length sigs) * 64) ?bs = msg"
  proof -
    have "nat (int ?l + int (length sigs) * 64) = length (leb (length sigs) @ concat sigs)"
      using lc by simp
    then show ?thesis by (simp add: slice_from_def)
  qed
  ultimately show ?thesis
    by (simp add: parseTransaction_def sint_of_count [OF assms(1)])
qed

text \<open>
  The parser of the wallet's answer inverts the wire format for every number of signatures the
  count can hold: it returns the signatures, in order, and the message unchanged; in particular the
  unsigned transaction handed to the wallet parses to empty signature slots and its own message.
\<close>

lemma parse_wire_format:
  "length sigs < 2 ^ 31 \<Longrightarrow> list_all (\<lambda>s. length s = 64) sigs \<Longrightarrow>
     parseTransaction (vec_len (length sigs) @ concat sigs @ msg) = Inr (sigs, msg) \<and>
     parseTransaction (unsignedTransaction msg (length sigs))
       = Inr (replicate (length sigs) (replicate 64 0), msg)"
  using parse_wire [of sigs msg] parse_wire [of "replicate (length sigs) (replicate 64 0)" msg]
  by (simp add: vec_len_leb unsignedTransaction_def concat_replicate_replicate list_all_iff mult.commute)

lemma parse_wire_format_witness:
  "parseTransaction (unsignedTransaction [7, 9] 2) = Inr ([replicate 64 0, replicate 64 0], [7, 9])"
  using parse_wire_format [of "[replicate 64 0, replicate 64 0]" "[7, 9]"]
  by (simp add: replicate_Suc [of 1, simplified] flip: One_nat_def) (simp add: numeral_2_eq_2)

end
