(* ===== verification/Keccak_Perm.thy ===== *)
theory Keccak_Perm
  imports Solana_Tx
begin

text \<open>
  The permutation of the keccak256 of \<open>scripts/identity.js\<close>. The script works on BigInts, masks
  them to 64 bits by hand and fuses the rotation and permutation steps into one in-place cycle over
  two tables. It is shown to compute the permutation of the Keccak standard on 64-bit words.
\<close>

section \<open>The script\<close>

definition M64 :: int where
  "M64 = push_bit 64 1 - 1"

definition rotl :: "int \<Rightarrow> nat \<Rightarrow> int" where
  "rotl x n = (push_bit n x OR drop_bit (64 - n) x) AND M64"

definition RC :: "int list" where
  "RC = [
    0x0000000000000001, 0x0000000000008082, 0x800000000000808a, 0x8000000080008000,
    0x000000000000808b, 0x0000000080000001, 0x8000000080008081, 0x8000000000008009,
    0x000000000000008a, 0x0000000000000088, 0x0000000080008009, 0x000000008000000a,
    0x000000008000808b, 0x800000000000008b, 0x8000000000008089, 0x8000000000008003,
    0x8000000000008002, 0x8000000000000080, 0x000000000000800a, 0x800000008000000a,
    0x8000000080008081, 0x8000000000008080, 0x0000000080000001, 0x8000000080008008]"

definition ROTC :: "nat list" where
  "ROTC = [1, 3, 6, 10, 15, 21, 28, 36, 45, 55, 2, 14, 27, 41, 56, 8, 25, 43, 62, 18, 39, 61, 20, 44]"

definition PILN :: "nat list" where
  "PILN = [10, 7, 11, 17, 18, 3, 5, 16, 8, 21, 24, 4, 15, 23, 19, 13, 12, 2, 20, 14, 22, 9, 6, 1]"

text \<open>One assignment \<open>st[k] ^= t\<close>, and the four steps of a round.\<close>

definition xor_at :: "int list \<Rightarrow> nat \<Rightarrow> int \<Rightarrow> int list" where
  "xor_at st k t = st[k := st ! k XOR t]"

definition theta_step :: "int list \<Rightarrow> int list" where
  "theta_step st =
     (let bc = map (\<lambda>i. st ! i XOR st ! (i + 5) XOR st ! (i + 10) XOR st ! (i + 15) XOR st ! (i + 20)) [0, 1, 2, 3, 4]
      in foldl (\<lambda>st i.
           let t = bc ! ((i + 4) mod 5) XOR rotl (bc ! ((i + 1) mod 5)) 1
           in foldl (\<lambda>st j. xor_at st (j + i) t) st [0, 5, 10, 15, 20]) st [0, 1, 2, 3, 4])"

definition rho_pi_step :: "int list \<Rightarrow> int list" where
  "rho_pi_step st =
     fst (foldl (\<lambda>(st, t) (j, r). (st[j := rotl t r], st ! j)) (st, st ! 1) (zip PILN ROTC))"

definition chi_step :: "int list \<Rightarrow> int list" where
  "chi_step st =
     foldl (\<lambda>st j.
       let bc = map (\<lambda>i. st ! (j + i)) [0, 1, 2, 3, 4]
       in foldl (\<lambda>st i. xor_at st (j + i) ((bc ! ((i + 1) mod 5) XOR M64) AND bc ! ((i + 2) mod 5)))
            st [0, 1, 2, 3, 4]) st [0, 5, 10, 15, 20]"

definition keccakF :: "int list \<Rightarrow> int list" where
  "keccakF st = foldl (\<lambda>st rc. xor_at (chi_step (rho_pi_step (theta_step st))) 0 rc) st RC"

section \<open>The standard\<close>

text \<open>
  The state is 25 lanes of 64 bits, lane \<open>(x, y)\<close> at index \<open>x + 5 y\<close>. The rotation offsets and the
  round constants are the standard's own recipes: the triangular numbers along the walk
  \<open>(x, y) \<mapsto> (y, 2 x + 3 y)\<close>, and the bits of the linear feedback register \<open>x^8 + x^6 + x^5 + x^4 + 1\<close>.
\<close>

type_synonym lane = "64 word"

definition at :: "lane list \<Rightarrow> nat \<Rightarrow> nat \<Rightarrow> lane" where
  "at A x y = A ! (x mod 5 + 5 * (y mod 5))"

definition lanes :: "(nat \<Rightarrow> nat \<Rightarrow> lane) \<Rightarrow> lane list" where
  "lanes f = map (\<lambda>(x, y). f x y) [(x, y). y \<leftarrow> [0, 1, 2, 3, 4], x \<leftarrow> [0, 1, 2, 3, 4]]"

definition theta_C :: "lane list \<Rightarrow> nat \<Rightarrow> lane" where
  "theta_C A x = at A x 0 XOR at A x 1 XOR at A x 2 XOR at A x 3 XOR at A x 4"

definition theta :: "lane list \<Rightarrow> lane list" where
  "theta A = lanes (\<lambda>x y. at A x y XOR (theta_C A (x + 4) XOR word_rotl 1 (theta_C A (x + 1))))"

fun rho_walk :: "nat \<Rightarrow> nat \<Rightarrow> nat \<Rightarrow> nat \<Rightarrow> ((nat \<times> nat) \<times> nat) list" where
  "rho_walk 0 t x y = []"
| "rho_walk (Suc k) t x y =
     ((x, y), (t + 1) * (t + 2) div 2 mod 64) # rho_walk k (t + 1) y ((2 * x + 3 * y) mod 5)"

definition rho_offset :: "nat \<Rightarrow> nat \<Rightarrow> nat" where
  "rho_offset x y = (case map_of (rho_walk 24 0 1 0) (x, y) of None \<Rightarrow> 0 | Some r \<Rightarrow> r)"

definition rho :: "lane list \<Rightarrow> lane list" where
  "rho A = lanes (\<lambda>x y. word_rotl (rho_offset x y) (at A x y))"

definition pi_std :: "lane list \<Rightarrow> lane list" where
  "pi_std A = lanes (\<lambda>x y. at A (x + 3 * y) x)"

definition chi :: "lane list \<Rightarrow> lane list" where
  "chi A = lanes (\<lambda>x y. at A x y XOR (NOT (at A (x + 1) y) AND at A (x + 2) y))"

definition lfsr_step :: "nat \<Rightarrow> nat" where
  "lfsr_step r = (if 2 * r \<ge> 256 then (2 * r - 256) XOR 0x71 else 2 * r)"

fun lfsr_states :: "nat \<Rightarrow> nat \<Rightarrow> nat list" where
  "lfsr_states 0 r = []"
| "lfsr_states (Suc k) r = r # lfsr_states k (lfsr_step r)"

definition round_constant :: "nat \<Rightarrow> lane" where
  "round_constant ir =
     foldl (\<lambda>w j. if odd (lfsr_states 168 1 ! (j + 7 * ir)) then w OR push_bit (2 ^ j - 1) 1 else w)
       0 [0..<7]"

definition iota :: "nat \<Rightarrow> lane list \<Rightarrow> lane list" where
  "iota ir A = A[0 := A ! 0 XOR round_constant ir]"

definition keccak_p :: "lane list \<Rightarrow> lane list" where
  "keccak_p A = foldl (\<lambda>A ir. iota ir (chi (pi_std (rho (theta A))))) A [0..<24]"

section \<open>Words and masked BigInts\<close>

lemma M64_mask: "M64 = mask 64"
  by (simp add: M64_def mask_eq_exp_minus_1 push_bit_eq_mult)

lemma rotl_uint: "n < 64 \<Longrightarrow> rotl (uint (w :: lane)) n = uint (word_rotl n w)"
proof (rule bit_eqI)
  fix m
  assume n: "n < 64"
  have "bit (rotl (uint w) n) m \<longleftrightarrow> m < 64 \<and> (n \<le> m \<and> bit w (m - n) \<or> bit w (m + (64 - n)))"
    by (auto simp: rotl_def M64_mask bit_and_iff bit_or_iff bit_mask_iff bit_push_bit_iff bit_drop_bit_eq
        bit_unsigned_iff add.commute)
  also have "\<dots> \<longleftrightarrow> m < 64 \<and> bit w ((m + (64 - n)) mod 64)"
  proof (cases "n \<le> m \<and> m < 64")
    case True
    then have "m + (64 - n) = (m - n) + 64" "m - n < 64" using n by auto
    then have "(m + (64 - n)) mod 64 = m - n" by (simp only: mod_add_self2 mod_less)
    moreover have "\<not> bit w (m + (64 - n))" using True n bit_imp_le_length [of w] by fastforce
    ultimately show ?thesis using True by simp
  next
    case False
    then have "m < 64 \<Longrightarrow> (m + (64 - n)) mod 64 = m + (64 - n)" using n by simp
    then show ?thesis using False by auto
  qed
  also have "\<dots> \<longleftrightarrow> bit (uint (word_rotl n w)) m"
    using n by (auto simp: bit_unsigned_iff bit_word_rotl_iff)
  finally show "bit (rotl (uint w) n) m \<longleftrightarrow> bit (uint (word_rotl n w)) m" .
qed

lemma rotl_none: "word_rotl 0 (w :: lane) = w"
  by (rule bit_word_eqI) (simp add: bit_word_rotl_iff)

lemma not_uint: "uint (w :: lane) XOR M64 = uint (NOT w)"
  by (rule bit_eqI) (auto simp: M64_mask bit_xor_iff bit_mask_iff bit_unsigned_iff bit_not_iff
      dest: bit_imp_le_length)

lemma lanes_25:
  assumes "length A = 25"
  obtains a0 a1 a2 a3 a4 a5 a6 a7 a8 a9 a10 a11 a12 a13 a14 a15 a16 a17 a18 a19 a20 a21 a22 a23 a24
  where "A = [a0, a1, a2, a3, a4, a5, a6, a7, a8, a9, a10, a11, a12, a13, a14, a15, a16, a17, a18,
     a19, a20, a21, a22, a23, a24]"
  using assms by (auto simp: numeral_eq_Suc length_Suc_conv)

lemma length_lanes [simp]: "length (lanes f) = 25"
  by (simp add: lanes_def)

section \<open>The steps of a round\<close>


lemma theta_step_uint:
  assumes "length A = 25"
  shows "theta_step (map uint A) = map uint (theta A)"
proof -
  obtain a0 a1 a2 a3 a4 a5 a6 a7 a8 a9 a10 a11 a12 a13 a14 a15 a16 a17 a18 a19 a20 a21 a22 a23 a24
    where A: "A = [a0, a1, a2, a3, a4, a5, a6, a7, a8, a9, a10, a11, a12, a13, a14, a15, a16, a17, a18,
      a19, a20, a21, a22, a23, a24]"
    using assms by (rule lanes_25)
  show ?thesis
    by (simp add: A theta_step_def theta_def theta_C_def xor_at_def Let_def lanes_def at_def
        unsigned_xor_eq rotl_uint [symmetric])
qed

lemma rho_walk_unfold: "rho_walk k t x y = (if k = 0 then []
     else ((x, y), (t + 1) * (t + 2) div 2 mod 64) # rho_walk (k - 1) (t + 1) y ((2 * x + 3 * y) mod 5))"
  by (cases k) auto

lemma rho_walk_24: "rho_walk 24 0 1 0 =
    [((1, 0), 1), ((0, 2), 3), ((2, 1), 6), ((1, 2), 10), ((2, 3), 15), ((3, 3), 21), ((3, 0), 28),
     ((0, 1), 36), ((1, 3), 45), ((3, 1), 55), ((1, 4), 2), ((4, 4), 14), ((4, 0), 27), ((0, 3),
     41), ((3, 4), 56), ((4, 3), 8), ((3, 2), 25), ((2, 2), 43), ((2, 0), 62), ((0, 4), 18), ((4,
     2), 39), ((2, 4), 61), ((4, 1), 20), ((1, 1), 44)]"
  by (simp add: rho_walk_unfold del: rho_walk.simps)

lemma rho_offsets:
  "rho_offset 0 0 = 0"
  "rho_offset 1 0 = 1"
  "rho_offset 2 0 = 62"
  "rho_offset 3 0 = 28"
  "rho_offset 4 0 = 27"
  "rho_offset 0 1 = 36"
  "rho_offset 1 1 = 44"
  "rho_offset 2 1 = 6"
  "rho_offset 3 1 = 55"
  "rho_offset 4 1 = 20"
  "rho_offset 0 2 = 3"
  "rho_offset 1 2 = 10"
  "rho_offset 2 2 = 43"
  "rho_offset 3 2 = 25"
  "rho_offset 4 2 = 39"
  "rho_offset 0 3 = 41"
  "rho_offset 1 3 = 45"
  "rho_offset 2 3 = 15"
  "rho_offset 3 3 = 21"
  "rho_offset 4 3 = 8"
  "rho_offset 0 4 = 18"
  "rho_offset 1 4 = 2"
  "rho_offset 2 4 = 61"
  "rho_offset 3 4 = 56"
  "rho_offset 4 4 = 14"
  by (simp_all add: rho_offset_def rho_walk_24 del: One_nat_def)

lemma rho_pi_step_uint:
  assumes "length A = 25"
  shows "rho_pi_step (map uint A) = map uint (pi_std (rho A))"
proof -
  obtain a0 a1 a2 a3 a4 a5 a6 a7 a8 a9 a10 a11 a12 a13 a14 a15 a16 a17 a18 a19 a20 a21 a22 a23 a24
    where A: "A = [a0, a1, a2, a3, a4, a5, a6, a7, a8, a9, a10, a11, a12, a13, a14, a15, a16, a17, a18,
      a19, a20, a21, a22, a23, a24]"
    using assms by (rule lanes_25)
  have rho: "rho A = [a0, word_rotl 1 a1, word_rotl 62 a2, word_rotl 28 a3, word_rotl 27 a4,
     word_rotl 36 a5, word_rotl 44 a6, word_rotl 6 a7, word_rotl 55 a8, word_rotl 20 a9,
     word_rotl 3 a10, word_rotl 10 a11, word_rotl 43 a12, word_rotl 25 a13, word_rotl 39 a14,
     word_rotl 41 a15, word_rotl 45 a16, word_rotl 15 a17, word_rotl 21 a18, word_rotl 8 a19,
     word_rotl 18 a20, word_rotl 2 a21, word_rotl 61 a22, word_rotl 56 a23, word_rotl 14 a24]"
    by (simp add: A rho_def lanes_def at_def rho_offsets [unfolded One_nat_def] rotl_none)
  show ?thesis
    unfolding rho
    by (simp add: A rho_pi_step_def PILN_def ROTC_def pi_std_def lanes_def at_def rotl_uint)
qed

lemma chi_step_uint:
  assumes "length A = 25"
  shows "chi_step (map uint A) = map uint (chi A)"
proof -
  obtain a0 a1 a2 a3 a4 a5 a6 a7 a8 a9 a10 a11 a12 a13 a14 a15 a16 a17 a18 a19 a20 a21 a22 a23 a24
    where A: "A = [a0, a1, a2, a3, a4, a5, a6, a7, a8, a9, a10, a11, a12, a13, a14, a15, a16, a17, a18,
      a19, a20, a21, a22, a23, a24]"
    using assms by (rule lanes_25)
  show ?thesis
    by (simp add: A chi_step_def chi_def xor_at_def Let_def lanes_def at_def not_uint
        unsigned_xor_eq unsigned_and_eq)
qed

lemma length_steps [simp]:
  "length (theta A) = 25" "length (rho A) = 25" "length (pi_std A) = 25" "length (chi A) = 25"
  by (simp_all add: theta_def rho_def pi_std_def chi_def)

lemma lfsr_states_unfold: "lfsr_states k r = (if k = 0 then [] else r # lfsr_states (k - 1) (lfsr_step r))"
  by (cases k) auto

lemma lfsr_states_168: "lfsr_states 168 1 =
    [1, 2, 4, 8, 16, 32, 64, 128, 113, 226, 181, 27, 54, 108, 216, 193, 243, 151, 95, 190, 13, 26,
     52, 104, 208, 209, 211, 215, 223, 207, 239, 175, 47, 94, 188, 9, 18, 36, 72, 144, 81, 162, 53,
     106, 212, 217, 195, 247, 159, 79, 158, 77, 154, 69, 138, 101, 202, 229, 187, 7, 14, 28, 56,
     112, 224, 177, 19, 38, 76, 152, 65, 130, 117, 234, 165, 59, 118, 236, 169, 35, 70, 140, 105,
     210, 213, 219, 199, 255, 143, 111, 222, 205, 235, 167, 63, 126, 252, 137, 99, 198, 253, 139,
     103, 206, 237, 171, 39, 78, 156, 73, 146, 85, 170, 37, 74, 148, 89, 178, 21, 42, 84, 168, 33,
     66, 132, 121, 242, 149, 91, 182, 29, 58, 116, 232, 161, 51, 102, 204, 233, 163, 55, 110, 220,
     201, 227, 183, 31, 62, 124, 248, 129, 115, 230, 189, 11, 22, 44, 88, 176, 17, 34, 68, 136, 97,
     194, 245, 155, 71]"
  by (simp add: lfsr_states_unfold lfsr_step_def del: lfsr_states.simps)

lemma round_constants: "RC = map (uint \<circ> round_constant) [0..<24]"
proof -
  have upts: "[0..<24] = [0, 1, 2, 3, 4, 5, 6, 7, 8, 9, 10, 11, 12, 13, 14, 15, 16, 17, 18, 19, 20, 21, 22, 23]"
    "[0..<7] = [0, 1, 2, 3, 4, 5, 6]"
    by (simp_all add: upt_rec)
  show ?thesis
    unfolding upts(1)
    by (simp add: RC_def round_constant_def upts(2) lfsr_states_168 [unfolded One_nat_def])
qed

text \<open>
  On 25 lanes of 64 bits the in-place, table-driven rounds compute the permutation of the standard;
  so the tables are right and no intermediate BigInt leaves 64 bits.
\<close>

lemma keccakF_refines:
  assumes "length A = 25"
  shows "keccakF (map uint A) = map uint (keccak_p A)"
proof -
  have "foldl (\<lambda>st rc. xor_at (chi_step (rho_pi_step (theta_step st))) 0 rc) (map uint A)
      (map (uint \<circ> round_constant) irs)
    = map uint (foldl (\<lambda>A ir. iota ir (chi (pi_std (rho (theta A))))) A irs)
    \<and> length (foldl (\<lambda>A ir. iota ir (chi (pi_std (rho (theta A))))) A irs) = 25" for irs
  proof (induction irs rule: rev_induct)
    case (snoc ir irs)
    then show ?case
      by (simp add: theta_step_uint rho_pi_step_uint chi_step_uint xor_at_def iota_def unsigned_xor_eq
          map_update)
  qed (simp add: assms)
  then show ?thesis by (simp add: keccakF_def keccak_p_def round_constants)
qed

end
