(* ===== verification/Keccak.thy ===== *)
theory Keccak
  imports Keccak_Perm
begin

text \<open>
  The sponge of the keccak256 of \<open>scripts/identity.js\<close>: padding, absorption and output. The whole
  hash is shown to be the sponge of the standard with the permutation of \<open>Keccak_Perm\<close>, rate 136
  and padding byte 1.
\<close>

section \<open>The script\<close>

definition rate :: nat where
  "rate = 136"

definition padded :: "bytes \<Rightarrow> bytes" where
  "padded input =
     (let p = set_at (replicate (((length input + 1) + (rate - 1)) div rate * rate) 0) 0 input;
          p = p[length input := p ! length input XOR 0x01]
      in p[length p - 1 := p ! (length p - 1) XOR 0x80])"

definition read_lane :: "bytes \<Rightarrow> nat \<Rightarrow> int" where
  "read_lane p o8 = foldl (\<lambda>lane b. push_bit 8 lane OR uint (p ! (o8 + b))) 0 (rev [0..<8])"

definition absorb :: "bytes \<Rightarrow> int list \<Rightarrow> nat \<Rightarrow> int list" where
  "absorb p st off = keccakF (foldl (\<lambda>st i. xor_at st i (read_lane p (off + i * 8))) st [0..<rate div 8])"

definition keccak256 :: "bytes \<Rightarrow> bytes" where
  "keccak256 input =
     (let p = padded input;
          st = foldl (absorb p) (replicate 25 0) (map (\<lambda>k. k * rate) [0..<length p div rate])
      in concat (map (\<lambda>i. map (\<lambda>b. word_of_int (drop_bit (8 * b) (st ! i) AND 0xff)) [0..<8]) [0..<4]))"

section \<open>The standard\<close>

definition pad :: "bytes \<Rightarrow> bytes" where
  "pad m = (let q = 136 - length m mod 136 in
     m @ (if q = 1 then [0x81] else [0x01] @ replicate (q - 2) 0 @ [0x80]))"

definition block :: "bytes \<Rightarrow> nat \<Rightarrow> bytes" where
  "block p k = take 136 (drop (k * 136) p)"

definition absorb_std :: "lane list \<Rightarrow> bytes \<Rightarrow> lane list" where
  "absorb_std A bl = keccak_p (map (\<lambda>i.
     if i < 17 then A ! i XOR word_of_nat (le_nat (take 8 (drop (i * 8) bl))) else A ! i) [0..<25])"

definition keccak256_std :: "bytes \<Rightarrow> bytes" where
  "keccak256_std m =
     (let p = pad m;
          S = foldl absorb_std (replicate 25 0) (map (block p) [0..<length p div 136])
      in concat (map (\<lambda>i. map (\<lambda>b. ucast (drop_bit (8 * b) (S ! i))) [0..<8]) [0..<4]))"

section \<open>The sponge\<close>

lemma length_keccak_p: "length A = 25 \<Longrightarrow> length (keccak_p A) = 25"
proof -
  assume l: "length A = 25"
  have "length (foldl (\<lambda>A ir. iota ir (chi (pi_std (rho (theta A))))) A irs) = 25" for irs
    using l by (induction irs rule: rev_induct) (simp_all add: iota_def)
  then show ?thesis by (simp add: keccak_p_def)
qed

lemma padded_pad: "padded m = pad m"
proof -
  let ?n = "length m" and ?q = "136 - length m mod 136"
  have q: "0 < ?q" "?n + ?q = (?n + 1 + 135) div 136 * 136"
  proof -
    have r: "?n mod 136 < 136" by simp
    then show "0 < ?q" by linarith
    have n: "?n = 136 * (?n div 136) + ?n mod 136" by simp
    then have "?n + 1 + 135 = ?n mod 136 + (?n div 136 + 1) * 136"
      by (simp add: add_mult_distrib mult.commute [of 136])
    then have "(?n + 1 + 135) div 136 = ?n div 136 + 1" using r by (simp only: div_mult_self1)
    then show "?n + ?q = (?n + 1 + 135) div 136 * 136" using n r by linarith
  qed
  then obtain r where r: "?q = Suc r" by (cases ?q) auto
  have len: "(?n + 1 + (rate - 1)) div rate * rate = ?n + Suc r"
    using q(2) r by (simp add: rate_def)
  have "set_at (replicate (?n + Suc r) 0) 0 m = m @ replicate (Suc r) 0"
    by (simp add: set_at_def del: replicate_Suc)
  then have p: "padded m = (let p = m @ 1 # replicate r 0 in p[length p - 1 := p ! (length p - 1) XOR 0x80])"
    unfolding padded_def len by (simp add: Let_def list_update_append)
  show ?thesis
  proof (cases r)
    case 0
    then show ?thesis by (simp add: p pad_def r Let_def list_update_append nth_append)
  next
    case (Suc k)
    have "replicate r (0 :: byte) = replicate k 0 @ [0]" by (simp add: Suc replicate_append_same)
    then have "padded m = (m @ 1 # replicate k 0) @ [0x80]"
      unfolding p by (simp add: Let_def list_update_append nth_append)
    then show ?thesis by (simp add: pad_def r Suc Let_def)
  qed
qed

lemma foldl_xor_at:
  "n \<le> length st \<Longrightarrow> foldl (\<lambda>st i. xor_at st i (L i)) st [0..<n]
     = map (\<lambda>i. if i < n then st ! i XOR L i else st ! i) [0..<length st]"
proof (induction n)
  case (Suc n)
  then have "foldl (\<lambda>st i. xor_at st i (L i)) st [0..<Suc n]
      = xor_at (map (\<lambda>i. if i < n then st ! i XOR L i else st ! i) [0..<length st]) n (L n)"
    by simp
  also have "\<dots> = map (\<lambda>i. if i < Suc n then st ! i XOR L i else st ! i) [0..<length st]"
    using Suc.prems by (intro nth_equalityI) (auto simp: xor_at_def nth_list_update less_Suc_eq)
  finally show ?case .
qed (simp add: map_nth)

lemma read_lane_le: "o8 + 8 \<le> length p \<Longrightarrow> read_lane p o8 = int (le_nat (take 8 (drop o8 p)))"
proof -
  assume l: "o8 + 8 \<le> length p"
  have "read_lane p o8
      = foldl (\<lambda>y i. push_bit 8 y OR uint (take 8 (drop o8 p) ! i)) 0 (rev [0..<8])"
    unfolding read_lane_def using l by (intro foldl_cong) auto
  also have "\<dots> = int (le_nat (take 8 (drop o8 p)))"
    using l by (intro foldl_le_nat) simp
  finally show ?thesis .
qed

lemma le_nat_less: "le_nat bs < 256 ^ length bs"
  using be_nat_less [of "rev bs"] by (simp add: le_nat_def)

lemma absorb_uint:
  assumes "length A = 25" "k * 136 + 136 \<le> length p"
  shows "absorb p (map uint A) (k * 136) = map uint (absorb_std A (block p k))"
proof -
  let ?B = "map (\<lambda>i. if i < 17 then A ! i XOR word_of_nat (le_nat (take 8 (drop (i * 8) (block p k)))) else A ! i) [0..<25]"
  have lane: "read_lane p (k * 136 + i * 8) = uint (word_of_nat (le_nat (take 8 (drop (i * 8) (block p k)))) :: lane)"
    if "i < 17" for i
  proof -
    have s: "take 8 (drop (i * 8) (block p k)) = take 8 (drop (k * 136 + i * 8) p)"
      using that by (simp add: block_def drop_take min_def add.commute)
    have "le_nat (take 8 (drop (k * 136 + i * 8) p)) < 2 ^ 64"
      using le_nat_less [of "take 8 (drop (k * 136 + i * 8) p)"] assms(2) that by (simp add: min_absorb2)
    then show ?thesis
      using assms(2) that by (simp add: read_lane_le s unsigned_of_nat take_bit_nat_eq_self)
  qed
  have "foldl (\<lambda>st i. xor_at st i (read_lane p (k * 136 + i * 8))) (map uint A) [0..<rate div 8] = map uint ?B"
    using assms(1) lane by (subst foldl_xor_at) (auto simp: rate_def unsigned_xor_eq)
  then show ?thesis
    by (simp add: absorb_def absorb_std_def keccakF_refines del: map_map)
qed

lemma foldl_absorb:
  assumes "n * 136 \<le> length p"
  shows "foldl (absorb p) (replicate 25 0) (map (\<lambda>k. k * rate) [0..<n])
      = map uint (foldl absorb_std (replicate 25 0) (map (block p) [0..<n]))
    \<and> length (foldl absorb_std (replicate 25 0) (map (block p) [0..<n])) = 25"
  using assms
proof (induction n)
  case (Suc n)
  then show ?case
    by (simp add: rate_def absorb_uint) (simp add: absorb_std_def length_keccak_p)
qed (simp add: map_replicate)

lemma byte_of_lane: "word_of_int (drop_bit n (uint (w :: lane)) AND 0xff) = (ucast (drop_bit n w) :: byte)"
proof (rule bit_word_eqI)
  fix m
  assume "m < LENGTH(8)"
  moreover have "(0xff :: int) = mask 8" by (simp add: mask_numeral)
  ultimately show "bit (word_of_int (drop_bit n (uint w) AND 0xff) :: byte) m = bit (ucast (drop_bit n w) :: byte) m"
    by (simp only: bit_word_of_int_iff bit_and_iff bit_mask_iff bit_drop_bit_eq bit_ucast_iff) (simp add: bit_unsigned_iff)
qed

definition squeeze_int :: "int list \<Rightarrow> bytes" where
  "squeeze_int st = concat (map (\<lambda>i. map (\<lambda>b. word_of_int (drop_bit (8 * b) (st ! i) AND 0xff)) [0..<8]) [0..<4])"

lemma squeeze_int_uint:
  assumes "length (S :: lane list) = 25"
  shows "squeeze_int (map uint S) = concat (map (\<lambda>i. map (\<lambda>b. ucast (drop_bit (8 * b) (S ! i))) [0..<8]) [0..<4])"
  unfolding squeeze_int_def using assms
  by (intro arg_cong [where f = concat] map_cong refl) (simp add: byte_of_lane)

text \<open>
  C38: the hash. On every input the script's keccak256 is the Keccak sponge of the standard: pad to a
  multiple of 136 bytes with 1 and a final 128, absorb little-endian lanes, permute, and squeeze
  32 bytes.
\<close>

theorem keccak256_correct: "keccak256 m = keccak256_std m"
proof -
  let ?p = "pad m" and ?n = "length (pad m) div 136"
  let ?S = "foldl absorb_std (replicate 25 0) (map (block ?p) [0..<?n])"
  have st: "foldl (absorb ?p) (replicate 25 0) (map (\<lambda>k. k * rate) [0..<?n]) = map uint ?S" and l: "length ?S = 25"
    using foldl_absorb [of ?n ?p] by auto
  have "keccak256 m = squeeze_int (map uint ?S)"
    by (simp only: keccak256_def padded_pad Let_def st [symmetric]) (simp add: rate_def squeeze_int_def)
  also have "\<dots> = concat (map (\<lambda>i. map (\<lambda>b. ucast (drop_bit (8 * b) (?S ! i))) [0..<8]) [0..<4])"
    by (rule squeeze_int_uint [OF l])
  finally show ?thesis by (simp only: keccak256_std_def Let_def)
qed

lemma length_keccak256 [simp]: "length (keccak256 m) = 32"
  by (simp add: keccak256_def Let_def length_concat comp_def sum_list_triv upt_rec)

end
