(* ===== verification/Solana_Pda.thy ===== *)
theory Solana_Pda
  imports Solana_Tx
begin

text \<open>
  Program-derived addresses of \<open>scripts/solana.js\<close>: modular exponentiation, the ed25519 curve
  test, the bump search, associated token accounts, and the reader of the \<open>ReceiverAnnounced\<close>
  event. The browser's SHA-256 is the parameter \<open>sha\<close>.
\<close>

section \<open>Arithmetic modulo the field prime\<close>

text \<open>\<open>%\<close> on BigInts truncates: the remainder has the sign of the dividend.\<close>

definition js_rem :: "int \<Rightarrow> int \<Rightarrow> int" where
  "js_rem a b = sgn a * (\<bar>a\<bar> mod \<bar>b\<bar>)"

definition P :: int where
  "P = push_bit 255 1 - 19"

definition modP :: "int \<Rightarrow> int" where
  "modP a = js_rem (js_rem a P + P) P"

function modPow_loop :: "int \<Rightarrow> int \<Rightarrow> int \<Rightarrow> int" where
  "modPow_loop result b e =
     (if e > 0 then modPow_loop (if e AND 1 \<noteq> 0 then js_rem (result * b) P else result)
                      (js_rem (b * b) P) (drop_bit 1 e)
      else result)"
  by pat_completeness auto
termination
  by (relation "measure (\<lambda>(r, b, e). nat e)") (auto simp: drop_bit_eq_div)

declare modPow_loop.simps [simp del]

definition modPow :: "int \<Rightarrow> int \<Rightarrow> int" where
  "modPow base e = modPow_loop 1 (modP base) e"

definition D :: int where
  "D = modP (- 121665 * modPow 121666 (P - 2))"

definition isOnCurve :: "bytes \<Rightarrow> bool" where
  "isOnCurve bs =
     (let y0 = foldl (\<lambda>y i. push_bit 8 y OR uint (bs ! i)) 0 (rev [0..<32]);
          y = modP (y0 AND (push_bit 255 1 - 1));
          y2 = js_rem (y * y) P;
          u = modP (y2 - 1);
          v = modP (D * y2 + 1);
          x2 = js_rem (u * modPow v (P - 2)) P
      in if x2 = 0 then True else modPow x2 ((P - 1) div 2) = 1)"

lemma P_value: "P = 57896044618658097711785492504343953926634992332820282019728792003956564819949"
  by (simp add: P_def push_bit_eq_mult)

lemma P_pos: "0 < P"
  by (simp add: P_value)

lemma js_rem_nonneg: "0 \<le> a \<Longrightarrow> 0 < b \<Longrightarrow> js_rem a b = a mod b"
  by (cases "a = 0") (auto simp: js_rem_def sgn_if)

lemma modP_mod: "modP a = a mod P"
proof (cases "0 \<le> a")
  case True
  then show ?thesis using P_pos by (simp add: modP_def js_rem_nonneg)
next
  case False
  then have "js_rem a P = - ((- a) mod P)" using P_pos by (simp add: js_rem_def)
  moreover have "0 \<le> P - (- a) mod P" using pos_mod_bound [OF P_pos, of "- a"] by linarith
  ultimately have "modP a = (P - (- a) mod P) mod P"
    using P_pos by (simp add: modP_def js_rem_nonneg)
  also have "\<dots> = (P - (- a)) mod P" by (rule mod_diff_right_eq)
  finally show ?thesis by simp
qed

lemma modPow_loop_eq:
  assumes "0 \<le> r" "0 \<le> b" "0 \<le> e"
  shows "modPow_loop r b e mod P = (r * b ^ nat e) mod P \<and> 0 \<le> modPow_loop r b e
     \<and> (r < P \<longrightarrow> modPow_loop r b e < P)"
  using assms
proof (induction r b e rule: modPow_loop.induct)
  case (1 r b e)
  show ?case
  proof (cases "e > 0")
    case False
    with 1 show ?thesis by (subst (1 2 3) modPow_loop.simps) auto
  next
    case True
    let ?r = "if e AND 1 \<noteq> 0 then js_rem (r * b) P else r"
    have r: "?r = (if odd e then (r * b) mod P else r)"
      using 1 P_pos by (auto simp: and_one_eq js_rem_nonneg odd_iff_mod_2_eq_one)
    have b: "js_rem (b * b) P = (b * b) mod P" using 1 P_pos by (simp add: js_rem_nonneg)
    have IH: "modPow_loop ?r (js_rem (b * b) P) (drop_bit 1 e) mod P = (?r * js_rem (b * b) P ^ nat (e div 2)) mod P
       \<and> 0 \<le> modPow_loop ?r (js_rem (b * b) P) (drop_bit 1 e)
       \<and> (?r < P \<longrightarrow> modPow_loop ?r (js_rem (b * b) P) (drop_bit 1 e) < P)"
      using "1.IH" [OF True] 1 P_pos r b True by (simp add: drop_bit_eq_div)
    have sq: "b ^ (2 * h) = (b * b) ^ h" "b ^ Suc (2 * h) = b * (b * b) ^ h" for h
      by (simp_all add: power_mult power2_eq_square)
    have "nat e = (if odd e then Suc (2 * nat (e div 2)) else 2 * nat (e div 2))"
      using True by (auto elim!: oddE evenE)
    then have "r * b ^ nat e = (if odd e then r * b else r) * (b * b) ^ nat (e div 2)"
      by (cases "odd e") (simp_all only: sq if_True if_False mult.assoc not_True_eq_False not_False_eq_True)
    moreover have "(?r * js_rem (b * b) P ^ nat (e div 2)) mod P
        = ((if odd e then r * b else r) * (b * b) ^ nat (e div 2)) mod P"
    proof -
      have "(x * ((b * b) mod P) ^ h) mod P = (x * (b * b) ^ h) mod P" for x h
        by (metis mod_mult_right_eq power_mod)
      then show ?thesis unfolding r b by (cases "odd e") (simp_all add: mod_mult_left_eq)
    qed
    moreover have "modPow_loop r b e = modPow_loop ?r (js_rem (b * b) P) (drop_bit 1 e)"
      using True by (subst modPow_loop.simps) simp
    moreover have "r < P \<Longrightarrow> ?r < P" using r P_pos by simp
    ultimately show ?thesis using IH by simp
  qed
qed

text \<open>
  Modular exponentiation by squaring computes the power modulo the field prime, for every base
  and every exponent that is not negative.
\<close>

lemma modPow_correct: "modPow b (int e) = b ^ e mod P"
proof -
  have "modPow_loop 1 (modP b) (int e) mod P = modP b ^ e mod P"
    "modPow_loop 1 (modP b) (int e) < P" "0 \<le> modPow_loop 1 (modP b) (int e)"
    using modPow_loop_eq [of 1 "modP b" "int e"] P_pos by (auto simp: modP_mod P_value)
  then show ?thesis using P_pos by (simp add: modPow_def modP_mod power_mod)
qed

lemma modPow_nonneg: "0 \<le> e \<Longrightarrow> modPow b e = b ^ nat e mod P"
proof -
  assume "0 \<le> e"
  have "modPow_loop 1 (modP b) e mod P = modP b ^ nat e mod P"
    "modPow_loop 1 (modP b) e < P" "0 \<le> modPow_loop 1 (modP b) e"
    using modPow_loop_eq [of 1 "modP b" e] P_pos \<open>0 \<le> e\<close> by (auto simp: modP_mod P_value)
  then show ?thesis using P_pos by (simp add: modPow_def modP_mod power_mod)
qed

section \<open>The curve test\<close>

text \<open>
  The test on field elements: \<open>y\<close> is the little-endian number without its top bit, and the point
  exists when \<open>(y^2 - 1) / (d y^2 + 1)\<close> is zero or passes Euler's criterion.
\<close>

definition curve_y :: "bytes \<Rightarrow> int" where
  "curve_y bs = int (le_nat bs) mod 2 ^ 255 mod P"

definition curve_x2 :: "int \<Rightarrow> int" where
  "curve_x2 y = ((y\<^sup>2 - 1) * (D * y\<^sup>2 + 1) ^ nat (P - 2)) mod P"

text \<open>
  The curve test is Euler's criterion for the x coordinate on 32-byte inputs: the byte loop reads
  the y coordinate, the sign bit is ignored, and the chained reductions compute the field value.
\<close>

lemma isOnCurve_criterion:
  "length bs = 32 \<Longrightarrow>
   isOnCurve bs = (let x2 = curve_x2 (curve_y bs) in x2 = 0 \<or> x2 ^ nat ((P - 1) div 2) mod P = 1)"
proof -
  assume len: "length bs = 32"
  let ?y = "curve_y bs"
  have mask: "n AND (push_bit 255 1 - 1) = n mod 2 ^ 255" for n :: int
    using take_bit_eq_mask [of 255 n] by (simp add: take_bit_eq_mod mask_eq_exp_minus_1 push_bit_eq_mult)
  have y: "modP (foldl (\<lambda>y i. push_bit 8 y OR uint (bs ! i)) 0 (rev [0..<32]) AND (push_bit 255 1 - 1)) = ?y"
    unfolding foldl_le_nat [OF len] mask modP_mod curve_y_def ..
  have "0 \<le> ?y" using P_pos by (simp add: curve_y_def)
  then have y2: "js_rem (?y * ?y) P = ?y\<^sup>2 mod P" using P_pos by (simp add: js_rem_nonneg power2_eq_square)
  have exp: "0 \<le> P - 2" "0 \<le> (P - 1) div 2" by (simp_all add: P_value)
  have u: "modP (?y\<^sup>2 mod P - 1) = (?y\<^sup>2 - 1) mod P" by (simp add: modP_mod mod_diff_left_eq)
  have v: "modPow (modP (D * (?y\<^sup>2 mod P) + 1)) (P - 2) = (D * ?y\<^sup>2 + 1) ^ nat (P - 2) mod P"
  proof -
    have "(D * (?y\<^sup>2 mod P) + 1) mod P = (D * ?y\<^sup>2 + 1) mod P"
      by (metis mod_add_left_eq mod_mult_right_eq)
    then show ?thesis by (metis modPow_nonneg [OF exp(1)] modP_mod power_mod)
  qed
  have x2: "js_rem ((?y\<^sup>2 - 1) mod P * ((D * ?y\<^sup>2 + 1) ^ nat (P - 2) mod P)) P = curve_x2 ?y"
    unfolding curve_x2_def mod_mult_eq [symmetric, of "?y\<^sup>2 - 1"]
    by (intro js_rem_nonneg mult_nonneg_nonneg pos_mod_sign P_pos)
  show ?thesis
    unfolding isOnCurve_def Let_def y y2 u v x2 modPow_nonneg [OF exp(2)] by simp
qed

lemma isOnCurve_criterion_witness:
  "isOnCurve (replicate 32 1) = (let x2 = curve_x2 (curve_y (replicate 32 1)) in
     x2 = 0 \<or> x2 ^ nat ((P - 1) div 2) mod P = 1)"
  by (rule isOnCurve_criterion) simp

section \<open>The bump search\<close>

definition pda_seed :: "bytes list \<Rightarrow> bytes \<Rightarrow> nat \<Rightarrow> bytes" where
  "pda_seed seeds program bump =
     concatBytes (seeds @ [[word_of_nat bump], program, utf8 ''ProgramDerivedAddress''])"

text \<open>The loop from 255 down; the argument is one more than the bump to try.\<close>

fun find_bump :: "(bytes \<Rightarrow> bytes) \<Rightarrow> bytes list \<Rightarrow> bytes \<Rightarrow> nat \<Rightarrow> (bytes \<times> nat) result" where
  "find_bump sha seeds program 0 = Inl (Error ''No viable program address.'')"
| "find_bump sha seeds program (Suc bump) =
     (let hash = sha (pda_seed seeds program bump) in
      if \<not> isOnCurve hash then Inr (hash, bump) else find_bump sha seeds program bump)"

definition findProgramAddress :: "(bytes \<Rightarrow> bytes) \<Rightarrow> bytes list \<Rightarrow> string \<Rightarrow> (bytes \<times> nat) result" where
  "findProgramAddress sha seeds programId =
     then_do (pubkeyBytes programId ''program id'') (\<lambda>program. find_bump sha seeds program 256)"

definition usdcAta :: "(bytes \<Rightarrow> bytes) \<Rightarrow> string \<Rightarrow> string \<Rightarrow> string result" where
  "usdcAta sha owner mint =
     then_do (pubkeyBytes owner ''owner'') (\<lambda>ow.
     then_do (pubkeyBytes TOKEN_PROGRAM ''address'') (\<lambda>t.
     then_do (pubkeyBytes mint ''mint'') (\<lambda>m.
     then_do (findProgramAddress sha [ow, t, m] ATA_PROGRAM) (\<lambda>(address, bump).
       Inr (base58Encode address)))))"

definition deriveForeignPubkey :: "(bytes \<Rightarrow> bytes) \<Rightarrow> string \<Rightarrow> string" where
  "deriveForeignPubkey sha s = base58Encode (sha (utf8 s))"

lemma find_bump_Inr:
  "find_bump sha seeds program k = Inr (h, b) \<longleftrightarrow>
     b < k \<and> h = sha (pda_seed seeds program b) \<and> \<not> isOnCurve h \<and>
     list_all (\<lambda>c. isOnCurve (sha (pda_seed seeds program c))) [Suc b..<k]"
  by (induction k) (auto simp: Let_def list_all_iff less_Suc_eq)

lemma find_bump_Inl:
  "find_bump sha seeds program k = Inl e \<longleftrightarrow>
     e = Error ''No viable program address.'' \<and>
     list_all (\<lambda>c. isOnCurve (sha (pda_seed seeds program c))) [0..<k]"
  by (induction k) (auto simp: Let_def list_all_iff less_Suc_eq)

text \<open>
  A program address is the hash for the highest bump whose hash is off the curve: an address is
  returned exactly with that bump, it never lies on the curve, and the search fails exactly when
  all 256 hashes are on the curve.
\<close>

lemma findProgramAddress_spec:
  "(findProgramAddress sha seeds pid = Inr (h, b) \<longleftrightarrow>
     (\<exists>program. pubkeyBytes pid ''program id'' = Inr program \<and> b < 256 \<and>
        h = sha (pda_seed seeds program b) \<and> \<not> isOnCurve h \<and>
        list_all (\<lambda>c. isOnCurve (sha (pda_seed seeds program c))) [Suc b..<256])) \<and>
   (findProgramAddress sha seeds pid = Inl (Error ''No viable program address.'') \<longleftrightarrow>
     (\<exists>program. pubkeyBytes pid ''program id'' = Inr program \<and>
        list_all (\<lambda>c. isOnCurve (sha (pda_seed seeds program c))) [0..<256]))"
  using pubkeyBytes_Inl [of pid "''program id''"]
  by (auto simp: findProgramAddress_def then_do_Inr then_do_Inl find_bump_Inr find_bump_Inl simp del: find_bump.simps)

section \<open>The accounts of a receiver and the event that announces it\<close>

record program =
  program_id :: string
  config_seed :: string
  pending_seed :: string

record route_ref =
  rmerchant :: string
  rchain32 :: string
  rrecipient32 :: string

definition receiverPdas :: "(bytes \<Rightarrow> bytes) \<Rightarrow> program \<Rightarrow> route_ref \<Rightarrow> string \<Rightarrow> (string \<times> string) result" where
  "receiverPdas sha p r receiver =
     then_do (pubkeyBytes (rmerchant r) ''merchant'') (\<lambda>m.
     then_do (pubkeyBytes receiver ''receiver'') (\<lambda>rc.
     then_do (hexToBytes (rchain32 r)) (\<lambda>c.
     then_do (hexToBytes (rrecipient32 r)) (\<lambda>rp.
     then_do (findProgramAddress sha (utf8 (config_seed p) # [m, rc, c, rp]) (program_id p)) (\<lambda>(config, b).
     then_do (findProgramAddress sha (utf8 (pending_seed p) # [m, rc, c, rp]) (program_id p)) (\<lambda>(pending, b').
       Inr (base58Encode config, base58Encode pending)))))))"

fun slots_of :: "nat \<Rightarrow> bytes \<Rightarrow> string list" where
  "slots_of 0 data = []"
| "slots_of (Suc k) data = base58Encode (take 32 data) # slots_of k (drop 32 data)"

text \<open>\<open>new Set(xs)\<close>: first occurrences, in order.\<close>

definition js_set :: "'a list \<Rightarrow> 'a list" where
  "js_set xs = rev (remdups (rev xs))"

fun first_owner :: "(string \<Rightarrow> (string \<times> string) result) \<Rightarrow> string list \<Rightarrow> string list \<Rightarrow> string option" where
  "first_owner pdas slots [] = None"
| "first_owner pdas slots (c # cs) =
     (case pdas c of
        Inl e \<Rightarrow> first_owner pdas slots cs
      | Inr (config, pending) \<Rightarrow>
          if config \<in> set slots \<and> pending \<in> set slots then Some c else first_owner pdas slots cs)"

text \<open>The reader of the event; \<open>pdas\<close> gives the two program accounts of a receiver on the route \<open>r\<close>.\<close>

definition announced_in ::
    "(string \<Rightarrow> (string \<times> string) result) \<Rightarrow> (bytes \<Rightarrow> bytes) \<Rightarrow> bytes \<Rightarrow> route_ref \<Rightarrow> string option result" where
  "announced_in pdas sha data r =
     (if length data < 8 + 32 * 6 \<or> (length data - 8) mod 32 \<noteq> 0 then Inr None
      else if \<not> bytesEqual (take 8 data) (take 8 (sha (utf8 ''event:ReceiverAnnounced''))) then Inr None
      else
        let slots = slots_of ((length data - 8) div 32) (drop 8 data);
            has = \<lambda>b. base58Encode b \<in> set slots in
        then_do (pubkeyBytes (rmerchant r) ''address'') (\<lambda>m. if \<not> has m then Inr None else
        then_do (hexToBytes (rchain32 r)) (\<lambda>c. if \<not> has c then Inr None else
        then_do (hexToBytes (rrecipient32 r)) (\<lambda>rp. if \<not> has rp then Inr None else
          Inr (first_owner pdas slots (js_set slots))))))"

definition receiverFromAnnouncedEvent ::
    "(bytes \<Rightarrow> bytes) \<Rightarrow> bytes \<Rightarrow> program \<Rightarrow> route_ref \<Rightarrow> string option result" where
  "receiverFromAnnouncedEvent sha data p r = announced_in (receiverPdas sha p r) sha data r"

definition owns_slots :: "(string \<Rightarrow> (string \<times> string) result) \<Rightarrow> string list \<Rightarrow> string \<Rightarrow> bool" where
  "owns_slots pdas slots c =
     (case pdas c of Inl e \<Rightarrow> False | Inr (config, pending) \<Rightarrow> config \<in> set slots \<and> pending \<in> set slots)"

lemma first_owner_eq: "first_owner pdas slots cs = find (owns_slots pdas slots) cs"
  by (induction cs) (auto simp: owns_slots_def split: sum.splits)

lemma set_js_set [simp]: "set (js_set xs) = set xs"
  by (simp add: js_set_def)

lemma find_Some_set: "find Q xs = Some x \<Longrightarrow> x \<in> set xs \<and> Q x"
  by (induction xs) (auto split: if_splits)

text \<open>
  Reading an announcement never guesses. A receiver is reported only from an event that carries
  the discriminator, the expected merchant and the expected route, and only if both program
  accounts derived from that receiver and that route are slots of the same event; and when some
  slot of such an event qualifies, one is reported.
\<close>

lemma announced_receiver_spec:
  "(\<exists>rc. receiverFromAnnouncedEvent sha data p r = Inr (Some rc) \<and> Q rc) \<longleftrightarrow>
   (\<exists>m c rp slots rc. slots = slots_of ((length data - 8) div 32) (drop 8 data) \<and>
      8 + 32 * 6 \<le> length data \<and> (length data - 8) mod 32 = 0 \<and>
      take 8 data = take 8 (sha (utf8 ''event:ReceiverAnnounced'')) \<and>
      pubkeyBytes (rmerchant r) ''address'' = Inr m \<and> hexToBytes (rchain32 r) = Inr c \<and>
      hexToBytes (rrecipient32 r) = Inr rp \<and>
      {base58Encode m, base58Encode c, base58Encode rp} \<subseteq> set slots \<and>
      find (owns_slots (receiverPdas sha p r) slots) (js_set slots) = Some rc \<and>
      rc \<in> set slots \<and> owns_slots (receiverPdas sha p r) slots rc \<and> Q rc)"
  by (auto simp: receiverFromAnnouncedEvent_def announced_in_def Let_def then_do_Inr first_owner_eq split: if_splits
      dest: find_Some_set) (auto dest: find_Some_set)

end
