(* ===== verification/Chains.thy ===== *)
theory Chains
  imports Solana_Pda
begin

text \<open>
  The chain table of \<open>scripts/chains.js\<close> and the predicates that decide what each chain can be used
  for. A field the table omits and a field it sets to \<open>null\<close> are both \<open>None\<close>: every use of a field
  treats the two alike.
\<close>

section \<open>Constants\<close>

definition API_CHAIN_CASE :: string where
  "API_CHAIN_CASE = ''lower''"

definition BACKEND_FELT_FORMAT :: string where
  "BACKEND_FELT_FORMAT = ''pad64''"

definition SOLANA_RECEIVER_KIND :: string where
  "SOLANA_RECEIVER_KIND = ''wallet''"

definition SOLANA_CCTP_RECIPIENT :: string where
  "SOLANA_CCTP_RECIPIENT = ''wallet''"

definition SOLANA_PLACEHOLDER_KEEPER :: string where
  "SOLANA_PLACEHOLDER_KEEPER = ''11111111111111111111111111111111''"

definition STRICT_PREDICTION :: bool where
  "STRICT_PREDICTION = True"

definition STARKNET_TRANSFER_SELECTOR :: string where
  "STARKNET_TRANSFER_SELECTOR = ''0x99cd8bde557814842a3121e8ddfd433a539b8c9f14bf31ebf108d12e6196e9''"

definition KEEPER_STARKNET_ADDRESS :: string where
  "KEEPER_STARKNET_ADDRESS = ''0x01d4a73b58909eb341e6357bd085fea917d71c386ebaecd770792f7b5a34615a''"

section \<open>Tests on configuration values\<close>

definition isPlaceholder :: "string option \<Rightarrow> bool" where
  "isPlaceholder value = (case value of None \<Rightarrow> True | Some s \<Rightarrow>
     s = [] \<or>
     (let v = to_lower s in
        v = to_lower SOLANA_PLACEHOLDER_KEEPER \<or>
        (take 2 v = ''0x'' \<and> list_all (\<lambda>c. c = CHR ''0'') (drop 2 v)) \<or>
        str_includes ''0123456789abcdef0123456789abcdef'' v \<or>
        str_includes ''your'' v \<or> str_includes ''placeholder'' v))"

definition isEvmAddress :: "string option \<Rightarrow> bool" where
  "isEvmAddress value = (case value of None \<Rightarrow> False | Some s \<Rightarrow>
     to_lower (take 2 s) = ''0x'' \<and> length (drop 2 s) = 40 \<and> list_all is_hex (drop 2 s))"

definition isFelt :: "string option \<Rightarrow> bool" where
  "isFelt value = (case value of None \<Rightarrow> False | Some s \<Rightarrow>
     to_lower (take 2 s) = ''0x'' \<and> 1 \<le> length (drop 2 s) \<and> length (drop 2 s) \<le> 64 \<and>
     list_all is_hex (drop 2 s))"

section \<open>The table\<close>

record eip712 =
  eip_name :: string
  eip_version :: string

record gas_bound =
  max_amount :: string
  max_price :: string

record bounds3 =
  l1_gas :: gas_bound
  l2_gas :: gas_bound
  l1_data_gas :: gas_bound

record stealth_cfg =
  st_window :: "int option"
  st_classHash :: "string option"
  st_chainId :: "string option"
  st_maxFeeFri :: "string option"
  st_bounds :: "bounds3 option"

record chain =
  ch_key :: string
  ch_name :: string
  ch_kind :: string
  ch_chainId :: "int option"
  ch_rpc :: "string option"
  ch_usdc :: "string option"
  ch_factory :: "string option"
  ch_keeper :: "string option"
  ch_walletChain :: "string option"
  ch_program :: "program option"
  ch_explorerAddress :: "string option"
  ch_explorerBase :: "string option"
  ch_eip712 :: "eip712 option"
  ch_stealth :: "stealth_cfg option"

definition USDC_EIP712 :: eip712 where
  "USDC_EIP712 = \<lparr>eip_name = ''USD Coin'', eip_version = ''2''\<rparr>"

definition MONAD_USDC_EIP712 :: eip712 where
  "MONAD_USDC_EIP712 = \<lparr>eip_name = ''USDC'', eip_version = ''2''\<rparr>"

definition EVM_STEALTH :: stealth_cfg where
  "EVM_STEALTH = \<lparr>st_window = Some 86400, st_classHash = None, st_chainId = None, st_maxFeeFri = None,
     st_bounds = None\<rparr>"

definition CHAINS :: "chain list" where
  "CHAINS = [
    \<lparr>ch_key = ''BASE'', ch_name = ''Base'', ch_kind = ''evm'', ch_chainId = Some 8453,
     ch_rpc = Some ''https://mainnet.base.org'',
     ch_usdc = Some ''0x833589fCD6eDb6E08f4c7C32D4f71b54bdA02913'',
     ch_factory = Some ''0x51E9813CAd0d94b0eBC8AedC27706bDE2a94d49A'',
     ch_keeper = None, ch_walletChain = None, ch_program = None,
     ch_explorerAddress = Some ''https://basescan.org/address/'',
     ch_explorerBase = Some ''https://basescan.org'',
     ch_eip712 = Some USDC_EIP712, ch_stealth = Some EVM_STEALTH\<rparr>,
    \<lparr>ch_key = ''ETHEREUM'', ch_name = ''Ethereum'', ch_kind = ''evm'', ch_chainId = Some 1,
     ch_rpc = Some ''https://eth.llamarpc.com'',
     ch_usdc = Some ''0xA0b86991c6218b36c1d19D4a2e9Eb0cE3606eB48'',
     ch_factory = None, ch_keeper = None, ch_walletChain = None, ch_program = None,
     ch_explorerAddress = Some ''https://etherscan.io/address/'',
     ch_explorerBase = Some ''https://etherscan.io'',
     ch_eip712 = Some USDC_EIP712, ch_stealth = Some EVM_STEALTH\<rparr>,
    \<lparr>ch_key = ''ARBITRUM'', ch_name = ''Arbitrum'', ch_kind = ''evm'', ch_chainId = Some 42161,
     ch_rpc = Some ''https://arb1.arbitrum.io/rpc'',
     ch_usdc = Some ''0xaf88d065e77c8cC2239327C5EDb3A432268e5831'',
     ch_factory = None, ch_keeper = None, ch_walletChain = None, ch_program = None,
     ch_explorerAddress = Some ''https://arbiscan.io/address/'',
     ch_explorerBase = Some ''https://arbiscan.io'',
     ch_eip712 = Some USDC_EIP712, ch_stealth = Some EVM_STEALTH\<rparr>,
    \<lparr>ch_key = ''MONAD'', ch_name = ''Monad'', ch_kind = ''evm'', ch_chainId = Some 143,
     ch_rpc = Some ''https://rpc.monad.xyz'',
     ch_usdc = Some ''0x754704Bc059F8C67012fEd69BC8A327a5aafb603'',
     ch_factory = None, ch_keeper = None, ch_walletChain = None, ch_program = None,
     ch_explorerAddress = None, ch_explorerBase = None,
     ch_eip712 = Some MONAD_USDC_EIP712, ch_stealth = Some EVM_STEALTH\<rparr>,
    \<lparr>ch_key = ''STARKNET'', ch_name = ''Starknet'', ch_kind = ''starknet'', ch_chainId = None,
     ch_rpc = Some ''https://starknet.drpc.org'',
     ch_usdc = Some ''0x033068f6539f8e6e6b131e6b2b814e6c34a5224bc66947c47dab9dfee93b35fb'',
     ch_factory = Some ''0x074fc53d92ed14249d7d7f37a22d879ad6d5660c2f86bcf5ae74e3d22347e30c'',
     ch_keeper = None, ch_walletChain = None, ch_program = None,
     ch_explorerAddress = Some ''https://starkscan.co/contract/'', ch_explorerBase = None,
     ch_eip712 = None,
     ch_stealth = Some \<lparr>st_window = None, st_classHash = None, st_chainId = Some ''0x534e5f4d41494e'',
       st_maxFeeFri = Some ''200000000000000000'',
       st_bounds = Some \<lparr>
         l1_gas = \<lparr>max_amount = ''0x2710'', max_price = ''0x174876e800''\<rparr>,
         l2_gas = \<lparr>max_amount = ''0x112a880'', max_price = ''0x2540be400''\<rparr>,
         l1_data_gas = \<lparr>max_amount = ''0x1b58'', max_price = ''0x174876e800''\<rparr>\<rparr>\<rparr>\<rparr>,
    \<lparr>ch_key = ''SOLANA'', ch_name = ''Solana'', ch_kind = ''solana'', ch_chainId = None,
     ch_rpc = Some ''https://api.mainnet-beta.solana.com'',
     ch_usdc = Some ''EPjFWdd5AufqSSqeM2qN1xzybapC8G4wEGGkZwyTDt1v'',
     ch_factory = None, ch_keeper = Some SOLANA_PLACEHOLDER_KEEPER,
     ch_walletChain = Some ''solana:mainnet'',
     ch_program = Some \<lparr>program_id = ''BsiBBPjkAiLJgQDNmjfajHeJjpFMzJqCNz2FtzZa2Hpg'',
       config_seed = ''config'', pending_seed = ''pending''\<rparr>,
     ch_explorerAddress = Some ''https://solscan.io/account/'',
     ch_explorerBase = Some ''https://solscan.io'',
     ch_eip712 = None, ch_stealth = None\<rparr>]"

definition CHAIN_KEYS :: "string list" where
  "CHAIN_KEYS = map ch_key CHAINS"

section \<open>Lookups and capabilities\<close>

text \<open>\<open>Boolean(s)\<close> of a text field.\<close>

definition truthy :: "string option \<Rightarrow> bool" where
  "truthy s = (case s of None \<Rightarrow> False | Some t \<Rightarrow> t \<noteq> [])"

definition wire :: "string \<Rightarrow> string" where
  "wire key = to_upper key"

definition apiChain :: "string \<Rightarrow> string" where
  "apiChain key = (if API_CHAIN_CASE = ''upper'' then wire key else to_lower key)"

definition chainByKey :: "string \<Rightarrow> chain option" where
  "chainByKey key = find (\<lambda>c. ch_key c = wire key) CHAINS"

definition chainLabel :: "string \<Rightarrow> string" where
  "chainLabel key = (case chainByKey key of None \<Rightarrow> key | Some c \<Rightarrow> ch_name c)"

definition canPredict :: "chain \<Rightarrow> bool" where
  "canPredict c \<longleftrightarrow> (ch_kind c = ''evm'' \<or> ch_kind c = ''starknet'') \<and> truthy (ch_factory c) \<and> truthy (ch_rpc c)"

definition laneChains :: "chain list" where
  "laneChains = filter canPredict CHAINS"

definition canDiscover :: "chain \<Rightarrow> bool" where
  "canDiscover c \<longleftrightarrow> ch_kind c = ''solana'' \<and>
     (case ch_program c of None \<Rightarrow> False | Some p \<Rightarrow> program_id p \<noteq> []) \<and> truthy (ch_usdc c)"

definition canSettle :: "chain \<Rightarrow> bool" where
  "canSettle c \<longleftrightarrow> canPredict c \<or> canDiscover c"

definition canGasless :: "chain \<Rightarrow> bool" where
  "canGasless c =
     (if ch_kind c = ''evm''
      then truthy (ch_usdc c) \<and> (case ch_chainId c of None \<Rightarrow> False | Some n \<Rightarrow> n \<noteq> 0) \<and> ch_eip712 c \<noteq> None
      else if ch_kind c = ''starknet'' then truthy (ch_usdc c) \<and> KEEPER_STARKNET_ADDRESS \<noteq> []
      else if ch_kind c = ''solana'' then truthy (ch_usdc c) \<and> truthy (ch_keeper c)
      else False)"

definition stealthReady :: "chain option \<Rightarrow> bool" where
  "stealthReady oc = (case oc of None \<Rightarrow> False | Some c \<Rightarrow>
     if ch_kind c = ''solana''
     then truthy (ch_usdc c) \<and> (case ch_program c of None \<Rightarrow> False | Some p \<Rightarrow> program_id p \<noteq> [])
     else case ch_stealth c of None \<Rightarrow> False | Some s \<Rightarrow>
       if ch_kind c = ''evm''
       then isEvmAddress (ch_usdc c) \<and>
            (case ch_eip712 c of None \<Rightarrow> False | Some e \<Rightarrow> eip_name e \<noteq> [] \<and> eip_version e \<noteq> []) \<and>
            (case ch_chainId c of None \<Rightarrow> False | Some n \<Rightarrow> n \<noteq> 0)
       else if ch_kind c = ''starknet''
       then isFelt (st_classHash s) \<and> \<not> isPlaceholder (st_classHash s) \<and>
            truthy (st_chainId s) \<and> truthy (ch_usdc c) \<and> truthy (st_maxFeeFri s) \<and> st_bounds s \<noteq> None
       else False)"

definition stealthChains :: "chain list" where
  "stealthChains = filter (\<lambda>c. stealthReady (Some c)) CHAINS"

text \<open>
  The snapshot a private lane pins. The three object shapes the function can return are the three
  constructors; \<open>null\<close> is \<open>None\<close>. Reading a field of a \<open>null\<close> stealth block throws.
\<close>

datatype stealth_config =
    SolanaCfg "string option"
  | EvmCfg stealth_cfg "int option" "string option" "eip712 option"
  | StarknetCfg "stealth_cfg option" "string option"

definition stealthConfigFor :: "chain option \<Rightarrow> stealth_config option result" where
  "stealthConfigFor oc = (case oc of None \<Rightarrow> Inr None | Some c \<Rightarrow>
     if ch_kind c = ''solana'' then Inr (Some (SolanaCfg (ch_usdc c)))
     else if ch_kind c = ''evm'' then
       (case ch_stealth c of
          None \<Rightarrow> Inl TypeError
        | Some s \<Rightarrow> Inr (Some (EvmCfg
            (s\<lparr>st_window := Some (case st_window s of None \<Rightarrow> 86400 | Some w \<Rightarrow> w)\<rparr>)
            (ch_chainId c) (ch_usdc c) (ch_eip712 c))))
     else if ch_kind c = ''starknet'' then Inr (Some (StarknetCfg (ch_stealth c) (ch_usdc c)))
     else Inr None)"

definition stealthConfigByKey :: "string \<Rightarrow> stealth_config option result" where
  "stealthConfigByKey key = stealthConfigFor (chainByKey key)"

section \<open>Facts about the table\<close>

lemma upper_upper_char [simp]: "upper_char (upper_char c) = upper_char c"
proof (cases "is_lower c")
  case True
  then have "code (char_of (code c - 32)) = code c - 32" and "97 \<le> code c \<and> code c \<le> 122"
    by (auto simp: is_lower_def in_range_def code_def)
  then show ?thesis using True by (auto simp: upper_char_def is_lower_def in_range_def code_def)
qed (simp add: upper_char_def)

lemma upper_lower_char: "upper_char (lower_char c) = upper_char c"
proof (cases "is_upper c")
  case True
  then have c: "65 \<le> code c \<and> code c \<le> 90" by (auto simp: is_upper_def in_range_def code_def)
  then have "code (char_of (code c + 32)) = code c + 32" by (simp add: code_char_of)
  then show ?thesis using True c
    by (auto simp: upper_char_def lower_char_def is_lower_def in_range_def code_def)
qed (simp add: lower_char_def)

lemma wire_wire [simp]: "wire (wire key) = wire key"
  by (simp add: wire_def to_upper_def)

lemma wire_apiChain [simp]: "wire (apiChain key) = wire key"
  by (simp add: wire_def apiChain_def API_CHAIN_CASE_def to_upper_def to_lower_def upper_lower_char)

lemma chainByKey_wire [simp]: "chainByKey (wire key) = chainByKey key"
  by (simp add: chainByKey_def)

lemma chainByKey_apiChain [simp]: "chainByKey (apiChain key) = chainByKey key"
  by (simp add: chainByKey_def)

lemma chain_keys: "CHAIN_KEYS = [''BASE'', ''ETHEREUM'', ''ARBITRUM'', ''MONAD'', ''STARKNET'', ''SOLANA'']"
  by (simp add: CHAIN_KEYS_def CHAINS_def)

lemma chainByKey_Some: "chainByKey key = Some c \<longleftrightarrow> c \<in> set CHAINS \<and> ch_key c = wire key"
proof
  assume "chainByKey key = Some c"
  then show "c \<in> set CHAINS \<and> ch_key c = wire key"
    unfolding chainByKey_def by (drule_tac find_Some_set) simp
next
  assume c: "c \<in> set CHAINS \<and> ch_key c = wire key"
  have "distinct (map ch_key CHAINS)" using chain_keys by (simp add: CHAIN_KEYS_def)
  then have inj: "inj_on ch_key (set CHAINS)" by (simp add: distinct_map)
  have "chainByKey key \<noteq> None" using c by (auto simp: chainByKey_def find_None_iff)
  then obtain d where d: "chainByKey key = Some d" by auto
  then have "d \<in> set CHAINS \<and> ch_key d = wire key"
    unfolding chainByKey_def by (drule_tac find_Some_set) simp
  with inj c d show "chainByKey key = Some c" by (metis inj_onD)
qed

lemma chainByKey_None: "chainByKey key = None \<longleftrightarrow> wire key \<notin> set CHAIN_KEYS"
  by (force simp: chainByKey_def find_None_iff CHAIN_KEYS_def)

lemmas char_eval = code_def in_range_def is_lower_def is_upper_def is_digit_def is_hex_def
  to_lower_def to_upper_def lower_char_def upper_char_def

text \<open>
  What the rest of the scripts relies on in an entry: a key in upper case, an RPC, and the token and
  factory in the address form of the chain's kind.
\<close>

definition pubkey_text :: "string option \<Rightarrow> bool" where
  "pubkey_text s = (case s of None \<Rightarrow> False | Some t \<Rightarrow>
     (case base58Decode t of None \<Rightarrow> False | Some b \<Rightarrow> length b = 32))"

definition address_text :: "string \<Rightarrow> string option \<Rightarrow> bool" where
  "address_text k s = (if k = ''evm'' then isEvmAddress s else if k = ''starknet'' then isFelt s
     else k = ''solana'' \<and> pubkey_text s)"

definition chain_ok :: "chain \<Rightarrow> bool" where
  "chain_ok c \<longleftrightarrow> wire (ch_key c) = ch_key c \<and> truthy (ch_rpc c) \<and>
     address_text (ch_kind c) (ch_usdc c) \<and>
     (ch_factory c = None \<or> address_text (ch_kind c) (ch_factory c)) \<and>
     (ch_kind c = ''solana'') = (ch_program c \<noteq> None) \<and>
     (ch_kind c = ''solana'') = (ch_keeper c \<noteq> None) \<and>
     (ch_kind c = ''evm'') = (ch_chainId c \<noteq> None)"

lemma INDEX_table: "INDEX = map_of
    [(CHR ''1'', 0), (CHR ''2'', 1), (CHR ''3'', 2), (CHR ''4'', 3), (CHR ''5'', 4),
     (CHR ''6'', 5), (CHR ''7'', 6), (CHR ''8'', 7), (CHR ''9'', 8), (CHR ''A'', 9),
     (CHR ''B'', 10), (CHR ''C'', 11), (CHR ''D'', 12), (CHR ''E'', 13), (CHR ''F'', 14),
     (CHR ''G'', 15), (CHR ''H'', 16), (CHR ''J'', 17), (CHR ''K'', 18), (CHR ''L'', 19),
     (CHR ''M'', 20), (CHR ''N'', 21), (CHR ''P'', 22), (CHR ''Q'', 23), (CHR ''R'', 24),
     (CHR ''S'', 25), (CHR ''T'', 26), (CHR ''U'', 27), (CHR ''V'', 28), (CHR ''W'', 29),
     (CHR ''X'', 30), (CHR ''Y'', 31), (CHR ''Z'', 32), (CHR ''a'', 33), (CHR ''b'', 34),
     (CHR ''c'', 35), (CHR ''d'', 36), (CHR ''e'', 37), (CHR ''f'', 38), (CHR ''g'', 39),
     (CHR ''h'', 40), (CHR ''i'', 41), (CHR ''j'', 42), (CHR ''k'', 43), (CHR ''m'', 44),
     (CHR ''n'', 45), (CHR ''o'', 46), (CHR ''p'', 47), (CHR ''q'', 48), (CHR ''r'', 49),
     (CHR ''s'', 50), (CHR ''t'', 51), (CHR ''u'', 52), (CHR ''v'', 53), (CHR ''w'', 54),
     (CHR ''x'', 55), (CHR ''y'', 56), (CHR ''z'', 57)]"
proof -
  have "[0..<58] = [0, 1, 2, 3, 4, 5, 6, 7, 8, 9, 10, 11, 12, 13, 14, 15, 16, 17, 18, 19, 20, 21, 22, 23, 24,
      25, 26, 27, 28, 29, 30, 31, 32, 33, 34, 35, 36, 37, 38, 39, 40, 41, 42, 43, 44, 45, 46,
      47, 48, 49, 50, 51, 52, 53, 54, 55, 56, 57]"
    by (simp add: upt_rec)
  then show ?thesis by (simp only: INDEX_def ALPHABET_def zip_Cons_Cons zip_Nil)
qed

lemma pubkey_text_eval:
  "pubkey_text (Some s) \<longleftrightarrow> s \<noteq> [] \<and> (case decode_loop 0 s of None \<Rightarrow> False
     | Some n \<Rightarrow> length (takeWhile ((=) CHR ''1'') s) + length (digits_of 256 n) = 32)"
  by (auto simp: pubkey_text_def base58Decode_def byte_loop_digits split: option.splits)

lemma mint_text: "pubkey_text (Some ''EPjFWdd5AufqSSqeM2qN1xzybapC8G4wEGGkZwyTDt1v'')"
  by (simp add: pubkey_text_eval INDEX_table digits_of_pos)

lemma chains_ok: "list_all chain_ok CHAINS"
  by (simp add: CHAINS_def chain_ok_def address_text_def mint_text isEvmAddress_def isFelt_def
      truthy_def wire_def char_eval)

end
