(* ===== verification/Identity.thy ===== *)
theory Identity
  imports Keccak Chains
begin

text \<open>
  \<open>scripts/identity.js\<close>: the canonical form of an address and the merchant identity each chain
  derives from it. The SHA-256 of the browser is the parameter \<open>sha\<close>.
\<close>

section \<open>Canonical forms\<close>

definition STARK_PRIME :: int where
  "STARK_PRIME = push_bit 251 1 + 17 * push_bit 192 1 + 1"

definition EVM_LIMIT :: int where
  "EVM_LIMIT = push_bit 160 1"

definition keccakTail20 :: "string \<Rightarrow> string" where
  "keccakTail20 str = ''0x'' @ drop 24 (hex_of_bytes (keccak256 (utf8 str)))"

definition canonicalEvm :: "string \<Rightarrow> string option" where
  "canonicalEvm value =
     (let t = js_trim value in
      if take 2 t = ''0x'' \<and> length (drop 2 t) = 40 \<and> list_all is_hex (drop 2 t)
      then Some (to_lower t) else None)"

definition canonicalFelt :: "string \<Rightarrow> string option" where
  "canonicalFelt value =
     (let hex = strip_0x (js_trim value) in
      if \<not> (1 \<le> length hex \<and> length hex \<le> 64 \<and> list_all is_hex hex) then None
      else case js_BigInt (''0x'' @ hex) of
        None \<Rightarrow> None
      | Some n \<Rightarrow>
          if n < EVM_LIMIT \<or> n \<ge> STARK_PRIME then None
          else Some (''0x'' @ pad_start 64 CHR ''0'' (to_lower hex)))"

definition is_base58 :: "char \<Rightarrow> bool" where
  "is_base58 c \<longleftrightarrow> in_range CHR ''1'' CHR ''9'' c \<or> in_range CHR ''A'' CHR ''H'' c \<or>
     in_range CHR ''J'' CHR ''N'' c \<or> in_range CHR ''P'' CHR ''Z'' c \<or>
     in_range CHR ''a'' CHR ''k'' c \<or> in_range CHR ''m'' CHR ''z'' c"

definition canonicalSolana :: "string \<Rightarrow> string option" where
  "canonicalSolana value =
     (let t = js_trim value in
      if \<not> (32 \<le> length t \<and> length t \<le> 44 \<and> list_all is_base58 t) then None
      else case base58Decode t of None \<Rightarrow> None | Some b \<Rightarrow> if length b = 32 then Some t else None)"

definition canonicalAddress :: "string \<Rightarrow> string \<Rightarrow> string option" where
  "canonicalAddress chainKey value =
     (case chainByKey chainKey of
        None \<Rightarrow> None
      | Some c \<Rightarrow>
          if ch_kind c = ''evm'' then canonicalEvm value
          else if ch_kind c = ''starknet'' then canonicalFelt value
          else canonicalSolana value)"

definition isValidAddress :: "string \<Rightarrow> string \<Rightarrow> bool" where
  "isValidAddress chainKey value \<longleftrightarrow> canonicalAddress chainKey value \<noteq> None"

section \<open>Merchant identity\<close>

definition to_BigInt :: "string \<Rightarrow> int result" where
  "to_BigInt s = (case js_BigInt s of None \<Rightarrow> Inl SyntaxError | Some n \<Rightarrow> Inr n)"

definition backendFeltString :: "string \<Rightarrow> string result" where
  "backendFeltString canonicalFeltValue =
     then_do (to_BigInt canonicalFeltValue) (\<lambda>n.
       let h = int_string 16 n in
       if BACKEND_FELT_FORMAT = ''min'' then Inr (''0x'' @ h)
       else if BACKEND_FELT_FORMAT = ''pad62'' then Inr (''0x'' @ pad_start 62 CHR ''0'' h)
       else Inr (''0x'' @ pad_start 64 CHR ''0'' h))"

definition hex_BigInt :: "string \<Rightarrow> string result" where
  "hex_BigInt s = then_do (to_BigInt s) (\<lambda>n. Inr (''0x'' @ int_string 16 n))"

definition merchantIdentity :: "(bytes \<Rightarrow> bytes) \<Rightarrow> string \<Rightarrow> string \<Rightarrow> string result" where
  "merchantIdentity sha chainKey identity =
     (let kind = map_option ch_kind (chainByKey chainKey);
          evm = canonicalEvm identity;
          felt = (if evm \<noteq> None then None else canonicalFelt identity);
          sol = (if evm \<noteq> None \<or> felt \<noteq> None then None else canonicalSolana identity) in
      if evm = None \<and> felt = None \<and> sol = None
      then Inl (Error ''Merchant identity must be a valid EVM, Starknet or Solana address.'')
      else then_do (if evm \<noteq> None then Inr (the evm) else if felt \<noteq> None then backendFeltString (the felt) else Inr (the sol)) (\<lambda>s.
        if kind = Some ''evm'' then Inr (if evm \<noteq> None then the evm else keccakTail20 s)
        else if kind = Some ''starknet'' then
          (if sol \<noteq> None then hex_BigInt (keccakTail20 s)
           else hex_BigInt (if evm \<noteq> None then the evm else the felt))
        else if kind = Some ''solana'' then
          Inr (if sol \<noteq> None then the sol else deriveForeignPubkey sha s)
        else Inl (Error (''Merchant identity for '' @ chainKey @ '' cannot be derived client-side''))))"

section \<open>Hexadecimal text\<close>

lemma lower_lower_char [simp]: "lower_char (lower_char c) = lower_char c"
proof (cases "is_upper c")
  case True
  then have "code (char_of (code c + 32)) = code c + 32" and "65 \<le> code c \<and> code c \<le> 90"
    by (auto simp: is_upper_def in_range_def code_def)
  then show ?thesis using True by (auto simp: lower_char_def is_upper_def in_range_def code_def)
qed (simp add: lower_char_def)

lemma to_lower_idem [simp]: "to_lower (to_lower s) = to_lower s"
  by (simp add: to_lower_def)

lemma digit_val_lower [simp]: "digit_val (lower_char c) = digit_val c"
proof (cases "is_upper c")
  case True
  then have c: "65 \<le> code c \<and> code c \<le> 90" and l: "code (lower_char c) = code c + 32"
    by (auto simp: lower_char_def is_upper_def in_range_def code_def)
  have e: "code CHR ''a'' = 97" "code CHR ''f'' = 102" "code CHR ''A'' = 65" "code CHR ''F'' = 70"
    "code CHR ''0'' = 48" "code CHR ''9'' = 57"
    by (simp_all add: code_def)
  show ?thesis using c by (auto simp: digit_val_def is_digit_def in_range_def l e)
qed (simp add: lower_char_def)

lemma is_hex_lower [simp]: "is_hex (lower_char c) = is_hex c"
  by (simp add: is_hex_digit_val)

lemma digit_num_lower [simp]: "digit_num (lower_char c) = digit_num c"
  by (simp add: digit_num_def)

lemma list_all_hex_lower [simp]: "list_all is_hex (to_lower h) = list_all is_hex h"
  by (simp add: to_lower_def list_all_iff)

lemma map_digit_num_lower [simp]: "map digit_num (to_lower h) = map digit_num h"
  by (simp add: to_lower_def)

lemma digit_char_code: "d < 16 \<Longrightarrow> digit_char d = char_of (if d < 10 then 48 + d else 87 + d)"
  by (drule less_16_cases) (auto simp: digit_char_def eq_commute [of _ "char_of n" for n] char_of_eq_iff)

lemma digit_char_num:
  assumes "is_hex c"
  shows "digit_char (digit_num c) = lower_char c"
proof -
  have e: "code CHR ''a'' = 97" "code CHR ''f'' = 102" "code CHR ''A'' = 65" "code CHR ''F'' = 70"
    "code CHR ''Z'' = 90" "code CHR ''0'' = 48" "code CHR ''9'' = 57"
    by (simp_all add: code_def)
  note defs = is_hex_def is_digit_def is_upper_def in_range_def lower_char_def digit_num_def digit_val_def e
  consider "is_digit c" | "in_range CHR ''a'' CHR ''f'' c" | "in_range CHR ''A'' CHR ''F'' c"
    using assms by (auto simp: is_hex_def)
  then show ?thesis
    by cases (auto simp: defs digit_char_code le_imp_diff_is_add add.commute)
qed

lemma to_lower_digits: "list_all is_hex h \<Longrightarrow> to_lower h = map digit_char (map digit_num h)"
  by (induction h) (auto simp: to_lower_def digit_char_num)

lemma pad_hex_value:
  assumes "list_all is_hex h" "length h \<le> k" "of_digits 16 (map digit_num h) = n" "n \<noteq> 0"
  shows "pad_start k CHR ''0'' (to_lower h) = pad_start k CHR ''0'' (nat_string 16 n)"
proof -
  let ?ds = "map digit_num h" and ?z = "length (takeWhile ((=) 0) (map digit_num h))"
  have "digits_of 16 n = dropWhile ((=) 0) ?ds"
    using digits_of_of_digits [of 16 ?ds] assms(3) by simp
  then have ds: "?ds = replicate ?z 0 @ digits_of 16 n"
    by (simp add: replicate_takeWhile)
  then have len: "length h = ?z + length (digits_of 16 n)"
    by (metis length_append length_map length_replicate)
  have "to_lower h = replicate ?z CHR ''0'' @ nat_string 16 n"
    unfolding to_lower_digits [OF assms(1)] by (subst ds) (simp add: nat_string_def assms(4) digit_char_def)
  moreover have "k - length h + ?z = k - length (digits_of 16 n)" using len assms(2) by simp
  ultimately show ?thesis
    using len by (simp add: pad_start_def nat_string_def assms(4) replicate_add [symmetric])
qed

lemma hex_nat_string [simp]: "list_all is_hex (nat_string 16 n)"
  using set_nat_string [of 16 _ n] by (fastforce simp: list_all_iff)

lemma to_lower_nat_string [simp]: "to_lower (nat_string 16 n) = nat_string 16 n"
  using set_nat_string [of 16 _ n] by (fastforce simp: to_lower_def intro: map_idI)

lemma hex_pad_start: "list_all is_hex (pad_start k CHR ''0'' h) = list_all is_hex h"
  by (auto simp: pad_start_def list_all_iff is_hex_def is_digit_def in_range_def code_def)

lemma to_lower_pad_start: "to_lower (pad_start k CHR ''0'' h) = pad_start k CHR ''0'' (to_lower h)"
  by (simp add: pad_start_def to_lower_def lower_char_def is_upper_def in_range_def code_def)

lemma trim_0x_hex: "list_all is_hex h \<Longrightarrow> js_trim (''0x'' @ h) = ''0x'' @ h"
  using digit_not_space by (intro js_trim_no_space) (auto simp: list_all_iff is_space_def code_def)

lemma strip_0x_prefix: "strip_0x (''0x'' @ h) = h"
  by (simp add: strip_0x_def to_lower_def lower_char_def is_upper_def in_range_def code_def)

lemma to_lower_0x [simp]: "to_lower (CHR ''0'' # CHR ''x'' # s) = CHR ''0'' # CHR ''x'' # to_lower s"
  by (simp add: to_lower_def lower_char_def is_upper_def in_range_def code_def)

lemma int_string_nat [simp]: "int_string b (int n) = nat_string b n"
  by (simp add: int_string_def)

lemma value_pad_start [simp]: "of_digits 16 (map digit_num (pad_start k CHR ''0'' h)) = of_digits 16 (map digit_num h)"
  by (simp add: pad_start_def)

section \<open>The canonicalizers\<close>

text \<open>
  A canonicalizer maps every accepted spelling to one text that it maps to itself. Its range is the
  set of its fixed points, and two spellings denote the same address exactly when their
  canonical texts agree.
\<close>

locale canonicalizer =
  fixes canon :: "string \<Rightarrow> string option"
  assumes idem: "canon v = Some c \<Longrightarrow> canon c = Some c"
begin

lemma fixed_points: "(\<exists>v. canon v = Some c) \<longleftrightarrow> canon c = Some c"
  using idem by auto

lemma canonical_inject: "canon v = Some c \<Longrightarrow> canon w = Some d \<Longrightarrow> canon c = canon d \<longleftrightarrow> c = d"
  using idem by (metis option.inject)

end

locale disjoint_canonicalizers = a: canonicalizer canon + b: canonicalizer canon'
  for canon canon' :: "string \<Rightarrow> string option" +
  assumes apart: "canon c = Some c \<Longrightarrow> canon' c = None"
begin

lemma apart': "canon v = Some c \<Longrightarrow> canon' w = Some d \<Longrightarrow> c \<noteq> d"
  using a.idem b.idem apart by (metis option.distinct(1))

end

definition felt_text :: "nat \<Rightarrow> string" where
  "felt_text n = ''0x'' @ pad_start 64 CHR ''0'' (nat_string 16 n)"

lemma canonicalEvm_Some: "canonicalEvm v = Some a \<longleftrightarrow>
    (\<exists>h. js_trim v = ''0x'' @ h \<and> length h = 40 \<and> list_all is_hex h \<and> a = ''0x'' @ to_lower h)"
proof
  assume a: "canonicalEvm v = Some a"
  let ?t = "js_trim v"
  have t: "take 2 ?t = ''0x''" "length (drop 2 ?t) = 40" "list_all is_hex (drop 2 ?t)" "a = to_lower ?t"
    using a by (auto simp: canonicalEvm_def Let_def split: if_splits)
  then have "?t = ''0x'' @ drop 2 ?t" by (metis append_take_drop_id)
  moreover from this have "a = ''0x'' @ to_lower (drop 2 ?t)"
    using t(4) to_lower_0x [of "drop 2 ?t"] by simp
  ultimately show "\<exists>h. ?t = ''0x'' @ h \<and> length h = 40 \<and> list_all is_hex h \<and> a = ''0x'' @ to_lower h"
    using t by blast
qed (auto simp: canonicalEvm_def)

lemma EVM_LIMIT_nat: "EVM_LIMIT = 2 ^ 160"
  by (simp add: EVM_LIMIT_def push_bit_eq_mult)

lemma STARK_PRIME_value: "STARK_PRIME = 2 ^ 251 + 17 * 2 ^ 192 + 1"
  by (simp add: STARK_PRIME_def push_bit_eq_mult)

lemma canonicalFelt_Some: "canonicalFelt v = Some a \<longleftrightarrow>
    (\<exists>n. 1 \<le> length (strip_0x (js_trim v)) \<and> length (strip_0x (js_trim v)) \<le> 64 \<and>
       parse_nat 16 (strip_0x (js_trim v)) = Some n \<and> EVM_LIMIT \<le> int n \<and> int n < STARK_PRIME \<and> a = felt_text n)"
proof -
  let ?h = "strip_0x (js_trim v)" and ?n = "of_digits 16 (map digit_num (strip_0x (js_trim v)))"
  show ?thesis
  proof (cases "1 \<le> length ?h \<and> length ?h \<le> 64 \<and> list_all is_hex ?h")
    case True
    then have h: "?h \<noteq> []" by auto
    have "EVM_LIMIT \<le> int ?n \<Longrightarrow> ''0x'' @ pad_start 64 CHR ''0'' (to_lower ?h) = felt_text ?n"
      using True pad_hex_value [of ?h 64 ?n] by (auto simp: felt_text_def EVM_LIMIT_nat)
    then show ?thesis
      using True h js_BigInt_hex [OF h]
      by (auto simp: canonicalFelt_def Let_def parse_nat_def digit_below_hex [abs_def])
  next
    case False
    then have "canonicalFelt v = None" by (simp add: canonicalFelt_def Let_def)
    then show ?thesis using False by (auto simp: parse_nat_def digit_below_hex [abs_def])
  qed
qed

lemma canonicalFelt_felt_text:
  assumes "EVM_LIMIT \<le> int n" "int n < STARK_PRIME"
  shows "canonicalFelt (felt_text n) = Some (felt_text n)"
proof -
  have "n < 16 ^ 64" using assms(2) by (simp add: STARK_PRIME_value)
  then have "length (nat_string 16 n) \<le> 64" by (intro length_nat_string) auto
  moreover have "strip_0x (js_trim (felt_text n)) = pad_start 64 CHR ''0'' (nat_string 16 n)"
    unfolding felt_text_def by (subst trim_0x_hex) (auto simp: hex_pad_start strip_0x_prefix)
  ultimately show ?thesis
    using assms by (auto simp: canonicalFelt_Some digit_below_hex [abs_def] digits_nat_string)
qed

lemma felt_text_inject [simp]: "felt_text m = felt_text n \<longleftrightarrow> m = n"
proof
  assume "felt_text m = felt_text n"
  then have "of_digits 16 (map digit_num (pad_start 64 CHR ''0'' (nat_string 16 m)))
      = of_digits 16 (map digit_num (pad_start 64 CHR ''0'' (nat_string 16 n)))"
    by (simp add: felt_text_def)
  then show "m = n" by (simp add: digits_nat_string)
qed simp

section \<open>Solana addresses\<close>

lemma is_base58_INDEX: "is_base58 c \<longleftrightarrow> INDEX c \<noteq> None"
proof -
  have "INDEX c \<noteq> None \<longleftrightarrow> c \<in> set ALPHABET"
    by (simp only: INDEX_def domIff [symmetric]) (simp add: dom_map_of_zip length_ALPHABET)
  also have "\<dots> \<longleftrightarrow> code c \<in> set (map code ALPHABET)"
    by (auto simp only: set_map code_inject image_iff)
  also have "\<dots> \<longleftrightarrow> is_base58 c"
  proof -
    have "map code ALPHABET = [49..<58] @ [65..<73] @ [74..<79] @ [80..<91] @ [97..<108] @ [109..<123]"
      by (simp add: ALPHABET_def code_def upt_rec)
    then have "code c \<in> set (map code ALPHABET) \<longleftrightarrow>
        code c \<in> {49..<58} \<union> {65..<73} \<union> {74..<79} \<union> {80..<91} \<union> {97..<108} \<union> {109..<123}"
      by (simp only: set_append set_upt Un_assoc)
    moreover have "code CHR ''1'' = 49" "code CHR ''9'' = 57" "code CHR ''A'' = 65" "code CHR ''H'' = 72"
      "code CHR ''J'' = 74" "code CHR ''N'' = 78" "code CHR ''P'' = 80" "code CHR ''Z'' = 90"
      "code CHR ''a'' = 97" "code CHR ''k'' = 107" "code CHR ''m'' = 109" "code CHR ''z'' = 122"
      by (simp_all add: code_def)
    moreover have "n < Suc m \<longleftrightarrow> n \<le> m" for n m :: nat by auto
    ultimately show ?thesis
      by (simp only: is_base58_def in_range_def Un_iff atLeastLessThan_iff) (simp add: less_Suc_eq_le numeral_eq_Suc)
  qed
  finally show ?thesis by simp
qed

lemma digits_of_length_gt: "2 \<le> b \<Longrightarrow> b ^ k \<le> n \<Longrightarrow> k < length (digits_of b n)"
proof -
  assume b: "2 \<le> b" "b ^ k \<le> n"
  have "n < b ^ length (digits_of b n)"
    using of_digits_less [of "digits_of b n" b] digits_of_less [of b _ n] b(1)
    by (auto simp: of_digits_digits_of)
  with b(2) have "b ^ k < b ^ length (digits_of b n)" by (rule le_less_trans)
  with b(1) show ?thesis by simp
qed

lemma base58_length_bound: "k \<le> 32 \<Longrightarrow> (256 :: nat) ^ k \<le> 58 ^ (k + 12)"
proof -
  assume k: "k \<le> 32"
  have "(256 :: nat) ^ 32 \<le> 58 ^ 44" by simp
  then have "(256 :: nat) ^ k * 256 ^ (32 - k) \<le> 58 ^ (k + 12) * 58 ^ (32 - k)"
    using k by (simp flip: power_add)
  also have "\<dots> \<le> 58 ^ (k + 12) * 256 ^ (32 - k)" by (simp add: power_mono)
  finally show ?thesis by simp
qed

lemma base58_key_length:
  assumes "length b = 32"
  shows "32 \<le> length (base58Encode b) \<and> length (base58Encode b) \<le> 44"
proof -
  let ?z = "length (takeWhile ((=) 0) b)" and ?w = "dropWhile ((=) 0) b"
  have z: "?z + length ?w = 32" using assms by (metis length_append takeWhile_dropWhile_id)
  have len: "length (base58Encode b) = ?z + length (digits_of 58 (be_nat b))"
    by (simp add: base58Encode_eq)
  have val: "be_nat b = be_nat ?w"
  proof -
    have "be_nat b = be_nat (replicate ?z 0 @ ?w)" by (simp only: replicate_takeWhile)
    also have "\<dots> = be_nat ?w"
      by (simp only: be_nat_def map_append map_replicate unsigned_0 of_digits_replicate_0)
    finally show ?thesis .
  qed
  have lt: "be_nat ?w < 256 ^ length ?w" by (rule be_nat_less)
  have "(256 :: nat) ^ length ?w \<le> 58 ^ (length ?w + 12)" using z by (intro base58_length_bound) simp
  then have "length (digits_of 58 (be_nat b)) \<le> length ?w + 12"
    using lt by (intro digits_of_length_le) (auto simp: val)
  moreover have "length ?w \<le> length (digits_of 58 (be_nat b))"
  proof (cases ?w)
    case (Cons x xs)
    then have "x \<noteq> 0" using hd_dropWhile [of "(=) 0" b] by auto
    then have "0 < unat x" by (simp add: unat_gt_0)
    then have "(256 :: nat) ^ length xs \<le> unat x * 256 ^ length xs" by simp
    from trans_le_add1 [OF this, of "of_digits 256 (map unat xs)"]
    have "(256 :: nat) ^ length xs \<le> be_nat ?w"
      by (simp add: Cons be_nat_def of_digits_Cons del: mult_le_cancel2)
    moreover have "(58 :: nat) ^ length xs \<le> 256 ^ length xs" by (simp add: power_mono)
    ultimately have "58 ^ length xs \<le> be_nat b" by (simp add: val)
    then show ?thesis using digits_of_length_gt [of 58 "length xs" "be_nat b"] by (simp add: Cons)
  next
    case Nil
    then show ?thesis by (simp only: list.size)
  qed
  ultimately show ?thesis using len z by simp
qed

lemma canonicalSolana_Some: "canonicalSolana v = Some a \<longleftrightarrow>
    (\<exists>b. length b = 32 \<and> js_trim v = base58Encode b \<and> a = base58Encode b)"
proof
  assume "\<exists>b. length b = 32 \<and> js_trim v = base58Encode b \<and> a = base58Encode b"
  then obtain b where b: "length b = 32" "js_trim v = base58Encode b" "a = base58Encode b" by auto
  moreover have "list_all is_base58 (base58Encode b)"
    using base58Encode_chars [of _ b] by (auto simp: list_all_iff is_base58_INDEX)
  moreover have "b \<noteq> []" using b(1) by auto
  ultimately show "canonicalSolana v = Some a"
    using base58_key_length [of b] by (simp add: canonicalSolana_def Let_def base58Decode_Encode)
qed (auto simp: canonicalSolana_def Let_def b58.dec_iff split: if_splits option.splits)

lemma trim_base58 [simp]: "js_trim (base58Encode b) = base58Encode b"
proof (rule js_trim_no_space)
  have "is_base58 c \<Longrightarrow> \<not> is_space c" for c
    by (auto simp: is_base58_def is_space_def in_range_def code_def)
  then show "\<forall>c \<in> set (base58Encode b). \<not> is_space c"
    using base58Encode_chars [of _ b] by (auto simp: is_base58_INDEX)
qed

lemma canonicalSolana_Encode [simp]: "length b = 32 \<Longrightarrow> canonicalSolana (base58Encode b) = Some (base58Encode b)"
  by (auto simp: canonicalSolana_Some)

section \<open>The canonicalizers of the model\<close>

lemma canonicalEvm_form:
  assumes "length h = 40" "list_all is_hex h"
  shows "canonicalEvm (''0x'' @ h) = Some (''0x'' @ to_lower h)"
  using assms trim_0x_hex [of h] by (auto simp: canonicalEvm_Some)

interpretation evm: canonicalizer canonicalEvm
proof
  fix v c
  assume "canonicalEvm v = Some c"
  then show "canonicalEvm c = Some c"
    using canonicalEvm_form [of "to_lower _"] by (auto simp: canonicalEvm_Some simp del: append_Cons append_Nil)
qed

interpretation felt: canonicalizer canonicalFelt
proof
  fix v c
  assume "canonicalFelt v = Some c"
  then obtain n where "EVM_LIMIT \<le> int n" "int n < STARK_PRIME" "c = felt_text n"
    by (auto simp: canonicalFelt_Some)
  then show "canonicalFelt c = Some c" by (simp add: canonicalFelt_felt_text)
qed

interpretation sol: canonicalizer canonicalSolana
  by unfold_locales (auto simp: canonicalSolana_Some)

lemma canonicalAddress_evm: "chainByKey k = Some c \<Longrightarrow> ch_kind c = ''evm'' \<Longrightarrow> canonicalAddress k = canonicalEvm"
  by (simp add: canonicalAddress_def fun_eq_iff)

interpretation addr: canonicalizer "canonicalAddress k"
proof
  fix v c
  assume "canonicalAddress k v = Some c"
  then show "canonicalAddress k c = Some c"
    using evm.idem felt.idem sol.idem by (auto simp: canonicalAddress_def split: option.splits if_splits)
qed

lemma zero_not_base58: "\<not> is_base58 CHR ''0''"
  by (simp add: is_base58_def in_range_def code_def)

lemma not_solana_0x: "canonicalSolana (''0x'' @ h) = None"
proof (cases "canonicalSolana (''0x'' @ h)")
  case (Some a)
  then obtain b where b: "js_trim (''0x'' @ h) = base58Encode b"
    by (auto simp: canonicalSolana_Some)
  have "js_trim (''0x'' @ h) \<noteq> [] \<and> hd (js_trim (''0x'' @ h)) = CHR ''0''"
    by (simp add: js_trim_def dropWhile_append is_space_def code_def)
  then have "CHR ''0'' \<in> set (base58Encode b)" using b by (metis hd_in_set)
  then show ?thesis using base58Encode_chars [of "CHR ''0''" b] zero_not_base58 by (simp add: is_base58_INDEX)
qed simp

lemma felt_not_evm: "canonicalEvm v = Some a \<Longrightarrow> canonicalFelt v = None"
proof (rule ccontr)
  assume "canonicalEvm v = Some a" "canonicalFelt v \<noteq> None"
  then obtain h n where h: "js_trim v = ''0x'' @ h" "length h = 40" and "parse_nat 16 (strip_0x (js_trim v)) = Some n"
    and n: "EVM_LIMIT \<le> int n"
    by (auto simp: canonicalEvm_Some canonicalFelt_Some)
  then have "parse_nat 16 h = Some n" by (simp add: strip_0x_prefix)
  then have "n < 16 ^ 40" using parse_nat_less [of 16 h n] h(2) by simp
  with n show False by (simp add: EVM_LIMIT_nat)
qed

interpretation evm_felt: disjoint_canonicalizers canonicalEvm canonicalFelt
  by unfold_locales (rule felt_not_evm)

interpretation evm_sol: disjoint_canonicalizers canonicalEvm canonicalSolana
  by unfold_locales (auto simp: canonicalEvm_Some not_solana_0x simp del: append_Cons append_Nil)

text \<open>
  The accepted spellings. An EVM address is never accepted as a Starknet one, no text with
  the hexadecimal prefix is a Solana address, and canonicalisation is idempotent on every chain: the canonical
  texts are exactly the texts that are their own canonical form.
\<close>

lemma canonical_forms:
  "(canonicalEvm v = None \<or> canonicalFelt v = None) \<and>
   canonicalSolana (''0x'' @ h) = None \<and>
   ((\<exists>w. canonicalAddress k w = Some a) \<longleftrightarrow> canonicalAddress k a = Some a)"
  using felt_not_evm [of v] addr.fixed_points [of k a] not_solana_0x [of h]
  by (cases "canonicalEvm v") auto

text \<open>
  The Starknet form. A text is accepted exactly when it is 1 to 64 hexadecimal digits, with or
  without the prefix, of a value between \<open>2^160\<close> and the field prime, and the canonical form
  depends on that value alone: the same felt with other case, prefix or leading zeros gives the
  same 66 characters, and different felts give different ones.
\<close>

lemma canonicalFelt_value:
  "(canonicalFelt v = Some a \<longleftrightarrow>
     (\<exists>n. parse_nat 16 (strip_0x (js_trim v)) = Some n \<and> length (strip_0x (js_trim v)) \<le> 64 \<and>
       2 ^ 160 \<le> n \<and> int n < 2 ^ 251 + 17 * 2 ^ 192 + 1 \<and> a = felt_text n)) \<and>
   (felt_text m = felt_text n \<longleftrightarrow> m = n)"
proof -
  have "2 ^ 160 \<le> n \<longleftrightarrow> EVM_LIMIT \<le> int n" for n :: nat
    by (simp add: EVM_LIMIT_nat)
  then show ?thesis
    by (auto simp: canonicalFelt_Some STARK_PRIME_value parse_nat_def Suc_le_eq split: if_splits)
qed

section \<open>What the chains derive\<close>

definition canon_identity :: "string \<Rightarrow> string option" where
  "canon_identity v =
     (case canonicalEvm v of Some a \<Rightarrow> Some a | None \<Rightarrow>
     (case canonicalFelt v of Some a \<Rightarrow> Some a | None \<Rightarrow> canonicalSolana v))"

lemma evm_felt_text: "canonicalEvm (felt_text n) = None"
proof -
  have "length (drop 2 (felt_text n)) \<ge> 64" by (simp add: felt_text_def)
  moreover have "js_trim (felt_text n) = felt_text n"
    unfolding felt_text_def by (rule trim_0x_hex) (simp add: hex_pad_start)
  ultimately show ?thesis by (simp add: canonicalEvm_def)
qed

lemma evm_base58: "canonicalEvm (base58Encode b) = None"
proof (cases "canonicalEvm (base58Encode b)")
  case (Some a)
  then have "CHR ''0'' \<in> set (base58Encode b)" by (auto simp: canonicalEvm_Some)
  then show ?thesis using base58Encode_chars [of "CHR ''0''" b] zero_not_base58 by (simp add: is_base58_INDEX)
qed simp

lemma canonicalFelt_trim: "js_trim v = js_trim w \<Longrightarrow> canonicalFelt v = canonicalFelt w"
  by (simp add: canonicalFelt_def)

lemma identity_cases:
  obtains (none) "canonicalEvm v = None" "canonicalFelt v = None" "canonicalSolana v = None"
  | (evm) h where "canonicalEvm v = Some (''0x'' @ h)" "length h = 40" "list_all is_hex h"
      "to_lower h = h" "canonicalEvm (''0x'' @ h) = Some (''0x'' @ h)"
  | (felt) n where "canonicalEvm v = None" "canonicalFelt v = Some (felt_text n)"
      "EVM_LIMIT \<le> int n" "int n < STARK_PRIME"
  | (sol) b where "canonicalEvm v = None" "canonicalFelt v = None" "canonicalSolana v = Some (base58Encode b)"
      "canonicalFelt (base58Encode b) = None" "length b = 32"
proof (cases "canonicalEvm v")
  case (Some a)
  then obtain h where "length h = 40" "list_all is_hex h" "a = ''0x'' @ to_lower h"
    by (auto simp: canonicalEvm_Some)
  then show ?thesis using Some evm.idem [OF Some] by (intro evm [of "to_lower h"]) auto
next
  case no_evm: None
  show ?thesis
  proof (cases "canonicalFelt v")
    case (Some a)
    then obtain n where "EVM_LIMIT \<le> int n" "int n < STARK_PRIME" "a = felt_text n"
      by (auto simp: canonicalFelt_Some)
    then show ?thesis using no_evm Some by (intro felt) auto
  next
    case no_felt: None
    show ?thesis
    proof (cases "canonicalSolana v")
      case (Some a)
      then obtain b where "length b = 32" "js_trim v = base58Encode b" "a = base58Encode b"
        by (auto simp: canonicalSolana_Some)
      then show ?thesis
        using no_evm no_felt Some canonicalFelt_trim [of v "base58Encode b"] by (intro sol [of b]) auto
    qed (use no_evm no_felt none in blast)
  qed
qed

text \<open>
  The identity ignores the spelling. Whatever form the announced address is written in, the merchant
  identity is the one of its canonical text, and an input without a canonical text is refused.
\<close>

lemma merchantIdentity_canonical:
  "merchantIdentity sha k v = (case canon_identity v of
     None \<Rightarrow> Inl (Error ''Merchant identity must be a valid EVM, Starknet or Solana address.'')
   | Some c \<Rightarrow> merchantIdentity sha k c)"
proof (cases v rule: identity_cases)
  case (felt n)
  then show ?thesis
    by (cases "chainByKey k")
      (simp_all add: merchantIdentity_def canon_identity_def evm_felt_text canonicalFelt_felt_text Let_def
        cong: if_cong)
next
  case (sol b)
  then show ?thesis
    by (cases "chainByKey k") (simp_all add: merchantIdentity_def canon_identity_def evm_base58 Let_def)
next
  case (evm h)
  then show ?thesis
    by (cases "chainByKey k") (simp_all add: merchantIdentity_def canon_identity_def Let_def)
qed (simp add: merchantIdentity_def canon_identity_def Let_def)

lemma hex_BigInt_0x:
  assumes "h \<noteq> []" "list_all is_hex h"
  shows "hex_BigInt (''0x'' @ h) = Inr (''0x'' @ nat_string 16 (of_digits 16 (map digit_num h)))"
  unfolding hex_BigInt_def to_BigInt_def js_BigInt_hex [OF assms] by simp

lemma hex_value_less: "list_all is_hex h \<Longrightarrow> of_digits 16 (map digit_num h) < 16 ^ length h"
  using of_digits_less [of "map digit_num h" 16] by simp

lemma drop_hex_of_bytes: "drop (2 * k) (hex_of_bytes bs) = hex_of_bytes (drop k bs)"
proof (induction k arbitrary: bs)
  case (Suc k)
  then show ?case by (cases bs) (simp_all add: hex_byte_digits)
qed simp

lemma keccakTail20_eq: "keccakTail20 s = ''0x'' @ hex_of_bytes (drop 12 (keccak256 (utf8 s)))"
  using drop_hex_of_bytes [of 12] by (simp add: keccakTail20_def)

lemma keccakTail20_form: "canonicalEvm (keccakTail20 s) = Some (keccakTail20 s)"
  unfolding keccakTail20_eq
  by (subst canonicalEvm_form) (simp_all add: hex_of_bytes_hex)

lemma pad_start_Nil: "pad_start k c s = [] \<longleftrightarrow> k = 0 \<and> s = []"
  by (auto simp: pad_start_def)

lemma felt_text_BigInt: "to_BigInt (felt_text n) = Inr (int n)"
  unfolding felt_text_def to_BigInt_def
  by (subst js_BigInt_hex) (auto simp: hex_pad_start digits_nat_string pad_start_Nil)

lemma backendFeltString_felt_text: "backendFeltString (felt_text n) = Inr (felt_text n)"
  by (simp add: backendFeltString_def felt_text_BigInt BACKEND_FELT_FORMAT_def) (simp add: felt_text_def)

lemma hex_BigInt_20:
  assumes "length h = 40" "list_all is_hex h"
  shows "\<exists>n. hex_BigInt (''0x'' @ h) = Inr (''0x'' @ nat_string 16 n) \<and> n < 2 ^ 160"
proof -
  have "of_digits 16 (map digit_num h) < 16 ^ 40" using hex_value_less [OF assms(2)] assms(1) by simp
  then have "of_digits 16 (map digit_num h) < 2 ^ 160" by simp
  moreover have "h \<noteq> []" using assms(1) by auto
  ultimately show ?thesis using hex_BigInt_0x [of h] assms(2) by blast
qed

lemma chain_kind: "chainByKey k = Some c \<Longrightarrow> ch_kind c = ''evm'' \<or> ch_kind c = ''starknet'' \<or> ch_kind c = ''solana''"
  using chains_ok
  by (auto simp: chainByKey_Some list_all_iff chain_ok_def address_text_def split: if_splits)

definition identity_ok :: "string \<Rightarrow> string \<Rightarrow> bool" where
  "identity_ok kind m =
     (if kind = ''evm'' then canonicalEvm m = Some m
      else if kind = ''starknet'' then
        (take 2 m = ''0x'' \<and> (case parse_nat 16 (drop 2 m) of None \<Rightarrow> False
          | Some n \<Rightarrow> int n < STARK_PRIME \<and> drop 2 m = nat_string 16 n))
      else canonicalSolana m = Some m)"

text \<open>
  C39: the identity fits its chain. For every announced address with a canonical text and every chain of
  the table an identity is derived, and it is a 20-byte address on an EVM chain, a field element
  in its shortest text on Starknet and a 32-byte public key on Solana.
\<close>

theorem merchantIdentity_valid:
  assumes "\<forall>x. length (sha x) = 32" "chainByKey k = Some c" "canon_identity v \<noteq> None"
  shows "\<exists>m. merchantIdentity sha k v = Inr m \<and> identity_ok (ch_kind c) m"
proof (cases v rule: identity_cases)
  case none
  then show ?thesis using assms(3) by (simp add: canon_identity_def)
next
  case (evm h)
  obtain n where "hex_BigInt (''0x'' @ h) = Inr (''0x'' @ nat_string 16 n)" "n < 2 ^ 160"
    using hex_BigInt_20 evm by blast
  then show ?thesis
    using evm chain_kind [OF assms(2)] assms(1,2)
    by (auto simp: merchantIdentity_def identity_ok_def STARK_PRIME_value deriveForeignPubkey_def)
next
  case (felt n)
  then have "hex_BigInt (felt_text n) = Inr (''0x'' @ nat_string 16 n)"
    by (simp add: hex_BigInt_def felt_text_BigInt)
  then show ?thesis
    using felt chain_kind [OF assms(2)] assms(1,2)
    by (auto simp: merchantIdentity_def identity_ok_def backendFeltString_felt_text keccakTail20_form
        deriveForeignPubkey_def)
next
  case (sol b)
  let ?h = "hex_of_bytes (drop 12 (keccak256 (utf8 (base58Encode b))))"
  obtain n where "hex_BigInt (keccakTail20 (base58Encode b)) = Inr (''0x'' @ nat_string 16 n)" "n < 2 ^ 160"
    using hex_BigInt_20 [of ?h] by (auto simp: keccakTail20_eq hex_of_bytes_hex)
  then show ?thesis
    using sol chain_kind [OF assms(2)] assms(2)
    by (auto simp: merchantIdentity_def identity_ok_def keccakTail20_form STARK_PRIME_value)
qed

theorem merchantIdentity_valid_witness:
  "\<exists>m. merchantIdentity keccak256 ''STARKNET'' (''0x'' @ replicate 40 CHR ''A'') = Inr m \<and>
     identity_ok ''starknet'' m"
proof -
  obtain c where c: "chainByKey ''STARKNET'' = Some c" "ch_kind c = ''starknet''"
    by (simp add: chainByKey_def CHAINS_def wire_def char_eval)
  have "canonicalEvm (''0x'' @ replicate 40 CHR ''A'') = Some (''0x'' @ to_lower (replicate 40 CHR ''A''))"
    by (rule canonicalEvm_form) (simp_all add: list_all_iff char_eval)
  then have "canon_identity (''0x'' @ replicate 40 CHR ''A'') \<noteq> None"
    unfolding canon_identity_def by simp
  then show ?thesis using merchantIdentity_valid [OF _ c(1)] c(2) by fastforce
qed


end
