(* ===== verification/Route.thy ===== *)
theory Route
  imports Identity
begin

text \<open>
  The cross-chain settlement route of \<open>scripts/identity.js\<close>, which is part of every receiver
  address: the settlement chain and recipient as 32-byte values for the EVM factory and as felts
  for the Starknet one.
\<close>

definition MASK128 :: int where
  "MASK128 = push_bit 128 1 - 1"

definition ZERO32 :: string where
  "ZERO32 = ''0x'' @ replicate 64 CHR ''0''"

section \<open>The route\<close>

record route =
  chain32 :: string
  recipient32 :: string
  chainFelt :: string
  low :: string
  high :: string

definition recipient_hex :: "(bytes \<Rightarrow> bytes) \<Rightarrow> chain \<Rightarrow> string \<Rightarrow> string result" where
  "recipient_hex sha targetCfg recipient =
     (if ch_kind targetCfg = ''solana'' then
        then_do (if SOLANA_CCTP_RECIPIENT = ''ata'' then usdcAta sha recipient (case ch_usdc targetCfg of None \<Rightarrow> [] | Some u \<Rightarrow> u) else Inr recipient)
          (\<lambda>key. case base58Decode key of None \<Rightarrow> Inl TypeError | Some b \<Rightarrow> Inr (''0x'' @ hex_of_bytes b))
      else Inr (''0x'' @ pad_start 64 CHR ''0'' (if take 2 recipient = ''0x'' then drop 2 recipient else recipient)))"

definition cctpRoute :: "(bytes \<Rightarrow> bytes) \<Rightarrow> string \<Rightarrow> string \<Rightarrow> string \<Rightarrow> route result" where
  "cctpRoute sha sourceChain targetChain targetRecipient =
     (if targetChain = [] \<or> targetRecipient = [] then Inl (Error ''Settlement chain and recipient are required'')
      else let source = wire sourceChain; target = wire targetChain in
      if source = target then
        Inr \<lparr>chain32 = ZERO32, recipient32 = ZERO32, chainFelt = ''0x0'', low = ''0x0'', high = ''0x0''\<rparr>
      else case chainByKey target of
        None \<Rightarrow> Inl (Error (''Unknown settlement chain '' @ target))
      | Some targetCfg \<Rightarrow>
          (case canonicalAddress target targetRecipient of
             None \<Rightarrow> Inl (Error (''Invalid '' @ target @ '' settlement recipient''))
           | Some recipient \<Rightarrow>
               let nameHex = hex_of_bytes (utf8 target) in
               then_do (recipient_hex sha targetCfg recipient) (\<lambda>r32.
               then_do (to_BigInt r32) (\<lambda>r.
               Inr \<lparr>chain32 = ''0x'' @ pad_end 64 CHR ''0'' nameHex, recipient32 = r32,
                    chainFelt = ''0x'' @ nameHex,
                    low = ''0x'' @ int_string 16 (r AND MASK128),
                    high = ''0x'' @ int_string 16 (drop_bit 128 r)\<rparr>))))"

section \<open>The parts of a route\<close>

definition word64 :: "string \<Rightarrow> bool" where
  "word64 h \<longleftrightarrow> length h = 64 \<and> list_all is_hex h \<and> to_lower h = h"

lemma of_digits_inject:
  assumes "of_digits b ds = of_digits b es" "length ds = length es" "2 \<le> b"
    "\<forall>d \<in> set ds. d < b" "\<forall>d \<in> set es. d < b"
  shows "ds = es"
proof -
  let ?z = "\<lambda>ds. length (takeWhile ((=) 0) (ds :: nat list))"
  have tail: "dropWhile ((=) 0) ds = dropWhile ((=) 0) es"
    using assms digits_of_of_digits [of b ds] digits_of_of_digits [of b es] by simp
  have "?z ds + length (dropWhile ((=) 0) ds) = ?z es + length (dropWhile ((=) 0) es)"
    using assms(2) by (simp only: length_append [symmetric] takeWhile_dropWhile_id)
  then have "?z ds = ?z es" using tail by simp
  then show ?thesis using tail replicate_takeWhile [of 0 ds] replicate_takeWhile [of 0 es] by metis
qed

lemma word64_inject:
  assumes "word64 h" "word64 g" "of_digits 16 (map digit_num h) = of_digits 16 (map digit_num g)"
  shows "h = g"
proof -
  have "map digit_num h = map digit_num g"
    using assms by (intro of_digits_inject [of 16]) (auto simp: word64_def)
  then show ?thesis using assms to_lower_digits by (metis word64_def)
qed

lemma canonical_recipient:
  assumes "chainByKey t = Some c" "canonicalAddress t r = Some a" "recipient_hex sha c a = Inr x"
  obtains h where "x = ''0x'' @ h" "word64 h"
proof (cases "ch_kind c = ''solana''")
  case True
  then have "canonicalSolana r = Some a" using assms by (simp add: canonicalAddress_def)
  then obtain b where "a = base58Encode b" "length b = 32" by (auto simp: canonicalSolana_Some)
  moreover from this have "b \<noteq> []" by auto
  ultimately show ?thesis
    using assms(3) True that [of "hex_of_bytes b"]
    by (auto simp: recipient_hex_def SOLANA_CCTP_RECIPIENT_def base58Decode_Encode word64_def hex_of_bytes_hex)
next
  case False
  then have x: "x = ''0x'' @ pad_start 64 CHR ''0'' (if take 2 a = ''0x'' then drop 2 a else a)"
    using assms(3) by (simp add: recipient_hex_def)
  have "canonicalEvm r = Some a \<or> canonicalFelt r = Some a"
    using assms False chain_kind [OF assms(1)] by (auto simp: canonicalAddress_def split: if_splits)
  then obtain g where g: "a = ''0x'' @ g" "length g \<le> 64" "list_all is_hex g" "to_lower g = g"
  proof
    assume "canonicalFelt r = Some a"
    then obtain n where n: "int n < STARK_PRIME" "a = felt_text n" by (auto simp: canonicalFelt_Some)
    then have "n < 16 ^ 64" by (simp add: STARK_PRIME_value)
    then have "length (nat_string 16 n) \<le> 64" by (intro length_nat_string) auto
    then show thesis
      using n(2) that [of "pad_start 64 CHR ''0'' (nat_string 16 n)"]
      by (simp add: felt_text_def hex_pad_start to_lower_pad_start)
  qed (use that in \<open>auto simp: canonicalEvm_Some\<close>)
  then show ?thesis
    using x that [of "pad_start 64 CHR ''0'' g"]
    by (simp add: word64_def hex_pad_start to_lower_pad_start)
qed

lemma recipient_hex_inject:
  assumes "chainByKey t = Some c" "canonicalAddress t r = Some a" "canonicalAddress t r' = Some a'"
    and eq: "recipient_hex sha c a = Inr x" "recipient_hex sha c a' = Inr x"
  shows "a = a'"
proof -
  have pad: "pad_start 64 CHR ''0'' g = pad_start 64 CHR ''0'' g' \<Longrightarrow> length g = length g' \<Longrightarrow> g = g'" for g g'
    by (simp add: pad_start_def)
  consider "ch_kind c = ''solana''" | "ch_kind c = ''evm''" | "ch_kind c = ''starknet''"
    using chain_kind [OF assms(1)] by blast
  then show ?thesis
  proof cases
    case 1
    then obtain b b' where "a = base58Encode b" "a' = base58Encode b'" "length b = 32" "length b' = 32"
      using assms(1-3) by (auto simp: canonicalAddress_def canonicalSolana_Some)
    moreover from this have "b \<noteq> []" "b' \<noteq> []" by auto
    ultimately show ?thesis
      using eq 1 by (auto simp: recipient_hex_def SOLANA_CCTP_RECIPIENT_def base58Decode_Encode
          dest: hex_of_bytes_inject)
  next
    case 2
    then obtain g g' where "a = ''0x'' @ g" "a' = ''0x'' @ g'" "length g = 40" "length g' = 40"
      using assms(1-3) by (auto simp: canonicalAddress_def canonicalEvm_Some)
    moreover have "recipient_hex sha c a = recipient_hex sha c a'" using eq by simp
    ultimately show ?thesis using 2 pad [of g g'] by (simp add: recipient_hex_def)
  next
    case 3
    then obtain n n' where "a = felt_text n" "a' = felt_text n'" "int n < STARK_PRIME" "int n' < STARK_PRIME"
      using assms(1-3) by (auto simp: canonicalAddress_def canonicalFelt_Some)
    moreover from this have "n < 16 ^ 64" "n' < 16 ^ 64" by (simp_all add: STARK_PRIME_value)
    then have "length (nat_string 16 n) \<le> 64" "length (nat_string 16 n') \<le> 64"
      by (auto intro: length_nat_string)
    moreover have "recipient_hex sha c a = recipient_hex sha c a'" using eq by simp
    ultimately show ?thesis
      using 3 pad [of "drop 2 a" "drop 2 a'"] by (simp add: recipient_hex_def felt_text_def)
  qed
qed

lemma MASK128_mask: "MASK128 = mask 128"
  by (simp add: MASK128_def mask_eq_exp_minus_1 push_bit_eq_mult)

lemma mask128: "int n AND MASK128 = int (n mod 2 ^ 128)"
  unfolding MASK128_mask take_bit_eq_mask [symmetric] take_bit_eq_mod by (simp add: zmod_int)

lemma shift128: "drop_bit 128 (int n) = int (n div 2 ^ 128)"
  by (simp add: drop_bit_eq_div zdiv_int)

definition zero_route :: route where
  "zero_route = \<lparr>chain32 = ZERO32, recipient32 = ZERO32, chainFelt = ''0x0'', low = ''0x0'', high = ''0x0''\<rparr>"

definition remote_route :: "string \<Rightarrow> string \<Rightarrow> route" where
  "remote_route t h =
     (let n = of_digits 16 (map digit_num h) in
      \<lparr>chain32 = ''0x'' @ pad_end 64 CHR ''0'' (hex_of_bytes (utf8 t)), recipient32 = ''0x'' @ h,
       chainFelt = ''0x'' @ hex_of_bytes (utf8 t),
       low = ''0x'' @ nat_string 16 (n mod 2 ^ 128), high = ''0x'' @ nat_string 16 (n div 2 ^ 128)\<rparr>)"

lemma word64_BigInt: "word64 h \<Longrightarrow> to_BigInt (''0x'' @ h) = Inr (int (of_digits 16 (map digit_num h)))"
  unfolding to_BigInt_def by (subst js_BigInt_hex) (auto simp: word64_def)

lemma canonicalAddress_wire [simp]: "canonicalAddress (wire t) = canonicalAddress t"
  by (simp add: canonicalAddress_def fun_eq_iff)

lemma cctpRoute_cases:
  assumes "cctpRoute sha s t r = Inr x"
  obtains (same) "wire s = wire t" "x = zero_route"
  | (other) c a h where "wire s \<noteq> wire t" "chainByKey t = Some c" "canonicalAddress t r = Some a"
      "recipient_hex sha c a = Inr (''0x'' @ h)" "word64 h" "x = remote_route (wire t) h"
proof (cases "wire s = wire t")
  case True
  then show ?thesis using assms same by (simp add: cctpRoute_def zero_route_def split: if_splits)
next
  case False
  then obtain c a r32 n where p: "chainByKey t = Some c" "canonicalAddress t r = Some a"
      "recipient_hex sha c a = Inr r32" "to_BigInt r32 = Inr n"
    and x: "x = \<lparr>chain32 = ''0x'' @ pad_end 64 CHR ''0'' (hex_of_bytes (utf8 (wire t))), recipient32 = r32,
       chainFelt = ''0x'' @ hex_of_bytes (utf8 (wire t)),
       low = ''0x'' @ int_string 16 (n AND MASK128), high = ''0x'' @ int_string 16 (drop_bit 128 n)\<rparr>"
    using assms by (auto simp: cctpRoute_def then_do_Inr Let_def split: if_splits option.splits)
  obtain h where h: "r32 = ''0x'' @ h" "word64 h" using canonical_recipient [OF p(1-3)] .
  then have "n = int (of_digits 16 (map digit_num h))" using p(4) word64_BigInt by simp
  then show ?thesis
    using other [OF False p(1,2)] p(3) h x
    by (simp add: remote_route_def mask128 shift128 Let_def del: of_nat_mod of_nat_div)
qed

lemma name_prefix:
  assumes "code c < 128" "code d < 128"
  shows "take 6 (''0x'' @ pad_end 64 CHR ''0'' (hex_of_bytes (utf8 (c # d # t)))) = ''0x'' @ hex_of_bytes (utf8 [c, d])"
    "take 6 (''0x'' @ hex_of_bytes (utf8 (c # d # t))) = ''0x'' @ hex_of_bytes (utf8 [c, d])"
  using assms by (simp_all add: utf8_def utf8_char_def pad_end_def hex_byte_digits)

lemma name_bytes: "hex_of_bytes (utf8 [CHR ''B'', CHR ''A'']) = ''4241''"
  "hex_of_bytes (utf8 [CHR ''E'', CHR ''T'']) = ''4554''" "hex_of_bytes (utf8 [CHR ''A'', CHR ''R'']) = ''4152''"
  "hex_of_bytes (utf8 [CHR ''M'', CHR ''O'']) = ''4d4f''" "hex_of_bytes (utf8 [CHR ''S'', CHR ''T'']) = ''5354''"
  "hex_of_bytes (utf8 [CHR ''S'', CHR ''O'']) = ''534f''"
  by (simp_all add: utf8_def utf8_char_def code_def hex_byte_digits digit_char_def)

lemma route_names:
  "distinct (map (take 6) (ZERO32 # map (\<lambda>t. ''0x'' @ pad_end 64 CHR ''0'' (hex_of_bytes (utf8 t))) CHAIN_KEYS))"
  "distinct (map (take 6) (''0x0'' # map (\<lambda>t. ''0x'' @ hex_of_bytes (utf8 t)) CHAIN_KEYS))"
proof -
  have z: "take 6 ZERO32 = ''0x0000''" "take 6 ''0x0'' = ''0x0''"
    by (simp_all add: ZERO32_def numeral_eq_Suc)
  have c: "code CHR ''B'' < 128" "code CHR ''A'' < 128" "code CHR ''E'' < 128" "code CHR ''T'' < 128"
    "code CHR ''R'' < 128" "code CHR ''M'' < 128" "code CHR ''O'' < 128" "code CHR ''S'' < 128"
    by (simp_all add: code_def)
  show "distinct (map (take 6) (ZERO32 # map (\<lambda>t. ''0x'' @ pad_end 64 CHR ''0'' (hex_of_bytes (utf8 t))) CHAIN_KEYS))"
    "distinct (map (take 6) (''0x0'' # map (\<lambda>t. ''0x'' @ hex_of_bytes (utf8 t)) CHAIN_KEYS))"
    unfolding chain_keys list.map name_prefix(1) [OF c(1,2)] name_prefix(1) [OF c(3,4)] name_prefix(1) [OF c(2,5)]
      name_prefix(1) [OF c(6,7)] name_prefix(1) [OF c(8,4)] name_prefix(1) [OF c(8,7)]
      name_prefix(2) [OF c(1,2)] name_prefix(2) [OF c(3,4)] name_prefix(2) [OF c(2,5)]
      name_prefix(2) [OF c(6,7)] name_prefix(2) [OF c(8,4)] name_prefix(2) [OF c(8,7)] name_bytes z
    by simp_all
qed

lemma chain_parts:
  assumes "t \<in> set CHAIN_KEYS" "t' \<in> set CHAIN_KEYS"
  shows "chain32 (remote_route t h) = chain32 (remote_route t' h') \<longleftrightarrow> t = t'"
    "chainFelt (remote_route t h) = chainFelt (remote_route t' h') \<longleftrightarrow> t = t'"
    "chain32 (remote_route t h) \<noteq> chain32 zero_route" "chainFelt (remote_route t h) \<noteq> chainFelt zero_route"
proof -
  have inj: "inj_on (\<lambda>t. ''0x'' @ pad_end 64 CHR ''0'' (hex_of_bytes (utf8 t))) (set CHAIN_KEYS)"
      "inj_on (\<lambda>t. ''0x'' @ hex_of_bytes (utf8 t)) (set CHAIN_KEYS)"
    and z: "ZERO32 \<notin> (\<lambda>t. ''0x'' @ pad_end 64 CHR ''0'' (hex_of_bytes (utf8 t))) ` set CHAIN_KEYS"
      "''0x0'' \<notin> (\<lambda>t. ''0x'' @ hex_of_bytes (utf8 t)) ` set CHAIN_KEYS"
    using route_names [unfolded distinct_map [of "take 6"], THEN conjunct1]
    by (simp_all only: distinct.simps distinct_map set_map simp_thms)
  show "chain32 (remote_route t h) = chain32 (remote_route t' h') \<longleftrightarrow> t = t'"
    "chainFelt (remote_route t h) = chainFelt (remote_route t' h') \<longleftrightarrow> t = t'"
    using inj assms by (auto simp: remote_route_def Let_def dest: inj_onD)
  show "chain32 (remote_route t h) \<noteq> chain32 zero_route" "chainFelt (remote_route t h) \<noteq> chainFelt zero_route"
    using z assms(1) by (force simp: image_iff remote_route_def zero_route_def Let_def)+
qed

lemma nat_string_inject: "nat_string 16 m = nat_string 16 n \<longleftrightarrow> m = n"
proof
  assume "nat_string 16 m = nat_string 16 n"
  then have "of_digits 16 (map digit_num (nat_string 16 m)) = of_digits 16 (map digit_num (nat_string 16 n))"
    by simp
  then show "m = n" by (simp add: digits_nat_string)
qed simp

lemma word64_split:
  assumes "word64 h" "word64 h'"
  shows "low (remote_route t h) = low (remote_route t' h') \<and> high (remote_route t h) = high (remote_route t' h')
    \<longleftrightarrow> h = h'"
proof
  let ?n = "\<lambda>h. of_digits 16 (map digit_num h)"
  assume "low (remote_route t h) = low (remote_route t' h') \<and> high (remote_route t h) = high (remote_route t' h')"
  then have "?n h mod 2 ^ 128 = ?n h' mod 2 ^ 128" "?n h div 2 ^ 128 = ?n h' div 2 ^ 128"
    by (simp_all add: remote_route_def Let_def nat_string_inject)
  then have "?n h = ?n h'" by (metis div_mult_mod_eq)
  then show "h = h'" using assms by (rule_tac word64_inject)
qed (simp add: remote_route_def Let_def)

lemma chain_key_in: "chainByKey t = Some c \<Longrightarrow> wire t \<in> set CHAIN_KEYS"
  using chainByKey_None [of t] by auto

definition same_settlement :: "string \<Rightarrow> string \<Rightarrow> string \<Rightarrow> string \<Rightarrow> string \<Rightarrow> bool" where
  "same_settlement s t r t' r' \<longleftrightarrow>
     wire t = wire t' \<and> (wire t = wire s \<or> canonicalAddress t r = canonicalAddress t' r')"

text \<open>
  The route determines the settlement. Two routes from one chain have the same 32-byte pair, and
  likewise the same felt triple, exactly when they settle on the same chain, and to the same
  canonical recipient unless that chain is the source itself. So a receiver address pinned to a
  route cannot pay out anywhere else.
\<close>

lemma cctpRoute_determines:
  assumes "cctpRoute sha s t r = Inr x" "cctpRoute sha s t' r' = Inr y"
  shows "(chain32 x = chain32 y \<and> recipient32 x = recipient32 y \<longleftrightarrow> same_settlement s t r t' r') \<and>
    (chainFelt x = chainFelt y \<and> low x = low y \<and> high x = high y \<longleftrightarrow> same_settlement s t r t' r')"
  using assms(1)
proof (cases rule: cctpRoute_cases)
  case same
  from assms(2) show ?thesis
  proof (cases rule: cctpRoute_cases)
    case same
    then show ?thesis using \<open>wire s = wire t\<close> \<open>x = zero_route\<close> by (simp add: same_settlement_def)
  next
    case (other c a h)
    then show ?thesis
      using \<open>wire s = wire t\<close> \<open>x = zero_route\<close> chain_parts(3,4) [OF chain_key_in chain_key_in]
      by (fastforce simp: same_settlement_def)
  qed
next
  case (other c a h)
  note x = this
  from assms(2) show ?thesis
  proof (cases rule: cctpRoute_cases)
    case same
    then show ?thesis
      using x chain_parts(3,4) [OF chain_key_in chain_key_in]
      by (fastforce simp: same_settlement_def)
  next
    case (other c' a' h')
    note y = this
    have "h = h' \<longleftrightarrow> canonicalAddress t r = canonicalAddress t' r'" if t: "wire t = wire t'"
    proof
      have c: "chainByKey t = chainByKey t'" "canonicalAddress t = canonicalAddress t'"
        using t by (metis chainByKey_wire, metis canonicalAddress_wire)
      then have cc: "c = c'" using x(2) y(2) by simp
      assume "h = h'"
      then have "a = a'"
        using recipient_hex_inject [OF x(2,3) _ x(4), of r' a'] y(3,4) c(2) cc by simp
      then show "canonicalAddress t r = canonicalAddress t' r'" using x(3) y(3) by simp
    next
      assume "canonicalAddress t r = canonicalAddress t' r'"
      moreover have "c = c'" using x(2) y(2) t by (metis chainByKey_wire option.inject)
      ultimately show "h = h'" using x(3,4) y(3,4) by simp
    qed
    then show ?thesis
      using x(1,6) y(1,6) word64_split [OF x(5) y(5)] chain_parts(1,2) [OF chain_key_in [OF x(2)] chain_key_in [OF y(2)]]
      by (auto simp: same_settlement_def) (auto simp: remote_route_def Let_def)
  qed
qed

definition recipient_word :: "string \<Rightarrow> string \<Rightarrow> string" where
  "recipient_word kind a = (if kind = ''solana'' then hex_of_bytes (the (base58Decode a))
     else pad_start 64 CHR ''0'' (drop 2 a))"

lemma recipient_word:
  assumes "chainByKey t = Some c" "canonicalAddress t r = Some a"
  shows "recipient_hex sha c a = Inr (''0x'' @ recipient_word (ch_kind c) a) \<and> word64 (recipient_word (ch_kind c) a)"
proof (cases "ch_kind c = ''solana''")
  case True
  then obtain b where "a = base58Encode b" "length b = 32"
    using assms by (auto simp: canonicalAddress_def canonicalSolana_Some)
  moreover from this have "b \<noteq> []" by auto
  ultimately show ?thesis
    using True by (simp add: recipient_hex_def recipient_word_def SOLANA_CCTP_RECIPIENT_def base58Decode_Encode
        word64_def hex_of_bytes_hex)
next
  case False
  then have "canonicalEvm r = Some a \<or> canonicalFelt r = Some a"
    using assms chain_kind [OF assms(1)] by (auto simp: canonicalAddress_def split: if_splits)
  then have "take 2 a = ''0x''" by (auto simp: canonicalEvm_Some canonicalFelt_Some felt_text_def)
  then have "recipient_hex sha c a = Inr (''0x'' @ recipient_word (ch_kind c) a)"
    using False by (simp add: recipient_hex_def recipient_word_def)
  moreover from canonical_recipient [OF assms this] have "word64 (recipient_word (ch_kind c) a)"
    by (metis same_append_eq)
  ultimately show ?thesis by simp
qed

lemma cctpRoute_total:
  assumes "wire s \<noteq> wire t" "chainByKey t = Some c" "canonicalAddress t r = Some a" "t \<noteq> []" "r \<noteq> []"
  shows "cctpRoute sha s t r = Inr (remote_route (wire t) (recipient_word (ch_kind c) a))"
  using assms recipient_word [OF assms(2,3)]
  by (simp add: cctpRoute_def word64_BigInt remote_route_def Let_def mask128 shift128
      del: of_nat_mod of_nat_div append_Cons append_Nil)

text \<open>
  The route, completely. Settling on the source chain is the zero route; otherwise a known chain and a
  valid recipient always give a route, whose first half is the chain's name and whose second is the
  recipient as 64 digits, the felt form being the same number split at 128 bits; everything else
  is refused with the reason.
\<close>

lemma cctpRoute_spec:
  "cctpRoute sha s t r =
     (if t = [] \<or> r = [] then Inl (Error ''Settlement chain and recipient are required'')
      else if wire s = wire t then Inr zero_route
      else case chainByKey t of
        None \<Rightarrow> Inl (Error (''Unknown settlement chain '' @ wire t))
      | Some c \<Rightarrow>
          (case canonicalAddress t r of
             None \<Rightarrow> Inl (Error (''Invalid '' @ wire t @ '' settlement recipient''))
           | Some a \<Rightarrow> Inr (remote_route (wire t) (recipient_word (ch_kind c) a))))"
proof (cases "chainByKey t")
  case c: (Some c)
  show ?thesis
  proof (cases "canonicalAddress t r")
    case (Some a)
    then show ?thesis
      using c cctpRoute_total [OF _ c Some] by (simp add: cctpRoute_def [of _ _ t] zero_route_def)
  qed (simp add: cctpRoute_def zero_route_def c)
qed (simp add: cctpRoute_def zero_route_def)

lemma chain_MONAD: "\<exists>c. chainByKey ''MONAD'' = Some c \<and> ch_kind c = ''evm''"
  by (simp add: chainByKey_def CHAINS_def wire_def char_eval)

lemma cctpRoute_determines_witness:
  "\<exists>x y. cctpRoute keccak256 ''BASE'' ''MONAD'' (''0x'' @ replicate 40 CHR ''1'') = Inr x \<and>
     cctpRoute keccak256 ''BASE'' ''MONAD'' (''0x'' @ replicate 40 CHR ''2'') = Inr y \<and>
     chain32 x = chain32 y \<and> recipient32 x \<noteq> recipient32 y"
proof -
  obtain c where c: "chainByKey ''MONAD'' = Some c" "ch_kind c = ''evm''" using chain_MONAD by auto
  have a: "canonicalAddress ''MONAD'' (''0x'' @ replicate 40 CHR ''1'') = Some (''0x'' @ replicate 40 CHR ''1'')"
    "canonicalAddress ''MONAD'' (''0x'' @ replicate 40 CHR ''2'') = Some (''0x'' @ replicate 40 CHR ''2'')"
    unfolding canonicalAddress_evm [OF c]
    by (subst canonicalEvm_form; simp add: list_all_iff char_eval)+
  have w: "wire ''BASE'' \<noteq> wire ''MONAD''" by (simp add: wire_def char_eval)
  obtain x y where xy: "cctpRoute keccak256 ''BASE'' ''MONAD'' (''0x'' @ replicate 40 CHR ''1'') = Inr x"
      "cctpRoute keccak256 ''BASE'' ''MONAD'' (''0x'' @ replicate 40 CHR ''2'') = Inr y"
    using cctpRoute_total [OF w c(1) a(1)] cctpRoute_total [OF w c(1) a(2)] by auto
  have "\<not> same_settlement ''BASE'' ''MONAD'' (''0x'' @ replicate 40 CHR ''1'') ''MONAD'' (''0x'' @ replicate 40 CHR ''2'')"
    using a w by (simp add: same_settlement_def)
  moreover have "chain32 x = chain32 y"
    using cctpRoute_total [OF w c(1) a(1)] cctpRoute_total [OF w c(1) a(2)] xy by (auto simp: remote_route_def Let_def)
  ultimately show ?thesis using cctpRoute_determines [OF xy] xy by blast
qed

end
