(* ===== verification/Rpc.thy ===== *)
theory Rpc
  imports Json Route
begin

text \<open>
  The transport and the receiver prediction of \<open>scripts/onchain.js\<close>. The network is a parameter: the
  answer of a URL to a method and its parameters, or a failure of \<open>fetch\<close>. Receiver addresses
  decide where money goes, so the properties here are about what one lying source can do.
\<close>

section \<open>Transport\<close>

text \<open>An HTTP answer: the status and the parsed body, \<open>None\<close> when the body is not JSON.\<close>

datatype http = Fetch_failed string | Response nat "json option"

type_synonym net = "string \<Rightarrow> string \<Rightarrow> json list \<Rightarrow> http"

definition RPC_PROXY_ENABLED :: bool where
  "RPC_PROXY_ENABLED = True"

definition RPC_PROXY_PATH :: string where
  "RPC_PROXY_PATH = ''/api/v1/rpc''"

definition int_of_num :: "json option \<Rightarrow> int option" where
  "int_of_num v = (case v of Some (JNum n) \<Rightarrow> Some n | _ \<Rightarrow> None)"

definition is_obj_or_array :: "json option \<Rightarrow> bool" where
  "is_obj_or_array v = (case v of Some (JObj kvs) \<Rightarrow> True | Some (JArr xs) \<Rightarrow> True | _ \<Rightarrow> False)"

definition unwrap :: "http \<Rightarrow> string \<Rightarrow> json option result" where
  "unwrap res method =
     (case res of
        Fetch_failed m \<Rightarrow> Inl (Error m)
      | Response status body \<Rightarrow>
          (case body of
             None \<Rightarrow> Inl (Error (method @ '': invalid response (HTTP '' @ nat_string 10 status @ '')''))
           | Some json \<Rightarrow>
               let err = opt_prop (Some json) ''error'' in
               if is_obj_or_array err then
                 Inl (RpcError (if js_truthy (opt_prop err ''message'') then coerce (opt_prop err ''message'')
                        else method @ '' failed'') (int_of_num (opt_prop err ''code'')))
               else if \<not> (200 \<le> status \<and> status \<le> 299) then
                 Inl (Error (method @ '': HTTP '' @ nat_string 10 status
                   @ (if js_truthy err then '' '' @ coerce err else [])))
               else if \<not> js_truthy (Some json) then Inl (Error (method @ '': malformed response''))
               else (case json of
                   JObj kvs \<Rightarrow> if map_of kvs ''result'' = None then Inl (Error (method @ '': malformed response''))
                     else Inr (map_of kvs ''result'')
                 | JArr xs \<Rightarrow> Inl (Error (method @ '': malformed response''))
                 | _ \<Rightarrow> Inl TypeError)))"

definition rpcCall :: "net \<Rightarrow> string \<Rightarrow> string \<Rightarrow> json list \<Rightarrow> json option result" where
  "rpcCall net url method params = unwrap (net url method params) method"

definition proxy_url :: "chain \<Rightarrow> string" where
  "proxy_url c = RPC_PROXY_PATH @ ''/'' @ to_lower (ch_key c)"

definition proxyCall :: "net \<Rightarrow> chain \<Rightarrow> string \<Rightarrow> json list \<Rightarrow> json option result" where
  "proxyCall net c method params = unwrap (net (proxy_url c) method params) method"

definition direct_url :: "chain \<Rightarrow> string" where
  "direct_url c = (case ch_rpc c of None \<Rightarrow> ''null'' | Some u \<Rightarrow> u)"

definition requireChain :: "string \<Rightarrow> chain result" where
  "requireChain chainKey = (case chainByKey chainKey of
      None \<Rightarrow> Inl (Error (''Unknown chain '' @ chainKey)) | Some c \<Rightarrow> Inr c)"

datatype source = Default | Direct | ProxyOnly

fun is_rpc_error :: "js_error \<Rightarrow> bool" where
  "is_rpc_error (RpcError m c) = True"
| "is_rpc_error e = False"

definition rpc :: "net \<Rightarrow> string \<Rightarrow> string \<Rightarrow> json list \<Rightarrow> source \<Rightarrow> json option result" where
  "rpc net chainKey method params src =
     then_do (requireChain chainKey) (\<lambda>c.
       if src = Direct \<or> \<not> RPC_PROXY_ENABLED then rpcCall net (direct_url c) method params
       else (case proxyCall net c method params of
           Inr v \<Rightarrow> Inr v
         | Inl e \<Rightarrow> if is_rpc_error e \<or> src = ProxyOnly then Inl e
             else rpcCall net (direct_url c) method params))"

section \<open>Receiver prediction\<close>

definition EVM_PREDICT_SELECTOR :: string where
  "EVM_PREDICT_SELECTOR = ''0xf05b69dd''"

definition STARKNET_PREDICT_SELECTOR :: string where
  "STARKNET_PREDICT_SELECTOR = ''0x28d4d0fe094b456bae50b2d871903c993ba153ec519b7f4f1c71252fa4304cf''"

definition pad32 :: "string \<Rightarrow> string" where
  "pad32 hex = pad_start 64 CHR ''0'' (to_lower (strip_0x hex))"

definition hex64 :: "string \<Rightarrow> bool" where
  "hex64 s \<longleftrightarrow> take 2 s = ''0x'' \<and> length (drop 2 s) = 64 \<and> list_all is_hex (drop 2 s)"

definition opt_string :: "string option \<Rightarrow> json" where
  "opt_string s = (case s of None \<Rightarrow> JNull | Some t \<Rightarrow> JStr t)"

definition predictVia :: "net \<Rightarrow> chain \<Rightarrow> string \<Rightarrow> route \<Rightarrow> source \<Rightarrow> json result" where
  "predictVia net c merchant route src =
     (if ch_kind c = ''evm'' then
        let data = EVM_PREDICT_SELECTOR @ pad32 merchant @ drop 2 (chain32 route) @ drop 2 (recipient32 route) in
        then_do (rpc net (ch_key c) ''eth_call''
            [JObj [(''to'', opt_string (ch_factory c)), (''data'', JStr data)], JStr ''latest''] src) (\<lambda>out.
          if \<not> hex64 (template out) then Inl (Error ''unexpected predict result'')
          else Inr (JStr (''0x'' @ drop (length (template out) - 40) (template out))))
      else if ch_kind c = ''starknet'' then
        then_do (rpc net (ch_key c) ''starknet_call''
            [JObj [(''contract_address'', opt_string (ch_factory c)),
                   (''entry_point_selector'', JStr STARKNET_PREDICT_SELECTOR),
                   (''calldata'', JArr [JStr merchant, JStr (chainFelt route), JStr (low route), JStr (high route)])],
             JStr ''latest''] src) (\<lambda>out.
          if \<not> js_truthy (opt_elem out 0) then Inl (Error ''empty predict result'')
          else Inr (the (opt_elem out 0)))
      else Inl (Error (ch_name c @ '' receivers cannot be predicted client-side'')))"

text \<open>\<open>BigInt(v)\<close> of any value.\<close>

definition BigInt_json :: "json \<Rightarrow> int result" where
  "BigInt_json v = (case v of
      JNum n \<Rightarrow> Inr n
    | JStr s \<Rightarrow> to_BigInt s
    | JBool b \<Rightarrow> Inr (if b then 1 else 0)
    | JReal s \<Rightarrow> Inl (Error ''RangeError'')
    | JInf \<Rightarrow> Inl (Error ''RangeError'')
    | JArr xs \<Rightarrow> to_BigInt (js_String v)
    | JObj kvs \<Rightarrow> Inl SyntaxError
    | JNull \<Rightarrow> Inl TypeError)"

definition sameAddress :: "string \<Rightarrow> json \<Rightarrow> json \<Rightarrow> bool result" where
  "sameAddress kind a b =
     (if kind = ''evm'' then
        (case (a, b) of (JStr s, JStr t) \<Rightarrow> Inr (to_lower s = to_lower t) | _ \<Rightarrow> Inl TypeError)
      else then_do (BigInt_json a) (\<lambda>x. then_do (BigInt_json b) (\<lambda>y. Inr (x = y))))"

fun message :: "js_error \<Rightarrow> string" where
  "message (Error m) = m"
| "message TypeError = ''TypeError''"
| "message SyntaxError = ''SyntaxError''"
| "message (LaneError m) = m"
| "message (RpcError m c) = m"
| "message (ApiError s m r) = m"

text \<open>
  Two settled promises, one per source; \<open>name\<close> is the thing that is confirmed. Both callers of the
  script have this same body.
\<close>

definition confirm :: "chain \<Rightarrow> string \<Rightarrow> json result \<Rightarrow> json result \<Rightarrow> json result" where
  "confirm c name viaProxy viaDirect =
     (case (viaProxy, viaDirect) of
        (Inr p, Inr d) \<Rightarrow>
          then_do (sameAddress (ch_kind c) p d) (\<lambda>same.
            if \<not> same then Inl (Error (''The '' @ ch_name c @ '' '' @ name @ '' differs between RPC sources; refusing to continue.''))
            else Inr d)
      | _ \<Rightarrow>
          if STRICT_PREDICTION then
            (let why = (case viaProxy of Inl e \<Rightarrow> message e | Inr p \<Rightarrow> (case viaDirect of Inl e \<Rightarrow> message e | Inr d \<Rightarrow> [])) in
             Inl (Error (''Could not confirm the '' @ ch_name c @ '' '' @ name @
               '' with two independent RPC sources ('' @ why @ ''). Try again.'')))
          else (case viaDirect of Inr d \<Rightarrow> Inr d | Inl e \<Rightarrow> (case viaProxy of Inr p \<Rightarrow> Inr p | Inl e' \<Rightarrow> Inl e)))"

definition predictReceiver :: "net \<Rightarrow> string \<Rightarrow> string \<Rightarrow> route \<Rightarrow> json result" where
  "predictReceiver net chainKey merchant route =
     then_do (requireChain chainKey) (\<lambda>c.
       if \<not> RPC_PROXY_ENABLED then predictVia net c merchant route Direct
       else confirm c ''receiver'' (predictVia net c merchant route ProxyOnly) (predictVia net c merchant route Direct))"

text \<open>
  The stealth factory call; the ABI coding of the third-party library is the pair of parameters
  \<open>encode\<close> and \<open>decode\<close>.
\<close>

record abi =
  encode :: "string \<Rightarrow> string \<Rightarrow> string \<Rightarrow> string result"
  decode :: "json option \<Rightarrow> string result"

definition stealthAddressVia ::
    "abi \<Rightarrow> net \<Rightarrow> chain \<Rightarrow> string \<Rightarrow> string \<Rightarrow> string \<Rightarrow> string \<Rightarrow> source \<Rightarrow> json result" where
  "stealthAddressVia ab net c factory client cosigner salt src =
     then_do (encode ab client cosigner salt) (\<lambda>data.
     then_do (rpc net (ch_key c) ''eth_call'' [JObj [(''to'', JStr factory), (''data'', JStr data)], JStr ''latest''] src) (\<lambda>result.
     then_do (decode ab result) (\<lambda>address. Inr (JStr (to_lower address)))))"

definition predictStealthAccount ::
    "abi \<Rightarrow> net \<Rightarrow> string \<Rightarrow> string \<Rightarrow> string \<Rightarrow> string \<Rightarrow> string option \<Rightarrow> json result" where
  "predictStealthAccount ab net chainKey client cosigner salt factory =
     then_do (requireChain chainKey) (\<lambda>c.
       if ch_kind c \<noteq> ''evm'' then Inl (Error (ch_name c @ '' does not use an EVM stealth factory.''))
       else if \<not> truthy factory then Inl (Error (''The '' @ ch_name c @ '' StealthAccountFactory address is not configured.''))
       else if \<not> (to_lower (take 2 salt) = ''0x'' \<and> length (drop 2 salt) = 64 \<and> list_all is_hex (drop 2 salt))
         then Inl (Error ''Invalid private-lane salt.'')
       else if \<not> RPC_PROXY_ENABLED then stealthAddressVia ab net c (the factory) client cosigner salt Direct
       else confirm c ''stealth account''
         (stealthAddressVia ab net c (the factory) client cosigner salt ProxyOnly)
         (stealthAddressVia ab net c (the factory) client cosigner salt Direct))"

section \<open>What an answer is\<close>

definition answers :: "http \<Rightarrow> json \<Rightarrow> bool" where
  "answers h v = (case h of
      Response status (Some (JObj kvs)) \<Rightarrow> 200 \<le> status \<and> status \<le> 299 \<and> map_of kvs ''result'' = Some v \<and>
        \<not> is_obj_or_array (map_of kvs ''error'')
    | _ \<Rightarrow> False)"

definition node_error :: "http \<Rightarrow> bool" where
  "node_error h = (case h of
      Response status (Some (JObj kvs)) \<Rightarrow> is_obj_or_array (map_of kvs ''error'') | _ \<Rightarrow> False)"

lemma is_obj_or_array_None [simp]: "\<not> is_obj_or_array None"
  by (simp add: is_obj_or_array_def)

lemma unwrap_Inr: "unwrap h m = Inr r \<longleftrightarrow> (\<exists>v. r = Some v \<and> answers h v)"
proof (cases h)
  case (Response status body)
  show ?thesis
  proof (cases body)
    case (Some j)
    then show ?thesis using Response by (cases j) (auto simp: unwrap_def answers_def Let_def opt_prop_def js_truthy_def)
  qed (simp add: unwrap_def answers_def Response)
qed (simp add: unwrap_def answers_def)

lemma unwrap_rpc_error: "(\<exists>e. unwrap h m = Inl e \<and> is_rpc_error e) \<longleftrightarrow> node_error h"
proof (cases h)
  case (Response status body)
  show ?thesis
  proof (cases body)
    case (Some j)
    then show ?thesis using Response by (cases j) (auto simp: unwrap_def node_error_def Let_def opt_prop_def js_truthy_def)
  qed (simp add: unwrap_def node_error_def Response)
qed (simp add: unwrap_def node_error_def)

lemma requireChain_Inr [simp]: "requireChain k = Inr c \<longleftrightarrow> chainByKey k = Some c"
  by (simp add: requireChain_def split: option.splits)

lemma chainByKey_ch_key: "chainByKey k = Some c \<Longrightarrow> chainByKey (ch_key c) = Some c"
  by (metis chainByKey_Some chainByKey_wire)

text \<open>
  A read. The default read succeeds exactly with the proxy's answer, or, when the proxy gave neither an answer
  nor a JSON-RPC error, with the answer of the public node; so an error of the node is never masked
  by asking elsewhere. A cross-check read uses one source only.
\<close>

lemma rpc_outcome:
  "(rpc net k m p Default = Inr r \<longleftrightarrow> (\<exists>c v. chainByKey k = Some c \<and> r = Some v \<and>
      (answers (net (proxy_url c) m p) v \<or>
       \<not> node_error (net (proxy_url c) m p) \<and> unwrap (net (proxy_url c) m p) m \<notin> range Inr \<and>
       answers (net (direct_url c) m p) v))) \<and>
   (rpc net k m p ProxyOnly = Inr r \<longleftrightarrow> (\<exists>c v. chainByKey k = Some c \<and> r = Some v \<and> answers (net (proxy_url c) m p) v)) \<and>
   (rpc net k m p Direct = Inr r \<longleftrightarrow> (\<exists>c v. chainByKey k = Some c \<and> r = Some v \<and> answers (net (direct_url c) m p) v))"
proof (cases "chainByKey k")
  case None
  then show ?thesis by (simp add: rpc_def requireChain_def)
next
  case (Some c)
  let ?p = "net (proxy_url c) m p" and ?d = "net (direct_url c) m p"
  have ans: "answers h v \<longleftrightarrow> unwrap h m = Inr (Some v)" for h v
    using unwrap_Inr [of h m "Some v"] by auto
  have undef: "unwrap h m \<noteq> Inr None" for h
    using unwrap_Inr [of h m None] by auto
  have rpc: "rpc net k m p ProxyOnly = unwrap ?p m" "rpc net k m p Direct = unwrap ?d m"
    "rpc net k m p Default = (case unwrap ?p m of Inr v \<Rightarrow> Inr v | Inl e \<Rightarrow> if is_rpc_error e then Inl e else unwrap ?d m)"
    using Some by (auto simp: rpc_def requireChain_def RPC_PROXY_ENABLED_def rpcCall_def proxyCall_def split: sum.splits)
  have only: "unwrap h m = Inr r \<longleftrightarrow> (\<exists>v. r = Some v \<and> answers h v)" for h
    by (rule unwrap_Inr)
  show ?thesis
  proof (cases "unwrap ?p m")
    case (Inl e)
    then have "is_rpc_error e \<longleftrightarrow> node_error ?p" using unwrap_rpc_error [of ?p m] by auto
    moreover have "\<not> answers ?p v" for v using Inl by (simp add: ans)
    ultimately show ?thesis using Some Inl only [of ?d] by (auto simp: rpc)
  next
    case (Inr x)
    then have "unwrap ?p m \<in> range Inr" by simp
    then show ?thesis using Some Inr only [of ?d] only [of ?p] by (auto simp: rpc)
  qed
qed

section \<open>Two sources\<close>

lemma rpc_cong:
  "chainByKey k = Some c \<Longrightarrow> net (direct_url c) = net' (direct_url c) \<Longrightarrow> rpc net k m p Direct = rpc net' k m p Direct"
  "chainByKey k = Some c \<Longrightarrow> net (proxy_url c) = net' (proxy_url c) \<Longrightarrow> rpc net k m p ProxyOnly = rpc net' k m p ProxyOnly"
  by (simp_all add: rpc_def requireChain_def RPC_PROXY_ENABLED_def rpcCall_def proxyCall_def split: sum.splits)

lemma predictVia_cong:
  assumes "chainByKey k = Some c"
  shows "net (direct_url c) = net' (direct_url c) \<Longrightarrow> predictVia net c m r Direct = predictVia net' c m r Direct"
    "net (proxy_url c) = net' (proxy_url c) \<Longrightarrow> predictVia net c m r ProxyOnly = predictVia net' c m r ProxyOnly"
  using rpc_cong [OF chainByKey_ch_key [OF assms], of net net'] by (simp_all add: predictVia_def)

lemma confirm_Inr: "confirm c n p d = Inr v \<longleftrightarrow>
    (\<exists>a. p = Inr a \<and> d = Inr v \<and> sameAddress (ch_kind c) a v = Inr True)"
  by (cases p; cases d) (auto simp: confirm_def STRICT_PREDICTION_def then_do_Inr)

lemma sameAddress_via:
  "sameAddress k a v = Inr True \<Longrightarrow> sameAddress k a w = Inr True \<Longrightarrow> sameAddress k v w = Inr True"
  by (auto simp: sameAddress_def then_do_Inr split: if_splits json.splits)

lemma predictReceiver_Inr: "predictReceiver net k m r = Inr v \<longleftrightarrow>
    (\<exists>c a. chainByKey k = Some c \<and> predictVia net c m r ProxyOnly = Inr a \<and> predictVia net c m r Direct = Inr v \<and>
       sameAddress (ch_kind c) a v = Inr True)"
  by (simp add: predictReceiver_def RPC_PROXY_ENABLED_def then_do_Inr confirm_Inr)

lemma agreeing_predictions:
  assumes "chainByKey k = Some c"
    and "net (direct_url c) = net' (direct_url c) \<or> net (proxy_url c) = net' (proxy_url c)"
    and "predictReceiver net k m r = Inr v" "predictReceiver net' k m r = Inr w"
  shows "v = w \<or> sameAddress (ch_kind c) v w = Inr True"
  using assms(2)
proof
  assume "net (direct_url c) = net' (direct_url c)"
  then have "predictVia net c m r Direct = predictVia net' c m r Direct"
    by (rule predictVia_cong(1) [OF assms(1)])
  then show ?thesis using assms(1,3,4) by (auto simp: predictReceiver_Inr)
next
  assume "net (proxy_url c) = net' (proxy_url c)"
  then have "predictVia net c m r ProxyOnly = predictVia net' c m r ProxyOnly"
    by (rule predictVia_cong(2) [OF assms(1)])
  then obtain a where "sameAddress (ch_kind c) a v = Inr True" "sameAddress (ch_kind c) a w = Inr True"
    using assms(1,3,4) by (auto simp: predictReceiver_Inr)
  then show ?thesis by (blast intro: sameAddress_via)
qed

text \<open>
  C3: one lying source cannot redirect money. Take two networks that differ in what the proxy says, or in what the
  public node says, but not in both. If both yield a receiver, it is the same address.
\<close>

theorem one_source_cannot_redirect:
  assumes "chainByKey k = Some c"
    and "net (direct_url c) = net' (direct_url c) \<or> net (proxy_url c) = net' (proxy_url c)"
    and "predictReceiver net k m r = Inr v" "predictReceiver net' k m r = Inr w"
  shows "v = w \<or> sameAddress (ch_kind c) v w = Inr True"
  using agreeing_predictions [OF assms] .

definition echo_net :: "string \<Rightarrow> string \<Rightarrow> net" where
  "echo_net proxied direct url m p =
     Response 200 (Some (JObj [(''result'', JStr (if take 4 url = ''/api'' then proxied else direct))]))"

lemma echo_predict:
  assumes "hex64 s" "hex64 t" "to_lower s = to_lower t"
  shows "predictReceiver (echo_net s t) ''BASE'' m r = Inr (JStr (''0x'' @ drop (length t - 40) t))"
proof -
  obtain c where c: "chainByKey ''BASE'' = Some c" "ch_kind c = ''evm''" "direct_url c = ''https://mainnet.base.org''"
    by (simp add: chainByKey_def CHAINS_def wire_def char_eval direct_url_def)
  have "rpc (echo_net s t) (ch_key c) me p Direct = Inr (Some (JStr t))"
    "rpc (echo_net s t) (ch_key c) me p ProxyOnly = Inr (Some (JStr s))" for me p
    using chainByKey_ch_key [OF c(1)] c(3)
    by (simp_all add: rpc_def requireChain_def rpcCall_def proxyCall_def unwrap_def echo_net_def
        js_truthy_def RPC_PROXY_ENABLED_def proxy_url_def RPC_PROXY_PATH_def)
  then have "predictVia (echo_net s t) c m r Direct = Inr (JStr (''0x'' @ drop (length t - 40) t))"
    "predictVia (echo_net s t) c m r ProxyOnly = Inr (JStr (''0x'' @ drop (length s - 40) s))"
    using assms by (simp_all add: predictVia_def c(2) template_def Let_def)
  moreover have "to_lower (drop (length s - 40) s) = to_lower (drop (length t - 40) t)"
    using assms(3) by (metis drop_map length_to_lower to_lower_def)
  ultimately show ?thesis using c by (auto simp: predictReceiver_Inr sameAddress_def)
qed

theorem one_source_cannot_redirect_witness:
  "\<exists>c v w. chainByKey ''BASE'' = Some c \<and>
     predictReceiver (echo_net (''0x'' @ replicate 64 CHR ''A'') (''0x'' @ replicate 64 CHR ''a'')) ''BASE'' ''0x12'' zero_route = Inr v \<and>
     predictReceiver (echo_net (''0x'' @ replicate 64 CHR ''a'') (''0x'' @ replicate 64 CHR ''a'')) ''BASE'' ''0x12'' zero_route = Inr w \<and>
     (v = w \<or> sameAddress (ch_kind c) v w = Inr True)"
proof -
  let ?A = "''0x'' @ replicate 64 CHR ''A''" and ?a = "''0x'' @ replicate 64 CHR ''a''"
  have h: "hex64 ?A" "hex64 ?a" "to_lower ?A = to_lower ?a"
    by (simp_all add: hex64_def list_all_iff char_eval char_of_eq_iff)
  obtain c where c: "chainByKey ''BASE'' = Some c" "direct_url c = ''https://mainnet.base.org''"
    by (simp add: chainByKey_def CHAINS_def wire_def char_eval direct_url_def)
  have "echo_net ?A ?a (direct_url c) = echo_net ?a ?a (direct_url c)"
    by (simp add: echo_net_def fun_eq_iff c(2))
  then show ?thesis
    using one_source_cannot_redirect [OF c(1) _ echo_predict [OF h(1,2,3)] echo_predict [OF h(2,2) refl]]
      echo_predict [OF h(1,2,3)] echo_predict [OF h(2,2) refl] c(1) by blast
qed

lemma stealthAddressVia_cong:
  assumes "chainByKey k = Some c"
  shows "net (direct_url c) = net' (direct_url c) \<Longrightarrow>
      stealthAddressVia ab net c f cl co sa Direct = stealthAddressVia ab net' c f cl co sa Direct"
    "net (proxy_url c) = net' (proxy_url c) \<Longrightarrow>
      stealthAddressVia ab net c f cl co sa ProxyOnly = stealthAddressVia ab net' c f cl co sa ProxyOnly"
  using rpc_cong [OF chainByKey_ch_key [OF assms], of net net'] by (simp_all add: stealthAddressVia_def)

end
