(* ===== verification/Store.thy ===== *)
theory Store
  imports Json Identity "HOL-Library.AList"
begin

text \<open>
  \<open>scripts/store.js\<close>: lanes, deposit history and scan cursors in the browser's local storage, and
  the import of a backup file. The storage is a map from key to the parsed value; an absent item and
  an unreadable one are both \<open>None\<close>, since every read replaces either by its fallback. Whether the
  browser accepts a write (quota, blocked storage) is the parameter \<open>quota\<close>.
\<close>

section \<open>The storage interface\<close>

type_synonym storage = "string \<Rightarrow> json option"
type_synonym quota = "storage \<Rightarrow> string \<Rightarrow> json \<Rightarrow> bool"

text \<open>
  What the component relies on: an accepted write is read back and touches no other key, a refused one
  changes nothing.
\<close>

locale kv_store =
  fixes rd :: "'s \<Rightarrow> string \<Rightarrow> json option" and wr :: "'s \<Rightarrow> string \<Rightarrow> json \<Rightarrow> 's \<times> bool"
  assumes wr_same: "wr s k v = (s', True) \<Longrightarrow> rd s' k = Some v"
    and wr_other: "wr s k v = (s', b) \<Longrightarrow> k' \<noteq> k \<Longrightarrow> rd s' k' = rd s k'"
    and wr_refused: "wr s k v = (s', False) \<Longrightarrow> s' = s"
begin

lemma wr_read: "wr s k v = (s', b) \<Longrightarrow> rd s' k' = (if b \<and> k' = k then Some v else rd s k')"
  using wr_same [of s k v s'] wr_other [of s k v s' b k'] wr_refused [of s k v s'] by (cases b) auto

lemma wr_twice: "wr s k v = (s1, b1) \<Longrightarrow> wr s1 k2 v2 = (s2, b2) \<Longrightarrow> k2 \<noteq> k \<Longrightarrow>
    rd s2 k = (if b1 then Some v else rd s k)"
  by (simp add: wr_read)

end

definition read_item :: "storage \<Rightarrow> string \<Rightarrow> json \<Rightarrow> json" where
  "read_item st key fallback = (case st key of None \<Rightarrow> fallback | Some v \<Rightarrow> v)"

definition write_item :: "quota \<Rightarrow> storage \<Rightarrow> string \<Rightarrow> json \<Rightarrow> storage \<times> bool" where
  "write_item quota st key value = (if quota st key value then (st(key \<mapsto> value), True) else (st, False))"

interpretation local_storage: kv_store "\<lambda>st k. st k" "write_item quota"
  by unfold_locales (auto simp: write_item_def split: if_splits)

definition K_lanes :: string where "K_lanes = ''beanie.lanes.v2''"
definition K_history :: string where "K_history = ''beanie.history.v2''"
definition K_cursors :: string where "K_cursors = ''beanie.cursors.v2''"

definition MAX_HISTORY :: nat where "MAX_HISTORY = 500"

lemma keys_distinct [simp]:
  "K_lanes \<noteq> K_history" "K_lanes \<noteq> K_cursors" "K_history \<noteq> K_cursors"
  "K_history \<noteq> K_lanes" "K_cursors \<noteq> K_lanes" "K_cursors \<noteq> K_history"
  by (simp_all add: K_lanes_def K_history_def K_cursors_def)

text \<open>\<open>chainByKey(v)\<close> and \<open>wire(v)\<close> of a value that need not be a text.\<close>

definition wire_json :: "json option \<Rightarrow> string" where
  "wire_json v = wire (if js_truthy v then coerce v else [])"

definition chain_json :: "json option \<Rightarrow> chain option" where
  "chain_json v = chainByKey (wire_json v)"

definition receiverKey :: "string \<Rightarrow> string \<Rightarrow> string" where
  "receiverKey chain address =
     wire chain @ '':'' @
     (if map_option ch_kind (chainByKey chain) = Some ''solana'' then address else to_lower address)"

section \<open>Lanes\<close>

definition isLane :: "json \<Rightarrow> bool" where
  "isLane l =
     (js_truthy (Some l) \<and>
      as_string (opt_prop (Some l) ''id'') \<noteq> None \<and>
      chain_json (opt_prop (Some l) ''targetChain'') \<noteq> None \<and>
      (case as_array (opt_prop (Some l) ''receivers'') of
         None \<Rightarrow> False
       | Some rs \<Rightarrow> list_all (\<lambda>r. js_truthy (Some r) \<and> chain_json (opt_prop (Some r) ''chain'') \<noteq> None \<and>
           as_string (opt_prop (Some r) ''address'') \<noteq> None) rs))"

definition lane_id :: "json \<Rightarrow> json option" where
  "lane_id l = opt_prop (Some l) ''id''"

definition getLanes :: "storage \<Rightarrow> json list" where
  "getLanes st = (case as_array (Some (read_item st K_lanes (JArr []))) of None \<Rightarrow> [] | Some v \<Rightarrow> filter isLane v)"

definition getLane :: "storage \<Rightarrow> string \<Rightarrow> json option" where
  "getLane st i = find (\<lambda>l. lane_id l = Some (JStr i)) (getLanes st)"

definition saveLane :: "quota \<Rightarrow> storage \<Rightarrow> json \<Rightarrow> storage \<times> bool" where
  "saveLane quota st lane =
     write_item quota st K_lanes (JArr (lane # filter (\<lambda>l. lane_id l \<noteq> lane_id lane) (getLanes st)))"

definition delete_prop :: "string \<Rightarrow> json \<Rightarrow> json" where
  "delete_prop k l = (case l of JObj kvs \<Rightarrow> JObj (filter (\<lambda>(k', v). k' \<noteq> k) kvs) | _ \<Rightarrow> l)"

text \<open>The first lane of that id is changed in place.\<close>

fun update_first :: "('a \<Rightarrow> bool) \<Rightarrow> ('a \<Rightarrow> 'a) \<Rightarrow> 'a list \<Rightarrow> 'a list" where
  "update_first Q f [] = []"
| "update_first Q f (x # xs) = (if Q x then f x # xs else x # update_first Q f xs)"

definition markVerified :: "quota \<Rightarrow> storage \<Rightarrow> string \<Rightarrow> storage \<times> bool" where
  "markVerified quota st i =
     (case getLane st i of
        None \<Rightarrow> (st, False)
      | Some lane \<Rightarrow> write_item quota st K_lanes
          (JArr (update_first (\<lambda>l. lane_id l = Some (JStr i)) (delete_prop ''needsVerify'') (getLanes st))))"

section \<open>History and cursors\<close>

record receiver =
  rc_chain :: string
  rc_address :: string

record deposit =
  d_amount :: string
  d_tx :: "json option"
  d_block :: "json option"
  d_from :: "json option"

definition getHistory :: "storage \<Rightarrow> json list" where
  "getHistory st = (case as_array (Some (read_item st K_history (JArr []))) of None \<Rightarrow> [] | Some v \<Rightarrow> v)"

definition getCursor :: "storage \<Rightarrow> string \<Rightarrow> string \<Rightarrow> int option result" where
  "getCursor st chain address =
     then_do (get_prop (Some (read_item st K_cursors (JObj []))) (receiverKey chain address)) (\<lambda>n.
       Inr (case n of Some (JNum i) \<Rightarrow> if 0 \<le> i then Some i else None | _ \<Rightarrow> None))"

text \<open>
  \<open>cursors[key] = block\<close>: on \<open>null\<close> and, in a module, on a number, text or boolean it throws; a
  property set on an array is not part of its JSON text.
\<close>

definition set_prop :: "json \<Rightarrow> string \<Rightarrow> json \<Rightarrow> json result" where
  "set_prop v k x = (case v of
      JObj kvs \<Rightarrow> Inr (JObj (AList.update k x kvs)) | JArr xs \<Rightarrow> Inr (JArr xs) | _ \<Rightarrow> Inl TypeError)"

definition setCursor :: "quota \<Rightarrow> storage \<Rightarrow> string \<Rightarrow> string \<Rightarrow> int \<Rightarrow> storage \<times> unit result" where
  "setCursor quota st chain address blk =
     (case set_prop (read_item st K_cursors (JObj [])) (receiverKey chain address) (JNum blk) of
        Inl e \<Rightarrow> (st, Inl e)
      | Inr cursors \<Rightarrow> (fst (write_item quota st K_cursors cursors), Inr ()))"

definition entry_id :: "json \<Rightarrow> json option result" where
  "entry_id h = get_prop (Some h) ''id''"

definition deposit_base :: "string \<Rightarrow> deposit \<Rightarrow> string" where
  "deposit_base key d = key @ '':'' @ template (d_tx d) @ '':'' @ d_amount d"

definition mk_entry :: "string \<Rightarrow> receiver \<Rightarrow> string option \<Rightarrow> int \<Rightarrow> deposit \<Rightarrow> json" where
  "mk_entry i r laneId now d = JObj ([
     (''id'', JStr i), (''chain'', JStr (wire (rc_chain r))), (''address'', JStr (rc_address r)),
     (''laneId'', case laneId of None \<Rightarrow> JNull | Some l \<Rightarrow> JStr l), (''amount'', JStr (d_amount d))]
     @ opt_field ''tx'' (d_tx d) @ opt_field ''block'' (d_block d) @ [(''time'', JNum now)])"

text \<open>The loop over the deposits: the ordinals counted so far, and the entries that are new.\<close>

fun new_entries :: "(string \<Rightarrow> deposit \<Rightarrow> json) \<Rightarrow> string \<Rightarrow> json option set \<Rightarrow> (string \<Rightarrow> nat) \<Rightarrow> deposit list \<Rightarrow> json list" where
  "new_entries mk key seen ordinals [] = []"
| "new_entries mk key seen ordinals (d # ds) =
     (let base = deposit_base key d;
          n = ordinals base;
          i = base @ '':'' @ nat_string 10 n;
          rest = new_entries mk key seen (ordinals(base := n + 1)) ds
      in if Some (JStr i) \<in> seen then rest else mk i d # rest)"

definition recordScan ::
    "quota \<Rightarrow> storage \<Rightarrow> int \<Rightarrow> receiver \<Rightarrow> deposit list \<Rightarrow> int option \<Rightarrow> string option \<Rightarrow> storage \<times> json list option result" where
  "recordScan quota st now r deposits nextBlock laneId =
     (let key = receiverKey (rc_chain r) (rc_address r); history = getHistory st in
      case traverse entry_id history of
        Inl e \<Rightarrow> (st, Inl e)
      | Inr ids \<Rightarrow>
          let added = new_entries (\<lambda>i. mk_entry i r laneId now) key (set ids) (\<lambda>_. 0) deposits;
              (st1, ok1) = (if added \<noteq> [] then write_item quota st K_history (JArr (take MAX_HISTORY (rev added @ history)))
                            else (st, True)) in
          if \<not> ok1 then (st1, Inr None)
          else
            (case set_prop (read_item st1 K_cursors (JObj [])) key (json_num nextBlock) of
               Inl e \<Rightarrow> (st1, Inl e)
             | Inr cursors \<Rightarrow>
                 let (st2, ok2) = write_item quota st1 K_cursors cursors in
                 if \<not> ok2 then (st2, Inr None) else (st2, Inr (Some added))))"

section \<open>Identifiers of deposits\<close>

fun dep_ids :: "string \<Rightarrow> (string \<Rightarrow> nat) \<Rightarrow> deposit list \<Rightarrow> (string \<times> deposit) list" where
  "dep_ids key ordinals [] = []"
| "dep_ids key ordinals (d # ds) =
     (deposit_base key d @ '':'' @ nat_string 10 (ordinals (deposit_base key d)), d)
     # dep_ids key (ordinals(deposit_base key d := ordinals (deposit_base key d) + 1)) ds"

lemma new_entries_eq:
  "new_entries mk key seen ordinals ds
     = map (\<lambda>(i, d). mk i d) (filter (\<lambda>(i, d). Some (JStr i) \<notin> seen) (dep_ids key ordinals ds))"
  by (induction ds arbitrary: ordinals) (simp_all add: Let_def)

lemma last_colon:
  assumes "a @ '':'' @ nat_string 10 m = b @ '':'' @ nat_string 10 n"
  shows "a = b \<and> m = n"
proof -
  have nc: "takeWhile (\<lambda>c. c \<noteq> CHR '':'') (rev (x @ '':'' @ nat_string 10 k)) = rev (nat_string 10 k)" for x k
  proof -
    have "\<forall>c \<in> set (rev (nat_string 10 k)). c \<noteq> CHR '':''"
      using digits_nat_string10 [of k] by (auto simp: list_all_iff is_digit_def in_range_def code_def)
    then show ?thesis by (simp only: rev_append append_assoc) (subst takeWhile_append2, auto)
  qed
  have "rev (nat_string 10 m) = rev (nat_string 10 n)"
    using nc [of a m] nc [of b n] by (simp only: assms)
  then have e: "nat_string 10 m = nat_string 10 n" by simp
  then have "of_digits 10 (map digit_num (nat_string 10 m)) = of_digits 10 (map digit_num (nat_string 10 n))"
    by simp
  then have "m = n" by (simp add: digits_nat_string)
  then show ?thesis using assms by simp
qed

lemma dep_ids_form:
  "(i, d) \<in> set (dep_ids key ordinals ds) \<Longrightarrow> \<exists>n. i = deposit_base key d @ '':'' @ nat_string 10 n \<and> ordinals (deposit_base key d) \<le> n"
proof (induction key ordinals ds rule: dep_ids.induct)
  case (2 key ordinals d' ds)
  then show ?case by (cases "deposit_base key d = deposit_base key d'") fastforce+
qed simp

lemma dep_ids_distinct: "distinct (map fst (dep_ids key ordinals ds))"
proof (induction key ordinals ds rule: dep_ids.induct)
  case (2 key ordinals d ds)
  let ?b = "deposit_base key d"
  have "?b @ '':'' @ nat_string 10 (ordinals ?b) \<notin> fst ` set (dep_ids key (ordinals(?b := ordinals ?b + 1)) ds)"
  proof
    assume "?b @ '':'' @ nat_string 10 (ordinals ?b) \<in> fst ` set (dep_ids key (ordinals(?b := ordinals ?b + 1)) ds)"
    then obtain d' where "(?b @ '':'' @ nat_string 10 (ordinals ?b), d') \<in> set (dep_ids key (ordinals(?b := ordinals ?b + 1)) ds)"
      by force
    then obtain n where n: "?b @ '':'' @ nat_string 10 (ordinals ?b) = deposit_base key d' @ '':'' @ nat_string 10 n"
      "(ordinals(?b := ordinals ?b + 1)) (deposit_base key d') \<le> n"
      using dep_ids_form by blast
    then have "deposit_base key d' = ?b" "n = ordinals ?b" using last_colon by metis+
    then show False using n(2) by simp
  qed
  then show ?case using 2 by (simp del: fun_upd_apply)
qed simp

section \<open>Well-formed storage\<close>

text \<open>
  The shapes the component writes: the cursors are an object and the history is a list of objects.
  The operations keep them, and on such a storage none of them throws.
\<close>

definition is_obj :: "json \<Rightarrow> bool" where
  "is_obj v = (case v of JObj kvs \<Rightarrow> True | _ \<Rightarrow> False)"

definition store_ok :: "storage \<Rightarrow> bool" where
  "store_ok st \<longleftrightarrow> is_obj (read_item st K_cursors (JObj [])) \<and>
     (\<exists>hs. read_item st K_history (JArr []) = JArr hs \<and> list_all is_obj hs)"

lemma is_obj_iff [simp]: "is_obj v \<longleftrightarrow> (\<exists>kvs. v = JObj kvs)"
  by (cases v) (auto simp: is_obj_def)

lemma store_okE:
  assumes "store_ok st"
  obtains cs hs where "read_item st K_cursors (JObj []) = JObj cs" "getHistory st = hs" "list_all is_obj hs"
  using assms by (auto simp: store_ok_def getHistory_def as_array_def)

definition ids :: "json list \<Rightarrow> json option list" where
  "ids hs = map (\<lambda>h. opt_prop (Some h) ''id'') hs"

lemma traverse_ids: "list_all is_obj hs \<Longrightarrow> traverse entry_id hs = Inr (ids hs)"
  by (induction hs) (auto simp: entry_id_def get_prop_def ids_def)

definition scan_added :: "storage \<Rightarrow> int \<Rightarrow> receiver \<Rightarrow> deposit list \<Rightarrow> string option \<Rightarrow> json list" where
  "scan_added st now r ds laneId =
     new_entries (\<lambda>i. mk_entry i r laneId now) (receiverKey (rc_chain r) (rc_address r))
       (set (ids (getHistory st))) (\<lambda>_. 0) ds"

lemma added_obj: "list_all is_obj (scan_added st now r ds laneId)"
  by (auto simp: scan_added_def new_entries_eq list_all_iff mk_entry_def)

text \<open>The cursor a storage holds under a receiver key.\<close>

definition cursor_at :: "storage \<Rightarrow> string \<Rightarrow> json option" where
  "cursor_at st key = opt_prop (Some (read_item st K_cursors (JObj []))) key"

lemma getCursor_ok:
  "store_ok st \<Longrightarrow> getCursor st c a = Inr (case cursor_at st (receiverKey c a) of
     Some (JNum i) \<Rightarrow> if 0 \<le> i then Some i else None | _ \<Rightarrow> None)"
  by (erule store_okE) (simp add: getCursor_def get_prop_def cursor_at_def)

definition put :: "storage \<Rightarrow> string \<Rightarrow> json \<Rightarrow> storage" where
  "put st k v = st(k \<mapsto> v)"

lemma write_item_cases:
  "write_item quota st k v = (if quota st k v then (put st k v, True) else (st, False))"
  by (simp add: write_item_def put_def)

lemma read_put [simp]: "read_item (put st k v) k' f = (if k' = k then v else read_item st k' f)"
  by (simp add: put_def read_item_def)

text \<open>
  The four outcomes of a scan: nothing new and the cursor refused or moved, new entries refused,
  or written and then the cursor refused or moved.
\<close>

definition hist_put :: "storage \<Rightarrow> json list \<Rightarrow> storage" where
  "hist_put st added = (if added = [] then st
     else put st K_history (JArr (take MAX_HISTORY (rev added @ getHistory st))))"

definition cursor_put :: "storage \<Rightarrow> string \<Rightarrow> int option \<Rightarrow> storage" where
  "cursor_put st key n = put st K_cursors (JObj (AList.update key (json_num n)
     (case read_item st K_cursors (JObj []) of JObj cs \<Rightarrow> cs | _ \<Rightarrow> [])))"

lemma recordScan_ok:
  assumes "store_ok st"
  defines "key \<equiv> \<lambda>r. receiverKey (rc_chain r) (rc_address r)"
  shows "\<exists>h c. recordScan quota st now r ds nb laneId =
     (let added = scan_added st now r ds laneId; st1 = hist_put st added in
      if \<not> h \<and> added \<noteq> [] then (st, Inr None)
      else if \<not> c then (st1, Inr None) else (cursor_put st1 (key r) nb, Inr (Some added)))"
proof -
  obtain cs hs where w: "read_item st K_cursors (JObj []) = JObj cs" "getHistory st = hs" "list_all is_obj hs"
    using assms(1) by (rule store_okE)
  let ?a = "scan_added st now r ds laneId"
  let ?h = "quota st K_history (JArr (take MAX_HISTORY (rev ?a @ hs)))"
  let ?c = "quota (hist_put st ?a) K_cursors (JObj (AList.update (key r) (json_num nb) cs))"
  have "recordScan quota st now r ds nb laneId =
     (let st1 = hist_put st ?a in
      if \<not> ?h \<and> ?a \<noteq> [] then (st, Inr None)
      else if \<not> ?c then (st1, Inr None) else (cursor_put st1 (key r) nb, Inr (Some ?a)))"
    using w traverse_ids [OF w(3)]
    by (auto simp: recordScan_def Let_def write_item_cases scan_added_def hist_put_def cursor_put_def
        set_prop_def key_def split: if_splits)
  then show ?thesis by (auto simp: Let_def)
qed

lemma store_ok_put:
  assumes "store_ok st"
  shows "list_all is_obj (getHistory st @ xs) \<Longrightarrow> store_ok (put st K_history (JArr (take k (rev xs @ getHistory st))))"
    "store_ok (cursor_put st key n)" "store_ok (put st K_lanes v)"
proof -
  obtain cs hs where w: "read_item st K_cursors (JObj []) = JObj cs" "getHistory st = hs" "list_all is_obj hs"
    and h: "read_item st K_history (JArr []) = JArr hs"
    using assms by (auto simp: store_ok_def getHistory_def as_array_def)
  show "store_ok (cursor_put st key n)" "store_ok (put st K_lanes v)"
    using w h by (simp_all add: store_ok_def cursor_put_def)
  assume "list_all is_obj (getHistory st @ xs)"
  then show "store_ok (put st K_history (JArr (take k (rev xs @ getHistory st))))"
    using w by (auto simp: store_ok_def list_all_iff dest: in_set_takeD)
qed

lemma store_ok_hist_put:
  assumes "store_ok st" "list_all is_obj xs"
  shows "store_ok (hist_put st xs)"
  using assms store_ok_put(1) [OF assms(1), of xs] by (auto simp: hist_put_def elim: store_okE)

lemma hist_put_reads [simp]:
  "cursor_at (hist_put st xs) = cursor_at st" "hist_put st xs K_lanes = st K_lanes"
  by (auto simp: hist_put_def cursor_at_def put_def read_item_def)

lemma getHistory_hist_put:
  "getHistory (hist_put st xs) = (if xs = [] then getHistory st else take MAX_HISTORY (rev xs @ getHistory st))"
  by (simp add: hist_put_def getHistory_def as_array_def)

lemma cursor_put_reads [simp]:
  "getHistory (cursor_put st key n) = getHistory st" "cursor_put st key n K_lanes = st K_lanes"
  by (auto simp: cursor_put_def getHistory_def put_def read_item_def)

lemma cursor_at_put: "store_ok st \<Longrightarrow> cursor_at (cursor_put st key n) = (cursor_at st)(key := Some (json_num n))"
  by (erule store_okE) (auto simp: cursor_at_def cursor_put_def update_conv fun_eq_iff)

text \<open>
  Recording a scan. On a well-formed storage it never throws and keeps the storage well formed; lanes and
  the cursors of other receivers are untouched. When it reports the new entries, they are in front
  of the history (newest first, at most 500 kept) and the receiver's cursor is the next block; when
  storage refused a write, no cursor has moved.
\<close>

lemma recordScan_outcome:
  assumes "store_ok st"
  shows "\<exists>st' out. recordScan quota st now r ds nb laneId = (st', Inr out) \<and> store_ok st' \<and>
    st' K_lanes = st K_lanes \<and>
    (case out of
       None \<Rightarrow> cursor_at st' = cursor_at st
     | Some added \<Rightarrow> added = scan_added st now r ds laneId \<and>
         cursor_at st' = (cursor_at st)(receiverKey (rc_chain r) (rc_address r) := Some (json_num nb)) \<and>
         getHistory st' = (if added = [] then getHistory st else take MAX_HISTORY (rev added @ getHistory st)))"
proof -
  let ?a = "scan_added st now r ds laneId"
  obtain h c where e: "recordScan quota st now r ds nb laneId =
      (if \<not> h \<and> ?a \<noteq> [] then (st, Inr None) else if \<not> c then (hist_put st ?a, Inr None)
       else (cursor_put (hist_put st ?a) (receiverKey (rc_chain r) (rc_address r)) nb, Inr (Some ?a)))"
    using recordScan_ok [OF assms, of quota now r ds nb laneId] by (auto simp: Let_def)
  have ok: "store_ok (hist_put st ?a)" by (rule store_ok_hist_put [OF assms added_obj])
  show ?thesis
    unfolding e using assms ok store_ok_put(2) [OF ok] cursor_at_put [OF ok]
    by (auto simp: getHistory_hist_put)
qed

lemma store_ok_empty: "store_ok Map.empty"
  by (simp add: store_ok_def read_item_def)

lemma recordScan_outcome_witness:
  "\<exists>st' out. recordScan (\<lambda>st k v. True) Map.empty 5
      \<lparr>rc_chain = ''BASE'', rc_address = ''0xab''\<rparr> [\<lparr>d_amount = ''7'', d_tx = Some (JStr ''0x1''), d_block = None, d_from = None\<rparr>] (Some 9) None
    = (st', Inr out) \<and> store_ok st'"
  using recordScan_outcome [OF store_ok_empty] by blast

lemma scan_added_ids:
  "distinct (ids (scan_added st now r ds laneId)) \<and>
    set (ids (scan_added st now r ds laneId)) = (\<lambda>i. Some (JStr i)) ` set (map fst (dep_ids (receiverKey (rc_chain r) (rc_address r)) (\<lambda>_. 0) ds)) - set (ids (getHistory st))"
proof -
  let ?di = "dep_ids (receiverKey (rc_chain r) (rc_address r)) (\<lambda>_. 0) ds"
  let ?new = "filter (\<lambda>(i, d). Some (JStr i) \<notin> set (ids (getHistory st))) ?di"
  have ids: "ids (scan_added st now r ds laneId) = map (\<lambda>i. Some (JStr i)) (map fst ?new)"
    by (auto simp: scan_added_def new_entries_eq ids_def mk_entry_def)
  have "distinct (map fst ?new)" using dep_ids_distinct [of "receiverKey (rc_chain r) (rc_address r)" "\<lambda>_. 0" ds] by (simp add: distinct_map_filter)
  then have "distinct (map (\<lambda>i. Some (JStr i)) (map fst ?new))"
    by (simp only: distinct_map) (auto intro: inj_onI)
  moreover have "set (map (\<lambda>i. Some (JStr i)) (map fst ?new)) = (\<lambda>i. Some (JStr i)) ` set (map fst ?di) - set (ids (getHistory st))"
    by force
  ultimately show ?thesis by (simp only: ids)
qed

lemma scan_again:
  assumes "getHistory st' = rev (scan_added st now r ds laneId) @ getHistory st"
  shows "scan_added st' now' r ds laneId' = []"
proof -
  have "ids (getHistory st') = rev (ids (scan_added st now r ds laneId)) @ ids (getHistory st)"
    by (simp add: assms ids_def rev_map)
  then have "set (ids (scan_added st' now' r ds laneId')) = {}"
    using scan_added_ids [of st' now' r ds laneId'] scan_added_ids [of st now r ds laneId] by auto
  then show ?thesis by (simp add: ids_def)
qed

lemma length_scan_added: "length (scan_added st now r ds laneId) \<le> length ds"
proof -
  have "length (dep_ids key ordinals ds) = length ds" for key ordinals
    by (induction ds arbitrary: ordinals) simp_all
  then show ?thesis
    by (simp add: scan_added_def new_entries_eq) (metis length_filter_le)
qed

text \<open>
  C30: a deposit is recorded once. When the entries of a scan were written, whether or not the cursor write then
  failed, recording the same deposits again, from another tab or after a crash, adds nothing to the
  history, as long as the history had room for them; and the entries of one scan have pairwise
  different identifiers, none of which was in the history.
\<close>

theorem recordScan_idempotent:
  assumes "store_ok st" "length (getHistory st) + length ds \<le> MAX_HISTORY"
    and "recordScan quota st now r ds nb laneId = (st', out)"
    and "getHistory st' \<noteq> getHistory st \<or> out \<noteq> Inr None"
  shows "\<exists>st'' out' added. recordScan quota' st' now' r ds nb' laneId' = (st'', out') \<and>
    (out' = Inr None \<or> out' = Inr (Some [])) \<and> getHistory st'' = getHistory st' \<and>
    getHistory st' = rev added @ getHistory st \<and> distinct (ids added) \<and>
    set (ids added) \<inter> set (ids (getHistory st)) = {}"
proof -
  let ?a = "scan_added st now r ds laneId"
  obtain h c where e: "(st', out) =
      (if \<not> h \<and> ?a \<noteq> [] then (st, Inr None) else if \<not> c then (hist_put st ?a, Inr None)
       else (cursor_put (hist_put st ?a) (receiverKey (rc_chain r) (rc_address r)) nb, Inr (Some ?a)))"
    using recordScan_ok [OF assms(1), of quota now r ds nb laneId] assms(3) by (auto simp: Let_def)
  have room: "length (getHistory st) + length ?a \<le> MAX_HISTORY"
    using assms(2) length_scan_added [of st now r ds laneId] by simp
  then have "getHistory (hist_put st ?a) = rev ?a @ getHistory st"
    by (simp add: getHistory_hist_put)
  then have hist: "getHistory st' = rev ?a @ getHistory st"
    using e assms(4) by (auto split: if_splits)
  have ok: "store_ok st'"
    using e assms(1) store_ok_hist_put [OF assms(1) added_obj] store_ok_put(2) by (auto split: if_splits)
  have "scan_added st' now' r ds laneId' = []" using hist by (rule scan_again)
  then obtain st'' out' where "recordScan quota' st' now' r ds nb' laneId' = (st'', out')"
    "out' = Inr None \<or> out' = Inr (Some [])" "getHistory st'' = getHistory st'"
    using recordScan_ok [OF ok, of quota' now' r ds nb' laneId']
    by (auto simp: Let_def getHistory_hist_put split: if_splits)
  then show ?thesis using hist scan_added_ids [of st now r ds laneId] by blast
qed

theorem recordScan_idempotent_witness:
  "\<exists>st' out. recordScan (\<lambda>st k v. True) Map.empty 5
      \<lparr>rc_chain = ''BASE'', rc_address = ''0xab''\<rparr> [\<lparr>d_amount = ''7'', d_tx = Some (JStr ''0x1''), d_block = None, d_from = None\<rparr>] (Some 9) None
    = (st', out) \<and>
    (\<exists>st'' out'. recordScan (\<lambda>st k v. True) st' 6
      \<lparr>rc_chain = ''BASE'', rc_address = ''0xab''\<rparr> [\<lparr>d_amount = ''7'', d_tx = Some (JStr ''0x1''), d_block = None, d_from = None\<rparr>] (Some 9) None
      = (st'', out') \<and> getHistory st'' = getHistory st')"
proof -
  let ?r = "\<lparr>rc_chain = ''BASE'', rc_address = ''0xab''\<rparr>" and ?d = "\<lparr>d_amount = ''7'', d_tx = Some (JStr ''0x1''), d_block = None, d_from = None\<rparr>"
  obtain st' out where e: "recordScan (\<lambda>st k v. True) Map.empty 5 ?r [?d] (Some 9) None = (st', out)" by fastforce
  have "out \<noteq> Inr None"
    using e by (auto simp: recordScan_def Let_def write_item_def set_prop_def read_item_def getHistory_def
        as_array_def split: if_splits)
  then show ?thesis
    using recordScan_idempotent [OF store_ok_empty _ e, of "\<lambda>st k v. True" 6 "Some 9" None] e
    by (fastforce simp: getHistory_def read_item_def as_array_def MAX_HISTORY_def)
qed

end
