(* ===== verification/Scan.thy ===== *)
theory Scan
  imports Rpc Store
begin

text \<open>
  The reads and the deposit scans of \<open>scripts/onchain.js\<close>: nonces, balances, existence, the head of a
  chain, and the USDC transfers into a receiver. A number that may be NaN is an \<open>int option\<close>.
  SHA-256 is the parameter \<open>sha\<close>.
\<close>

section \<open>Numbers of a response\<close>

text \<open>\<open>parseInt(s, 16)\<close>: leading white space, a sign, a prefix, and then the longest run of digits.\<close>

definition parseInt16 :: "json option \<Rightarrow> int option" where
  "parseInt16 v =
     (let s = dropWhile is_space (template v);
          neg = (s \<noteq> [] \<and> hd s = CHR ''-'');
          s = (if s \<noteq> [] \<and> (hd s = CHR ''-'' \<or> hd s = CHR ''+'') then tl s else s);
          d = takeWhile is_hex (strip_0x s) in
      if d = [] then None
      else let n = int (of_digits 16 (map digit_num d)) in Some (if neg then - n else n))"

definition num_less :: "int option \<Rightarrow> int option \<Rightarrow> bool" where
  "num_less a b = (case (a, b) of (Some x, Some y) \<Rightarrow> x < y | _ \<Rightarrow> False)"

definition num_min :: "int option \<Rightarrow> int option \<Rightarrow> int option" where
  "num_min a b = (case (a, b) of (Some x, Some y) \<Rightarrow> Some (min x y) | _ \<Rightarrow> None)"

definition num_add :: "int option \<Rightarrow> int \<Rightarrow> int option" where
  "num_add a k = map_option (\<lambda>x. x + k) a"

text \<open>\<open>`0x${BigInt(n).toString(16)}`\<close>, a RangeError on NaN.\<close>

definition toHexNum :: "int option \<Rightarrow> string result" where
  "toHexNum n = (case n of None \<Rightarrow> Inl (Error ''RangeError'') | Some i \<Rightarrow> Inr (''0x'' @ int_string 16 i))"

text \<open>\<open>BigInt(v || d)\<close> of a response value.\<close>

definition BigInt_or :: "json option \<Rightarrow> string \<Rightarrow> int result" where
  "BigInt_or v d = (if js_truthy v then (case v of Some j \<Rightarrow> BigInt_json j | None \<Rightarrow> to_BigInt d) else to_BigInt d)"

definition BigInt_opt :: "json option \<Rightarrow> int result" where
  "BigInt_opt v = (case v of None \<Rightarrow> Inl TypeError | Some j \<Rightarrow> BigInt_json j)"

section \<open>Matching error texts\<close>

fun any_suffix :: "(string \<Rightarrow> bool) \<Rightarrow> string \<Rightarrow> bool" where
  "any_suffix Q [] = Q []"
| "any_suffix Q (c # s) = (Q (c # s) \<or> any_suffix Q s)"

definition lit :: "string \<Rightarrow> (string \<Rightarrow> bool) \<Rightarrow> string \<Rightarrow> bool" where
  "lit p k s = (starts_with p s \<and> k (drop (length p) s))"

definition opt_dot :: "(string \<Rightarrow> bool) \<Rightarrow> string \<Rightarrow> bool" where
  "opt_dot k s = (k s \<or> (case s of [] \<Rightarrow> False | c # r \<Rightarrow> code c \<noteq> 10 \<and> code c \<noteq> 13 \<and> k r))"

text \<open>\<open>/contract.?not.?found/i\<close> and \<open>/could not find account/i\<close>.\<close>

definition contract_not_found :: "string \<Rightarrow> bool" where
  "contract_not_found m = any_suffix (lit ''contract'' (opt_dot (lit ''not'' (opt_dot (lit ''found'' (\<lambda>_. True)))))) (to_lower m)"

definition account_not_found :: "string \<Rightarrow> bool" where
  "account_not_found m = str_includes ''could not find account'' (to_lower m)"

section \<open>Nonces, balances, existence, head\<close>

definition STARKNET_BALANCEOF_SELECTOR :: string where
  "STARKNET_BALANCEOF_SELECTOR = ''0x2e4263afad30923c891518314c3c95dbe830a16874e8abc5777a9a20b54c76''"

definition starknetAccountNonce :: "net \<Rightarrow> string \<Rightarrow> string \<Rightarrow> int result" where
  "starknetAccountNonce net chainKey address =
     then_do (requireChain chainKey) (\<lambda>c.
       if ch_kind c \<noteq> ''starknet'' then Inl (Error (ch_name c @ '' does not have a Starknet account nonce.''))
       else (case then_do (rpc net (ch_key c) ''starknet_getNonce'' [JStr ''latest'', JStr address] Direct) BigInt_opt of
           Inr n \<Rightarrow> Inr n
         | Inl e \<Rightarrow> (case e of
               RpcError m cd \<Rightarrow> if cd = Some 20 \<or> contract_not_found m then Inr 0 else Inl e
             | _ \<Rightarrow> Inl e)))"

definition usdc_text :: "chain \<Rightarrow> string" where
  "usdc_text c = (case ch_usdc c of None \<Rightarrow> [] | Some u \<Rightarrow> u)"

definition tokenBalance :: "(bytes \<Rightarrow> bytes) \<Rightarrow> net \<Rightarrow> string \<Rightarrow> string \<Rightarrow> int result" where
  "tokenBalance sha net chainKey address =
     then_do (requireChain chainKey) (\<lambda>c.
       if ch_kind c = ''evm'' then
         then_do (rpc net (ch_key c) ''eth_call''
             [JObj [(''to'', opt_string (ch_usdc c)), (''data'', JStr (''0x70a08231'' @ pad32 address))], JStr ''latest''] Default)
           (\<lambda>v. BigInt_or v ''0x0'')
       else if ch_kind c = ''starknet'' then
         then_do (rpc net (ch_key c) ''starknet_call''
             [JObj [(''contract_address'', opt_string (ch_usdc c)),
                    (''entry_point_selector'', JStr STARKNET_BALANCEOF_SELECTOR), (''calldata'', JArr [JStr address])],
              JStr ''latest''] Default)
           (\<lambda>out. then_do (BigInt_or (opt_elem out 1) ''0'') (\<lambda>high.
                  then_do (BigInt_or (opt_elem out 0) ''0'') (\<lambda>low. Inr (push_bit 128 high + low))))
       else if ch_kind c = ''solana'' then
         then_do (usdcAta sha address (usdc_text c)) (\<lambda>ata.
           case then_do (rpc net (ch_key c) ''getTokenAccountBalance''
                  [JStr ata, JObj [(''commitment'', JStr ''confirmed'')]] Default)
                (\<lambda>res. BigInt_or (opt_prop (opt_prop res ''value'') ''amount'') ''0'') of
             Inr n \<Rightarrow> Inr n
           | Inl e \<Rightarrow> (case e of RpcError m cd \<Rightarrow> if account_not_found m then Inr 0 else Inl e | _ \<Rightarrow> Inl e))
       else Inl (Error (''Balance lookup for '' @ ch_name c @ '' is not supported'')))"

definition contractExists :: "net \<Rightarrow> string \<Rightarrow> string \<Rightarrow> bool result" where
  "contractExists net chainKey address =
     then_do (requireChain chainKey) (\<lambda>c. Inr (
       if ch_kind c = ''evm'' then
         (case rpc net (ch_key c) ''eth_getCode'' [JStr address, JStr ''latest''] Default of
            Inl e \<Rightarrow> False
          | Inr v \<Rightarrow> (case as_string v of None \<Rightarrow> False | Some s \<Rightarrow> s \<noteq> ''0x''))
       else if ch_kind c = ''starknet'' then
         (case rpc net (ch_key c) ''starknet_getClassHashAt'' [JStr ''latest'', JStr address] Default of
            Inl e \<Rightarrow> False | Inr v \<Rightarrow> True)
       else if ch_kind c = ''solana'' then
         (case rpc net (ch_key c) ''getAccountInfo''
             [JStr address, JObj [(''encoding'', JStr ''base64''), (''commitment'', JStr ''confirmed'')]] Default of
            Inl e \<Rightarrow> False | Inr v \<Rightarrow> \<not> nullish (opt_prop v ''value''))
       else False))"

definition headBlock :: "net \<Rightarrow> string \<Rightarrow> int option result" where
  "headBlock net chainKey =
     then_do (requireChain chainKey) (\<lambda>c.
       if ch_kind c = ''evm'' then then_do (rpc net (ch_key c) ''eth_blockNumber'' [] Default) (\<lambda>v. Inr (parseInt16 v))
       else if ch_kind c = ''starknet'' then then_do (rpc net (ch_key c) ''starknet_blockNumber'' [] Default) (\<lambda>v. Inr (js_Number v))
       else if ch_kind c = ''solana'' then
         then_do (rpc net (ch_key c) ''getSlot'' [JObj [(''commitment'', JStr ''finalized'')]] Default) (\<lambda>v. Inr (js_Number v))
       else Inl (Error (''Block height for '' @ ch_name c @ '' is not supported'')))"

section \<open>Scanning an EVM chain\<close>

definition EVM_TRANSFER_TOPIC :: string where
  "EVM_TRANSFER_TOPIC = ''0xddf252ad1be2c89b69c2b068fc378daa952ba7f163c4a11628f55a4df523b3ef''"

definition EVM_LOG_WINDOW :: int where "EVM_LOG_WINDOW = 2000"
definition STARKNET_EVENT_WINDOW :: int where "STARKNET_EVENT_WINDOW = 500"

definition evm_deposit :: "json \<Rightarrow> deposit result" where
  "evm_deposit l =
     then_do (get_prop (Some l) ''data'') (\<lambda>data.
     then_do (BigInt_opt data) (\<lambda>amount.
       Inr \<lparr>d_amount = int_string 10 amount, d_tx = opt_prop (Some l) ''transactionHash'',
            d_block = Some (json_num (parseInt16 (opt_prop (Some l) ''blockNumber''))), d_from = None\<rparr>))"

definition evm_log_filter :: "chain \<Rightarrow> string \<Rightarrow> string \<Rightarrow> string \<Rightarrow> json" where
  "evm_log_filter c receiver from_hex to_hex =
     JObj [(''address'', opt_string (ch_usdc c)), (''fromBlock'', JStr from_hex), (''toBlock'', JStr to_hex),
       (''topics'', JArr [JStr EVM_TRANSFER_TOPIC, JNull, JStr (''0x'' @ pad32 receiver)])]"

definition scan_evm :: "net \<Rightarrow> chain \<Rightarrow> string \<Rightarrow> int option \<Rightarrow> int option \<Rightarrow> (deposit list \<times> int option) result" where
  "scan_evm net c receiver fromBlock head =
     (let to = num_min head (num_add fromBlock (EVM_LOG_WINDOW - 1)) in
      then_do (toHexNum fromBlock) (\<lambda>f.
      then_do (toHexNum to) (\<lambda>t.
      then_do (rpc net (ch_key c) ''eth_getLogs'' [evm_log_filter c receiver f t] Default) (\<lambda>logs.
        (case as_array logs of
           None \<Rightarrow> Inl TypeError
         | Some ls \<Rightarrow> then_do (traverse evm_deposit ls) (\<lambda>ds. Inr (ds, num_add to 1)))))))"

section \<open>Scanning Starknet\<close>

definition starknet_filter :: "chain \<Rightarrow> string \<Rightarrow> int option \<Rightarrow> int option \<Rightarrow> json option \<Rightarrow> json" where
  "starknet_filter c receiver fromBlock to token =
     JObj ([(''from_block'', JObj [(''block_number'', json_num fromBlock)]),
        (''to_block'', JObj [(''block_number'', json_num to)]), (''address'', opt_string (ch_usdc c)),
        (''keys'', JArr [JArr [JStr STARKNET_TRANSFER_SELECTOR], JArr [], JArr [JStr receiver]]),
        (''chunk_size'', JNum 100)]
       @ (if js_truthy token then opt_field ''continuation_token'' token else []))"

text \<open>\<open>const [low = "0x0", high = "0x0"] = ev.data || []\<close>, and the amount.\<close>

definition starknet_word :: "json option \<Rightarrow> nat \<Rightarrow> int result" where
  "starknet_word data i =
     (if js_truthy data then
        (case data of
           Some (JArr xs) \<Rightarrow> if i < length xs then BigInt_json (xs ! i) else to_BigInt ''0x0''
         | Some (JStr s) \<Rightarrow> if i < length s then to_BigInt [s ! i] else to_BigInt ''0x0''
         | _ \<Rightarrow> Inl TypeError)
      else to_BigInt ''0x0'')"

definition starknet_deposit :: "json \<Rightarrow> deposit result" where
  "starknet_deposit ev =
     then_do (get_prop (Some ev) ''data'') (\<lambda>data.
     then_do (starknet_word data 1) (\<lambda>high.
     then_do (starknet_word data 0) (\<lambda>low.
       Inr \<lparr>d_amount = int_string 10 (push_bit 128 high + low), d_tx = opt_prop (Some ev) ''transaction_hash'',
            d_block = opt_prop (Some ev) ''block_number'', d_from = None\<rparr>)))"

definition events_of :: "json option \<Rightarrow> json list result" where
  "events_of page =
     then_do (get_prop page ''events'') (\<lambda>es.
       if js_truthy es then (case as_array es of None \<Rightarrow> Inl TypeError | Some xs \<Rightarrow> Inr xs) else Inr [])"

definition starknet_page ::
    "net \<Rightarrow> chain \<Rightarrow> string \<Rightarrow> int option \<Rightarrow> int option \<Rightarrow> json option \<Rightarrow> (deposit list \<times> json option) result" where
  "starknet_page net c receiver fromBlock to token =
     then_do (rpc net (ch_key c) ''starknet_getEvents'' [starknet_filter c receiver fromBlock to token] Default) (\<lambda>page.
     then_do (events_of page) (\<lambda>evs.
     then_do (traverse starknet_deposit evs) (\<lambda>ds. Inr (ds, opt_prop page ''continuation_token''))))"

text \<open>
  The loop over continuation tokens. The number of the request is its index; the node may answer the
  same request differently each time, so the network is indexed by it. A node that always returns a token
  keeps the loop running: the value is then \<open>None\<close>.
\<close>

partial_function (option) starknet_pages ::
    "(nat \<Rightarrow> net) \<Rightarrow> chain \<Rightarrow> string \<Rightarrow> int option \<Rightarrow> int option \<Rightarrow> nat \<Rightarrow> json option \<Rightarrow> deposit list \<Rightarrow> (deposit list result) option" where
  "starknet_pages nets c receiver fromBlock to i token deposits =
     (case starknet_page (nets i) c receiver fromBlock to token of
        Inl e \<Rightarrow> Some (Inl e)
      | Inr (ds, token') \<Rightarrow>
          if js_truthy token' then starknet_pages nets c receiver fromBlock to (i + 1) token' (deposits @ ds)
          else Some (Inr (deposits @ ds)))"

definition scan_starknet ::
    "(nat \<Rightarrow> net) \<Rightarrow> chain \<Rightarrow> string \<Rightarrow> int option \<Rightarrow> int option \<Rightarrow> ((deposit list \<times> int option) result) option" where
  "scan_starknet nets c receiver fromBlock head =
     (let to = num_min head (num_add fromBlock (STARKNET_EVENT_WINDOW - 1)) in
      map_option (\<lambda>r. then_do r (\<lambda>ds. Inr (ds, num_add to 1)))
        (starknet_pages nets c receiver fromBlock to 0 None []))"

section \<open>The token loop ends with the tokens\<close>

lemma starknet_pages_from:
  assumes "\<forall>j < n. starknet_page (nets (i + j)) c r f to (tok (i + j)) = Inr (dps (i + j), tok (i + j + 1)) \<and> js_truthy (tok (i + j + 1))"
    and "starknet_page (nets (i + n)) c r f to (tok (i + n)) = Inr (dps (i + n), tok (i + n + 1))" "\<not> js_truthy (tok (i + n + 1))"
  shows "starknet_pages nets c r f to i (tok i) ds = Some (Inr (ds @ concat (map dps [i..<i + n + 1])))"
  using assms
proof (induction n arbitrary: i ds)
  case 0
  then show ?case by (subst starknet_pages.simps) simp
next
  case (Suc n)
  have "starknet_page (nets i) c r f to (tok i) = Inr (dps i, tok (i + 1))" "js_truthy (tok (i + 1))"
    using Suc.prems(1) by (auto dest: spec [of _ 0])
  then have "starknet_pages nets c r f to i (tok i) ds = starknet_pages nets c r f to (i + 1) (tok (i + 1)) (ds @ dps i)"
    by (subst starknet_pages.simps) simp
  also have "\<dots> = Some (Inr ((ds @ dps i) @ concat (map dps [i + 1..<i + 1 + n + 1])))"
  proof (rule Suc.IH)
    show "\<forall>j < n. starknet_page (nets (i + 1 + j)) c r f to (tok (i + 1 + j)) = Inr (dps (i + 1 + j), tok (i + 1 + j + 1)) \<and>
        js_truthy (tok (i + 1 + j + 1))"
    proof (intro allI impI)
      fix j assume "j < n"
      then show "starknet_page (nets (i + 1 + j)) c r f to (tok (i + 1 + j)) = Inr (dps (i + 1 + j), tok (i + 1 + j + 1)) \<and>
          js_truthy (tok (i + 1 + j + 1))"
        using Suc.prems(1) [rule_format, of "Suc j"] by simp
    qed
  qed (use Suc.prems(2,3) in simp_all)
  finally show ?case by (simp add: upt_conv_Cons del: upt_Suc)
qed

text \<open>
  The Starknet scan returns, with everything. If the node hands out continuation tokens for \<open>n\<close> pages and then none,
  the scan ends after that page and its deposits are those of all the pages in order; no page is
  dropped and none is read twice.
\<close>

lemma scan_starknet_complete:
  assumes "\<forall>j < n. starknet_page (nets j) c r f to (tok j) = Inr (dps j, tok (j + 1)) \<and> js_truthy (tok (j + 1))"
    and "starknet_page (nets n) c r f to (tok n) = Inr (dps n, tok (n + 1))"
    and "\<not> js_truthy (tok (n + 1))" "tok 0 = None" "to = num_min head (num_add f (STARKNET_EVENT_WINDOW - 1))"
  shows "scan_starknet nets c r f head = Some (Inr (concat (map dps [0..<n + 1]), num_add to 1))"
  using starknet_pages_from [of n nets 0 c r f to tok dps "[]"] assms
  by (simp add: scan_starknet_def Let_def)

definition empty_net :: net where
  "empty_net url m p = Response 200 (Some (JObj [(''result'', JObj [(''events'', JArr [])])]))"

lemma scan_starknet_complete_witness:
  "\<exists>c. chainByKey ''STARKNET'' = Some c \<and> scan_starknet (\<lambda>i. empty_net) c ''0x5'' (Some 7) (Some 9) = Some (Inr ([], Some 10))"
proof -
  obtain c where c: "chainByKey ''STARKNET'' = Some c"
    by (simp add: chainByKey_def CHAINS_def wire_def char_eval)
  have page: "starknet_page empty_net c ''0x5'' (Some 7) (Some 9) None = Inr ([], None)"
    using chainByKey_ch_key [OF c]
    by (simp add: starknet_page_def rpc_def requireChain_def rpcCall_def proxyCall_def unwrap_def empty_net_def
        js_truthy_def events_of_def get_prop_def as_array_def RPC_PROXY_ENABLED_def)
  show ?thesis
    using scan_starknet_complete [where n = 0 and tok = "\<lambda>_. None" and dps = "\<lambda>_. []" and to = "Some 9" and head = "Some 9"
        and f = "Some 7" and c = c and r = "''0x5''" and nets = "\<lambda>i. empty_net"] page c
    by (simp add: num_min_def STARKNET_EVENT_WINDOW_def num_add_def js_truthy_def)
qed

end
