(* ===== verification/Solana_Scan.thy ===== *)
theory Solana_Scan
  imports Scan
begin

text \<open>
  The Solana half of the deposit scan of \<open>scripts/onchain.js\<close>, and \<open>scanDeposits\<close> over all chains.
  \<open>nets i\<close> is the network as it answers the \<open>i\<close>-th page request; every other request is asked of
  \<open>nets 0\<close>.
\<close>

section \<open>The model\<close>

definition SOLANA_MAX_SIG_PAGES :: nat where "SOLANA_MAX_SIG_PAGES = 10"

definition SIG_LIMIT :: nat where "SIG_LIMIT = 1000"

text \<open>\<open>v < n\<close> and \<open>v <= n\<close> of a property; a comparison with NaN is false.\<close>

definition slot_of :: "json \<Rightarrow> int option" where
  "slot_of s = js_Number (opt_prop (Some s) ''slot'')"

definition num_le :: "int option \<Rightarrow> int option \<Rightarrow> bool" where
  "num_le a b = (case (a, b) of (Some x, Some y) \<Rightarrow> x \<le> y | _ \<Rightarrow> False)"

text \<open>One batch: the hits so far and whether an old signature ended the scan.\<close>

fun sig_loop :: "int option \<Rightarrow> int option \<Rightarrow> json list \<Rightarrow> json list \<Rightarrow> (json list \<times> bool) result" where
  "sig_loop fromBlock head hits [] = Inr (hits, False)"
| "sig_loop fromBlock head hits (s # batch) =
     (if s = JNull then Inl TypeError
      else if num_less (slot_of s) fromBlock then Inr (hits, True)
      else if \<not> js_truthy (opt_prop (Some s) ''err'') \<and> num_le (slot_of s) head
      then sig_loop fromBlock head (hits @ [s]) batch
      else sig_loop fromBlock head hits batch)"

definition sig_params :: "string \<Rightarrow> json option \<Rightarrow> json list" where
  "sig_params account before =
     [JStr account, JObj ([(''limit'', JNum (int SIG_LIMIT)), (''commitment'', JStr ''finalized'')]
        @ (if js_truthy before then opt_field ''before'' before else []))]"

text \<open>The page loop; \<open>k\<close> pages are left, \<open>i\<close> is the number of the next one.\<close>

fun page_loop :: "(nat \<Rightarrow> net) \<Rightarrow> chain \<Rightarrow> string \<Rightarrow> int option \<Rightarrow> int option \<Rightarrow> nat \<Rightarrow> nat \<Rightarrow> json option \<Rightarrow> json list \<Rightarrow> json list result" where
  "page_loop nets c account fromBlock head 0 i before hits =
     Inl (Error ''Too many Solana transactions since the last scan to page through safely.'')"
| "page_loop nets c account fromBlock head (Suc k) i before hits =
     then_do (rpc (nets i) (ch_key c) ''getSignaturesForAddress'' (sig_params account before) Default) (\<lambda>v.
       case as_array v of
         None \<Rightarrow> Inl TypeError
       | Some batch \<Rightarrow>
           then_do (sig_loop fromBlock head hits batch) (\<lambda>(hits', reached).
             if reached \<or> length batch < SIG_LIMIT then Inr hits'
             else page_loop nets c account fromBlock head k (i + 1) (opt_prop (Some (last batch)) ''signature'') hits'))"

text \<open>\<open>authority ?? multisigAuthority ?? null\<close>\<close>

definition authority_of :: "json option \<Rightarrow> json option" where
  "authority_of info =
     (if \<not> nullish (opt_prop info ''authority'') then opt_prop info ''authority''
      else if \<not> nullish (opt_prop info ''multisigAuthority'') then opt_prop info ''multisigAuthority''
      else Some JNull)"

definition transfer_of :: "chain \<Rightarrow> string \<Rightarrow> json \<Rightarrow> (string \<times> json option) option" where
  "transfer_of c account ix =
     (let parsed = opt_prop (Some ix) ''parsed''; info = opt_prop parsed ''info'' in
      if opt_prop (Some ix) ''programId'' \<noteq> Some (JStr TOKEN_PROGRAM) \<or> \<not> js_truthy parsed then None
      else if opt_prop info ''destination'' \<noteq> Some (JStr account) \<or> opt_prop info ''source'' = Some (JStr account) then None
      else if opt_prop parsed ''type'' = Some (JStr ''transfer'') then Some (template (opt_prop info ''amount''), authority_of info)
      else if opt_prop parsed ''type'' = Some (JStr ''transferChecked'') \<and>
              opt_prop info ''mint'' = map_option JStr (ch_usdc c)
      then Some (template (opt_prop (opt_prop info ''tokenAmount'') ''amount''), authority_of info)
      else None)"

definition spread :: "json option \<Rightarrow> json list result" where
  "spread v = (case as_array v of None \<Rightarrow> Inl TypeError | Some xs \<Rightarrow> Inr xs)"

text \<open>\<open>(tx.meta.innerInstructions ?? []).flatMap((g) => g.instructions)\<close>\<close>

definition inner_of :: "json option \<Rightarrow> json list result" where
  "inner_of inner =
     (if nullish inner then Inr []
      else then_do (spread inner) (\<lambda>gs.
        then_do (traverse (\<lambda>g. then_do (get_prop (Some g) ''instructions'') (\<lambda>is.
            Inr (case is of Some (JArr xs) \<Rightarrow> xs | Some x \<Rightarrow> [x] | None \<Rightarrow> [JNull]))) gs)
          (\<lambda>xss. Inr (concat xss))))"

definition solanaTransfersInto :: "net \<Rightarrow> chain \<Rightarrow> string \<Rightarrow> json option \<Rightarrow> (string \<times> json option) list result" where
  "solanaTransfersInto net c account signature =
     then_do (rpc net (ch_key c) ''getTransaction''
        [(case signature of None \<Rightarrow> JNull | Some x \<Rightarrow> x),
         JObj [(''encoding'', JStr ''jsonParsed''), (''commitment'', JStr ''finalized''),
               (''maxSupportedTransactionVersion'', JNum 0)]] Default) (\<lambda>tx.
       let meta = opt_prop tx ''meta'' in
       if \<not> js_truthy meta then Inl (Error (''Solana transaction '' @ template signature @ '' is not readable yet.''))
       else if js_truthy (opt_prop meta ''err'') then Inr []
       else
         then_do (get_prop (opt_prop tx ''transaction'') ''message'') (\<lambda>msg.
         then_do (get_prop msg ''instructions'') (\<lambda>top.
         then_do (spread top) (\<lambda>outer.
         then_do (inner_of (opt_prop meta ''innerInstructions'')) (\<lambda>inner.
           if JNull \<in> set (outer @ inner) then Inl TypeError
           else Inr (List.map_filter (transfer_of c account) (outer @ inner)))))))"

definition hit_deposits :: "net \<Rightarrow> chain \<Rightarrow> string \<Rightarrow> json \<Rightarrow> deposit list result" where
  "hit_deposits net c account s =
     then_do (solanaTransfersInto net c account (opt_prop (Some s) ''signature'')) (\<lambda>ts.
       Inr (map (\<lambda>(amount, authority). \<lparr>d_amount = amount, d_tx = opt_prop (Some s) ''signature'',
          d_block = opt_prop (Some s) ''slot'', d_from = authority\<rparr>) ts))"

definition solanaDeposits ::
    "(bytes \<Rightarrow> bytes) \<Rightarrow> (nat \<Rightarrow> net) \<Rightarrow> chain \<Rightarrow> string \<Rightarrow> int option \<Rightarrow> int option \<Rightarrow> (deposit list \<times> int option) result" where
  "solanaDeposits sha nets c receiver fromBlock head =
     then_do (if SOLANA_RECEIVER_KIND = ''token-account'' then Inr receiver else usdcAta sha receiver (usdc_text c)) (\<lambda>account.
     then_do (page_loop nets c account fromBlock head SOLANA_MAX_SIG_PAGES 0 None []) (\<lambda>hits.
     then_do (traverse (hit_deposits (nets 0) c account) (rev hits)) (\<lambda>dss.
       Inr (concat dss, num_add head 1))))"

definition scanDeposits ::
    "(bytes \<Rightarrow> bytes) \<Rightarrow> (nat \<Rightarrow> net) \<Rightarrow> string \<Rightarrow> string \<Rightarrow> int option \<Rightarrow> ((deposit list \<times> int option) result) option" where
  "scanDeposits sha nets chainKey receiver fromBlock =
     (case requireChain chainKey of
        Inl e \<Rightarrow> Some (Inl e)
      | Inr c \<Rightarrow>
          (case headBlock (nets 0) chainKey of
             Inl e \<Rightarrow> Some (Inl e)
           | Inr head \<Rightarrow>
               if num_less head fromBlock then Some (Inr ([], fromBlock))
               else if ch_kind c = ''evm'' then Some (scan_evm (nets 0) c receiver fromBlock head)
               else if ch_kind c = ''starknet'' then scan_starknet nets c receiver fromBlock head
               else if ch_kind c = ''solana'' then Some (solanaDeposits sha nets c receiver fromBlock head)
               else Some (Inl (Error (''Deposit scanning for '' @ ch_name c @ '' is not supported'')))))"

section \<open>Progress\<close>

lemma num_min_Some [simp]: "num_min (Some a) (Some b) = Some (min a b)"
  by (simp add: num_min_def)

lemma scan_evm_next: "scan_evm net c r (Some f) (Some h) = Inr (ds, nx) \<Longrightarrow> nx = Some (min h (f + EVM_LOG_WINDOW - 1) + 1)"
  by (auto simp: scan_evm_def Let_def then_do_Inr num_add_def algebra_simps split: option.splits)

lemma scan_starknet_next: "scan_starknet nets c r (Some f) (Some h) = Some (Inr (ds, nx)) \<Longrightarrow> nx = Some (min h (f + STARKNET_EVENT_WINDOW - 1) + 1)"
  by (auto simp: scan_starknet_def Let_def then_do_Inr num_add_def algebra_simps)

lemma solanaDeposits_next: "solanaDeposits sha nets c r f (Some h) = Inr (ds, nx) \<Longrightarrow> nx = Some (h + 1)"
  by (auto simp: solanaDeposits_def then_do_Inr num_add_def)

definition window_of :: "string \<Rightarrow> int \<Rightarrow> int" where
  "window_of kind n = (if kind = ''evm'' then min n 2000 else if kind = ''starknet'' then min n 500 else n)"

lemma next_block:
  assumes "chainByKey k = Some c" "headBlock (nets 0) k = Inr (Some h)"
    and "scanDeposits sha nets k r (Some f) = Some (Inr (ds, nx))"
  shows "nx = Some (if h < f then f else f + window_of (ch_kind c) (h + 1 - f))"
proof (cases "h < f")
  case True
  then show ?thesis using assms by (simp add: scanDeposits_def requireChain_def num_less_def)
next
  case False
  then have "nx = Some (f + window_of (ch_kind c) (h + 1 - f))"
    using assms chain_kind [OF assms(1)]
    by (auto simp: scanDeposits_def requireChain_def num_less_def window_of_def EVM_LOG_WINDOW_def STARKNET_EVENT_WINDOW_def
        dest!: scan_evm_next scan_starknet_next solanaDeposits_next)
  then show ?thesis using False by simp
qed

text \<open>
  A scan moves the cursor correctly. Whenever a scan returns, with the head \<open>h\<close>, the next block is the cursor itself
  if the cursor is past the head, and otherwise exactly one window further, never past the block
  after the head; so windows neither overlap nor leave a gap, and a receiver is caught up exactly
  when the cursor did not move.
\<close>

lemma scan_progress:
  assumes "chainByKey k = Some c" "headBlock (nets 0) k = Inr (Some h)"
    and "scanDeposits sha nets k r (Some f) = Some (Inr (ds, nx))"
  shows "nx = Some (if h < f then f else f + window_of (ch_kind c) (h + 1 - f)) \<and>
    (nx = Some f \<longleftrightarrow> h < f)"
proof -
  have "h < f \<or> 0 < window_of (ch_kind c) (h + 1 - f)" by (auto simp: window_of_def)
  then show ?thesis using next_block [OF assms] by auto
qed

definition five_net :: net where
  "five_net url m p = Response 200 (Some (JObj [(''result'', if m = ''eth_getLogs'' then JArr [] else JStr ''0x5'')]))"

lemma base_entry: "\<exists>c. chainByKey ''BASE'' = Some c \<and> ch_key c = ''BASE'' \<and> ch_kind c = ''evm''"
  by (simp add: chainByKey_def CHAINS_def wire_def char_eval)

lemma five_net_rpc: "rpc five_net ''BASE'' m p Default = Inr (Some (if m = ''eth_getLogs'' then JArr [] else JStr ''0x5''))"
  using base_entry by (auto simp add: rpc_def requireChain_def rpcCall_def proxyCall_def unwrap_def five_net_def
      js_truthy_def RPC_PROXY_ENABLED_def)

lemma five_net_head: "headBlock five_net ''BASE'' = Inr (Some 5)"
  using base_entry by (auto simp add: five_net_rpc headBlock_def requireChain_def parseInt16_def template_def strip_0x_def Let_def is_space_def is_hex_def is_digit_def in_range_def code_def digit_num_def digit_val_def of_digits_def char_eval)

lemma five_net_scans:
  "\<exists>nx. scanDeposits keccak256 (\<lambda>i. five_net) ''BASE'' ''0xab'' (Some f) = Some (Inr ([], nx))"
  using base_entry by (auto simp add: five_net_head five_net_rpc scanDeposits_def requireChain_def num_less_def scan_evm_def Let_def
      num_add_def num_min_def EVM_LOG_WINDOW_def toHexNum_def as_array_def)

lemma scan_progress_witness:
  "\<exists>nx. scanDeposits keccak256 (\<lambda>i. five_net) ''BASE'' ''0xab'' (Some 3) = Some (Inr ([], nx)) \<and> nx = Some 6"
proof -
  obtain c where c: "chainByKey ''BASE'' = Some c" "ch_kind c = ''evm''" using base_entry by blast
  obtain nx where s: "scanDeposits keccak256 (\<lambda>i. five_net) ''BASE'' ''0xab'' (Some 3) = Some (Inr ([], nx))"
    using five_net_scans by blast
  then have "nx = Some (if (5::int) < 3 then 3 else 3 + window_of (ch_kind c) (5 + 1 - 3))"
    using scan_progress [OF c(1) five_net_head s] by blast
  then show ?thesis using s c by (simp add: window_of_def)
qed

section \<open>Nothing in range is skipped\<close>

definition sig_old :: "int \<Rightarrow> json \<Rightarrow> bool" where
  "sig_old f s = num_less (slot_of s) (Some f)"

definition sig_hit :: "int option \<Rightarrow> json \<Rightarrow> bool" where
  "sig_hit h s \<longleftrightarrow> \<not> js_truthy (opt_prop (Some s) ''err'') \<and> num_le (slot_of s) h"

lemma sig_loop_eq:
  assumes "JNull \<notin> set batch"
  shows "sig_loop (Some f) h hits batch
    = Inr (hits @ filter (sig_hit h) (takeWhile (\<lambda>s. \<not> sig_old f s) batch), list_ex (sig_old f) batch)"
  using assms by (induction batch arbitrary: hits) (auto simp: sig_old_def sig_hit_def)

text \<open>
  An honest index: \<open>S\<close> lists the signatures of the account, newest first, and every page request is answered with the
  thousand that follow the last one seen.
\<close>

definition before_token :: "json list \<Rightarrow> nat \<Rightarrow> json option" where
  "before_token S i = (if i = 0 then None else opt_prop (Some (S ! (i * SIG_LIMIT - 1))) ''signature'')"

definition honest_index :: "(nat \<Rightarrow> net) \<Rightarrow> chain \<Rightarrow> string \<Rightarrow> json list \<Rightarrow> bool" where
  "honest_index nets c account S \<longleftrightarrow> JNull \<notin> set S \<and>
     sorted_wrt (\<lambda>s t. \<exists>x y. slot_of s = Some x \<and> slot_of t = Some y \<and> y \<le> x) S \<and>
     (\<forall>i < SOLANA_MAX_SIG_PAGES. rpc (nets i) (ch_key c) ''getSignaturesForAddress'' (sig_params account (before_token S i)) Default
        = Inr (Some (JArr (take SIG_LIMIT (drop (i * SIG_LIMIT) S)))))"

lemma page_loop_eq:
  assumes "honest_index nets c account S" "i + k = SOLANA_MAX_SIG_PAGES"
  shows "page_loop nets c account (Some f) h k i (before_token S i) hits =
    (let R = drop (i * SIG_LIMIT) S in
     if k \<noteq> 0 \<and> (length R < k * SIG_LIMIT \<or> list_ex (sig_old f) (take (k * SIG_LIMIT) R))
     then Inr (hits @ filter (sig_hit h) (takeWhile (\<lambda>s. \<not> sig_old f s) R))
     else Inl (Error ''Too many Solana transactions since the last scan to page through safely.''))"
  using assms(2)
proof (induction k arbitrary: i hits)
  case 0
  then show ?case by (simp add: Let_def)
next
  case (Suc k)
  let ?R = "drop (i * SIG_LIMIT) S" and ?B = "take SIG_LIMIT (drop (i * SIG_LIMIT) S)"
  have rpc: "rpc (nets i) (ch_key c) ''getSignaturesForAddress'' (sig_params account (before_token S i)) Default = Inr (Some (JArr ?B))"
    using assms(1) Suc.prems by (simp add: honest_index_def)
  have null: "JNull \<notin> set ?B"
    using assms(1) by (auto simp: honest_index_def dest: in_set_takeD in_set_dropD)
  note step = rpc sig_loop_eq [OF null]
  have split: "?R = ?B @ drop SIG_LIMIT ?R" by (rule append_take_drop_id [symmetric])
  show ?case
  proof (cases "list_ex (sig_old f) ?B \<or> length ?B < SIG_LIMIT")
    case stop: True
    have "takeWhile (\<lambda>s. \<not> sig_old f s) ?R = takeWhile (\<lambda>s. \<not> sig_old f s) ?B"
    proof (cases "list_ex (sig_old f) ?B")
      case True
      then obtain s where "s \<in> set ?B" "sig_old f s" by (auto simp: list_ex_iff)
      then show ?thesis by (subst split, subst takeWhile_append1) auto
    next
      case False
      then have "drop SIG_LIMIT ?R = []" using stop by simp
      then show ?thesis using split by simp
    qed
    moreover have "length ?R < Suc k * SIG_LIMIT \<or> list_ex (sig_old f) (take (Suc k * SIG_LIMIT) ?R)"
    proof (cases "length ?R < SIG_LIMIT")
      case False
      then have "list_ex (sig_old f) ?B" using stop by simp
      moreover have "set ?B \<subseteq> set (take (Suc k * SIG_LIMIT) ?R)" by (rule set_take_subset_set_take) simp
      ultimately show ?thesis by (auto simp: list_ex_iff)
    qed simp
    ultimately show ?thesis using stop by (simp add: step as_array_def Let_def)
  next
    case go: False
    then have len: "SIG_LIMIT \<le> length ?R" and new: "\<not> list_ex (sig_old f) ?B" by auto
    have pos: "0 < SIG_LIMIT" by (simp add: SIG_LIMIT_def)
    have "last ?B = S ! (i * SIG_LIMIT + (SIG_LIMIT - 1))"
      using len pos by (subst last_conv_nth) auto
    then have tok: "opt_prop (Some (last ?B)) ''signature'' = before_token S (i + 1)"
      using pos by (simp add: before_token_def add.commute)
    have drop: "drop ((i + 1) * SIG_LIMIT) S = drop SIG_LIMIT ?R" by (simp add: add.commute)
    have all: "takeWhile (\<lambda>s. \<not> sig_old f s) ?B = ?B" using new by (simp add: list_ex_iff)
    then have tw: "takeWhile (\<lambda>s. \<not> sig_old f s) ?R = ?B @ takeWhile (\<lambda>s. \<not> sig_old f s) (drop SIG_LIMIT ?R)"
      by (subst split, subst takeWhile_append2) (use new in \<open>auto simp: list_ex_iff\<close>)
    have tk: "take (Suc k * SIG_LIMIT) ?R = ?B @ take (k * SIG_LIMIT) (drop SIG_LIMIT ?R)"
      using len by (subst split, subst take_append) (simp add: min_def)
    have len': "length ?R < Suc k * SIG_LIMIT \<longleftrightarrow> length (drop SIG_LIMIT ?R) < k * SIG_LIMIT" using len by auto
    have k0: "k = 0 \<Longrightarrow> \<not> length ?R < Suc k * SIG_LIMIT" using len by simp
    have "page_loop nets c account (Some f) h (Suc k) i (before_token S i) hits
        = page_loop nets c account (Some f) h k (i + 1) (before_token S (i + 1)) (hits @ filter (sig_hit h) ?B)"
      using go by (simp add: step as_array_def all tok)
    also have "\<dots> = (let R = drop SIG_LIMIT ?R in
       if k \<noteq> 0 \<and> (length R < k * SIG_LIMIT \<or> list_ex (sig_old f) (take (k * SIG_LIMIT) R))
       then Inr ((hits @ filter (sig_hit h) ?B) @ filter (sig_hit h) (takeWhile (\<lambda>s. \<not> sig_old f s) R))
       else Inl (Error ''Too many Solana transactions since the last scan to page through safely.''))"
      using Suc.IH [of "i + 1"] Suc.prems drop by simp
    finally show ?thesis
      unfolding Let_def tw tk len' list_ex_append using new k0 len' by (cases "k = 0") auto
  qed
qed

definition in_range_hit :: "int \<Rightarrow> int \<Rightarrow> json \<Rightarrow> bool" where
  "in_range_hit f h s \<longleftrightarrow> \<not> js_truthy (opt_prop (Some s) ''err'') \<and>
     (case slot_of s of None \<Rightarrow> False | Some n \<Rightarrow> f \<le> n \<and> n \<le> h)"

lemma sorted_takeWhile:
  assumes "sorted_wrt (\<lambda>s t. \<exists>x y. slot_of s = Some x \<and> slot_of t = Some y \<and> y \<le> x) S"
  shows "filter (sig_hit (Some h)) (takeWhile (\<lambda>s. \<not> sig_old f s) S) = filter (in_range_hit f h) S"
  using assms
proof (induction S)
  case (Cons s S)
  show ?case
  proof (cases "sig_old f s")
    case True
    then obtain x where x: "slot_of s = Some x" "x < f"
      by (auto simp: sig_old_def num_less_def split: option.splits)
    have "filter (in_range_hit f h) S = []"
      using Cons.prems x by (fastforce simp: filter_empty_conv in_range_hit_def)
    moreover have "\<not> in_range_hit f h s" using x by (simp add: in_range_hit_def)
    ultimately show ?thesis using True by simp
  next
    case False
    then have "sig_hit (Some h) s = in_range_hit f h s"
      by (auto simp: sig_old_def sig_hit_def in_range_hit_def num_less_def num_le_def split: option.splits)
    then show ?thesis using False Cons by simp
  qed
qed simp


definition quiet_net :: net where
  "quiet_net url m p = Response 200 (Some (JObj [(''result'', JArr [])]))"


end
