(* ===== verification/Watcher.thy ===== *)
theory Watcher
  imports Solana_Scan
begin

text \<open>
  \<open>scripts/watcher.js\<close>: one poll of a chain from persisted cursors, with backoff. \<open>scan i c\<close> is what
  \<open>scanDeposits\<close> answers to the \<open>i\<close>-th window of a receiver from cursor \<open>c\<close>, \<open>head\<close> the answer
  of \<open>headBlock\<close>, \<open>now i\<close> the clock when the \<open>i\<close>-th window is recorded. \<open>None\<close> is a scan that never
  returns. The state is the storage, and the entries handed to the listeners are returned.
\<close>

section \<open>One receiver\<close>

definition TICK_MS :: int where "TICK_MS = 20000"
definition MAX_WINDOWS_PER_RECEIVER :: nat where "MAX_WINDOWS_PER_RECEIVER = 8"
definition MAX_BACKOFF_MS :: int where "MAX_BACKOFF_MS = 5 * 60 * 1000"

type_synonym scan = "int option \<Rightarrow> ((deposit list \<times> int option) result) option"
type_synonym outcome = "storage \<times> json list \<times> unit result"

text \<open>\<open>a === b\<close> of numbers: NaN equals nothing.\<close>

definition num_eq :: "int option \<Rightarrow> int option \<Rightarrow> bool" where
  "num_eq a b \<longleftrightarrow> a \<noteq> None \<and> a = b"

fun windows ::
    "quota \<Rightarrow> (nat \<Rightarrow> int) \<Rightarrow> receiver \<Rightarrow> string option \<Rightarrow> (nat \<Rightarrow> scan) \<Rightarrow> nat \<Rightarrow> nat \<Rightarrow> int option \<Rightarrow> storage \<Rightarrow> json list \<Rightarrow> outcome option" where
  "windows quota now r laneId scan 0 i cursor st emitted = Some (st, emitted, Inr ())"
| "windows quota now r laneId scan (Suc k) i cursor st emitted =
     (case scan i cursor of
        None \<Rightarrow> None
      | Some (Inl e) \<Rightarrow> Some (st, emitted, Inl e)
      | Some (Inr (deposits, nextBlock)) \<Rightarrow>
          if num_eq nextBlock cursor then Some (st, emitted, Inr ())
          else (case recordScan quota st (now i) r deposits nextBlock laneId of
              (st', Inl e) \<Rightarrow> Some (st', emitted, Inl e)
            | (st', Inr None) \<Rightarrow> Some (st', emitted, Inl (Error ''Could not persist scan progress (storage unavailable).''))
            | (st', Inr (Some added)) \<Rightarrow>
                windows quota now r laneId scan k (i + 1) nextBlock st' (emitted @ added)))"

text \<open>\<open>setCursor\<close> stores a number that may be NaN as \<open>null\<close>.\<close>

definition setCursor_num :: "quota \<Rightarrow> storage \<Rightarrow> string \<Rightarrow> int option \<Rightarrow> storage \<times> unit result" where
  "setCursor_num quota st key n =
     (case set_prop (read_item st K_cursors (JObj [])) key (json_num n) of
        Inl e \<Rightarrow> (st, Inl e)
      | Inr cursors \<Rightarrow> (fst (write_item quota st K_cursors cursors), Inr ()))"

definition scanReceiver ::
    "quota \<Rightarrow> (nat \<Rightarrow> int) \<Rightarrow> receiver \<Rightarrow> int option \<Rightarrow> string option \<Rightarrow> int option result \<Rightarrow> (nat \<Rightarrow> scan) \<Rightarrow> storage \<Rightarrow> outcome option" where
  "scanReceiver quota now r startBlock laneId head scan st =
     (let key = receiverKey (rc_chain r) (rc_address r) in
      case getCursor st (rc_chain r) (rc_address r) of
        Inl e \<Rightarrow> Some (st, [], Inl e)
      | Inr (Some c) \<Rightarrow> windows quota now r laneId scan MAX_WINDOWS_PER_RECEIVER 0 (Some c) st []
      | Inr None \<Rightarrow>
          (case (case startBlock of Some b \<Rightarrow> Inr (Some b) | None \<Rightarrow> head) of
             Inl e \<Rightarrow> Some (st, [], Inl e)
           | Inr cursor \<Rightarrow>
               (case setCursor_num quota st key cursor of
                  (st', Inl e) \<Rightarrow> Some (st', [], Inl e)
                | (st', Inr u) \<Rightarrow> windows quota now r laneId scan MAX_WINDOWS_PER_RECEIVER 0 cursor st' [])))"

section \<open>One chain\<close>

record chain_state =
  failures :: nat
  nextAt :: int

record job =
  j_receiver :: receiver
  j_start :: "int option"
  j_lane :: "string option"

record feed =
  f_now :: "nat \<Rightarrow> int"
  f_head :: "int option result"
  f_scan :: "nat \<Rightarrow> scan"

fun run_jobs :: "quota \<Rightarrow> (job \<times> feed) list \<Rightarrow> storage \<Rightarrow> json list \<Rightarrow> outcome option" where
  "run_jobs quota [] st emitted = Some (st, emitted, Inr ())"
| "run_jobs quota ((j, f) # jobs) st emitted =
     (case scanReceiver quota (f_now f) (j_receiver j) (j_start j) (j_lane j) (f_head f) (f_scan f) st of
        None \<Rightarrow> None
      | Some (st', em, Inl e) \<Rightarrow> Some (st', emitted @ em, Inl e)
      | Some (st', em, Inr u) \<Rightarrow> run_jobs quota jobs st' (emitted @ em))"

definition scanChain ::
    "quota \<Rightarrow> int \<Rightarrow> int \<Rightarrow> chain_state option \<Rightarrow> (job \<times> feed) list \<Rightarrow> storage \<Rightarrow> (storage \<times> json list \<times> chain_state option) option" where
  "scanChain quota started failed_at entry jobs st =
     (let cs = (case entry of None \<Rightarrow> \<lparr>failures = 0, nextAt = 0\<rparr> | Some s \<Rightarrow> s) in
      if started < nextAt cs then Some (st, [], entry)
      else
        (case run_jobs quota jobs st [] of
           None \<Rightarrow> None
         | Some (st', em, Inr u) \<Rightarrow> Some (st', em, Some \<lparr>failures = 0, nextAt = 0\<rparr>)
         | Some (st', em, Inl e) \<Rightarrow>
             let n = failures cs + 1; delay = min (TICK_MS * 2 ^ n) MAX_BACKOFF_MS in
             Some (st', em, Some \<lparr>failures = n, nextAt = failed_at + delay\<rparr>)))"

text \<open>\<open>runPoll\<close> groups the receivers of all lanes by chain, in order of first appearance.\<close>

fun add_job :: "string \<Rightarrow> 'a \<Rightarrow> (string \<times> 'a list) list \<Rightarrow> (string \<times> 'a list) list" where
  "add_job chain j [] = [(chain, [j])]"
| "add_job chain j ((c, js) # rest) = (if c = chain then (c, js @ [j]) # rest else (c, js) # add_job chain j rest)"

definition byChain :: "(string \<times> 'a) list \<Rightarrow> (string \<times> 'a list) list" where
  "byChain receivers = foldl (\<lambda>groups (chain, j). add_job chain j groups) [] receivers"

section \<open>What a poll persists\<close>

lemma take_append_take: "take n (xs @ take n ys) = take n (xs @ ys)"
  by (simp add: min_def)

definition added_to :: "storage \<Rightarrow> json list \<Rightarrow> storage \<Rightarrow> bool" where
  "added_to st em st' \<longleftrightarrow> getHistory st' = (if em = [] then getHistory st else take MAX_HISTORY (rev em @ getHistory st))"

lemma added_to_trans: "added_to st em st1 \<Longrightarrow> added_to st1 em' st2 \<Longrightarrow> added_to st (em @ em') st2"
  by (auto simp: added_to_def min_def)

text \<open>
  The frame of a scan of one receiver: lanes and the cursors of all others stay, the storage stays well formed, and its
  own cursor is the old one or a later one.
\<close>

definition frame :: "string \<Rightarrow> storage \<Rightarrow> storage \<Rightarrow> bool" where
  "frame key st st' \<longleftrightarrow> store_ok st' \<and> st' K_lanes = st K_lanes \<and>
     (cursor_at st)(key := None) = (cursor_at st')(key := None)"

lemma frame_refl: "store_ok st \<Longrightarrow> frame key st st"
  by (simp add: frame_def)

lemma frame_trans: "frame key st st1 \<Longrightarrow> frame key st1 st2 \<Longrightarrow> frame key st st2"
  by (simp add: frame_def)

definition moves_on :: "(nat \<Rightarrow> scan) \<Rightarrow> bool" where
  "moves_on scan \<longleftrightarrow> (\<forall>i c ds n. scan i (Some c) = Some (Inr (ds, n)) \<longrightarrow> (\<exists>m \<ge> c. n = Some m))"

abbreviation rkey :: "receiver \<Rightarrow> string" where
  "rkey r \<equiv> receiverKey (rc_chain r) (rc_address r)"

lemma frameI:
  "store_ok st' \<Longrightarrow> st' K_lanes = st K_lanes \<Longrightarrow> (\<And>k. k \<noteq> key \<Longrightarrow> cursor_at st' k = cursor_at st k) \<Longrightarrow> frame key st st'"
  by (auto simp: frame_def fun_eq_iff)

lemma added_hist_put: "added_to st em (hist_put st em)"
  by (simp add: added_to_def getHistory_hist_put)

lemma recordScan_frame:
  assumes "store_ok st" "recordScan quota st now r ds nb laneId = (st', out)"
  shows "frame (rkey r) st st' \<and>
    ((out = Inr None \<and> cursor_at st' (rkey r) = cursor_at st (rkey r) \<and> (\<exists>em. added_to st em st')) \<or>
     (\<exists>added. out = Inr (Some added) \<and> added_to st added st' \<and> cursor_at st' (rkey r) = Some (json_num nb)))"
proof -
  let ?a = "scan_added st now r ds laneId"
  have ok: "store_ok (hist_put st ?a)" by (rule store_ok_hist_put [OF assms(1) added_obj])
  have "added_to st [] st" by (simp add: added_to_def)
  moreover have "added_to st ?a (cursor_put (hist_put st ?a) (rkey r) nb)"
    by (simp add: added_to_def getHistory_hist_put)
  ultimately show ?thesis
    using recordScan_ok [OF assms(1), of quota now r ds nb laneId] assms ok store_ok_put(2) [OF ok]
      cursor_at_put [OF ok] added_hist_put [of st ?a]
    by (auto simp: Let_def intro!: frameI split: if_splits)
qed

text \<open>The windows of one receiver, from any cursor.\<close>

lemma windows_frame:
  assumes "store_ok st" "windows quota now r laneId scan k i cursor st emitted = Some (st', em, out)"
  shows "frame (rkey r) st st' \<and>
    (\<exists>em' rest. em = emitted @ em' \<and> added_to st (em' @ rest) st' \<and> (out = Inr () \<longrightarrow> rest = []))"
  using assms
proof (induction k arbitrary: i cursor st emitted)
  case 0
  then show ?case by (auto simp: frame_refl added_to_def)
next
  case (Suc k)
  have id: "added_to st [] st" by (simp add: added_to_def)
  obtain w where w: "scan i cursor = Some w" using Suc.prems by (cases "scan i cursor") auto
  show ?case
  proof (cases "\<exists>ds nb. w = Inr (ds, nb) \<and> \<not> num_eq nb cursor")
    case False
    then have "st' = st \<and> em = emitted" using Suc.prems w by (auto split: sum.splits if_splits)
    then show ?thesis using Suc.prems(1) id by (auto simp: frame_refl)
  next
    case True
    then obtain ds nb where d: "w = Inr (ds, nb)" "\<not> num_eq nb cursor" by blast
    obtain st1 o1 where r: "recordScan quota st (now i) r ds nb laneId = (st1, o1)" by fastforce
    note f = recordScan_frame [OF Suc.prems(1) r]
    show ?thesis
    proof (cases "o1 = Inr None")
      case True
      then have "st' = st1 \<and> em = emitted \<and> out \<noteq> Inr ()" using Suc.prems w d r by auto
      then show ?thesis using f True by auto
    next
      case False
      then obtain added where a: "o1 = Inr (Some added)" "added_to st added st1" "frame (rkey r) st st1"
        using f by auto
      then have "windows quota now r laneId scan k (i + 1) nb st1 (emitted @ added) = Some (st', em, out)"
        using Suc.prems w d r by simp
      then show ?thesis
        using Suc.IH [of st1 "i + 1" nb "emitted @ added"] a frame_trans [OF a(3)] added_to_trans [OF a(2)]
        by (force simp: frame_def)
    qed
  qed
qed

text \<open>The cursor of the receiver itself never moves back.\<close>

lemma windows_cursor:
  assumes "store_ok st" "moves_on scan" "cursor_at st (rkey r) = Some (JNum c)"
    "windows quota now r laneId scan k i (Some c) st emitted = Some (st', em, out)"
  shows "\<exists>c' \<ge> c. cursor_at st' (rkey r) = Some (JNum c')"
  using assms
proof (induction k arbitrary: i c st emitted)
  case 0
  then show ?case by auto
next
  case (Suc k)
  obtain w where w: "scan i (Some c) = Some w" using Suc.prems by (cases "scan i (Some c)") auto
  show ?case
  proof (cases "\<exists>ds nb. w = Inr (ds, nb) \<and> \<not> num_eq nb (Some c)")
    case False
    then have "st' = st" using Suc.prems w by (auto split: sum.splits if_splits)
    then show ?thesis using Suc.prems by auto
  next
    case True
    then obtain ds nb where d: "w = Inr (ds, nb)" "\<not> num_eq nb (Some c)" by blast
    then obtain m where m: "nb = Some m" "c \<le> m" using Suc.prems(2) w unfolding moves_on_def by blast
    obtain st1 o1 where r: "recordScan quota st (now i) r ds nb laneId = (st1, o1)" by fastforce
    note f = recordScan_frame [OF Suc.prems(1) r]
    show ?thesis
    proof (cases "o1 = Inr None")
      case True
      then have "st' = st1" using Suc.prems w d r by auto
      then show ?thesis using f True Suc.prems(3) by auto
    next
      case False
      then obtain added where a: "o1 = Inr (Some added)" "cursor_at st1 (rkey r) = Some (JNum m)" "store_ok st1"
        using f m by (auto simp: frame_def json_num_def)
      then have "windows quota now r laneId scan k (i + 1) (Some m) st1 (emitted @ added) = Some (st', em, out)"
        using Suc.prems w d r m by simp
      then show ?thesis using Suc.IH [OF a(3) Suc.prems(2) a(2)] m by force
    qed
  qed
qed

lemma setCursor_num_ok:
  assumes "store_ok st"
  shows "\<exists>st'. setCursor_num quota st key n = (st', Inr ()) \<and> frame key st st' \<and> getHistory st' = getHistory st"
proof -
  obtain cs where c: "read_item st K_cursors (JObj []) = JObj cs" using assms by (rule store_okE)
  then have "setCursor_num quota st key n = (st, Inr ()) \<or> setCursor_num quota st key n = (cursor_put st key n, Inr ())"
    by (simp add: setCursor_num_def set_prop_def write_item_cases cursor_put_def)
  moreover have "frame key st (cursor_put st key n)"
    using store_ok_put(2) [OF assms] cursor_at_put [OF assms] by (intro frameI) simp_all
  ultimately show ?thesis
    using frame_refl [OF assms] cursor_put_reads(1) [of st key n] by metis
qed



section \<open>Backoff\<close>

text \<open>
  The backoff of a chain. A chain is left alone until its time; a poll that fails counts one more failure and
  puts the next try between 40 seconds and 5 minutes ahead, doubling up to that bound; a poll that
  succeeds clears both. Whatever the outcome, the state of the storage is that of the scans it ran.
\<close>

lemma scanChain_backoff:
  shows "scanChain quota started failed_at entry jobs st =
    (if entry \<noteq> None \<and> started < nextAt (the entry) \<or> entry = None \<and> started < 0 then Some (st, [], entry)
     else map_option (\<lambda>(st', em, out). (st', em, Some
       (if out = Inr () then \<lparr>failures = 0, nextAt = 0\<rparr>
        else (let n = (case entry of None \<Rightarrow> 0 | Some s \<Rightarrow> failures s) + 1 in
              \<lparr>failures = n, nextAt = failed_at + (if n < 4 then 20000 * 2 ^ n else 300000)\<rparr>))))
       (run_jobs quota jobs st []))"
proof -
  have "TICK_MS * 2 ^ n \<ge> MAX_BACKOFF_MS" if "4 \<le> n" for n :: nat
  proof -
    have "(2::int) ^ 4 \<le> 2 ^ n" using that by (intro power_increasing) auto
    then show ?thesis by (simp add: TICK_MS_def MAX_BACKOFF_MS_def)
  qed
  moreover have "TICK_MS * 2 ^ n = 20000 * 2 ^ n \<and> (TICK_MS * 2 ^ n :: int) \<le> MAX_BACKOFF_MS" if "n < 4" for n :: nat
  proof -
    have "n = 0 \<or> n = 1 \<or> n = 2 \<or> n = 3" using that by auto
    then show ?thesis by (auto simp: TICK_MS_def MAX_BACKOFF_MS_def)
  qed
  moreover have "MAX_BACKOFF_MS = 300000" by (simp add: MAX_BACKOFF_MS_def)
  ultimately have d: "min (TICK_MS * 2 ^ n) MAX_BACKOFF_MS = (if n < 4 then 20000 * 2 ^ n else 300000)" for n :: nat
    by (metis min.absorb1 min.absorb2 not_less)
  show ?thesis
    unfolding scanChain_def Let_def d
    by (cases "run_jobs quota jobs st []") (auto split: option.splits sum.splits)
qed

end
