(* ===== verification/Store_Backup.thy ===== *)
theory Store_Backup
  imports Store
begin

text \<open>
  The backup of \<open>scripts/store.js\<close>: export, the checks on the untrusted lanes of a file, and the merge
  into the stored lanes. A file that is not JSON is \<open>None\<close>.
\<close>

section \<open>Checks on untrusted values\<close>

definition optString :: "json option \<Rightarrow> json" where
  "optString v = (case v of Some (JStr s) \<Rightarrow> if length s \<le> 2048 then JStr s else JNull | _ \<Rightarrow> JNull)"

definition optInt :: "int option \<Rightarrow> json" where
  "optInt v = (case v of Some n \<Rightarrow> if 0 \<le> n then JNum n else JNull | None \<Rightarrow> JNull)"

text \<open>The integer a number value is, for \<open>Number.isInteger\<close>.\<close>

definition int_of :: "json option \<Rightarrow> int option" where
  "int_of v = (case v of Some (JNum n) \<Rightarrow> Some n | _ \<Rightarrow> None)"

definition feltString :: "json option \<Rightarrow> json" where
  "feltString v = (case v of Some (JStr s) \<Rightarrow> if isFelt (Some s) then JStr (to_lower s) else JNull | _ \<Rightarrow> JNull)"

definition of_text :: "string option \<Rightarrow> json" where
  "of_text s = (case s of None \<Rightarrow> JNull | Some t \<Rightarrow> JStr t)"

definition addressString :: "string \<Rightarrow> json option \<Rightarrow> json" where
  "addressString chain v = of_text (canonicalAddress chain (coerce v))"

definition or_else :: "json \<Rightarrow> json \<Rightarrow> json" where
  "or_else v d = (if v = JNull then d else v)"

text \<open>\<open>/^(0x[0-9a-f]+|[0-9]+)$/i\<close>\<close>

definition gas_number :: "json option \<Rightarrow> bool" where
  "gas_number v = (case v of
      Some (JStr s) \<Rightarrow>
        (to_lower (take 2 s) = ''0x'' \<and> drop 2 s \<noteq> [] \<and> list_all is_hex (drop 2 s)) \<or>
        (s \<noteq> [] \<and> list_all is_digit s)
    | _ \<Rightarrow> False)"

definition BOUND_KEYS :: "string list" where
  "BOUND_KEYS = [''l1_gas'', ''l2_gas'', ''l1_data_gas'']"

definition valid_bounds :: "json option \<Rightarrow> bool" where
  "valid_bounds rb \<longleftrightarrow> js_truthy rb \<and> list_all (\<lambda>k.
     gas_number (opt_prop (opt_prop rb k) ''max_amount'') \<and>
     gas_number (opt_prop (opt_prop rb k) ''max_price_per_unit'')) BOUND_KEYS"

definition the_json :: "json option \<Rightarrow> json" where
  "the_json v = (case v of None \<Rightarrow> JNull | Some x \<Rightarrow> x)"

definition is_object :: "json option \<Rightarrow> bool" where
  "is_object v = (case v of Some (JObj kvs) \<Rightarrow> True | Some (JArr xs) \<Rightarrow> True | _ \<Rightarrow> False)"

definition sanitizeStealthConfig :: "json option \<Rightarrow> string \<Rightarrow> json" where
  "sanitizeStealthConfig raw chain =
     (if \<not> is_object raw then JNull
      else let kind = map_option ch_kind (chainByKey chain); p = opt_prop raw in
      if kind = Some ''evm'' then
        (let factory = addressString chain (p ''factory'');
             cosigner = addressString chain (p ''cosigner'');
             chainId = optInt (js_Number (p ''chainId''));
             usdc = addressString chain (p ''usdc'');
             name = optString (opt_prop (p ''eip712'') ''name'');
             version = optString (opt_prop (p ''eip712'') ''version'') in
         if \<not> list_all (\<lambda>v. js_truthy (Some v)) [factory, cosigner, chainId, usdc, name, version] then JNull
         else JObj [(''factory'', factory), (''cosigner'', cosigner), (''chainId'', chainId), (''usdc'', usdc),
           (''eip712'', JObj [(''name'', name), (''version'', version)]),
           (''maxAuthWindowSecs'', or_else (optInt (int_of (p ''maxAuthWindowSecs''))) (JNum 86400))])
      else if kind = Some ''starknet'' then
        (let classHash = feltString (p ''classHash'');
             cosigner = of_text (canonicalEvm (coerce (p ''cosigner'')));
             chainId = feltString (p ''chainId'');
             usdc = addressString chain (p ''usdc'');
             maxFeeFri = optString (p ''maxFeeFri'');
             rb = p ''resourceBounds'' in
         if \<not> list_all (\<lambda>v. js_truthy (Some v)) [classHash, cosigner, chainId, usdc, maxFeeFri] \<or> \<not> valid_bounds rb
         then JNull
         else JObj [(''classHash'', classHash), (''cosigner'', cosigner), (''chainId'', chainId), (''usdc'', usdc),
           (''maxFeeFri'', maxFeeFri),
           (''resourceBounds'', JObj (map (\<lambda>k. (k, JObj [
              (''max_amount'', the_json (opt_prop (opt_prop rb k) ''max_amount'')),
              (''max_price_per_unit'', the_json (opt_prop (opt_prop rb k) ''max_price_per_unit''))])) BOUND_KEYS))])
      else if kind = Some ''solana'' then
        (let cosigner = addressString chain (p ''cosigner'');
             relayer = addressString chain (p ''relayer'');
             usdc = addressString chain (p ''usdc'') in
         if list_all (\<lambda>v. js_truthy (Some v)) [cosigner, relayer, usdc]
         then JObj [(''cosigner'', cosigner), (''relayer'', relayer), (''usdc'', usdc)] else JNull)
      else JNull)"

definition LANE_ID :: "string \<Rightarrow> bool" where
  "LANE_ID s \<longleftrightarrow> 1 \<le> length s \<and> length s \<le> 128 \<and>
     list_all (\<lambda>c. is_upper c \<or> is_lower c \<or> is_digit c \<or> c = CHR ''_'' \<or> c = CHR ''-'') s"

definition sanitizeReceiver :: "json \<Rightarrow> json option" where
  "sanitizeReceiver r =
     (let chain = wire_json (opt_prop (Some r) ''chain'') in
      case canonicalAddress chain (coerce (opt_prop (Some r) ''address'')) of
        None \<Rightarrow> None
      | Some address \<Rightarrow>
          if chainByKey chain = None then None
          else Some (JObj [(''chain'', JStr chain), (''address'', JStr address),
            (''merchant'', optString (opt_prop (Some r) ''merchant'')),
            (''startBlock'', optInt (int_of (opt_prop (Some r) ''startBlock'')))]))"

fun all_some :: "('a \<Rightarrow> 'b option) \<Rightarrow> 'a list \<Rightarrow> 'b list option" where
  "all_some f [] = Some []"
| "all_some f (x # xs) = (case f x of None \<Rightarrow> None | Some y \<Rightarrow> map_option ((#) y) (all_some f xs))"

definition is_finite_number :: "json option \<Rightarrow> bool" where
  "is_finite_number v = (case v of Some (JNum n) \<Rightarrow> True | Some (JReal s) \<Rightarrow> True | _ \<Rightarrow> False)"

definition sanitizeLane :: "int \<Rightarrow> json \<Rightarrow> json option" where
  "sanitizeLane now raw =
     (let p = opt_prop (Some raw) in
      case as_string (p ''id'') of None \<Rightarrow> None | Some i \<Rightarrow>
      if \<not> LANE_ID i then None else
      let target = wire_json (p ''targetChain'') in
      if chainByKey target = None then None else
      (case canonicalAddress target (coerce (p ''targetRecipient'')) of None \<Rightarrow> None | Some targetRecipient \<Rightarrow>
      (case as_array (p ''receivers'') of None \<Rightarrow> None | Some rs \<Rightarrow>
      if length rs = 0 \<or> length rs > 8 then None else
      (case all_some sanitizeReceiver rs of None \<Rightarrow> None | Some receivers \<Rightarrow>
        Some (JObj [(''v'', JNum 2), (''id'', JStr i), (''privacy'', JBool (js_truthy (p ''privacy''))),
          (''targetChain'', JStr target), (''targetRecipient'', JStr targetRecipient),
          (''merchantAddress'', optString (p ''merchantAddress'')),
          (''index'', or_else (optInt (int_of (p ''index''))) (JNum 0)),
          (''prfCredentialId'', optString (p ''prfCredentialId'')),
          (''webhookUrl'', optString (p ''webhookUrl'')),
          (''createdAt'', if is_finite_number (p ''createdAt'') then the_json (p ''createdAt'') else JNum now),
          (''stealthConfig'', sanitizeStealthConfig (p ''stealthConfig'') target),
          (''receivers'', JArr receivers),
          (''needsVerify'', JBool True)])))))"

section \<open>Import and export\<close>

fun import_loop :: "quota \<Rightarrow> int \<Rightarrow> storage \<Rightarrow> json option set \<Rightarrow> nat \<Rightarrow> nat \<Rightarrow> json list \<Rightarrow> storage \<times> nat \<times> nat" where
  "import_loop quota now st existing added skipped [] = (st, added, skipped)"
| "import_loop quota now st existing added skipped (raw # raws) =
     (case sanitizeLane now raw of
        None \<Rightarrow> import_loop quota now st existing added (skipped + 1) raws
      | Some lane \<Rightarrow>
          if lane_id lane \<in> existing then import_loop quota now st existing added (skipped + 1) raws
          else
            let (st', saved) = saveLane quota st lane in
            if saved then import_loop quota now st' (insert (lane_id lane) existing) (added + 1) skipped raws
            else import_loop quota now st' existing added (skipped + 1) raws)"

definition importBackup :: "quota \<Rightarrow> int \<Rightarrow> storage \<Rightarrow> json option \<Rightarrow> storage \<times> (nat \<times> nat) result" where
  "importBackup quota now st parsed =
     (case parsed of
        None \<Rightarrow> (st, Inl (Error ''That file is not valid JSON.''))
      | Some data \<Rightarrow>
          (case as_array (opt_prop (Some data) ''lanes'') of
             None \<Rightarrow> (st, Inl (Error ''That file is not a Beanie backup.''))
           | Some raws \<Rightarrow>
               if opt_prop (Some data) ''app'' \<noteq> Some (JStr ''beanie'')
               then (st, Inl (Error ''That file is not a Beanie backup.''))
               else
                 let existing = set (map lane_id (getLanes st));
                     (st', added, skipped) = import_loop quota now st existing 0 0 raws
                 in (st', Inr (added, skipped))))"

definition exportBackup :: "int \<Rightarrow> storage \<Rightarrow> json" where
  "exportBackup now st = JObj [(''app'', JStr ''beanie''), (''version'', JNum 2),
     (''exportedAt'', JNum now), (''lanes'', JArr (getLanes st))]"

section \<open>What an import does\<close>

text \<open>The promise of the checks: a verified shape, addresses in canonical form, and the mark that forbids sharing.\<close>

definition receiver_checked :: "json \<Rightarrow> bool" where
  "receiver_checked r = (case (opt_prop (Some r) ''chain'', opt_prop (Some r) ''address'') of
      (Some (JStr c), Some (JStr a)) \<Rightarrow> chainByKey c \<noteq> None \<and> wire c = c \<and> canonicalAddress c a = Some a
    | _ \<Rightarrow> False)"

definition lane_checked :: "json \<Rightarrow> bool" where
  "lane_checked l \<longleftrightarrow> isLane l \<and> opt_prop (Some l) ''needsVerify'' = Some (JBool True) \<and>
     (case (lane_id l, opt_prop (Some l) ''targetChain'', opt_prop (Some l) ''targetRecipient'', opt_prop (Some l) ''receivers'') of
        (Some (JStr i), Some (JStr c), Some (JStr a), Some (JArr rs)) \<Rightarrow>
          LANE_ID i \<and> canonicalAddress c a = Some a \<and> rs \<noteq> [] \<and> length rs \<le> 8 \<and> list_all receiver_checked rs
      | _ \<Rightarrow> False)"

lemma all_some_Some: "all_some f xs = Some ys \<longleftrightarrow> list_all2 (\<lambda>x y. f x = Some y) xs ys"
  by (induction xs arbitrary: ys) (auto simp: list_all2_Cons1 split: option.splits)

lemma wire_wire_json [simp]: "wire (wire_json v) = wire_json v"
  by (simp add: wire_json_def)

lemma chain_json_wire: "chainByKey c \<noteq> None \<Longrightarrow> chain_json (Some (JStr c)) \<noteq> None"
proof -
  assume c: "chainByKey c \<noteq> None"
  then have "c \<noteq> []" by (auto simp: chainByKey_None wire_def to_upper_def chain_keys)
  then show ?thesis using c by (simp add: chain_json_def wire_json_def js_truthy_def)
qed

lemma sanitizeReceiver_checked: "sanitizeReceiver r = Some x \<Longrightarrow> receiver_checked x \<and> js_truthy (Some x) \<and>
    chain_json (opt_prop (Some x) ''chain'') \<noteq> None \<and> as_string (opt_prop (Some x) ''address'') \<noteq> None"
  using addr.idem chain_json_wire
  by (auto simp: sanitizeReceiver_def Let_def receiver_checked_def js_truthy_def as_string_def
      split: option.splits if_splits)

lemma sanitizeLane_checked: "sanitizeLane now raw = Some lane \<Longrightarrow> lane_checked lane"
proof -
  assume l: "sanitizeLane now raw = Some lane"
  then obtain i t a rs rs' where p: "LANE_ID i" "chainByKey t \<noteq> None" "canonicalAddress t a = Some a"
    "rs \<noteq> []" "length rs \<le> 8" "all_some sanitizeReceiver rs = Some rs'"
    and lane: "map (\<lambda>k. opt_prop (Some lane) k) [''id'', ''targetChain'', ''targetRecipient'', ''receivers'', ''needsVerify'']
      = [Some (JStr i), Some (JStr t), Some (JStr a), Some (JArr rs'), Some (JBool True)]" "js_truthy (Some lane)"
    using addr.idem
    by (auto simp: sanitizeLane_def Let_def js_truthy_def split: option.splits if_splits)
  have rs: "list_all2 (\<lambda>x y. sanitizeReceiver x = Some y) rs rs'" using p(6) by (simp add: all_some_Some)
  then have "rs' \<noteq> []" "length rs' \<le> 8" using p(4,5) by (auto dest: list_all2_lengthD)
  moreover have "\<forall>y \<in> set rs'. \<exists>x. sanitizeReceiver x = Some y"
    using rs by (induction rule: list_all2_induct) auto
  then have "list_all receiver_checked rs'" "list_all (\<lambda>r. js_truthy (Some r) \<and> chain_json (opt_prop (Some r) ''chain'') \<noteq> None \<and>
      as_string (opt_prop (Some r) ''address'') \<noteq> None) rs'"
    using sanitizeReceiver_checked by (auto simp: list_all_iff)
  ultimately show ?thesis
    using p lane chain_json_wire [OF p(2)] by (simp add: lane_checked_def isLane_def lane_id_def as_string_def as_array_def)
qed

lemma lane_checked_isLane: "lane_checked l \<Longrightarrow> isLane l"
  by (simp add: lane_checked_def)

lemma getLanes_put: "list_all isLane ls \<Longrightarrow> getLanes (st(K_lanes \<mapsto> JArr ls)) = ls"
  by (simp add: getLanes_def read_item_def as_array_def list_all_iff filter_id_conv)

lemma getLanes_isLane: "list_all isLane (getLanes st)"
  by (auto simp: getLanes_def list_all_iff split: option.splits)

lemma saveLane_new:
  assumes "lane_checked lane" "lane_id lane \<notin> set (map lane_id (getLanes st))"
    and "saveLane quota st lane = (st', saved)"
  shows "getLanes st' = (if saved then lane # getLanes st else getLanes st)"
proof -
  have "filter (\<lambda>l. lane_id l \<noteq> lane_id lane) (getLanes st) = getLanes st"
    using assms(2) by (auto simp: filter_id_conv image_iff)
  then show ?thesis
    using assms(1,3) getLanes_isLane [of st] lane_checked_isLane
    by (auto simp: saveLane_def write_item_def getLanes_put split: if_splits)
qed

text \<open>
  \<open>new\<close> are lanes an import may add to \<open>old\<close>: each made by the checks from a lane of the file,
  with identifiers that are pairwise different and not among the old ones.
\<close>

definition merged :: "int \<Rightarrow> json list \<Rightarrow> json list \<Rightarrow> json list \<Rightarrow> bool" where
  "merged now raws new old \<longleftrightarrow> list_all lane_checked new \<and>
     set new \<subseteq> {l. Some l \<in> set (map (sanitizeLane now) raws)} \<and>
     distinct (map lane_id new) \<and> set (map lane_id new) \<inter> set (map lane_id old) = {}"

lemma import_loop_merged:
  assumes "import_loop quota now st (set (map lane_id (getLanes st))) a k raws = (st', a', k')"
  shows "\<exists>new. getLanes st' = new @ getLanes st \<and> merged now raws new (getLanes st) \<and>
    a' = a + length new \<and> a' + k' = a + k + length raws"
  using assms
proof (induction raws arbitrary: st a k)
  case Nil
  then show ?case by (simp add: merged_def)
next
  case (Cons raw raws)
  have skip: ?case if loop: "import_loop quota now st2 (set (map lane_id (getLanes st2))) a (k + 1) raws = (st', a', k')"
      and same: "getLanes st2 = getLanes st" for st2
  proof -
    obtain new where "getLanes st' = new @ getLanes st2" "merged now raws new (getLanes st2)"
      "a' = a + length new" "a' + k' = a + (k + 1) + length raws"
      using Cons.IH [OF loop] by blast
    then show ?thesis using same by (intro exI [of _ new]) (auto simp: merged_def)
  qed
  show ?case
  proof (cases "sanitizeLane now raw")
    case None
    then show ?thesis using Cons.prems skip [of st] by simp
  next
    case (Some lane)
    show ?thesis
    proof (cases "lane_id lane \<in> set (map lane_id (getLanes st))")
      case True
      then show ?thesis using Cons.prems Some skip [of st] by simp
    next
      case False
      obtain st1 saved where save: "saveLane quota st lane = (st1, saved)" by fastforce
      note lanes = saveLane_new [OF sanitizeLane_checked [OF Some] False save]
      show ?thesis
      proof (cases saved)
        case True
        then have "set (map lane_id (getLanes st1)) = insert (lane_id lane) (set (map lane_id (getLanes st)))"
          using lanes by simp
        then have "import_loop quota now st1 (set (map lane_id (getLanes st1))) (a + 1) k raws = (st', a', k')"
          using Cons.prems Some False save True by simp
        then obtain new where "getLanes st' = new @ getLanes st1" "merged now raws new (getLanes st1)"
          "a' = a + 1 + length new" "a' + k' = a + 1 + k + length raws"
          using Cons.IH by blast
        then show ?thesis
          using lanes True Some sanitizeLane_checked [OF Some] False
          by (intro exI [of _ "new @ [lane]"]) (auto simp: merged_def)
      next
        case F: False
        then show ?thesis using Cons.prems Some False save skip [of st1] lanes by (simp split: if_splits)
      qed
    qed
  qed
qed

text \<open>
  C33: importing never overwrites. The stored lanes after an import are the previous ones, unchanged and in their
  order, preceded by the added ones; every added lane comes from the file through the checks, has
  canonical addresses and is marked as not verified, and no two lanes share an identifier that did
  not before; the two counts are the lanes added and the lanes of the file left out.
\<close>

theorem importBackup_merges:
  assumes "importBackup quota now st parsed = (st', Inr (added, skipped))"
  shows "\<exists>raws new. parsed \<noteq> None \<and> opt_prop parsed ''lanes'' = Some (JArr raws) \<and>
    getLanes st' = new @ getLanes st \<and> merged now raws new (getLanes st) \<and>
    added = length new \<and> added + skipped = length raws"
proof -
  obtain data raws where d: "parsed = Some data" "opt_prop parsed ''lanes'' = Some (JArr raws)"
    "import_loop quota now st (set (map lane_id (getLanes st))) 0 0 raws = (st', added, skipped)"
    using assms by (auto simp: importBackup_def Let_def split: option.splits if_splits prod.splits)
  then show ?thesis using import_loop_merged [OF d(3)] by auto
qed

theorem importBackup_merges_witness:
  "\<exists>raws new. opt_prop (Some (JObj [(''app'', JStr ''beanie''), (''lanes'', JArr [JNull, JNum 3])])) ''lanes''
      = Some (JArr raws) \<and>
    getLanes (fst (importBackup (\<lambda>st k v. True) 9 Map.empty (Some (JObj [(''app'', JStr ''beanie''), (''lanes'', JArr [JNull, JNum 3])]))))
      = new @ getLanes Map.empty \<and> length new = 0 \<and> length raws = 2"
proof -
  have "importBackup (\<lambda>st k v. True) 9 Map.empty (Some (JObj [(''app'', JStr ''beanie''), (''lanes'', JArr [JNull, JNum 3])]))
      = (Map.empty, Inr (0, 2))"
    by (simp add: importBackup_def Let_def sanitizeLane_def opt_prop_def as_string_def as_array_def)
  from importBackup_merges [OF this] this show ?thesis by fastforce
qed

end
