(* ===== verification/Base64.thy ===== *)
theory Base64
  imports Base58
begin

text \<open>
  Base64 as the scripts use it: \<open>btoa\<close> and \<open>atob\<close> on bytes (\<open>toBase64\<close>, \<open>fromBase64\<close> of
  \<open>scripts/solana.js\<close>) and the URL alphabet without padding of \<open>scripts/passkey.js\<close>. Both are
  codecs.
\<close>

section \<open>The alphabet\<close>

definition B64 :: string where
  "B64 = ''ABCDEFGHIJKLMNOPQRSTUVWXYZabcdefghijklmnopqrstuvwxyz0123456789+/''"

definition b64_char :: "nat \<Rightarrow> char" where
  "b64_char d = B64 ! d"

definition b64_val :: "char \<Rightarrow> nat option" where
  "b64_val c =
     (if is_upper c then Some (code c - 65) else if is_lower c then Some (code c - 71)
      else if is_digit c then Some (code c + 4) else if c = CHR ''+'' then Some 62
      else if c = CHR ''/'' then Some 63 else None)"

section \<open>Groups\<close>

text \<open>The six-bit groups of a byte string, most significant bits first, and back.\<close>

fun sextets :: "nat list \<Rightarrow> nat list" where
  "sextets (a # b # c # r) = [a div 4, a mod 4 * 16 + b div 16, b mod 16 * 4 + c div 64, c mod 64] @ sextets r"
| "sextets [a, b] = [a div 4, a mod 4 * 16 + b div 16, b mod 16 * 4]"
| "sextets [a] = [a div 4, a mod 4 * 16]"
| "sextets [] = []"

fun octets :: "nat list \<Rightarrow> nat list" where
  "octets (x # y # z # w # r) = [x * 4 + y div 16, y mod 16 * 16 + z div 4, z mod 4 * 64 + w] @ octets r"
| "octets [x, y, z] = [x * 4 + y div 16, y mod 16 * 16 + z div 4]"
| "octets [x, y] = [x * 4 + y div 16]"
| "octets r = []"

definition btoa :: "bytes \<Rightarrow> string" where
  "btoa bs = (let t = map b64_char (sextets (map unat bs)) in t @ replicate ((4 - length t mod 4) mod 4) CHR ''='')"

text \<open>
  \<open>atob\<close> drops white space, then at most two \<open>=\<close> from a text whose length is a multiple of four, and
  throws on any other character and on a text that is one character longer than whole groups.
\<close>

definition atob_space :: "char \<Rightarrow> bool" where
  "atob_space c \<longleftrightarrow> code c \<in> {9, 10, 12, 13, 32}"

fun all_vals :: "string \<Rightarrow> nat list option" where
  "all_vals [] = Some []"
| "all_vals (c # s) = (case b64_val c of None \<Rightarrow> None | Some v \<Rightarrow> map_option ((#) v) (all_vals s))"

definition drop_pad :: "string \<Rightarrow> string" where
  "drop_pad s =
     (if length s mod 4 = 0 \<and> s \<noteq> [] \<and> last s = CHR ''='' then
        (if butlast s \<noteq> [] \<and> last (butlast s) = CHR ''='' then butlast (butlast s) else butlast s)
      else s)"

definition atob :: "string \<Rightarrow> bytes result" where
  "atob v =
     (let s = drop_pad (filter (\<lambda>c. \<not> atob_space c) v) in
      if length s mod 4 = 1 then Inl (Error ''InvalidCharacterError'')
      else case all_vals s of
        None \<Rightarrow> Inl (Error ''InvalidCharacterError'')
      | Some vs \<Rightarrow> Inr (map word_of_nat (octets vs)))"

section \<open>The functions of the scripts\<close>

definition toBase64 :: "bytes \<Rightarrow> string" where
  "toBase64 bs = btoa bs"

definition fromBase64 :: "string \<Rightarrow> bytes result" where
  "fromBase64 s = atob s"

definition subst_char :: "char \<Rightarrow> char \<Rightarrow> string \<Rightarrow> string" where
  "subst_char a b s = map (\<lambda>c. if c = a then b else c) s"

definition bufferToBase64Url :: "bytes \<Rightarrow> string" where
  "bufferToBase64Url bs =
     (let s = subst_char CHR ''/'' CHR ''_'' (subst_char CHR ''+'' CHR ''-'' (btoa bs))
      in rev (dropWhile (\<lambda>c. c = CHR ''='') (rev s)))"

definition base64UrlToBuffer :: "string \<Rightarrow> bytes result" where
  "base64UrlToBuffer s =
     (if s = [] then Inr []
      else
        let b = subst_char CHR ''_'' CHR ''/'' (subst_char CHR ''-'' CHR ''+'' s)
        in atob (pad_end (length b + (4 - length b mod 4) mod 4) CHR ''='' b))"

section \<open>Round trips\<close>

lemma sextets_less: "list_all (\<lambda>a. a < 256) as \<Longrightarrow> list_all (\<lambda>d. d < 64) (sextets as)"
  by (induction as rule: sextets.induct) auto

lemma octets_sextets: "list_all (\<lambda>a. a < 256) as \<Longrightarrow> octets (sextets as) = as"
  by (induction as rule: sextets.induct) auto

lemma length_sextets: "length (sextets as) mod 4 \<noteq> 1"
  by (induction as rule: sextets.induct) auto

lemma b64_val_char: "d < 64 \<Longrightarrow> b64_val (b64_char d) = Some d"
proof -
  have "list_all (\<lambda>d. b64_val (b64_char d) = Some d) [0..<64]"
    by (simp add: upt_rec b64_char_def B64_def b64_val_def is_upper_def is_lower_def is_digit_def in_range_def code_def)
  then show "d < 64 \<Longrightarrow> b64_val (b64_char d) = Some d" by (simp add: list_all_iff)
qed

lemma all_vals_chars: "list_all (\<lambda>d. d < 64) ds \<Longrightarrow> all_vals (map b64_char ds) = Some ds"
  by (induction ds) (simp_all add: b64_val_char)

lemma b64_val_special:
  "b64_val CHR ''='' = None" "b64_val CHR ''-'' = None" "b64_val CHR ''_'' = None"
  "atob_space c \<Longrightarrow> b64_val c = None"
  by (auto simp: b64_val_def is_upper_def is_lower_def is_digit_def in_range_def code_def atob_space_def)

definition b64_body :: "bytes \<Rightarrow> string" where
  "b64_body bs = map b64_char (sextets (map unat bs))"

lemma body_chars: "c \<in> set (b64_body bs) \<Longrightarrow> b64_val c \<noteq> None"
proof -
  have "list_all (\<lambda>d. d < 64) (sextets (map unat bs))" by (rule sextets_less) (simp add: list_all_iff)
  then show "c \<in> set (b64_body bs) \<Longrightarrow> b64_val c \<noteq> None"
    by (auto simp: b64_body_def list_all_iff b64_val_char)
qed

lemma body_no_special: "c \<in> set (b64_body bs) \<Longrightarrow> c \<noteq> CHR ''='' \<and> c \<noteq> CHR ''-'' \<and> c \<noteq> CHR ''_'' \<and> \<not> atob_space c"
  using body_chars [of c bs] b64_val_special by auto

lemma btoa_body: "btoa bs = b64_body bs @ replicate ((4 - length (b64_body bs) mod 4) mod 4) CHR ''=''"
  by (simp add: btoa_def Let_def b64_body_def)

lemma body_length: "length (b64_body bs) mod 4 \<noteq> 1"
  using length_sextets [of "map unat bs"] by (simp add: b64_body_def)

lemma drop_pad_body:
  assumes "k = (4 - length (b64_body bs) mod 4) mod 4"
  shows "drop_pad (b64_body bs @ replicate k CHR ''='') = b64_body bs"
proof -
  let ?b = "b64_body bs"
  have last: "?b \<noteq> [] \<Longrightarrow> last ?b \<noteq> CHR ''=''" using body_no_special [of "last ?b" bs] by simp
  have "length ?b mod 4 = 0 \<or> length ?b mod 4 = 2 \<or> length ?b mod 4 = 3"
    using body_length [of bs] by presburger
  then consider "k = 0" | "k = 2" "length ?b mod 4 = 2" | "k = 1" "length ?b mod 4 = 3"
    using assms by auto
  then show ?thesis
  proof cases
    case 1
    then show ?thesis using last by (cases "?b = []") (simp_all add: drop_pad_def)
  next
    case 2
    then have "(length ?b + 2) mod 4 = 0" by presburger
    then show ?thesis using 2 by (simp add: drop_pad_def numeral_2_eq_2 butlast_append)
  next
    case 3
    then have "(length ?b + 1) mod 4 = 0" "?b \<noteq> []" by (presburger, auto)
    then show ?thesis using 3 last by (simp add: drop_pad_def butlast_append)
  qed
qed

lemma atob_body:
  assumes "k = (4 - length (b64_body bs) mod 4) mod 4"
  shows "atob (b64_body bs @ replicate k CHR ''='') = Inr bs"
proof -
  have "filter (\<lambda>c. \<not> atob_space c) (b64_body bs @ replicate k CHR ''='') = b64_body bs @ replicate k CHR ''=''"
    using body_no_special by (auto simp: filter_id_conv atob_space_def code_def)
  moreover have b: "list_all (\<lambda>a. a < 256) (map unat bs)" by (simp add: list_all_iff)
  moreover have "all_vals (b64_body bs) = Some (sextets (map unat bs))"
    unfolding b64_body_def by (rule all_vals_chars) (rule sextets_less [OF b])
  ultimately show ?thesis
    using body_length [of bs] by (simp add: atob_def drop_pad_body [OF assms] octets_sextets map_word_unat)
qed

lemma fromBase64_toBase64: "fromBase64 (toBase64 bs) = Inr bs"
  by (simp add: fromBase64_def toBase64_def btoa_body atob_body)

lemma subst_twice: "\<forall>c \<in> set s. c \<noteq> b \<Longrightarrow> subst_char b a (subst_char a b s) = s"
  by (induction s) (auto simp: subst_char_def)

definition url_body :: "bytes \<Rightarrow> string" where
  "url_body bs = subst_char CHR ''/'' CHR ''_'' (subst_char CHR ''+'' CHR ''-'' (b64_body bs))"

lemma bufferToBase64Url_body: "bufferToBase64Url bs = url_body bs"
proof -
  have "dropWhile (\<lambda>c. c = CHR ''='') (replicate k CHR ''='' @ rev (url_body bs)) = rev (url_body bs)" for k
  proof (induction k)
    case 0
    have "\<forall>c \<in> set (url_body bs). c \<noteq> CHR ''=''"
      using body_no_special by (auto simp: url_body_def subst_char_def)
    then show ?case by (cases "rev (url_body bs)") (auto simp: rev_eq_Cons_iff)
  qed simp
  then show ?thesis
    by (simp add: bufferToBase64Url_def Let_def btoa_body url_body_def subst_char_def)
qed

lemma unsubst_url_body: "subst_char CHR ''_'' CHR ''/'' (subst_char CHR ''-'' CHR ''+'' (url_body bs)) = b64_body bs"
proof -
  have "\<forall>c \<in> set (b64_body bs). c \<noteq> CHR ''-'' \<and> c \<noteq> CHR ''_''" using body_no_special by blast
  then show ?thesis unfolding url_body_def subst_char_def map_map by (intro map_idI) auto
qed

lemma base64Url_roundtrip: "base64UrlToBuffer (bufferToBase64Url bs) = Inr bs"
proof (cases "url_body bs = []")
  case True
  then have "b64_body bs = []" by (simp add: url_body_def subst_char_def)
  then have "map unat bs = []"
    using octets_sextets [of "map unat bs"] by (simp add: b64_body_def list_all_iff)
  then have "bs = []" by simp
  then show ?thesis using True by (simp add: bufferToBase64Url_body base64UrlToBuffer_def)
next
  case False
  then show ?thesis
    using unsubst_url_body [of bs] atob_body [OF refl, of bs]
    by (simp add: bufferToBase64Url_body base64UrlToBuffer_def Let_def pad_end_def)
qed

interpretation b64: codec toBase64 "\<lambda>s. ok_part (fromBase64 s)" "\<lambda>bs. True"
  by unfold_locales (simp add: fromBase64_toBase64)

interpretation b64url: codec bufferToBase64Url "\<lambda>s. ok_part (base64UrlToBuffer s)" "\<lambda>bs. True"
  by unfold_locales (simp add: base64Url_roundtrip)

text \<open>
  Base64 loses nothing. Every byte string decodes from its encoding, in the padded alphabet sent to the API and in the
  URL alphabet of the passkey messages, so different bytes never have one text.
\<close>

lemma base64_roundtrips:
  "fromBase64 (toBase64 bs) = Inr bs \<and> base64UrlToBuffer (bufferToBase64Url bs) = Inr bs \<and>
   (toBase64 bs = toBase64 cs \<longleftrightarrow> bs = cs) \<and> (bufferToBase64Url bs = bufferToBase64Url cs \<longleftrightarrow> bs = cs)"
  using fromBase64_toBase64 base64Url_roundtrip b64.enc_inject b64url.enc_inject by blast

end
