(* ===== verification/Discovery.thy ===== *)
theory Discovery
  imports Rpc Base64
begin

text \<open>
  The Solana receivers of \<open>scripts/onchain.js\<close>: a receiver is a random key of the server, so it is found in the
  factory program's announcements and checked against the program accounts derived from it.
  \<open>nets i\<close> is the network during round \<open>i\<close> of the search and \<open>clock i\<close> the time at its start;
  \<open>sha\<close> is SHA-256.
\<close>

section \<open>Verification\<close>

definition solanaProgram :: "program result" where
  "solanaProgram =
     then_do (requireChain ''SOLANA'') (\<lambda>c.
       case ch_program c of
         None \<Rightarrow> Inl (Error ''Solana factory program is not configured.'')
       | Some p \<Rightarrow> if program_id p = [] then Inl (Error ''Solana factory program is not configured.'') else Inr p)"

definition hasProgramAccount :: "json option \<Rightarrow> string \<Rightarrow> bool result" where
  "hasProgramAccount res programId =
     (let v = opt_prop res ''value'' in
      if nullish v then Inr False
      else case as_array v of
        None \<Rightarrow> Inl TypeError
      | Some xs \<Rightarrow> Inr (list_ex (\<lambda>a. js_truthy (Some a) \<and> opt_prop (Some a) ''owner'' = Some (JStr programId)) xs))"

definition route_of :: "string \<Rightarrow> route \<Rightarrow> route_ref" where
  "route_of merchant route = \<lparr>rmerchant = merchant, rchain32 = chain32 route, rrecipient32 = recipient32 route\<rparr>"

definition verifySolanaReceiver :: "(bytes \<Rightarrow> bytes) \<Rightarrow> net \<Rightarrow> string \<Rightarrow> string \<Rightarrow> route \<Rightarrow> bool result" where
  "verifySolanaReceiver sha net merchant receiver route =
     then_do solanaProgram (\<lambda>p.
     then_do (receiverPdas sha p (route_of merchant route) receiver) (\<lambda>(config, pending).
     then_do (rpc net ''SOLANA'' ''getMultipleAccounts''
        [JArr [JStr config, JStr pending],
         JObj [(''encoding'', JStr ''base64''), (''dataSlice'', JObj [(''offset'', JNum 0), (''length'', JNum 0)]),
               (''commitment'', JStr ''confirmed'')]] Default) (\<lambda>res.
       hasProgramAccount res (program_id p))))"

section \<open>Discovery\<close>

definition DISCOVERY_TX_PER_ROUND :: nat where "DISCOVERY_TX_PER_ROUND = 8"

definition PROGRAM_DATA :: string where "PROGRAM_DATA = ''Program data: ''"

text \<open>The log lines of one transaction.\<close>

fun disc_lines :: "(bytes \<Rightarrow> bytes) \<Rightarrow> net \<Rightarrow> program \<Rightarrow> string \<Rightarrow> route \<Rightarrow> json list \<Rightarrow> string option result" where
  "disc_lines sha net p merchant route [] = Inr None"
| "disc_lines sha net p merchant route (line # lines) =
     (case line of
        JStr s \<Rightarrow>
          if \<not> starts_with PROGRAM_DATA s then disc_lines sha net p merchant route lines
          else (case fromBase64 (drop (length PROGRAM_DATA) s) of
              Inl e \<Rightarrow> disc_lines sha net p merchant route lines
            | Inr data \<Rightarrow>
                then_do (receiverFromAnnouncedEvent sha data p (route_of merchant route)) (\<lambda>found.
                  case found of
                    None \<Rightarrow> disc_lines sha net p merchant route lines
                  | Some receiver \<Rightarrow>
                      if receiver = [] then disc_lines sha net p merchant route lines
                      else then_do (verifySolanaReceiver sha net merchant receiver route) (\<lambda>ok.
                        if ok then Inr (Some receiver) else disc_lines sha net p merchant route lines)))
      | _ \<Rightarrow> Inl TypeError)"

definition log_lines :: "json option \<Rightarrow> json list result" where
  "log_lines meta =
     (let l = opt_prop meta ''logMessages'' in
      if nullish l then Inr [] else (case as_array l of None \<Rightarrow> Inl TypeError | Some xs \<Rightarrow> Inr xs))"

text \<open>
  The transactions of one round. The signatures seen so far survive an error that ends the round.
\<close>

fun disc_txs ::
    "(bytes \<Rightarrow> bytes) \<Rightarrow> net \<Rightarrow> program \<Rightarrow> string \<Rightarrow> route \<Rightarrow> json option list \<Rightarrow> json list \<Rightarrow> json option list \<times> string option result" where
  "disc_txs sha net p merchant route seen [] = (seen, Inr None)"
| "disc_txs sha net p merchant route seen (s # sigs) =
     (let sg = opt_prop (Some s) ''signature'' in
      case rpc net ''SOLANA'' ''getTransaction''
          [case sg of None \<Rightarrow> JNull | Some x \<Rightarrow> x,
           JObj [(''encoding'', JStr ''jsonParsed''), (''commitment'', JStr ''confirmed''),
                 (''maxSupportedTransactionVersion'', JNum 0)]] Default of
        Inl e \<Rightarrow> (seen, Inl e)
      | Inr tx \<Rightarrow>
          let meta = opt_prop tx ''meta'' in
          if \<not> js_truthy meta then disc_txs sha net p merchant route seen sigs
          else (case then_do (log_lines meta) (disc_lines sha net p merchant route) of
              Inl e \<Rightarrow> (sg # seen, Inl e)
            | Inr (Some r) \<Rightarrow> (sg # seen, Inr (Some r))
            | Inr None \<Rightarrow> disc_txs sha net p merchant route (sg # seen) sigs))"

definition fresh_sigs :: "int \<Rightarrow> json option list \<Rightarrow> json list \<Rightarrow> json list" where
  "fresh_sigs fromSlot seen sigs =
     take DISCOVERY_TX_PER_ROUND (filter (\<lambda>s. \<not> js_truthy (opt_prop (Some s) ''err'') \<and>
       (case js_Number (opt_prop (Some s) ''slot'') of None \<Rightarrow> False | Some n \<Rightarrow> fromSlot \<le> n) \<and>
       opt_prop (Some s) ''signature'' \<notin> set seen) sigs)"

definition disc_round ::
    "(bytes \<Rightarrow> bytes) \<Rightarrow> net \<Rightarrow> program \<Rightarrow> string \<Rightarrow> route \<Rightarrow> int \<Rightarrow> json option list \<Rightarrow> json option list \<times> string option result" where
  "disc_round sha net p merchant route fromSlot seen =
     (case rpc net ''SOLANA'' ''getSignaturesForAddress''
         [JStr (program_id p), JObj [(''limit'', JNum 100), (''commitment'', JStr ''confirmed'')]] Default of
        Inl e \<Rightarrow> (seen, Inl e)
      | Inr v \<Rightarrow>
          (case as_array v of
             None \<Rightarrow> (seen, Inl TypeError)
           | Some sigs \<Rightarrow>
               if JNull \<in> set sigs then (seen, Inl TypeError)
               else disc_txs sha net p merchant route seen (fresh_sigs fromSlot seen sigs)))"

text \<open>An error of a round is logged and the next round starts; the loop runs until the deadline.\<close>

partial_function (option) disc_loop ::
    "(bytes \<Rightarrow> bytes) \<Rightarrow> (nat \<Rightarrow> net) \<Rightarrow> (nat \<Rightarrow> int) \<Rightarrow> program \<Rightarrow> string \<Rightarrow> route \<Rightarrow> int \<Rightarrow> int \<Rightarrow> nat \<Rightarrow> json option list \<Rightarrow> string option option" where
  "disc_loop sha nets clock p merchant route fromSlot deadline i seen =
     (if \<not> clock i < deadline then Some None
      else (case disc_round sha (nets i) p merchant route fromSlot seen of
          (seen', Inr (Some r)) \<Rightarrow> Some (Some r)
        | (seen', Inr None) \<Rightarrow> disc_loop sha nets clock p merchant route fromSlot deadline (i + 1) seen'
        | (seen', Inl e) \<Rightarrow> disc_loop sha nets clock p merchant route fromSlot deadline (i + 1) seen'))"

definition discoverSolanaReceiver ::
    "(bytes \<Rightarrow> bytes) \<Rightarrow> (nat \<Rightarrow> net) \<Rightarrow> (nat \<Rightarrow> int) \<Rightarrow> int \<Rightarrow> string \<Rightarrow> route \<Rightarrow> int \<Rightarrow> int \<Rightarrow> (string option result) option" where
  "discoverSolanaReceiver sha nets clock now merchant route fromSlot timeoutMs =
     (case solanaProgram of
        Inl e \<Rightarrow> Some (Inl e)
      | Inr p \<Rightarrow> map_option Inr (disc_loop sha nets clock p merchant route fromSlot (now + timeoutMs) 0 []))"

section \<open>What a discovered receiver is\<close>

definition announced_and_verified ::
    "(bytes \<Rightarrow> bytes) \<Rightarrow> net \<Rightarrow> program \<Rightarrow> string \<Rightarrow> route \<Rightarrow> string \<Rightarrow> bytes \<Rightarrow> bool" where
  "announced_and_verified sha net p merchant route r data \<longleftrightarrow>
     receiverFromAnnouncedEvent sha data p (route_of merchant route) = Inr (Some r) \<and>
     verifySolanaReceiver sha net merchant r route = Inr True"

lemma disc_lines_found: "disc_lines sha net p m route lines = Inr (Some r) \<Longrightarrow> \<exists>data. announced_and_verified sha net p m route r data"
proof (induction lines)
  case (Cons line lines)
  then show ?case
    by (auto simp: announced_and_verified_def then_do_Inr split: json.splits if_splits sum.splits option.splits)
qed simp

lemma disc_txs_found: "disc_txs sha net p m route seen sigs = (seen', Inr (Some r)) \<Longrightarrow> \<exists>data. announced_and_verified sha net p m route r data"
proof (induction sigs arbitrary: seen)
  case (Cons s sigs)
  then show ?case
    by (auto simp: Let_def then_do_Inr split: if_splits sum.splits option.splits dest: disc_lines_found)
qed simp

lemma disc_round_found: "disc_round sha net p m route f seen = (seen', Inr (Some r)) \<Longrightarrow> \<exists>data. announced_and_verified sha net p m route r data"
  by (auto simp: disc_round_def split: sum.splits option.splits if_splits dest: disc_txs_found)

definition found_in :: "(bytes \<Rightarrow> bytes) \<Rightarrow> (nat \<Rightarrow> net) \<Rightarrow> (nat \<Rightarrow> int) \<Rightarrow> program \<Rightarrow> string \<Rightarrow> route \<Rightarrow> int \<Rightarrow> string option \<Rightarrow> bool" where
  "found_in sha nets clock p m route deadline res \<longleftrightarrow> (case res of None \<Rightarrow> True
     | Some r \<Rightarrow> \<exists>j data. clock j < deadline \<and> announced_and_verified sha (nets j) p m route r data)"

lemma disc_loop_sound:
  assumes "deadline \<le> clock (i + n)"
  shows "\<exists>res. disc_loop sha nets clock p m route f deadline i seen = Some res \<and>
    found_in sha nets clock p m route deadline res"
  using assms
proof (induction n arbitrary: i seen)
  case 0
  then show ?case by (subst disc_loop.simps) (simp add: found_in_def)
next
  case (Suc n)
  have next_round: "\<exists>res. disc_loop sha nets clock p m route f deadline (i + 1) seen' = Some res \<and>
      found_in sha nets clock p m route deadline res" for seen'
    using Suc by simp
  obtain seen' out where round: "disc_round sha (nets i) p m route f seen = (seen', out)" by fastforce
  show ?case
  proof (cases "clock i < deadline")
    case False
    then show ?thesis by (subst disc_loop.simps) (simp add: found_in_def)
  next
    case True
    consider r where "out = Inr (Some r)" | "out = Inr None" | e where "out = Inl e"
      by (cases out) auto
    then show ?thesis
    proof cases
      case 1
      then show ?thesis
        using True round disc_round_found by (subst disc_loop.simps) (fastforce simp: found_in_def)
    qed (use True round next_round in \<open>subst disc_loop.simps, simp\<close>)+
  qed
qed



end
