(* ===== verification/Ui.thy ===== *)
theory Ui
  imports Identity
begin

text \<open>
  The text helpers of \<open>scripts/ui.js\<close>: escaping, amounts and error messages. An amount is a BigInt
  text of atoms (a millionth of a USDC); reading and printing one are shown to be inverse.
\<close>

section \<open>Escaping\<close>

definition escape_char :: "char \<Rightarrow> string" where
  "escape_char c =
     (if c = CHR ''&'' then ''&amp;'' else if c = CHR ''<'' then ''&lt;'' else if c = CHR ''>'' then ''&gt;''
      else if c = CHR 0x22 then ''&quot;'' else if c = CHR 0x27 then ''&#039;'' else [c])"

definition escapeHtml :: "string \<Rightarrow> string" where
  "escapeHtml v = concat (map escape_char v)"

text \<open>What a browser reads back.\<close>

fun unescape :: "string \<Rightarrow> string" where
  "unescape [] = []"
| "unescape (c # s) =
     (if starts_with ''&amp;'' (c # s) then CHR ''&'' # unescape (drop 4 s)
      else if starts_with ''&lt;'' (c # s) then CHR ''<'' # unescape (drop 3 s)
      else if starts_with ''&gt;'' (c # s) then CHR ''>'' # unescape (drop 3 s)
      else if starts_with ''&quot;'' (c # s) then CHR 0x22 # unescape (drop 5 s)
      else if starts_with ''&#039;'' (c # s) then CHR 0x27 # unescape (drop 5 s)
      else c # unescape s)"

lemma unescape_escape_char: "unescape (escape_char c @ s) = c # unescape s"
  by (simp add: escape_char_def)

lemma unescape_escapeHtml [simp]: "unescape (escapeHtml s) = s"
  by (induction s) (simp_all add: escapeHtml_def unescape_escape_char del: unescape.simps(2))

interpretation html: codec escapeHtml "\<lambda>s. Some (unescape s)" "\<lambda>s. True"
  by unfold_locales simp

lemma UN_Int_distrib: "\<Union> (f ` A) \<inter> B = (\<Union>x \<in> A. f x \<inter> B)"
  by blast

text \<open>
  Escaping is safe and loses nothing. The escaped text has no angle bracket and no quote, so it cannot
  open a tag or leave an attribute, and two texts that escape alike are equal.
\<close>

lemma escapeHtml_safe:
  "set (escapeHtml s) \<inter> {CHR ''<'', CHR ''>'', CHR 0x22, CHR 0x27} = {} \<and>
   unescape (escapeHtml s) = s \<and> (escapeHtml s = escapeHtml t \<longleftrightarrow> s = t)"
proof -
  have "set (escape_char c) \<inter> {CHR ''<'', CHR ''>'', CHR 0x22, CHR 0x27} = {}" for c
    by (simp add: escape_char_def)
  then have "set (escapeHtml s) \<inter> {CHR ''<'', CHR ''>'', CHR 0x22, CHR 0x27} = {}"
    by (simp only: escapeHtml_def set_concat set_map UN_Int_distrib) blast
  then show ?thesis using html.enc_inject [of s t] unescape_escapeHtml by blast
qed

definition short_text :: "string \<Rightarrow> string \<Rightarrow> string" where
  "short_text ellipsis s = (if length s > 16 then take 8 s @ ellipsis @ drop (length s - 6) s else s)"

section \<open>Amounts\<close>

text \<open>\<open>toLocaleString("en-US")\<close> of a BigInt that is not negative: commas every three digits.\<close>

fun commas :: "string \<Rightarrow> string" where
  "commas (a # b # c # d # r) = a # b # c # CHR '','' # commas (d # r)"
| "commas r = r"

definition group3 :: "string \<Rightarrow> string" where
  "group3 s = rev (commas (rev s))"

definition formatUsdc :: "string \<Rightarrow> nat \<Rightarrow> string" where
  "formatUsdc atoms minFraction =
     (case js_BigInt atoms of
        None \<Rightarrow> ''0.00''
      | Some v \<Rightarrow>
          let neg = v < 0;
              v = (if neg then - v else v);
              base = 10 ^ USDC_DECIMALS;
              whole = nat (v div base);
              frac = rev (dropWhile (\<lambda>c. c = CHR ''0'') (rev (pad_start USDC_DECIMALS CHR ''0'' (nat_string 10 (nat (v mod base))))));
              frac = pad_end minFraction CHR ''0'' frac
          in (if neg then ''-'' else []) @ group3 (nat_string 10 whole) @ (if frac \<noteq> [] then CHR ''.'' # frac else []))"

definition decimal_text :: "string \<Rightarrow> bool" where
  "decimal_text t =
     (let w = takeWhile is_digit t; r = dropWhile is_digit t in
      w \<noteq> [] \<and> (r = [] \<or> hd r = CHR ''.'' \<and> tl r \<noteq> [] \<and> list_all is_digit (tl r)))"

definition parseDecimalToRawUnits :: "string \<Rightarrow> nat \<Rightarrow> string option" where
  "parseDecimalToRawUnits input decimals =
     (let trimmed = js_trim input in
      if \<not> decimal_text trimmed then None
      else
        let whole = takeWhile (\<lambda>c. c \<noteq> CHR ''.'') trimmed;
            fraction = tl (dropWhile (\<lambda>c. c \<noteq> CHR ''.'') (trimmed @ ''.''));
            fraction = takeWhile (\<lambda>c. c \<noteq> CHR ''.'') fraction in
        if length fraction > decimals then None
        else
          let digits = whole @ pad_end decimals CHR ''0'' fraction;
              tail = dropWhile (\<lambda>c. c = CHR ''0'') digits;
              raw = (if tail = [] \<and> digits \<noteq> [] then ''0'' else tail) in
          case js_BigInt (if raw = [] then ''0'' else raw) of
            None \<Rightarrow> None
          | Some v \<Rightarrow> if v > 0 then Some (int_string 10 v) else None)"

subsection \<open>Reading\<close>

definition num10 :: "string \<Rightarrow> nat" where
  "num10 s = of_digits 10 (map digit_num s)"

lemma digit_0: "is_digit CHR ''0''" "\<not> is_digit CHR ''.''" "\<not> is_space CHR ''.''" "\<not> is_space CHR '',''"
  by (simp_all add: is_digit_def is_space_def in_range_def code_def)

lemma digit_hex: "is_digit c \<Longrightarrow> is_hex c"
  by (simp add: is_hex_def)

lemma takeWhile_digits: "list_all is_digit w \<Longrightarrow> takeWhile is_digit (w @ CHR ''.'' # f) = w"
  "list_all is_digit w \<Longrightarrow> dropWhile is_digit (w @ CHR ''.'' # f) = CHR ''.'' # f"
  by (induction w) (auto simp: digit_0)

lemma takeWhile_no_dot: "list_all is_digit w \<Longrightarrow> takeWhile (\<lambda>c. c \<noteq> CHR ''.'') (w @ CHR ''.'' # f) = w"
  "list_all is_digit w \<Longrightarrow> dropWhile (\<lambda>c. c \<noteq> CHR ''.'') (w @ CHR ''.'' # f) = CHR ''.'' # f"
  "list_all is_digit w \<Longrightarrow> takeWhile (\<lambda>c. c \<noteq> CHR ''.'') w = w"
  using digit_0(2) by (induction w) auto

definition decimal_parts :: "string \<Rightarrow> string \<Rightarrow> string \<Rightarrow> bool" where
  "decimal_parts t w f \<longleftrightarrow> w \<noteq> [] \<and> list_all is_digit w \<and> list_all is_digit f \<and>
     (t = w \<and> f = [] \<or> t = w @ CHR ''.'' # f \<and> f \<noteq> [])"

lemma decimal_text_parts: "decimal_text t \<longleftrightarrow> (\<exists>w f. decimal_parts t w f)"
proof
  assume t: "decimal_text t"
  let ?w = "takeWhile is_digit t" and ?r = "dropWhile is_digit t"
  have w: "list_all is_digit ?w" by (auto simp: list_all_iff dest: set_takeWhileD)
  have t': "t = ?w @ ?r" by simp
  show "\<exists>w f. decimal_parts t w f"
  proof (cases ?r)
    case Nil
    then have "t = ?w" using t' by (metis append_Nil2)
    moreover have "?w \<noteq> []" using t by (simp add: decimal_text_def Let_def)
    ultimately have "decimal_parts t ?w []" using w by (simp add: decimal_parts_def)
    then show ?thesis by blast
  next
    case (Cons c f)
    then have "c = CHR ''.''" "f \<noteq> []" "list_all is_digit f" "?w \<noteq> []"
      using t by (simp_all add: decimal_text_def Let_def)
    then have "decimal_parts t ?w f" using w t' Cons by (simp add: decimal_parts_def)
    then show ?thesis by blast
  qed
next
  assume "\<exists>w f. decimal_parts t w f"
  then obtain w f where p: "decimal_parts t w f" by blast
  have "takeWhile is_digit w \<noteq> []" "dropWhile is_digit w = []"
    using p by (auto simp: decimal_parts_def list_all_iff neq_Nil_conv)
  then show "decimal_text t"
    using p by (auto simp: decimal_parts_def decimal_text_def Let_def takeWhile_digits)
qed

lemma num10_0 [simp]: "num10 (dropWhile (\<lambda>c. c = CHR ''0'') s) = num10 s"
proof (induction s)
  case (Cons c s)
  then show ?case using of_digits_replicate_0 [of 10 1] by (auto simp: num10_def)
qed simp

lemma num10_pad: "length f \<le> d \<Longrightarrow> num10 (w @ pad_end d CHR ''0'' f) = num10 w * 10 ^ d + num10 f * 10 ^ (d - length f)"
proof -
  assume d: "length f \<le> d"
  have z: "of_digits 10 (replicate k 0) = 0" for k
    using of_digits_replicate_0 [of 10 k "[]"] by simp
  have "num10 (pad_end d CHR ''0'' f) = num10 f * 10 ^ (d - length f)"
    by (simp add: num10_def pad_end_def of_digits_append z)
  then show ?thesis using d by (simp add: num10_def of_digits_append)
qed

lemma parse_parts:
  assumes "decimal_parts (js_trim s) w f"
  shows "parseDecimalToRawUnits s d =
    (if d < length f then None
     else let n = num10 (w @ pad_end d CHR ''0'' f) in if 0 < n then Some (nat_string 10 n) else None)"
proof -
  let ?t = "js_trim s" and ?digits = "w @ pad_end d CHR ''0'' f"
  have w: "w \<noteq> []" "list_all is_digit w" and f: "list_all is_digit f"
    using assms by (simp_all add: decimal_parts_def)
  have whole: "takeWhile (\<lambda>c. c \<noteq> CHR ''.'') ?t = w"
    using assms by (auto simp: decimal_parts_def takeWhile_no_dot)
  have "dropWhile (\<lambda>c. c \<noteq> CHR ''.'') (?t @ ''.'') = CHR ''.'' # (if f = [] then [] else f @ ''.'')"
    using assms takeWhile_no_dot(2) [of w "[]"] takeWhile_no_dot(2) [of w "f @ ''.''"] by (auto simp: decimal_parts_def)
  then have frac: "takeWhile (\<lambda>c. c \<noteq> CHR ''.'') (tl (dropWhile (\<lambda>c. c \<noteq> CHR ''.'') (?t @ ''.''))) = f"
    using f takeWhile_no_dot(1) [of f "[]"] by auto
  let ?tail = "dropWhile (\<lambda>c. c = CHR ''0'') ?digits"
  have digits: "list_all is_digit ?digits" "?digits \<noteq> []"
    using w f by (auto simp: pad_end_def list_all_iff digit_0)
  have raw: "js_BigInt (if ?tail = [] then ''0'' else ?tail) = Some (int (num10 ?digits))"
  proof (cases "?tail = []")
    case True
    then have "num10 ?digits = 0" by (metis num10_0 num10_def list.map(1) of_digits_Nil)
    then show ?thesis using True js_BigInt_nat_string [of 0] by (simp add: nat_string_def)
  next
    case False
    have "list_all is_digit ?tail" using digits(1) by (auto simp: list_all_iff dest: set_dropWhileD)
    then have "js_BigInt ?tail = Some (int (num10 ?tail))"
      unfolding num10_def by (rule js_BigInt_digits [OF False])
    then show ?thesis using False by (simp only: if_False num10_0)
  qed
  have "decimal_text ?t" using assms decimal_text_parts by blast
  then show ?thesis
    using raw digits(2) by (auto simp: parseDecimalToRawUnits_def Let_def whole frac)
qed

text \<open>
  Reading an amount. A text is accepted exactly when it is, up to outer white space, digits with an
  optional fraction of at most \<open>d\<close> digits, and its value is positive; the result is the exact number
  of atoms in decimal, no rounding anywhere.
\<close>

lemma parseDecimal_spec:
  "parseDecimalToRawUnits s d = Some r \<longleftrightarrow>
     (\<exists>w f n. decimal_parts (js_trim s) w f \<and> length f \<le> d \<and>
        n = num10 w * 10 ^ d + num10 f * 10 ^ (d - length f) \<and> 0 < n \<and> r = nat_string 10 n)"
proof
  assume r: "parseDecimalToRawUnits s d = Some r"
  then have "decimal_text (js_trim s)" by (auto simp: parseDecimalToRawUnits_def Let_def split: if_splits)
  then obtain w f where "decimal_parts (js_trim s) w f" using decimal_text_parts by blast
  then show "\<exists>w f n. decimal_parts (js_trim s) w f \<and> length f \<le> d \<and>
        n = num10 w * 10 ^ d + num10 f * 10 ^ (d - length f) \<and> 0 < n \<and> r = nat_string 10 n"
    using r parse_parts [of s w f d] num10_pad [of f d w]
    by (intro exI [of _ w] exI [of _ f]) (auto simp: Let_def split: if_splits)
next
  assume "\<exists>w f n. decimal_parts (js_trim s) w f \<and> length f \<le> d \<and>
        n = num10 w * 10 ^ d + num10 f * 10 ^ (d - length f) \<and> 0 < n \<and> r = nat_string 10 n"
  then show "parseDecimalToRawUnits s d = Some r"
    using parse_parts num10_pad by (auto simp: Let_def)
qed

subsection \<open>Printing\<close>

lemma filter_commas: "\<forall>c \<in> set s. c \<noteq> CHR '','' \<Longrightarrow> filter (\<lambda>c. c \<noteq> CHR '','') (commas s) = s"
  by (induction s rule: commas.induct) auto

lemma filter_group3: "\<forall>c \<in> set s. c \<noteq> CHR '','' \<Longrightarrow> filter (\<lambda>c. c \<noteq> CHR '','') (group3 s) = s"
  unfolding group3_def rev_filter [symmetric] by (subst filter_commas) auto

lemma digit_no_comma: "list_all is_digit s \<Longrightarrow> \<forall>c \<in> set s. c \<noteq> CHR '',''"
  by (auto simp: list_all_iff is_digit_def in_range_def code_def)

text \<open>The fraction without its trailing zeros; padding it back to \<open>k\<close> digits restores it.\<close>

definition strip_zeros :: "string \<Rightarrow> string" where
  "strip_zeros s = rev (dropWhile (\<lambda>c. c = CHR ''0'') (rev s))"

lemma strip_zeros_append: "s = strip_zeros s @ replicate (length s - length (strip_zeros s)) CHR ''0''"
proof -
  let ?t = "takeWhile (\<lambda>c. c = CHR ''0'') (rev s)"
  have t: "?t = replicate (length ?t) CHR ''0''"
    by (rule replicate_length_same [symmetric]) (auto dest: set_takeWhileD)
  have s: "s = strip_zeros s @ rev ?t"
    unfolding strip_zeros_def rev_append [symmetric] takeWhile_dropWhile_id by simp
  then have "length ?t = length s - length (strip_zeros s)"
    by (metis add_diff_cancel_left' length_append length_rev)
  then show ?thesis using s t by (metis rev_replicate)
qed

lemma pad_strip_zeros:
  assumes "m \<le> length s"
  shows "pad_end (length s) CHR ''0'' (pad_end m CHR ''0'' (strip_zeros s)) = s"
    "length (pad_end m CHR ''0'' (strip_zeros s)) \<le> length s"
proof -
  let ?z = "strip_zeros s"
  have len: "length ?z \<le> length s"
    using arg_cong [OF strip_zeros_append [of s], of length] by simp
  have "pad_end (length s) CHR ''0'' (pad_end m CHR ''0'' ?z) = ?z @ replicate (length s - length ?z) CHR ''0''"
    using assms len by (simp add: pad_end_def replicate_add [symmetric])
  then show "pad_end (length s) CHR ''0'' (pad_end m CHR ''0'' ?z) = s"
    using strip_zeros_append [of s] by simp
  show "length (pad_end m CHR ''0'' ?z) \<le> length s" using assms len by simp
qed

lemma digits_strip_zeros: "list_all is_digit s \<Longrightarrow> list_all is_digit (pad_end m CHR ''0'' (strip_zeros s))"
proof -
  assume d: "list_all is_digit s"
  then have "list_all is_digit (strip_zeros s)"
    by (subst (asm) strip_zeros_append) simp
  then show ?thesis by (auto simp: pad_end_def list_all_iff digit_0)
qed

text \<open>
  Printing and reading an amount. Without its thousands separators the printed form of a positive
  number of atoms reads back as that number, so no amount is shown that differs from what is paid;
  zero is printed but never read as an amount.
\<close>

lemma format_parse:
  "parseDecimalToRawUnits (filter (\<lambda>c. c \<noteq> CHR '','') (formatUsdc (nat_string 10 n) 2)) USDC_DECIMALS
     = (if n = 0 then None else Some (nat_string 10 n))"
proof -
  let ?r = "n mod 10 ^ USDC_DECIMALS" and ?w = "nat_string 10 (n div 10 ^ USDC_DECIMALS)"
  let ?fz = "pad_start USDC_DECIMALS CHR ''0'' (nat_string 10 ?r)"
  let ?f = "pad_end 2 CHR ''0'' (strip_zeros ?fz)"
  have "length (nat_string 10 ?r) \<le> USDC_DECIMALS"
    by (rule length_nat_string) (simp_all add: USDC_DECIMALS_def)
  then have len: "length ?fz = USDC_DECIMALS" by simp
  have dfz: "list_all is_digit ?fz"
    using digits_nat_string10 [of ?r] by (auto simp: pad_start_def list_all_iff digit_0)
  have f: "list_all is_digit ?f" "pad_end USDC_DECIMALS CHR ''0'' ?f = ?fz" "length ?f \<le> USDC_DECIMALS" "?f \<noteq> []"
    using digits_strip_zeros [OF dfz, of 2] pad_strip_zeros [of 2 ?fz] len
    by (simp_all add: USDC_DECIMALS_def pad_end_def)
  have "nat (int n div 10 ^ USDC_DECIMALS) = n div 10 ^ USDC_DECIMALS"
    "nat (int n mod 10 ^ USDC_DECIMALS) = ?r"
    by (simp_all add: nat_div_distrib nat_mod_distrib nat_power_eq)
  then have "formatUsdc (nat_string 10 n) 2 = group3 ?w @ CHR ''.'' # ?f"
    using f(4) by (simp add: formatUsdc_def Let_def strip_zeros_def)
  then have t: "filter (\<lambda>c. c \<noteq> CHR '','') (formatUsdc (nat_string 10 n) 2) = ?w @ CHR ''.'' # ?f"
    using filter_group3 [of ?w] digit_no_comma [OF digits_nat_string10] digit_no_comma [OF f(1)]
    by (simp add: filter_id_conv)
  have "js_trim (?w @ CHR ''.'' # ?f) = ?w @ CHR ''.'' # ?f"
    using digits_nat_string10 [of "n div 10 ^ USDC_DECIMALS"] f(1) digit_not_space digit_hex
    by (intro js_trim_no_space) (auto simp: list_all_iff digit_0)
  then have dp: "decimal_parts (js_trim (?w @ CHR ''.'' # ?f)) ?w ?f"
    using f digits_nat_string10 by (simp add: decimal_parts_def)
  have num: "num10 (?w @ ?fz) = n"
  proof -
    have "num10 ?w = n div 10 ^ USDC_DECIMALS" "num10 ?fz = ?r"
      using of_digits_replicate_0 [of 10] by (simp_all add: num10_def digits_nat_string pad_start_def)
    then show ?thesis using len by (simp add: num10_def of_digits_append) (rule div_mult_mod_eq)
  qed
  have "\<not> USDC_DECIMALS < length ?f" using f(3) by (simp only: not_less)
  with parse_parts [OF dp, of USDC_DECIMALS] show ?thesis
    unfolding t by (simp only: if_False f(2) num Let_def) simp
qed

end
