(* ===== verification/Effects.thy ===== *)
theory Effects
  imports Store
begin

text \<open>
  The asynchronous operations of the scripts: they read and write the local storage, and ask a world outside (the
  server, the authenticator, the clock) whose answers may depend on everything asked before. An operation is a
  function from the pair of storage and world to its result and the pair after it; awaits run in the order of the code.
  The world is a type variable, so a theorem holds for every behaviour of the outside.
\<close>

section \<open>Operations\<close>

type_synonym 'w sys = "storage \<times> 'w"
type_synonym ('w, 'a) act = "'w sys \<Rightarrow> 'a result \<times> 'w sys"
type_synonym ('w, 'a) query = "'w \<Rightarrow> 'a \<times> 'w"

definition ret :: "'a \<Rightarrow> ('w, 'a) act" where
  "ret x s = (Inr x, s)"

definition throw :: "js_error \<Rightarrow> ('w, 'a) act" where
  "throw e s = (Inl e, s)"

definition of_result :: "'a result \<Rightarrow> ('w, 'a) act" where
  "of_result r s = (r, s)"

definition seq :: "('w, 'a) act \<Rightarrow> ('a \<Rightarrow> ('w, 'b) act) \<Rightarrow> ('w, 'b) act" where
  "seq m f s = (case m s of (Inl e, s') \<Rightarrow> (Inl e, s') | (Inr x, s') \<Rightarrow> f x s')"

text \<open>\<open>try { return await m } catch (e) { h(e) }\<close>\<close>

definition handle :: "('w, 'a) act \<Rightarrow> (js_error \<Rightarrow> ('w, 'a) act) \<Rightarrow> ('w, 'a) act" where
  "handle m h s = (case m s of (Inl e, s') \<Rightarrow> h e s' | (Inr x, s') \<Rightarrow> (Inr x, s'))"

text \<open>A question to the world that cannot fail, and one that can; a read and a write of the storage.\<close>

definition ask :: "('w, 'a) query \<Rightarrow> ('w, 'a) act" where
  "ask q s = (case q (snd s) of (x, w) \<Rightarrow> (Inr x, (fst s, w)))"

definition ask_result :: "('w, 'a result) query \<Rightarrow> ('w, 'a) act" where
  "ask_result q s = (case q (snd s) of (r, w) \<Rightarrow> (r, (fst s, w)))"

definition look :: "(storage \<Rightarrow> 'a) \<Rightarrow> ('w, 'a) act" where
  "look f s = (Inr (f (fst s)), s)"

definition store :: "(storage \<Rightarrow> storage \<times> 'a result) \<Rightarrow> ('w, 'a) act" where
  "store f s = (case f (fst s) of (st, r) \<Rightarrow> (r, (st, snd s)))"

lemmas act_defs = ret_def throw_def of_result_def seq_def handle_def ask_def ask_result_def look_def store_def

text \<open>Evaluation of a sequence from the result of its first step.\<close>

lemma seq_eq:
  "m s = (Inr x, s') \<Longrightarrow> seq m f s = f x s'"
  "m s = (Inl e, s') \<Longrightarrow> seq m f s = (Inl e, s')"
  by (simp_all add: seq_def)

lemma seq_Inr: "seq m f s = (Inr y, s'') \<longleftrightarrow> (\<exists>x s'. m s = (Inr x, s') \<and> f x s' = (Inr y, s''))"
  by (cases "m s") (auto simp: seq_def split: sum.splits)

lemma handle_Inr: "handle m h s = (Inr y, s'') \<longleftrightarrow>
    m s = (Inr y, s'') \<or> (\<exists>e s'. m s = (Inl e, s') \<and> h e s' = (Inr y, s''))"
  by (cases "m s") (auto simp: handle_def split: sum.splits)

text \<open>Runs that return.\<close>

lemma of_result_Inr: "of_result r s = (Inr x, s') \<longleftrightarrow> r = Inr x \<and> s' = s"
  by (auto simp: of_result_def)

lemma ret_Inr: "ret x s = (Inr y, s') \<longleftrightarrow> y = x \<and> s' = s"
  by (auto simp: ret_def)

lemma throw_Inr: "throw e s \<noteq> (Inr y, s')"
  by (simp add: throw_def)

lemma ask_result_Inr: "ask_result q s = (Inr x, s') \<longleftrightarrow> fst s' = fst s \<and> q (snd s) = (Inr x, snd s')"
  by (cases s; cases s'; cases "q (snd s)") (auto simp: ask_result_def)

lemma ask_Inr: "ask q s = (Inr x, s') \<longleftrightarrow> fst s' = fst s \<and> q (snd s) = (x, snd s')"
  by (cases s; cases s'; cases "q (snd s)") (auto simp: ask_def)

lemmas run_Inr = seq_Inr of_result_Inr ret_Inr throw_Inr

section \<open>What an operation guarantees\<close>

text \<open>
  \<open>ensures R st Q m\<close>: however \<open>m\<close> ends when it starts in the storage \<open>st\<close>, and whatever the world answers, the
  storage it leaves is related to \<open>st\<close> by \<open>R\<close>, and when it returns \<open>y\<close>, \<open>Q\<close> holds of \<open>y\<close> and that storage.
\<close>

definition ensures :: "(storage \<Rightarrow> storage \<Rightarrow> bool) \<Rightarrow> storage \<Rightarrow> ('a \<Rightarrow> storage \<Rightarrow> bool) \<Rightarrow> ('w, 'a) act \<Rightarrow> bool" where
  "ensures R st Q m \<longleftrightarrow> (\<forall>w r st' w'. m (st, w) = (r, (st', w')) \<longrightarrow>
     R st st' \<and> (\<forall>y. r = Inr y \<longrightarrow> Q y st'))"

lemma ensuresD:
  "ensures R st Q m \<Longrightarrow> m (st, w) = (r, (st', w')) \<Longrightarrow> R st st' \<and> (\<forall>y. r = Inr y \<longrightarrow> Q y st')"
  unfolding ensures_def by blast

lemma ensures_weaken:
  "ensures R st Q m \<Longrightarrow> (\<And>y st'. R st st' \<Longrightarrow> Q y st' \<Longrightarrow> Q' y st') \<Longrightarrow> ensures R st Q' m"
  unfolding ensures_def by blast

text \<open>What a relation needs so that guarantees compose along a sequence of operations.\<close>

locale guarantee =
  fixes R :: "storage \<Rightarrow> storage \<Rightarrow> bool"
  assumes R_refl: "R st st"
    and R_trans: "R st st' \<Longrightarrow> R st' st'' \<Longrightarrow> R st st''"
begin

lemma ens_ret: "Q x st \<Longrightarrow> ensures R st Q (ret x)"
  by (simp add: ensures_def ret_def R_refl)

lemma ens_throw: "ensures R st Q (throw e)"
  by (simp add: ensures_def throw_def R_refl)

lemma ens_result: "(\<And>x. r = Inr x \<Longrightarrow> Q x st) \<Longrightarrow> ensures R st Q (of_result r)"
  by (simp add: ensures_def of_result_def R_refl)

lemma ens_ask: "(\<And>x. Q x st) \<Longrightarrow> ensures R st Q (ask q)"
  by (auto simp: ensures_def ask_def R_refl split: prod.splits)

lemma ens_ask_result: "(\<And>x. Q x st) \<Longrightarrow> ensures R st Q (ask_result q)"
  by (auto simp: ensures_def ask_result_def R_refl split: prod.splits)

lemma ens_look: "Q (f st) st \<Longrightarrow> ensures R st Q (look f)"
  by (simp add: ensures_def look_def R_refl)

lemma ens_store:
  "(\<And>st' r. f st = (st', r) \<Longrightarrow> R st st' \<and> (\<forall>y. r = Inr y \<longrightarrow> Q y st')) \<Longrightarrow> ensures R st Q (store f)"
  by (auto simp: ensures_def store_def split: prod.splits)

lemma ens_seq:
  assumes "ensures R st Q m" "\<And>x st'. R st st' \<Longrightarrow> Q x st' \<Longrightarrow> ensures R st' Q' (f x)"
  shows "ensures R st Q' (seq m f)"
  unfolding ensures_def
proof (intro allI impI)
  fix w r st'' w'' assume e: "seq m f (st, w) = (r, st'', w'')"
  obtain r1 st1 w1 where m: "m (st, w) = (r1, st1, w1)" by (cases "m (st, w)")
  note 1 = ensuresD [OF assms(1) m]
  show "R st st'' \<and> (\<forall>y. r = Inr y \<longrightarrow> Q' y st'')"
  proof (cases r1)
    case (Inl e')
    then show ?thesis using e m 1 by (auto simp: seq_def)
  next
    case (Inr x)
    then have "f x (st1, w1) = (r, st'', w'')" using e m by (simp add: seq_def)
    then have "R st1 st'' \<and> (\<forall>y. r = Inr y \<longrightarrow> Q' y st'')"
      using ensuresD [OF assms(2)] 1 Inr by blast
    then show ?thesis using 1 R_trans by blast
  qed
qed

lemma ens_handle:
  assumes "ensures R st Q m" "\<And>e st'. R st st' \<Longrightarrow> ensures R st' Q (h e)"
  shows "ensures R st Q (handle m h)"
  unfolding ensures_def
proof (intro allI impI)
  fix w r st'' w'' assume e: "handle m h (st, w) = (r, st'', w'')"
  obtain r1 st1 w1 where m: "m (st, w) = (r1, st1, w1)" by (cases "m (st, w)")
  note 1 = ensuresD [OF assms(1) m]
  show "R st st'' \<and> (\<forall>y. r = Inr y \<longrightarrow> Q y st'')"
  proof (cases r1)
    case (Inl e')
    then have "h e' (st1, w1) = (r, st'', w'')" using e m by (simp add: handle_def)
    then have "R st1 st'' \<and> (\<forall>y. r = Inr y \<longrightarrow> Q y st'')"
      using ensuresD [OF assms(2)] 1 by blast
    then show ?thesis using 1 R_trans by blast
  qed (use e m 1 in \<open>auto simp: handle_def\<close>)
qed

text \<open>The steps that leave the storage alone, before an operation whose result matters.\<close>

lemma ens_skip_result:
  "(\<And>x. r = Inr x \<Longrightarrow> ensures R st Q (f x)) \<Longrightarrow> ensures R st Q (seq (of_result r) f)"
  by (rule ens_seq [where Q = "\<lambda>x st'. st' = st \<and> r = Inr x", OF ens_result]) auto

lemma ens_skip_ask:
  "(\<And>x. ensures R st Q (f x)) \<Longrightarrow> ensures R st Q (seq (ask q) f)"
  by (rule ens_seq [where Q = "\<lambda>x st'. st' = st", OF ens_ask]) auto

lemma ens_skip_ask_result:
  "(\<And>x. ensures R st Q (f x)) \<Longrightarrow> ensures R st Q (seq (ask_result q) f)"
  by (rule ens_seq [where Q = "\<lambda>x st'. st' = st", OF ens_ask_result]) auto

lemma ens_skip_look:
  "ensures R st Q (f (g st)) \<Longrightarrow> ensures R st Q (seq (look g) f)"
  by (rule ens_seq [where Q = "\<lambda>x st'. x = g st \<and> st' = st", OF ens_look]) auto

lemma ens_ask_where:
  assumes "\<And>w. A (fst (q w))" "\<And>x. A x \<Longrightarrow> ensures R st Q (f x)"
  shows "ensures R st Q (seq (ask q) f)"
proof (rule ens_seq [where Q = "\<lambda>x st'. st' = st \<and> A x"])
  show "ensures R st (\<lambda>x st'. st' = st \<and> A x) (ask q)"
    unfolding ensures_def ask_def using assms(1) R_refl by (auto split: prod.splits) (metis fst_conv)
qed (use assms(2) in auto)

lemmas ens_skip = ens_skip_result ens_skip_ask ens_skip_ask_result ens_skip_look

end

end
