(* ===== verification/Api.thy ===== *)
theory Api
  imports Effects
begin

text \<open>
  \<open>scripts/api.js\<close>: every call to the server. \<open>fetch\<close> is a parameter: a request is aborted by the
  timeout, cannot be sent, or is answered with a status, a body (its text, and the value \<open>JSON.parse\<close> makes of it,
  \<open>None\<close> when it throws) and the Retry-After header.
\<close>

section \<open>The request\<close>

datatype reply = Aborted | Unreachable | Reply int string "json option" "string option"

type_synonym 'w fetch = "string \<Rightarrow> string \<Rightarrow> json option \<Rightarrow> ('w, reply) query"

definition res_ok :: "int \<Rightarrow> bool" where
  "res_ok status \<longleftrightarrow> 200 \<le> status \<and> status \<le> 299"

definition error_detail :: "int \<Rightarrow> string \<Rightarrow> json option \<Rightarrow> json" where
  "error_detail status text data =
     (let d = if nullish (opt_prop data ''error'') then opt_prop data ''message'' else opt_prop data ''error'' in
      if js_truthy data \<and> js_truthy d then the d
      else if text \<noteq> [] then JStr text
      else JStr (''HTTP '' @ int_string 10 status))"

definition request_result :: "string \<Rightarrow> reply \<Rightarrow> json result" where
  "request_result path rep =
     (case rep of
        Aborted \<Rightarrow> Inl (ApiError 0 ''The request timed out. Please try again.'' None)
      | Unreachable \<Rightarrow> Inl (ApiError 0 ''Could not reach the server. Check your connection.'' None)
      | Reply status text parsed retry \<Rightarrow>
          (let data = (if text = [] then Some JNull else case parsed of None \<Rightarrow> Some JNull | Some v \<Rightarrow> Some v) in
           if \<not> res_ok status then
             let detail = error_detail status text data in
             Inl (ApiError status
               (if status = 429 then ''Rate limit reached: '' @ js_String detail else take 300 (js_String detail)) retry)
           else if text \<noteq> [] \<and> data = Some JNull then Inl (ApiError status (''Expected JSON from '' @ path) None)
           else Inr (if data = Some JNull then JObj [] else the data)))"

definition request :: "'w fetch \<Rightarrow> string \<Rightarrow> json option \<Rightarrow> string \<Rightarrow> ('w, json) act" where
  "request fetch path body method =
     ask_result (\<lambda>w. case fetch method path body w of (rep, w') \<Rightarrow> (request_result path rep, w'))"

section \<open>The routes\<close>

definition registerStart :: "'w fetch \<Rightarrow> ('w, json) act" where
  "registerStart fetch = request fetch ''/api/v1/webauthn/register/start'' None ''POST''"

definition registerFinish :: "'w fetch \<Rightarrow> json \<Rightarrow> ('w, json) act" where
  "registerFinish fetch payload = request fetch ''/api/v1/webauthn/register/finish'' (Some payload) ''POST''"

definition authStart :: "'w fetch \<Rightarrow> json \<Rightarrow> ('w, json) act" where
  "authStart fetch payload = request fetch ''/api/v1/webauthn/auth/start'' (Some payload) ''POST''"

definition authFinish :: "'w fetch \<Rightarrow> json \<Rightarrow> ('w, json) act" where
  "authFinish fetch payload = request fetch ''/api/v1/webauthn/auth/finish'' (Some payload) ''POST''"

definition getStealthCosigners :: "'w fetch \<Rightarrow> ('w, json) act" where
  "getStealthCosigners fetch = request fetch ''/api/v1/stealth/cosigners'' None ''GET''"

text \<open>A string, or \<open>null\<close>.\<close>

definition str_or_null :: "string option \<Rightarrow> json" where
  "str_or_null s = (case s of None \<Rightarrow> JNull | Some t \<Rightarrow> JStr t)"

record lane_request =
  q_chain :: string
  q_address :: string
  q_laneId :: string
  q_verifiedToken :: "json option"
  q_targetChain :: string
  q_targetRecipient :: string
  q_webhookUrl :: "string option"

definition create_body :: "lane_request \<Rightarrow> json" where
  "create_body q = JObj ([
     (''chain'', JStr (apiChain (q_chain q))),
     (''address'', JStr (q_address q)),
     (''lane_id'', JStr (q_laneId q))]
     @ opt_field ''verified_token'' (q_verifiedToken q) @
    [(''target_chain'', JStr (apiChain (q_targetChain q))),
     (''target_recipient'', JStr (q_targetRecipient q))]
     @ (if truthy (q_webhookUrl q) then [(''webhook_url'', str_or_null (q_webhookUrl q))] else []))"

definition api_createLane :: "'w fetch \<Rightarrow> lane_request \<Rightarrow> ('w, json) act" where
  "api_createLane fetch q = request fetch ''/api/v1/create'' (Some (create_body q)) ''POST''"

text \<open>The texts of the signature is \<open>JSON.stringify\<close>: strings are escaped, and numbers that JSON lacks are \<open>null\<close>.\<close>

definition escape_json :: "char \<Rightarrow> string" where
  "escape_json c =
     (if c = CHR 0x22 then [CHR 0x5C, CHR 0x22]
      else if c = CHR 0x5C then [CHR 0x5C, CHR 0x5C]
      else if code c = 8 then [CHR 0x5C, CHR ''b'']
      else if code c = 9 then [CHR 0x5C, CHR ''t'']
      else if code c = 10 then [CHR 0x5C, CHR ''n'']
      else if code c = 12 then [CHR 0x5C, CHR ''f'']
      else if code c = 13 then [CHR 0x5C, CHR ''r'']
      else if code c < 32 then [CHR 0x5C, CHR ''u''] @ pad_start 4 CHR ''0'' (nat_string 16 (code c))
      else [c])"

definition quote_json :: "string \<Rightarrow> string" where
  "quote_json s = [CHR 0x22] @ concat (map escape_json s) @ [CHR 0x22]"

fun stringify :: "json \<Rightarrow> string" where
  "stringify JNull = ''null''"
| "stringify (JBool b) = (if b then ''true'' else ''false'')"
| "stringify (JNum n) = int_string 10 n"
| "stringify (JReal s) = s"
| "stringify JInf = ''null''"
| "stringify (JStr s) = quote_json s"
| "stringify (JArr xs) = ''['' @ join '','' (map stringify xs) @ '']''"
| "stringify (JObj kvs) = ''{'' @ join '','' (map (\<lambda>(k, v). quote_json k @ '':'' @ stringify v) kvs) @ ''}''"

record payment =
  p_chain :: string
  p_merchantAddress :: string
  p_receiverAddress :: string
  p_destinationChain :: string
  p_txRef :: string
  p_fromAddress :: string
  p_amountRaw :: string
  p_webhookUrl :: "string option"
  p_signature :: json

definition pay_body :: "payment \<Rightarrow> json" where
  "pay_body p = JObj [
     (''chain'', JStr (apiChain (p_chain p))),
     (''merchant_address'', JStr (p_merchantAddress p)),
     (''receiver_address'', JStr (p_receiverAddress p)),
     (''destination_chain'', JStr (apiChain (p_destinationChain p))),
     (''tx_hash'', JStr (p_txRef p)),
     (''from_address'', JStr (p_fromAddress p)),
     (''amount_raw'', JStr (p_amountRaw p)),
     (''webhook_url'', str_or_null (p_webhookUrl p)),
     (''signature'', JStr (stringify (p_signature p)))]"

definition submitPayment :: "'w fetch \<Rightarrow> payment \<Rightarrow> ('w, json) act" where
  "submitPayment fetch p = request fetch ''/api/v1/pay'' (Some (pay_body p)) ''POST''"

record claim =
  cl_chain :: string
  cl_txHash :: string
  cl_derivedAddress :: string
  cl_clientSig :: json
  cl_verifiedToken :: "json option"
  cl_calls :: "json option"
  cl_auth3009 :: "json option"
  cl_starknet :: "json option"
  cl_messageBytes :: "json option"

definition claim_body :: "claim \<Rightarrow> json" where
  "claim_body c = JObj ([
     (''chain'', JStr (apiChain (cl_chain c))),
     (''tx_hash'', JStr (cl_txHash c)),
     (''derived_address'', JStr (cl_derivedAddress c)),
     (''client_sig'', cl_clientSig c)]
     @ opt_field ''verified_token'' (cl_verifiedToken c) @
    [(''calls'', if nullish (cl_calls c) then JArr [] else the (cl_calls c))]
     @ (if js_truthy (cl_auth3009 c) then opt_field ''auth3009'' (cl_auth3009 c) else [])
     @ (if js_truthy (cl_starknet c) then opt_field ''starknet'' (cl_starknet c) else [])
     @ (if js_truthy (cl_messageBytes c) then opt_field ''message_bytes'' (cl_messageBytes c) else []))"

definition submitStealthClaim :: "'w fetch \<Rightarrow> claim \<Rightarrow> ('w, json) act" where
  "submitStealthClaim fetch c = request fetch ''/api/v1/stealth/claim'' (Some (claim_body c)) ''POST''"

section \<open>Errors\<close>

lemma js_truthy_Some_null [simp]: "\<not> js_truthy (Some JNull)" "\<not> js_truthy None"
  by (simp_all add: js_truthy_def)

definition reply_status :: "reply \<Rightarrow> int" where
  "reply_status rep = (case rep of Reply status text parsed retry \<Rightarrow> status | _ \<Rightarrow> 0)"

definition answered :: "reply \<Rightarrow> json \<Rightarrow> bool" where
  "answered rep v = (case rep of
      Reply status text parsed retry \<Rightarrow> res_ok status \<and> (if text = [] then v = JObj [] else parsed = Some v \<and> v \<noteq> JNull)
    | _ \<Rightarrow> False)"

lemmas reply_defs = request_result_def answered_def reply_status_def

text \<open>
  One request, one kind of error. A call yields a value exactly when the server answered with a success status and
  a body that is empty, read as the empty object, or JSON other than \<open>null\<close>; every failure is an
  \<open>ApiError\<close> with the status of the answer, 0 when there was none, and its text is bounded unless the
  server limits the rate.
\<close>

lemma request_outcome:
  "(request_result path rep = Inr v \<longleftrightarrow> answered rep v) \<and>
   (case request_result path rep of
      Inr v \<Rightarrow> answered rep v
    | Inl e \<Rightarrow> \<exists>message retry. e = ApiError (reply_status rep) message retry \<and>
        (length message \<le> 300 \<or> reply_status rep = 429 \<or> message = ''Expected JSON from '' @ path))"
proof (cases rep)
  case (Reply s t p h)
  then show ?thesis
    by (cases p; cases "res_ok s") (auto simp: reply_defs Let_def)
qed (auto simp: reply_defs)

end
