(* ===== verification/Passkey.thy ===== *)
theory Passkey
  imports Api Base64
begin

text \<open>
  \<open>scripts/passkey.js\<close>: two roles of a passkey. The PRF root seeds the keys of private lanes and is pinned once;
  the authentication credential is used for server ceremonies and may be replaced. The authenticator is a parameter: it
  answers a creation or an assertion, or fails. The single-flight guard of a registration joins concurrent callers; here
  calls are made one after another.
\<close>

section \<open>Storage\<close>

definition ROOT_KEY :: string where "ROOT_KEY = ''beanie.passkey.prf.v1''"
definition AUTH_KEY :: string where "AUTH_KEY = ''beanie.passkey.auth.v1''"
definition ARCHIVE_KEY :: string where "ARCHIVE_KEY = ''beanie.passkey.archive.v1''"

lemma passkey_keys [simp]:
  "ROOT_KEY \<noteq> AUTH_KEY" "ROOT_KEY \<noteq> ARCHIVE_KEY" "AUTH_KEY \<noteq> ARCHIVE_KEY"
  "AUTH_KEY \<noteq> ROOT_KEY" "ARCHIVE_KEY \<noteq> ROOT_KEY" "ARCHIVE_KEY \<noteq> AUTH_KEY"
  by (simp_all add: ROOT_KEY_def AUTH_KEY_def ARCHIVE_KEY_def)

definition readJson :: "storage \<Rightarrow> string \<Rightarrow> json" where
  "readJson st key = read_item st key JNull"

definition writeJson :: "quota \<Rightarrow> storage \<Rightarrow> string \<Rightarrow> json \<Rightarrow> storage" where
  "writeJson quota st key v = fst (write_item quota st key v)"

text \<open>\<open>readJson(key)?.id ?? null\<close>\<close>

definition stored_id :: "string \<Rightarrow> storage \<Rightarrow> json option" where
  "stored_id key st =
     (let i = opt_prop (Some (readJson st key)) ''id'' in if nullish i then Some JNull else i)"

definition getPrfRootId :: "storage \<Rightarrow> json option" where
  "getPrfRootId = stored_id ROOT_KEY"

definition getAuthId :: "storage \<Rightarrow> json option" where
  "getAuthId = stored_id AUTH_KEY"

definition listCredentials :: "storage \<Rightarrow> json list" where
  "listCredentials st = (case as_array (Some (readJson st ARCHIVE_KEY)) of None \<Rightarrow> [] | Some v \<Rightarrow> v)"

text \<open>\<open>a === b\<close>: two objects or arrays that come from different places are never the same.\<close>

definition strict_eq :: "json option \<Rightarrow> json option \<Rightarrow> bool" where
  "strict_eq a b \<longleftrightarrow> a = b \<and>
     (case a of Some (JObj kvs) \<Rightarrow> False | Some (JArr xs) \<Rightarrow> False | _ \<Rightarrow> True)"

fun some_id :: "json option \<Rightarrow> json list \<Rightarrow> bool result" where
  "some_id i [] = Inr False"
| "some_id i (c # cs) = then_do (get_prop (Some c) ''id'') (\<lambda>j. if strict_eq j i then Inr True else some_id i cs)"

definition archive_entry :: "json option \<Rightarrow> bool \<Rightarrow> int \<Rightarrow> json" where
  "archive_entry i prf now = JObj (opt_field ''id'' i @ [(''prf'', JBool prf), (''createdAt'', JNum now)])"

definition archive :: "quota \<Rightarrow> json option \<Rightarrow> bool \<Rightarrow> int \<Rightarrow> storage \<Rightarrow> storage \<times> unit result" where
  "archive quota i prf now st =
     (let cs = listCredentials st in
      case some_id i cs of
        Inl e \<Rightarrow> (st, Inl e)
      | Inr found \<Rightarrow> (if found then st else writeJson quota st ARCHIVE_KEY (JArr (cs @ [archive_entry i prf now])), Inr ()))"

section \<open>Options and credentials\<close>

text \<open>\<open>base64UrlToBuffer(v)\<close> of any value.\<close>

definition json_buffer :: "json option \<Rightarrow> bytes result" where
  "json_buffer v =
     (if \<not> js_truthy v then Inr []
      else case v of Some (JStr s) \<Rightarrow> base64UrlToBuffer s | _ \<Rightarrow> Inl TypeError)"

text \<open>The options of a ceremony: the server's own properties, and those replaced by buffers.\<close>

record ceremony =
  cm_given :: "json option"
  cm_challenge :: bytes
  cm_user :: "bytes option"
  cm_credentials :: "(json \<times> bytes) list"
  cm_prf_salt :: "bytes option"
  cm_prf :: bool

definition credential_list :: "json option \<Rightarrow> (json \<times> bytes) list result" where
  "credential_list v =
     (if \<not> js_truthy v then Inr []
      else case as_array v of
        None \<Rightarrow> Inl TypeError
      | Some cs \<Rightarrow> traverse (\<lambda>c. then_do (get_prop (Some c) ''id'') (\<lambda>i. then_do (json_buffer i) (\<lambda>b. Inr (c, b)))) cs)"

definition prepareCreationOptions :: "json option \<Rightarrow> ceremony result" where
  "prepareCreationOptions resp =
     then_do (get_prop resp ''publicKey'') (\<lambda>pk.
     then_do (get_prop pk ''challenge'') (\<lambda>ch.
     then_do (json_buffer ch) (\<lambda>challenge.
     then_do (get_prop (opt_prop pk ''user'') ''id'') (\<lambda>uid.
     then_do (json_buffer uid) (\<lambda>user.
     then_do (credential_list (opt_prop pk ''excludeCredentials'')) (\<lambda>ex.
       Inr \<lparr>cm_given = pk, cm_challenge = challenge, cm_user = Some user, cm_credentials = ex,
            cm_prf_salt = None, cm_prf = False\<rparr>))))))"

definition prepareRequestOptions :: "json option \<Rightarrow> ceremony result" where
  "prepareRequestOptions resp =
     then_do (get_prop resp ''publicKey'') (\<lambda>pk.
     then_do (get_prop pk ''challenge'') (\<lambda>ch.
     then_do (json_buffer ch) (\<lambda>challenge.
     then_do (credential_list (opt_prop pk ''allowCredentials'')) (\<lambda>allow.
       Inr \<lparr>cm_given = pk, cm_challenge = challenge, cm_user = None, cm_credentials = allow,
            cm_prf_salt = None, cm_prf = False\<rparr>))))"

text \<open>What the authenticator returns, with the results of the PRF extension.\<close>

record credential =
  cr_id :: string
  cr_rawId :: bytes
  cr_type :: string
  cr_clientData :: bytes
  cr_attestation :: "bytes option"
  cr_authData :: "bytes option"
  cr_signature :: bytes
  cr_userHandle :: "bytes option"
  cr_prf_enabled :: "json option"
  cr_prf_first :: "bytes option"

definition credentialToJSON :: "credential \<Rightarrow> json" where
  "credentialToJSON c =
     (let b64 = \<lambda>b. JStr (bufferToBase64Url b) in
      JObj [
        (''id'', JStr (cr_id c)),
        (''rawId'', b64 (cr_rawId c)),
        (''type'', JStr (cr_type c)),
        (''response'', JObj ([(''clientDataJSON'', b64 (cr_clientData c))]
           @ (case cr_attestation c of None \<Rightarrow> [] | Some a \<Rightarrow> [(''attestationObject'', b64 a)])
           @ (case cr_authData c of None \<Rightarrow> [] | Some a \<Rightarrow>
                [(''authenticatorData'', b64 a), (''signature'', b64 (cr_signature c))]
                @ (case cr_userHandle c of None \<Rightarrow> [] | Some u \<Rightarrow> [(''userHandle'', b64 u)]))))])"

section \<open>The outside\<close>

text \<open>
  The server, the authenticator's two operations (\<open>None\<close> is a cancelled prompt, an error a refused one), the clock
  and the source of random bytes.
\<close>

record 'w env =
  e_fetch :: "'w fetch"
  e_create :: "ceremony \<Rightarrow> ('w, credential option result) query"
  e_get :: "ceremony \<Rightarrow> ('w, credential option result) query"
  e_now :: "('w, int) query"
  e_random :: "nat \<Rightarrow> ('w, bytes) query"
  e_quota :: quota

section \<open>Registration\<close>

record registered =
  rg_id :: "json option"
  rg_prf :: bool

definition registerCredential :: "'w env \<Rightarrow> ('w, registered) act" where
  "registerCredential env =
     seq (registerStart (e_fetch env)) (\<lambda>start.
     seq (of_result (prepareCreationOptions (opt_prop (Some start) ''options''))) (\<lambda>publicKey.
     seq (ask_result (e_create env (publicKey\<lparr>cm_prf := True\<rparr>))) (\<lambda>cred.
       case cred of
         None \<Rightarrow> throw (Error ''Passkey creation was cancelled.'')
       | Some c \<Rightarrow>
           let prfEnabled = (cr_prf_enabled c = Some (JBool True)) in
           seq (registerFinish (e_fetch env) (JObj (opt_field ''session_token'' (opt_prop (Some start) ''session_token'')
              @ [(''credential'', credentialToJSON c)]))) (\<lambda>fin.
           seq (ask (e_now env)) (\<lambda>now.
           seq (store (archive (e_quota env) (opt_prop (Some fin) ''credential_id'') prfEnabled now)) (\<lambda>u.
             ret \<lparr>rg_id = opt_prop (Some fin) ''credential_id'', rg_prf = prfEnabled\<rparr>))))))"

definition id_object :: "json option \<Rightarrow> json" where
  "id_object i = JObj (opt_field ''id'' i)"

definition adopt :: "quota \<Rightarrow> registered \<Rightarrow> bool \<Rightarrow> storage \<Rightarrow> storage \<times> unit result" where
  "adopt quota cred asAuth st =
     (let st1 = (if asAuth then writeJson quota st AUTH_KEY (id_object (rg_id cred)) else st);
          st2 = (if rg_prf cred \<and> \<not> js_truthy (getPrfRootId st1) then writeJson quota st1 ROOT_KEY (id_object (rg_id cred)) else st1)
      in (st2, Inr ()))"

definition ensureAuthCredential :: "'w env \<Rightarrow> ('w, json option) act" where
  "ensureAuthCredential env =
     seq (look getAuthId) (\<lambda>existing.
       if js_truthy existing then ret existing
       else seq (registerCredential env) (\<lambda>cred.
            seq (store (adopt (e_quota env) cred True)) (\<lambda>u. ret (rg_id cred))))"

definition ensurePrfRoot :: "'w env \<Rightarrow> ('w, json option) act" where
  "ensurePrfRoot env =
     seq (look getPrfRootId) (\<lambda>root.
       if js_truthy root then ret root
       else seq (registerCredential env) (\<lambda>cred.
            seq (look getAuthId) (\<lambda>auth.
            seq (store (adopt (e_quota env) cred (\<not> js_truthy auth))) (\<lambda>u.
              if rg_prf cred then ret (rg_id cred)
              else throw (Error ''This passkey does not support the PRF extension. Try another device or turn privacy off.'')))))"

section \<open>Verification\<close>

record verified =
  v_token :: "json option"
  v_prf :: "bytes option"
  v_credential :: "json option"

text \<open>\<open>e?.status === 409\<close>\<close>

fun is_conflict :: "js_error \<Rightarrow> bool" where
  "is_conflict (ApiError s m r) = (s = 409)"
| "is_conflict e = False"

definition auth_payload :: "json option \<Rightarrow> string \<Rightarrow> int \<Rightarrow> json" where
  "auth_payload credentialId binding maxUses = JObj (opt_field ''credential_id'' credentialId
     @ [(''binding'', JStr binding), (''max_uses'', JNum maxUses)])"

text \<open>The rest of an attempt, once the server has started the ceremony.\<close>

definition run_ceremony :: "'w env \<Rightarrow> bytes option \<Rightarrow> json option \<Rightarrow> json \<Rightarrow> ('w, verified) act" where
  "run_ceremony env salt credentialId start =
     seq (of_result (prepareRequestOptions (opt_prop (Some start) ''options''))) (\<lambda>publicKey.
     seq (look getPrfRootId) (\<lambda>root.
       let canEvalPrf = (salt \<noteq> None \<and> strict_eq credentialId root) in
       seq (ask_result (e_get env (if canEvalPrf then publicKey\<lparr>cm_prf_salt := salt\<rparr> else publicKey))) (\<lambda>assertion.
         case assertion of
           None \<Rightarrow> throw (Error ''Passkey verification was cancelled.'')
         | Some a \<Rightarrow>
             seq (authFinish (e_fetch env) (JObj (opt_field ''session_token'' (opt_prop (Some start) ''session_token'')
                @ [(''credential'', credentialToJSON a)]))) (\<lambda>fin.
               ret \<lparr>v_token = opt_prop (Some fin) ''verified_token'', v_prf = cr_prf_first a, v_credential = credentialId\<rparr>))))"

text \<open>The two attempts; \<open>k\<close> are left after this one.\<close>

fun attempts :: "'w env \<Rightarrow> string \<Rightarrow> bytes option \<Rightarrow> int \<Rightarrow> nat \<Rightarrow> ('w, verified) act" where
  "attempts env binding salt maxUses 0 = throw (Error ''Passkey verification failed.'')"
| "attempts env binding salt maxUses (Suc k) =
     seq (ensureAuthCredential env) (\<lambda>credentialId.
     seq (handle (seq (authStart (e_fetch env) (auth_payload credentialId binding maxUses)) (\<lambda>s. ret (Some s)))
           (\<lambda>e. if is_conflict e \<and> k = 1 then
                   seq (registerCredential env) (\<lambda>fresh.
                   seq (store (adopt (e_quota env) fresh True)) (\<lambda>u. ret None))
                 else throw e)) (\<lambda>start.
       case start of
         None \<Rightarrow> attempts env binding salt maxUses k
       | Some s \<Rightarrow> run_ceremony env salt credentialId s))"

definition getVerifiedToken :: "'w env \<Rightarrow> string \<Rightarrow> bytes option \<Rightarrow> int \<Rightarrow> ('w, verified) act" where
  "getVerifiedToken env binding salt maxUses = attempts env binding salt maxUses 2"

text \<open>\<open>{ type: "public-key", id: base64UrlToBuffer(credentialId) }\<close>\<close>

definition allow_only :: "json option \<Rightarrow> (json \<times> bytes) list result" where
  "allow_only credentialId =
     (if \<not> js_truthy credentialId then Inr []
      else then_do (json_buffer credentialId) (\<lambda>b. Inr [(JObj [(''type'', JStr ''public-key'')], b)]))"

definition evaluatePrf :: "'w env \<Rightarrow> bytes \<Rightarrow> json option \<Rightarrow> ('w, bytes) act" where
  "evaluatePrf env salt credentialId =
     seq (of_result (allow_only credentialId)) (\<lambda>allow.
     seq (ask (e_random env 32)) (\<lambda>challenge.
     seq (ask_result (e_get env \<lparr>cm_given = Some (JObj [(''userVerification'', JStr ''preferred''), (''timeout'', JNum 60000)]),
           cm_challenge = challenge, cm_user = None, cm_credentials = allow, cm_prf_salt = Some salt, cm_prf = False\<rparr>)) (\<lambda>assertion.
       case assertion of
         None \<Rightarrow> throw (Error ''Passkey prompt was cancelled.'')
       | Some a \<Rightarrow> (case cr_prf_first a of
             None \<Rightarrow> throw (Error ''This passkey did not return a PRF secret.'')
           | Some out \<Rightarrow> ret out))))"

record lane_auth =
  la_token :: "json option"
  la_prf :: bytes
  la_credential :: "json option"

definition two_prompts :: "'w env \<Rightarrow> string \<Rightarrow> bytes \<Rightarrow> int \<Rightarrow> json option \<Rightarrow> ('w, lane_auth) act" where
  "two_prompts env binding salt maxUses root =
     seq (evaluatePrf env salt root) (\<lambda>prfOutput.
     seq (getVerifiedToken env binding None maxUses) (\<lambda>r.
       ret \<lparr>la_token = v_token r, la_prf = prfOutput, la_credential = root\<rparr>))"

definition getVerifiedTokenWithPrf :: "'w env \<Rightarrow> string \<Rightarrow> bytes \<Rightarrow> int \<Rightarrow> ('w, lane_auth) act" where
  "getVerifiedTokenWithPrf env binding salt maxUses =
     seq (ensurePrfRoot env) (\<lambda>root.
     seq (look getAuthId) (\<lambda>auth.
       if strict_eq auth root then
         seq (getVerifiedToken env binding (Some salt) maxUses) (\<lambda>r.
           case v_prf r of
             Some prf \<Rightarrow> if strict_eq (v_credential r) root
                 then ret \<lparr>la_token = v_token r, la_prf = prf, la_credential = root\<rparr>
                 else two_prompts env binding salt maxUses root
           | None \<Rightarrow> two_prompts env binding salt maxUses root)
       else two_prompts env binding salt maxUses root))"

section \<open>What no ceremony forgets\<close>

definition known_ids :: "storage \<Rightarrow> json option set" where
  "known_ids st = (\<lambda>c. opt_prop (Some c) ''id'') ` set (listCredentials st)"

definition all_archived :: "storage \<Rightarrow> bool" where
  "all_archived st \<longleftrightarrow> (\<forall>key \<in> {ROOT_KEY, AUTH_KEY}. js_truthy (stored_id key st) \<longrightarrow> stored_id key st \<in> known_ids st)"

definition accepts :: "quota \<Rightarrow> bool" where
  "accepts quota \<longleftrightarrow> (\<forall>st k v. quota st k v)"

text \<open>
  The root, once there, stays; the archive only grows; nothing else in the storage changes; and while the storage accepts
  writes, both identifiers in use are archived.
\<close>

definition passkey_rel :: "quota \<Rightarrow> storage \<Rightarrow> storage \<Rightarrow> bool" where
  "passkey_rel quota st st' \<longleftrightarrow>
     (js_truthy (getPrfRootId st) \<longrightarrow> getPrfRootId st' = getPrfRootId st) \<and>
     (\<exists>cs. listCredentials st' = listCredentials st @ cs) \<and>
     (\<forall>k. k \<notin> {ROOT_KEY, AUTH_KEY, ARCHIVE_KEY} \<longrightarrow> st' k = st k) \<and>
     (accepts quota \<and> all_archived st \<longrightarrow> all_archived st')"

interpretation pk: guarantee "passkey_rel quota"
  by unfold_locales (auto simp: passkey_rel_def)

lemma writeJson_cases: "writeJson quota st k v = (if quota st k v then put st k v else st)"
  by (simp add: writeJson_def write_item_cases)

lemma readJson_put [simp]: "readJson (put st k v) k' = (if k' = k then v else readJson st k')"
  by (simp add: readJson_def)

lemma stored_id_put [simp]:
  "key \<noteq> k \<Longrightarrow> stored_id key (put st k v) = stored_id key st"
  "k \<noteq> ARCHIVE_KEY \<Longrightarrow> listCredentials (put st k v) = listCredentials st"
  "k \<noteq> ARCHIVE_KEY \<Longrightarrow> known_ids (put st k v) = known_ids st"
  by (simp_all add: stored_id_def listCredentials_def known_ids_def)

lemma listCredentials_put [simp]: "listCredentials (put st ARCHIVE_KEY (JArr cs)) = cs"
  by (simp add: listCredentials_def as_array_def)

lemma stored_id_object: "js_truthy (stored_id key (put st key (id_object i))) \<Longrightarrow> stored_id key (put st key (id_object i)) = i"
  by (auto simp: stored_id_def id_object_def opt_field_def nullish_def split: option.splits if_splits)

lemma some_id_True: "some_id i cs = Inr True \<Longrightarrow> i \<in> (\<lambda>c. opt_prop (Some c) ''id'') ` set cs"
  by (induction cs) (auto simp: then_do_Inr get_prop_def strict_eq_def split: if_splits)

lemma archive_ok:
  assumes "archive quota i prf now st = (st', r)"
  shows "passkey_rel quota st st' \<and> (\<forall>u. r = Inr u \<longrightarrow> accepts quota \<longrightarrow> i \<in> known_ids st')"
proof (cases "some_id i (listCredentials st)")
  case (Inl e)
  then show ?thesis using assms pk.R_refl by (auto simp: archive_def Let_def)
next
  case (Inr found)
  show ?thesis
  proof (cases "found \<or> \<not> quota st ARCHIVE_KEY (JArr (listCredentials st @ [archive_entry i prf now]))")
    case True
    then have "st' = st" using assms Inr by (auto simp: archive_def Let_def writeJson_cases)
    then show ?thesis
      using True Inr some_id_True [of i "listCredentials st"] pk.R_refl by (auto simp: accepts_def known_ids_def)
  next
    case False
    then have st': "st' = put st ARCHIVE_KEY (JArr (listCredentials st @ [archive_entry i prf now]))"
      using assms Inr by (auto simp: archive_def Let_def writeJson_cases)
    have "opt_prop (Some (archive_entry i prf now)) ''id'' = i"
      by (simp add: archive_entry_def opt_field_def split: option.splits)
    then have "known_ids st' = insert i (known_ids st)" by (simp add: st' known_ids_def image_Un)
    moreover have "stored_id key st' = stored_id key st" if "key \<in> {ROOT_KEY, AUTH_KEY}" for key
      using that by (auto simp: st')
    moreover have "\<exists>cs. listCredentials st' = listCredentials st @ cs" by (simp add: st')
    moreover have "st' k = st k" if "k \<noteq> ARCHIVE_KEY" for k using that by (simp add: st' put_def)
    ultimately show ?thesis
      by (simp add: passkey_rel_def all_archived_def getPrfRootId_def)
  qed
qed

lemma archive_root: "archive quota i prf now st = (st', r) \<Longrightarrow> getPrfRootId st' = getPrfRootId st"
  by (auto simp: archive_def Let_def writeJson_cases getPrfRootId_def split: sum.splits if_splits)

lemma put_id_ok:
  assumes "key \<in> {ROOT_KEY, AUTH_KEY}" "key = ROOT_KEY \<Longrightarrow> \<not> js_truthy (getPrfRootId st)"
    and "accepts quota \<Longrightarrow> i \<in> known_ids st"
  shows "passkey_rel quota st (put st key (id_object i))"
proof -
  have ne: "key \<noteq> ARCHIVE_KEY" using assms(1) by auto
  have "all_archived st \<Longrightarrow> i \<in> known_ids st \<Longrightarrow> all_archived (put st key (id_object i))"
    unfolding all_archived_def using ne stored_id_object [of key st i] stored_id_put(1) [of _ key st "id_object i"]
    by (metis stored_id_put(3))
  then show ?thesis
    using assms ne by (auto simp: passkey_rel_def getPrfRootId_def) (auto simp: put_def)
qed

lemma adopt_ok:
  assumes "adopt quota cred asAuth st = (st', r)" "accepts quota \<Longrightarrow> rg_id cred \<in> known_ids st"
  shows "passkey_rel quota st st' \<and>
    (accepts quota \<and> rg_prf cred \<and> \<not> js_truthy (getPrfRootId st) \<and> js_truthy (rg_id cred) \<longrightarrow> getPrfRootId st' = rg_id cred)"
proof -
  define st1 where "st1 = (if asAuth then writeJson quota st AUTH_KEY (id_object (rg_id cred)) else st)"
  have 1: "passkey_rel quota st st1" "known_ids st1 = known_ids st" "getPrfRootId st1 = getPrfRootId st"
    using put_id_ok [of AUTH_KEY st quota "rg_id cred"] assms(2) pk.R_refl
    by (auto simp: st1_def writeJson_cases getPrfRootId_def)
  have "st' = fst (adopt quota cred asAuth st)" using assms(1) by simp
  then have st': "st' = (if rg_prf cred \<and> \<not> js_truthy (getPrfRootId st1) then writeJson quota st1 ROOT_KEY (id_object (rg_id cred)) else st1)"
    by (simp only: adopt_def st1_def Let_def fst_conv)
  then have "passkey_rel quota st1 st'"
    using put_id_ok [of ROOT_KEY st1 quota "rg_id cred"] assms(2) 1 pk.R_refl by (auto simp: writeJson_cases)
  then have "passkey_rel quota st st'" using 1(1) by (rule pk.R_trans [rotated])
  moreover have "getPrfRootId st' = rg_id cred"
    if a: "accepts quota" "rg_prf cred" "\<not> js_truthy (getPrfRootId st)" "js_truthy (rg_id cred)"
  proof -
    have "st' = put st1 ROOT_KEY (id_object (rg_id cred))"
      using a 1(3) st' by (simp add: accepts_def writeJson_cases)
    then show ?thesis using a(4) by (auto simp: getPrfRootId_def stored_id_def id_object_def opt_field_def nullish_def js_truthy_def split: option.splits)
  qed
  ultimately show ?thesis by simp
qed

section \<open>Ceremonies\<close>

lemma request_skip:
  "(\<And>x. ensures (passkey_rel q) st Q (f x)) \<Longrightarrow> ensures (passkey_rel q) st Q (seq (request fetch path body method) f)"
  unfolding request_def by (rule pk.ens_skip)

definition fresh_id :: "quota \<Rightarrow> storage \<Rightarrow> registered \<Rightarrow> storage \<Rightarrow> bool" where
  "fresh_id quota st c st' \<longleftrightarrow> (accepts quota \<longrightarrow> rg_id c \<in> known_ids st') \<and> getPrfRootId st' = getPrfRootId st"

lemma registerCredential_ok:
  "ensures (passkey_rel (e_quota env)) st (fresh_id (e_quota env) st) (registerCredential env)"
proof -
  have "ensures (passkey_rel (e_quota env)) st (fresh_id (e_quota env) st)
      (seq (store (archive (e_quota env) i b now)) (\<lambda>u. ret \<lparr>rg_id = i, rg_prf = b\<rparr>))" for i b now
  proof (rule pk.ens_seq [OF pk.ens_store])
    fix st' r assume a: "archive (e_quota env) i b now st = (st', r)"
    show "passkey_rel (e_quota env) st st' \<and> (\<forall>y. r = Inr y \<longrightarrow>
        (accepts (e_quota env) \<longrightarrow> i \<in> known_ids st') \<and> getPrfRootId st' = getPrfRootId st)"
      using archive_ok [OF a] archive_root [OF a] by blast
  qed (auto simp: fresh_id_def intro!: pk.ens_ret)
  then show ?thesis
    unfolding registerCredential_def registerStart_def registerFinish_def
    by (intro request_skip pk.ens_skip) (auto simp: Let_def intro!: request_skip pk.ens_skip pk.ens_throw split: option.splits)
qed

lemma adopt_seq:
  assumes "accepts (e_quota env) \<Longrightarrow> rg_id c \<in> known_ids st"
    and "\<And>st'. passkey_rel (e_quota env) st st' \<Longrightarrow> (accepts (e_quota env) \<Longrightarrow> rg_id c \<in> known_ids st') \<Longrightarrow> ensures (passkey_rel (e_quota env)) st' Q f"
  shows "ensures (passkey_rel (e_quota env)) st Q (seq (store (adopt (e_quota env) c b)) (\<lambda>u. f))"
proof (rule pk.ens_seq [OF pk.ens_store])
  fix st' r assume "adopt (e_quota env) c b st = (st', r)"
  from adopt_ok [OF this assms(1)] show "passkey_rel (e_quota env) st st' \<and> (\<forall>y. r = Inr y \<longrightarrow> passkey_rel (e_quota env) st st')"
    by simp
next
  fix st' assume r: "passkey_rel (e_quota env) st st'"
  have "known_ids st \<subseteq> known_ids st'" using r by (auto simp: passkey_rel_def known_ids_def)
  then show "ensures (passkey_rel (e_quota env)) st' Q f" using assms r by blast
qed

abbreviation keeps :: "'w env \<Rightarrow> storage \<Rightarrow> ('w, 'a) act \<Rightarrow> bool" where
  "keeps env st m \<equiv> ensures (passkey_rel (e_quota env)) st (\<lambda>y st'. True) m"

lemmas ceremony_intros = request_skip pk.ens_skip pk.ens_throw pk.ens_ret

lemma ensureAuthCredential_ok: "keeps env st (ensureAuthCredential env)"
  unfolding ensureAuthCredential_def
  by (rule pk.ens_skip) (auto simp: fresh_id_def intro!: pk.ens_ret pk.ens_seq [OF registerCredential_ok] adopt_seq)

lemma run_ceremony_ok: "keeps env st (run_ceremony env salt i start)"
  unfolding run_ceremony_def authFinish_def
  by (intro pk.ens_skip) (auto simp: Let_def intro!: ceremony_intros split: option.splits)

lemma attempts_ok: "keeps env st (attempts env binding salt n k)"
proof (induction k arbitrary: st)
  case 0
  then show ?case by (simp add: pk.ens_throw)
next
  case (Suc k)
  have start: "keeps env st (seq (authStart (e_fetch env) p) (\<lambda>s. ret (Some s)))" for st p
    unfolding authStart_def by (auto intro!: ceremony_intros)
  have fresh: "keeps env st (seq (registerCredential env) (\<lambda>c. seq (store (adopt (e_quota env) c True)) (\<lambda>u. ret None)))" for st
    by (auto simp: fresh_id_def intro!: pk.ens_ret pk.ens_seq [OF registerCredential_ok] adopt_seq)
  show ?case
    unfolding attempts.simps
    by (rule pk.ens_seq [OF ensureAuthCredential_ok], rule pk.ens_seq, rule pk.ens_handle [OF start])
      (auto intro: fresh pk.ens_throw Suc.IH run_ceremony_ok split: option.splits)
qed

lemma getVerifiedToken_ok: "keeps env st (getVerifiedToken env binding salt n)"
  by (simp only: getVerifiedToken_def attempts_ok)

lemma evaluatePrf_ok: "keeps env st (evaluatePrf env salt i)"
  unfolding evaluatePrf_def
  by (intro pk.ens_skip) (auto intro!: ceremony_intros split: option.splits)

text \<open>\<open>i\<close> is the root that was pinned before, if there was one, and is the pinned root now.\<close>

definition is_root :: "quota \<Rightarrow> storage \<Rightarrow> json option \<Rightarrow> storage \<Rightarrow> bool" where
  "is_root quota st i st' \<longleftrightarrow> (js_truthy (getPrfRootId st) \<longrightarrow> i = getPrfRootId st) \<and>
     (accepts quota \<and> js_truthy i \<longrightarrow> getPrfRootId st' = i)"

lemma is_root_later: "is_root q st i st' \<Longrightarrow> passkey_rel q st' st'' \<Longrightarrow> is_root q st i st''"
  by (auto simp: is_root_def passkey_rel_def)

lemma ensurePrfRoot_ok: "ensures (passkey_rel (e_quota env)) st (is_root (e_quota env) st) (ensurePrfRoot env)"
proof (cases "js_truthy (getPrfRootId st)")
  case True
  then show ?thesis
    unfolding ensurePrfRoot_def by (auto simp: is_root_def intro!: pk.ens_skip pk.ens_ret)
next
  case False
  let ?q = "e_quota env"
  have adopt: "ensures (passkey_rel ?q) st' (is_root ?q st) (seq (store (adopt ?q c b)) (\<lambda>u. if rg_prf c then ret (rg_id c) else throw e))"
    if c: "accepts ?q \<Longrightarrow> rg_id c \<in> known_ids st'" and root: "getPrfRootId st' = getPrfRootId st" for st' c b e
  proof (rule pk.ens_seq [OF pk.ens_store])
    fix st'' r assume a: "adopt ?q c b st' = (st'', r)"
    note ok = adopt_ok [OF a c]
    have "accepts ?q \<and> rg_prf c \<and> js_truthy (rg_id c) \<and> \<not> js_truthy (getPrfRootId st') \<longrightarrow> getPrfRootId st'' = rg_id c"
      using ok by blast
    then show "passkey_rel ?q st' st'' \<and> (\<forall>y. r = Inr y \<longrightarrow>
        (accepts ?q \<and> rg_prf c \<and> js_truthy (rg_id c) \<and> \<not> js_truthy (getPrfRootId st') \<longrightarrow> getPrfRootId st'' = rg_id c))"
      using ok by blast
  next
    fix st'' assume "passkey_rel ?q st' st''"
      "accepts ?q \<and> rg_prf c \<and> js_truthy (rg_id c) \<and> \<not> js_truthy (getPrfRootId st') \<longrightarrow> getPrfRootId st'' = rg_id c"
    then show "ensures (passkey_rel ?q) st'' (is_root ?q st) (if rg_prf c then ret (rg_id c) else throw e)"
      using False root by (auto simp: is_root_def intro!: pk.ens_ret pk.ens_throw)
  qed
  show ?thesis
    unfolding ensurePrfRoot_def
    by (rule pk.ens_skip) (auto simp: False fresh_id_def intro!: pk.ens_skip pk.ens_seq [OF registerCredential_ok] adopt)
qed

lemma two_prompts_ok:
  "is_root (e_quota env) st0 root st \<Longrightarrow>
   ensures (passkey_rel (e_quota env)) st (\<lambda>a st'. is_root (e_quota env) st0 (la_credential a) st') (two_prompts env binding salt n root)"
  unfolding two_prompts_def
  by (auto intro!: pk.ens_ret pk.ens_seq [OF evaluatePrf_ok] pk.ens_seq [OF getVerifiedToken_ok] intro: is_root_later [OF is_root_later])

lemma getVerifiedTokenWithPrf_ok:
  "ensures (passkey_rel (e_quota env)) st (\<lambda>a st'. is_root (e_quota env) st (la_credential a) st')
     (getVerifiedTokenWithPrf env binding salt n)"
  unfolding getVerifiedTokenWithPrf_def
proof (rule pk.ens_seq [OF ensurePrfRoot_ok], rule pk.ens_skip)
  fix root st1 assume r: "is_root (e_quota env) st root st1"
  let ?Q = "\<lambda>a st'. is_root (e_quota env) st (la_credential a) st'"
  note later = is_root_later [OF r]
  have "ensures (passkey_rel (e_quota env)) st1 ?Q
      (seq (getVerifiedToken env binding (Some salt) n) (\<lambda>r.
           case v_prf r of
             Some prf \<Rightarrow> if strict_eq (v_credential r) root
                 then ret \<lparr>la_token = v_token r, la_prf = prf, la_credential = root\<rparr>
                 else two_prompts env binding salt n root
           | None \<Rightarrow> two_prompts env binding salt n root))"
    by (rule pk.ens_seq [OF getVerifiedToken_ok])
      (auto intro!: pk.ens_ret two_prompts_ok later split: option.splits)
  then show "ensures (passkey_rel (e_quota env)) st1 ?Q
      (if strict_eq (getAuthId st1) root then
         seq (getVerifiedToken env binding (Some salt) n) (\<lambda>r.
           case v_prf r of
             Some prf \<Rightarrow> if strict_eq (v_credential r) root
                 then ret \<lparr>la_token = v_token r, la_prf = prf, la_credential = root\<rparr>
                 else two_prompts env binding salt n root
           | None \<Rightarrow> two_prompts env binding salt n root)
       else two_prompts env binding salt n root)"
    using two_prompts_ok [OF r] by simp
qed

section \<open>Sessions\<close>

text \<open>Any number of calls of the exported operations, however each of them ends.\<close>

inductive ceremonies :: "'w env \<Rightarrow> storage \<Rightarrow> storage \<Rightarrow> bool" for env where
  No_call: "ceremonies env st st"
| Root: "ceremonies env st st1 \<Longrightarrow> ensurePrfRoot env (st1, w) = (r, (st2, w')) \<Longrightarrow> ceremonies env st st2"
| Token: "ceremonies env st st1 \<Longrightarrow> getVerifiedToken env b s n (st1, w) = (r', (st2, w')) \<Longrightarrow> ceremonies env st st2"
| Prf: "ceremonies env st st1 \<Longrightarrow> evaluatePrf env salt i (st1, w) = (r'', (st2, w')) \<Longrightarrow> ceremonies env st st2"
| Both: "ceremonies env st st1 \<Longrightarrow> getVerifiedTokenWithPrf env b salt n (st1, w) = (r3, (st2, w')) \<Longrightarrow> ceremonies env st st2"

text \<open>
  C7: the PRF root is never replaced and no passkey is forgotten. Over any sequence of ceremonies, successful, refused,
  cancelled or answered with a conflict, a pinned root stays the pinned root, the archive only grows at
  its end, no other item of the storage changes, and while the storage accepts writes the root and the
  authentication credential are both archived.
\<close>

theorem prf_root_pinned:
  assumes "ceremonies env st st'"
  shows "(js_truthy (getPrfRootId st) \<longrightarrow> getPrfRootId st' = getPrfRootId st) \<and>
    (\<exists>cs. listCredentials st' = listCredentials st @ cs) \<and>
    (\<forall>k. k \<notin> {ROOT_KEY, AUTH_KEY, ARCHIVE_KEY} \<longrightarrow> st' k = st k) \<and>
    (accepts (e_quota env) \<and> all_archived st \<longrightarrow> all_archived st')"
proof -
  have "passkey_rel (e_quota env) st st'"
    using assms
  proof induction
    case (No_call st)
    show ?case by (rule pk.R_refl)
  qed (blast intro: pk.R_trans ensuresD [OF ensurePrfRoot_ok, THEN conjunct1] ensuresD [OF getVerifiedToken_ok, THEN conjunct1]
      ensuresD [OF evaluatePrf_ok, THEN conjunct1] ensuresD [OF getVerifiedTokenWithPrf_ok, THEN conjunct1])+
  then show ?thesis unfolding passkey_rel_def .
qed

text \<open>An authenticator and a server that answer, and a browser with one passkey in both roles.\<close>

definition key_answer :: json where
  "key_answer = JObj [(''options'', JObj [(''publicKey'', JObj [(''challenge'', JStr [])])]), (''verified_token'', JStr ''T'')]"

definition key_credential :: credential where
  "key_credential = \<lparr>cr_id = ''R'', cr_rawId = [1], cr_type = ''public-key'', cr_clientData = [], cr_attestation = None,
     cr_authData = None, cr_signature = [], cr_userHandle = None, cr_prf_enabled = None, cr_prf_first = Some [7]\<rparr>"

definition key_env :: "unit env" where
  "key_env = \<lparr>e_fetch = (\<lambda>m p b w. (Reply 200 ''x'' (Some key_answer) None, w)),
     e_create = (\<lambda>c w. (Inr None, w)), e_get = (\<lambda>c w. (Inr (Some key_credential), w)),
     e_now = (\<lambda>w. (5, w)), e_random = (\<lambda>n w. (replicate n 0, w)), e_quota = (\<lambda>st k v. True)\<rparr>"

lemma key_request: "request (e_fetch key_env) path body method s = (Inr key_answer, s)"
  by (cases s) (simp add: request_def ask_result_def key_env_def request_result_def res_ok_def key_answer_def)

lemma key_get: "ask_result (e_get key_env c) s = (Inr (Some key_credential), s)"
  by (cases s) (simp add: ask_result_def key_env_def)

lemma key_options: "\<exists>c. prepareRequestOptions (opt_prop (Some key_answer) ''options'') = Inr c"
  by (simp add: prepareRequestOptions_def key_answer_def get_prop_def json_buffer_def js_truthy_def credential_list_def opt_prop_def)

definition key_storage :: storage where
  "key_storage = [ROOT_KEY \<mapsto> JObj [(''id'', JStr ''R'')], AUTH_KEY \<mapsto> JObj [(''id'', JStr ''R'')]]"

lemma key_storage_ids: "getPrfRootId key_storage = Some (JStr ''R'')" "getAuthId key_storage = Some (JStr ''R'')"
  by (simp_all add: getPrfRootId_def getAuthId_def stored_id_def readJson_def read_item_def key_storage_def nullish_def)

lemma key_ceremony:
  "run_ceremony key_env salt (Some (JStr ''R'')) key_answer (key_storage, ())
     = (Inr \<lparr>v_token = Some (JStr ''T''), v_prf = Some [7], v_credential = Some (JStr ''R'')\<rparr>, (key_storage, ()))"
proof -
  obtain c where c: "prepareRequestOptions (opt_prop (Some key_answer) ''options'') = Inr c" using key_options by blast
  have t: "opt_prop (Some key_answer) ''verified_token'' = Some (JStr ''T'')" by (simp add: key_answer_def)
  show ?thesis
    unfolding run_ceremony_def c authFinish_def
    by (simp add: seq_def of_result_def look_def ret_def Let_def key_request key_get t) (simp add: key_credential_def)
qed

lemma key_env_run:
  "getVerifiedTokenWithPrf key_env ''b'' [1] 1 (key_storage, ())
     = (Inr \<lparr>la_token = Some (JStr ''T''), la_prf = [7], la_credential = Some (JStr ''R'')\<rparr>, (key_storage, ()))"
proof -
  have "ensureAuthCredential key_env (key_storage, ()) = (Inr (Some (JStr ''R'')), (key_storage, ()))"
    by (simp add: ensureAuthCredential_def seq_def look_def ret_def key_storage_ids js_truthy_def)
  then have "getVerifiedToken key_env ''b'' (Some [1]) 1 (key_storage, ())
      = (Inr \<lparr>v_token = Some (JStr ''T''), v_prf = Some [7], v_credential = Some (JStr ''R'')\<rparr>, (key_storage, ()))"
    by (simp add: getVerifiedToken_def numeral_2_eq_2 seq_def handle_def ret_def authStart_def key_request key_ceremony)
  then show ?thesis
    by (simp add: getVerifiedTokenWithPrf_def ensurePrfRoot_def seq_def look_def ret_def key_storage_ids js_truthy_def strict_eq_def)
qed

theorem prf_root_pinned_witness:
  "\<exists>st'. ceremonies key_env key_storage st' \<and> getPrfRootId st' = Some (JStr ''R'')"
proof -
  have "ceremonies key_env key_storage key_storage"
    by (rule ceremonies.Both [OF ceremonies.No_call key_env_run])
  from prf_root_pinned [OF this] show ?thesis
    using \<open>ceremonies key_env key_storage key_storage\<close> by (auto simp: key_storage_ids js_truthy_def)
qed

text \<open>
  A private lane is derived from the pinned root. When the combined ceremony returns, the credential it names is the
  root that was pinned before, if there was one, and, on a storage that accepts writes, it is the pinned
  root afterwards: also when the authentication credential was replaced in the middle.
\<close>

lemma lane_uses_pinned_root:
  assumes "getVerifiedTokenWithPrf env binding salt n (st, w) = (Inr a, (st', w'))"
  shows "(js_truthy (getPrfRootId st) \<longrightarrow> la_credential a = getPrfRootId st) \<and>
    (accepts (e_quota env) \<and> js_truthy (la_credential a) \<longrightarrow> getPrfRootId st' = la_credential a)"
  using ensuresD [OF getVerifiedTokenWithPrf_ok assms] by (simp add: is_root_def)

lemma lane_uses_pinned_root_witness:
  "\<exists>a. getVerifiedTokenWithPrf key_env ''b'' [1] 1 (key_storage, ()) = (Inr a, (key_storage, ())) \<and>
     la_credential a = getPrfRootId key_storage"
  using lane_uses_pinned_root [OF key_env_run] key_env_run by (simp add: key_storage_ids js_truthy_def)

end
