(* ===== verification/Stealth_Core.thy ===== *)
theory Stealth_Core
  imports Rpc Store_Backup
begin

text \<open>
  \<open>scripts/stealth.core.js\<close>: the derivation of a private lane's account from the secret of its passkey. The hash and the
  key derivation of the browser, and the elliptic curve and contract address functions of the third-party libraries,
  are the fields of a record of parameters. A derivation configuration is the JSON object a lane stores; fields passed on
  to a library are texts.
\<close>

section \<open>Parameters\<close>

record curves =
  x_sha :: "bytes \<Rightarrow> bytes"
  x_hkdf :: "bytes \<Rightarrow> string \<Rightarrow> nat \<Rightarrow> bytes"
  x_stark_order :: int
  x_stark_key :: "string \<Rightarrow> string"
  x_stark_address :: "string \<Rightarrow> string \<Rightarrow> string \<Rightarrow> string"
  x_wallet_address :: "string \<Rightarrow> string"
  x_ed_public :: "bytes \<Rightarrow> bytes"
  x_abi :: abi

definition SECP256K1_ORDER :: int where
  "SECP256K1_ORDER = 0xFFFFFFFFFFFFFFFFFFFFFFFFFFFFFFFEBAAEDCE6AF48A03BBFD25E8CD0364141"

section \<open>Salts and identifiers\<close>

definition laneSalt :: "(bytes \<Rightarrow> bytes) \<Rightarrow> string \<Rightarrow> bytes" where
  "laneSalt sha laneId = sha (utf8 (''beanie-stealth-salt-v1:'' @ laneId))"

text \<open>The 16 random bytes and the time are what the browser gives.\<close>

definition generateLaneId :: "(bytes \<Rightarrow> bytes) \<Rightarrow> string \<Rightarrow> bytes \<Rightarrow> nat \<Rightarrow> string" where
  "generateLaneId sha seed rand now =
     ''lane_'' @ hex_of_bytes (sha (concatBytes [utf8 seed, [0], rand, utf8 (nat_string 10 now)]))"

section \<open>Scalars\<close>

definition bytesToScalar :: "bytes \<Rightarrow> int \<Rightarrow> int result" where
  "bytesToScalar bs order = then_do (to_BigInt (''0x'' @ hex_of_bytes bs)) (\<lambda>n. Inr (js_rem n (order - 1) + 1))"

definition hex32 :: "int \<Rightarrow> string" where
  "hex32 n = ''0x'' @ pad_start 64 CHR ''0'' (int_string 16 n)"

definition feltHex :: "string \<Rightarrow> string result" where
  "feltHex v = then_do (to_BigInt v) (\<lambda>n. Inr (hex32 n))"

section \<open>The configuration\<close>

text \<open>\<open>isPlaceholder\<close> of any value, and the JSON object of a snapshot.\<close>

definition placeholder_json :: "json option \<Rightarrow> bool" where
  "placeholder_json v = isPlaceholder (if js_truthy v then Some (coerce v) else None)"

definition opt_num :: "int option \<Rightarrow> json" where
  "opt_num n = (case n of None \<Rightarrow> JNull | Some i \<Rightarrow> JNum i)"

definition bound_json :: "gas_bound \<Rightarrow> json" where
  "bound_json b = JObj [(''max_amount'', JStr (max_amount b)), (''max_price_per_unit'', JStr (max_price b))]"

definition stealth_fields :: "stealth_cfg \<Rightarrow> (string \<times> json) list" where
  "stealth_fields s =
     (case st_window s of None \<Rightarrow> [] | Some n \<Rightarrow> [(''maxAuthWindowSecs'', JNum n)])
     @ (case st_maxFeeFri s of None \<Rightarrow> [] | Some f \<Rightarrow>
          [(''classHash'', opt_string (st_classHash s)), (''chainId'', opt_string (st_chainId s)), (''maxFeeFri'', JStr f)])
     @ (case st_bounds s of None \<Rightarrow> [] | Some b \<Rightarrow> [(''resourceBounds'', JObj [(''l1_gas'', bound_json (bounds3.l1_gas b)),
          (''l2_gas'', bound_json (bounds3.l2_gas b)), (''l1_data_gas'', bound_json (bounds3.l1_data_gas b))])])"

fun config_json :: "stealth_config \<Rightarrow> json" where
  "config_json (SolanaCfg u) = JObj [(''usdc'', opt_string u)]"
| "config_json (EvmCfg s cid u e) = JObj ([(''chainId'', opt_num cid), (''usdc'', opt_string u),
     (''eip712'', case e of None \<Rightarrow> JNull | Some d \<Rightarrow> JObj [(''name'', JStr (eip_name d)), (''version'', JStr (eip_version d))])]
     @ stealth_fields s)"
| "config_json (StarknetCfg s u) = JObj ([(''usdc'', opt_string u)] @ (case s of None \<Rightarrow> [] | Some x \<Rightarrow> stealth_fields x))"

definition base_config :: "chain \<Rightarrow> json option result" where
  "base_config c = then_do (stealthConfigFor (Some c)) (\<lambda>o'. Inr (Some (case o' of None \<Rightarrow> JNull | Some s \<Rightarrow> config_json s)))"

definition config_valid :: "chain \<Rightarrow> json option \<Rightarrow> bool" where
  "config_valid c config =
     (let t = \<lambda>k. js_truthy (opt_prop config k); real = \<lambda>k. \<not> placeholder_json (opt_prop config k) in
      if ch_kind c = ''evm'' then
        t ''factory'' \<and> t ''usdc'' \<and> t ''eip712'' \<and> t ''chainId'' \<and> real ''factory'' \<and> real ''cosigner''
      else if ch_kind c = ''starknet'' then
        t ''classHash'' \<and> t ''cosigner'' \<and> t ''chainId'' \<and> t ''usdc'' \<and> real ''classHash'' \<and> real ''cosigner''
      else if ch_kind c = ''solana'' then
        t ''cosigner'' \<and> t ''relayer'' \<and> t ''usdc'' \<and> real ''cosigner'' \<and> real ''relayer''
      else False)"

definition requireReady :: "string \<Rightarrow> json option \<Rightarrow> (chain \<times> json option) result" where
  "requireReady chainKey configOverride =
     (case chainByKey chainKey of
        None \<Rightarrow> Inl (Error (''Unknown chain '' @ [CHR 0x22] @ chainKey @ [CHR 0x22, CHR ''.'']))
      | Some c \<Rightarrow>
          then_do (if nullish configOverride then base_config c else Inr configOverride) (\<lambda>config.
            if \<not> config_valid c config \<or> (\<not> js_truthy configOverride \<and> \<not> stealthReady (Some c))
            then Inl (Error (''Private lanes are not enabled on '' @ ch_name c @ '' yet.''))
            else Inr (c, config)))"

section \<open>Derivation\<close>

definition deriveSolanaMultisig :: "(bytes \<Rightarrow> bytes) \<Rightarrow> string \<Rightarrow> string \<Rightarrow> string result" where
  "deriveSolanaMultisig sha client cosigner =
     then_do (pubkeyBytes client ''client key'') (\<lambda>cb.
       let seed = hex_of_bytes (take 16 (sha (concatBytes [utf8 ''beanie-multisig-v1'', cb]))) in
       then_do (pubkeyBytes cosigner ''cosigner'') (\<lambda>sb.
       then_do (pubkeyBytes TOKEN_PROGRAM ''address'') (\<lambda>tb.
         Inr (base58Encode (sha (concatBytes [sb, utf8 seed, tb]))))))"

record secret_part =
  sp_privateKey :: string
  sp_clientAddress :: string
  sp_salt :: "string option"

record account =
  ac_chain :: string
  ac_kind :: string
  ac_address :: string
  ac_publicKey :: string
  ac_secret :: "secret_part option"

definition spend_info :: "string \<Rightarrow> string \<Rightarrow> nat \<Rightarrow> string" where
  "spend_info chain laneId index = ''beanie-spend-v1:'' @ chain @ '':'' @ laneId @ '':'' @ nat_string 10 index"

definition create2_info :: "string \<Rightarrow> string \<Rightarrow> nat \<Rightarrow> string" where
  "create2_info chain laneId index = ''beanie-create2-salt-v1:'' @ chain @ '':'' @ laneId @ '':'' @ nat_string 10 index"

definition cfg_text :: "json option \<Rightarrow> string \<Rightarrow> string" where
  "cfg_text config k = coerce (opt_prop config k)"

definition derive_starknet :: "curves \<Rightarrow> bytes \<Rightarrow> string \<Rightarrow> chain \<Rightarrow> json option \<Rightarrow> account result" where
  "derive_starknet x laneSecret info c config =
     then_do (bytesToScalar (x_hkdf x laneSecret info 64) (x_stark_order x)) (\<lambda>scalar.
       let privateKey = hex32 scalar; publicKey = x_stark_key x privateKey in
       then_do (feltHex (x_stark_address x publicKey (cfg_text config ''classHash'') (cfg_text config ''cosigner''))) (\<lambda>address.
         Inr \<lparr>ac_chain = ch_key c, ac_kind = ''starknet'', ac_address = address, ac_publicKey = publicKey,
              ac_secret = Some \<lparr>sp_privateKey = privateKey, sp_clientAddress = publicKey, sp_salt = Some publicKey\<rparr>\<rparr>))"

definition derive_evm :: "curves \<Rightarrow> net \<Rightarrow> bytes \<Rightarrow> string \<Rightarrow> string \<Rightarrow> chain \<Rightarrow> json option \<Rightarrow> account result" where
  "derive_evm x net laneSecret info salt_info c config =
     then_do (bytesToScalar (x_hkdf x laneSecret info 64) SECP256K1_ORDER) (\<lambda>scalar.
       let privateKey = hex32 scalar; clientAddress = x_wallet_address x privateKey;
           salt = ''0x'' @ hex_of_bytes (x_hkdf x laneSecret salt_info 32) in
       then_do (predictStealthAccount (x_abi x) net (ch_key c) clientAddress (cfg_text config ''cosigner'') salt
           (as_string (opt_prop config ''factory''))) (\<lambda>address.
         Inr \<lparr>ac_chain = ch_key c, ac_kind = ''evm'', ac_address = js_String address, ac_publicKey = to_lower clientAddress,
              ac_secret = Some \<lparr>sp_privateKey = privateKey, sp_clientAddress = to_lower clientAddress, sp_salt = Some salt\<rparr>\<rparr>))"

definition derive_solana :: "curves \<Rightarrow> bytes \<Rightarrow> string \<Rightarrow> chain \<Rightarrow> json option \<Rightarrow> account result" where
  "derive_solana x laneSecret info c config =
     (let seed = x_hkdf x laneSecret info 32; clientAddress = base58Encode (x_ed_public x seed) in
      then_do (deriveSolanaMultisig (x_sha x) clientAddress (cfg_text config ''cosigner'')) (\<lambda>address.
        Inr \<lparr>ac_chain = ch_key c, ac_kind = ''solana'', ac_address = address, ac_publicKey = clientAddress,
             ac_secret = Some \<lparr>sp_privateKey = ''0x'' @ hex_of_bytes seed, sp_clientAddress = clientAddress, sp_salt = None\<rparr>\<rparr>))"

text \<open>\<open>Number.isInteger(index) && index >= 0\<close>\<close>

definition valid_index :: "json option \<Rightarrow> nat option" where
  "valid_index v = (case v of Some (JNum n) \<Rightarrow> if 0 \<le> n then Some (nat n) else None | _ \<Rightarrow> None)"

definition derive :: "curves \<Rightarrow> net \<Rightarrow> bytes \<Rightarrow> string \<Rightarrow> json option \<Rightarrow> string \<Rightarrow> bool \<Rightarrow> json option \<Rightarrow> account result" where
  "derive x net laneSecret laneId index chainKey withPrivate configOverride =
     (if length laneSecret < 32 then Inl (Error ''Invalid lane secret.'')
      else case valid_index index of
        None \<Rightarrow> Inl (Error ''Invalid derivation index.'')
      | Some i \<Rightarrow>
          then_do (requireReady chainKey configOverride) (\<lambda>(c, config).
          then_do (let info = spend_info (ch_key c) laneId i in
             if ch_kind c = ''starknet'' then derive_starknet x laneSecret info c config
             else if ch_kind c = ''evm'' then derive_evm x net laneSecret info (create2_info (ch_key c) laneId i) c config
             else if ch_kind c = ''solana'' then derive_solana x laneSecret info c config
             else Inl (Error (''Private lanes are not supported on '' @ ch_name c @ ''.''))) (\<lambda>a.
            Inr (if withPrivate then a else a\<lparr>ac_secret := None\<rparr>))))"

definition deriveStealthAddress :: "curves \<Rightarrow> net \<Rightarrow> bytes \<Rightarrow> string \<Rightarrow> json option \<Rightarrow> string \<Rightarrow> json option \<Rightarrow> account result" where
  "deriveStealthAddress x net secret laneId index chain config = derive x net secret laneId index chain False config"

definition deriveStealthSigner :: "curves \<Rightarrow> net \<Rightarrow> bytes \<Rightarrow> string \<Rightarrow> json option \<Rightarrow> string \<Rightarrow> json option \<Rightarrow> account result" where
  "deriveStealthSigner x net secret laneId index chain config = derive x net secret laneId index chain True config"

section \<open>Keys in range\<close>

text \<open>
  A derived scalar is a valid private key. For any key material and any curve order above one the scalar is the
  number the bytes denote, reduced modulo the order less one, plus one; so it is never zero and always
  below the order.
\<close>

lemma scalar_in_range:
  assumes "bs \<noteq> []" "1 < order"
  shows "\<exists>n. bytesToScalar bs order = Inr n \<and> n = int (be_nat bs) mod (order - 1) + 1 \<and> 1 \<le> n \<and> n < order"
proof -
  have "bytesToScalar bs order = Inr (int (be_nat bs) mod (order - 1) + 1)"
    using js_BigInt_hex_of_bytes [OF assms(1)] assms(2)
    by (simp add: bytesToScalar_def to_BigInt_def js_rem_nonneg del: append_Cons append_Nil)
  moreover have "0 \<le> int (be_nat bs) mod (order - 1)" "int (be_nat bs) mod (order - 1) < order - 1"
    using assms(2) by simp_all
  ultimately show ?thesis by force
qed

lemma scalar_in_range_witness:
  "\<exists>n. bytesToScalar (replicate 64 255) SECP256K1_ORDER = Inr n \<and> 1 \<le> n \<and> n < SECP256K1_ORDER"
  using scalar_in_range [of "replicate 64 255" SECP256K1_ORDER] by (auto simp: SECP256K1_ORDER_def)

section \<open>Domain separation\<close>

lemma table_keys: "c \<in> set CHAINS \<Longrightarrow> CHR '':'' \<notin> set (ch_key c)"
proof -
  have "list_all (\<lambda>k. CHR '':'' \<notin> set k) (map ch_key CHAINS)" by (simp add: CHAINS_def)
  then show "c \<in> set CHAINS \<Longrightarrow> CHR '':'' \<notin> set (ch_key c)" by (simp add: list_all_iff)
qed

lemma table_key_inject:
  assumes "c \<in> set CHAINS" "d \<in> set CHAINS" "ch_key c = ch_key d"
  shows "c = d"
proof -
  have "distinct (map ch_key CHAINS)" by (simp add: CHAINS_def)
  then show ?thesis using assms by (auto simp: distinct_map dest: inj_onD)
qed

lemma first_colon:
  assumes "CHR '':'' \<notin> set k" "CHR '':'' \<notin> set k'" "k @ '':'' @ x = k' @ '':'' @ y"
  shows "k = k' \<and> x = y"
proof -
  have "takeWhile (\<lambda>c. c \<noteq> CHR '':'') (z @ '':'' @ u) = z" if "CHR '':'' \<notin> set z" for z u
    using that by (subst takeWhile_append2) auto
  then have "k = k'" using assms by metis
  then show ?thesis using assms(3) by simp
qed

text \<open>
  No two accounts share key material. The derivation text of a spend key determines the chain of the table, the lane
  and the index, whatever characters the lane identifier has, and is never the text that derives a
  CREATE2 salt.
\<close>

lemma spend_info_separates:
  assumes "c \<in> set CHAINS" "d \<in> set CHAINS"
  shows "(spend_info (ch_key c) l i = spend_info (ch_key d) m j \<longleftrightarrow> c = d \<and> l = m \<and> i = j) \<and>
    spend_info (ch_key c) l i \<noteq> create2_info (ch_key d) m j"
proof
  show "spend_info (ch_key c) l i = spend_info (ch_key d) m j \<longleftrightarrow> c = d \<and> l = m \<and> i = j"
  proof
    assume "spend_info (ch_key c) l i = spend_info (ch_key d) m j"
    then have e: "ch_key c @ '':'' @ (l @ '':'' @ nat_string 10 i) = ch_key d @ '':'' @ (m @ '':'' @ nat_string 10 j)"
      by (simp add: spend_info_def)
    note k = first_colon [OF table_keys [OF assms(1)] table_keys [OF assms(2)] e]
    then show "c = d \<and> l = m \<and> i = j"
      using last_colon [of l i m j] table_key_inject [OF assms] by blast
  qed simp
qed (simp add: spend_info_def create2_info_def)

lemma spend_info_separates_witness:
  "spend_info ''BASE'' ''a'' 1 \<noteq> spend_info ''BASE'' ''a:1'' 1"
proof -
  obtain c where "chainByKey ''BASE'' = Some c"
    by (simp add: chainByKey_def CHAINS_def wire_def char_eval)
  then have c: "c \<in> set CHAINS" "ch_key c = ''BASE''"
    by (simp_all add: chainByKey_Some wire_def char_eval)
  show ?thesis using spend_info_separates [OF c(1) c(1), of "''a''" 1 "''a:1''" 1] c(2) by simp
qed

section \<open>Failing closed\<close>

lemma no_cosigner: "opt_prop (Some (config_json s)) ''cosigner'' = None"
  by (cases s) (auto simp: stealth_fields_def split: option.splits)

lemma valid_cosigner: "config_valid c config \<Longrightarrow> \<not> placeholder_json (opt_prop config ''cosigner'')"
  by (auto simp: config_valid_def Let_def split: if_splits)

lemma not_valid_base:
  assumes "base_config c = Inr config"
  shows "\<not> config_valid c config"
proof -
  have "opt_prop config ''cosigner'' = None"
    using assms no_cosigner by (auto simp: base_config_def then_do_Inr split: option.splits)
  then have "placeholder_json (opt_prop config ''cosigner'')"
    by (simp add: placeholder_json_def isPlaceholder_def js_truthy_def)
  then show ?thesis using valid_cosigner by blast
qed

lemma requireReady_Inr:
  "requireReady k o' = Inr (c, config) \<longleftrightarrow>
     chainByKey k = Some c \<and> \<not> nullish o' \<and> config = o' \<and> config_valid c o' \<and> (js_truthy o' \<or> stealthReady (Some c))"
  using not_valid_base [of c config]
  by (auto simp: requireReady_def then_do_Inr split: option.splits if_splits)

text \<open>
  The derivation fails closed. An account is derived only from a secret of at least 32 bytes, an index that is a
  number from 0 on, a known chain, and a configuration that was given and names every party of the chain
  without a placeholder: the parameters of the table alone never suffice. The account is of that chain, and
  carries a private key exactly when it was asked for.
\<close>

lemma derive_fails_closed:
  assumes "derive x net secret laneId index k withPrivate config = Inr a"
  shows "32 \<le> length secret \<and> (\<exists>n. index = Some (JNum n) \<and> 0 \<le> n) \<and> \<not> nullish config \<and>
    (\<exists>c. chainByKey k = Some c \<and> config_valid c config \<and> ac_chain a = ch_key c \<and> ac_kind a = ch_kind c) \<and>
    (ac_secret a = None \<longleftrightarrow> \<not> withPrivate)"
proof -
  obtain n where n: "32 \<le> length secret" "valid_index index = Some n"
    using assms by (auto simp: derive_def split: if_splits option.splits)
  then have i: "\<exists>n. index = Some (JNum n) \<and> 0 \<le> n"
    by (auto simp: valid_index_def split: option.splits json.splits if_splits)
  obtain c cfg where r: "requireReady k config = Inr (c, cfg)"
    using assms n by (auto simp: derive_def then_do_Inr)
  then have c: "chainByKey k = Some c" "\<not> nullish config" "cfg = config" "config_valid c config"
    by (simp_all add: requireReady_Inr)
  have "ac_chain a = ch_key c \<and> ac_kind a = ch_kind c \<and> (ac_secret a = None \<longleftrightarrow> \<not> withPrivate)"
    using assms n r
    by (auto simp: derive_def then_do_Inr Let_def derive_starknet_def derive_evm_def derive_solana_def split: if_splits)
  then show ?thesis using n i c by blast
qed

definition toy_curves :: curves where
  "toy_curves = \<lparr>x_sha = keccak256, x_hkdf = (\<lambda>s i n. replicate n 1), x_stark_order = 5, x_stark_key = (\<lambda>p. p),
     x_stark_address = (\<lambda>a b c. felt_text 7), x_wallet_address = (\<lambda>p. p), x_ed_public = (\<lambda>b. b),
     x_abi = \<lparr>encode = (\<lambda>a b c. Inr a), decode = (\<lambda>v. Inr (coerce v))\<rparr>\<rparr>"

definition toy_config :: json where
  "toy_config = JObj [(''classHash'', JStr ''0x12''), (''cosigner'', JStr ''0x34''), (''chainId'', JStr ''0x5''), (''usdc'', JStr ''0x6'')]"

lemma derive_fails_closed_witness:
  "\<exists>a. derive toy_curves (\<lambda>u m p. Fetch_failed []) (replicate 32 1) ''l'' (Some (JNum 0)) ''STARKNET'' True (Some toy_config) = Inr a \<and>
     ac_secret a \<noteq> None"
proof -
  obtain c where c: "chainByKey ''STARKNET'' = Some c" "ch_kind c = ''starknet''"
    by (simp add: chainByKey_def CHAINS_def wire_def char_eval)
  have "config_valid c (Some toy_config)"
    by (simp add: config_valid_def c toy_config_def js_truthy_def placeholder_json_def isPlaceholder_def
        SOLANA_PLACEHOLDER_KEEPER_def char_eval)
  then have r: "requireReady ''STARKNET'' (Some toy_config) = Inr (c, Some toy_config)"
    using c by (simp add: requireReady_Inr nullish_def toy_config_def js_truthy_def)
  have "\<exists>n. bytesToScalar (replicate 64 1) 5 = Inr n"
    using js_BigInt_hex_of_bytes [of "replicate 64 1"]
    by (simp add: bytesToScalar_def to_BigInt_def del: append_Cons append_Nil)
  then obtain n where n: "bytesToScalar (replicate 64 1) 5 = Inr n" ..
  have "\<exists>a. derive toy_curves (\<lambda>u m p. Fetch_failed []) (replicate 32 1) ''l'' (Some (JNum 0)) ''STARKNET'' True (Some toy_config) = Inr a"
    using n by (auto simp: derive_def valid_index_def r c derive_starknet_def toy_curves_def Let_def feltHex_def felt_text_BigInt)
  then obtain a where a: "derive toy_curves (\<lambda>u m p. Fetch_failed []) (replicate 32 1) ''l'' (Some (JNum 0)) ''STARKNET'' True (Some toy_config) = Inr a" ..
  show ?thesis using derive_fails_closed [OF a] a by blast
qed

end
