(* ===== verification/Stealth_Claim.thy ===== *)
theory Stealth_Claim
  imports Stealth_Core Scan Base64
begin

text \<open>
  \<open>scripts/stealth.claim.js\<close>: the signed payload that moves a private lane's balance, for each chain family. Hashing and
  signing of the third-party libraries are the fields of a record of parameters; \<open>now_ms\<close> is the clock and \<open>rand\<close> the
  random bytes of the nonce.
\<close>

section \<open>Parameters and results\<close>

record signers =
  g_typed_hash :: "json \<Rightarrow> json \<Rightarrow> string"
  g_evm_sign :: "string \<Rightarrow> string \<Rightarrow> string \<times> string \<times> int"
  g_selector :: "string \<Rightarrow> string"
  g_compile :: "string list \<Rightarrow> string list"
  g_invoke_hash :: "json \<Rightarrow> string list \<Rightarrow> string"
  g_stark_sign :: "string \<Rightarrow> string \<Rightarrow> int \<times> int"
  g_ed_sign :: "bytes \<Rightarrow> string \<Rightarrow> bytes"
  g_sha :: "bytes \<Rightarrow> bytes"

record built =
  b_txHash :: string
  b_derivedAddress :: string
  b_clientSig :: json
  b_calls :: json
  b_auth3009 :: "json option"
  b_starknet :: "json option"
  b_messageBytes :: "json option"

text \<open>A signer: the account with its secret part, and the configuration it was derived with.\<close>

record claim_input =
  i_signer :: account
  i_secret :: secret_part
  i_destination :: string
  i_balance :: int
  i_config :: "json option"

definition ZERO_EVM :: string where
  "ZERO_EVM = ''0x'' @ replicate 40 CHR ''0''"

section \<open>EVM: a transfer authorization\<close>

text \<open>\<open>config.maxAuthWindowSecs ?? 86400\<close>\<close>

definition auth_window :: "json option \<Rightarrow> json option" where
  "auth_window config =
     (let w = opt_prop config ''maxAuthWindowSecs'' in if nullish w then Some (JNum 86400) else w)"

definition safe_integer :: "int \<Rightarrow> bool" where
  "safe_integer n \<longleftrightarrow> \<bar>n\<bar> \<le> 2 ^ 53 - 1"

definition assertEvmClaim :: "claim_input \<Rightarrow> string result" where
  "assertEvmClaim i =
     (case canonicalAddress ''BASE'' (i_destination i) of
        None \<Rightarrow> Inl (Error ''Enter a valid, non-zero EVM destination.'')
      | Some to \<Rightarrow>
          let config = i_config i; t = \<lambda>v. js_truthy v in
          if to_lower to = ZERO_EVM then Inl (Error ''Enter a valid, non-zero EVM destination.'')
          else if to_lower to = to_lower (ac_address (i_signer i)) then Inl (Error ''The destination cannot be the stealth account.'')
          else if i_balance i \<le> 0 then Inl (Error ''Nothing to claim.'')
          else if \<not> t (opt_prop config ''usdc'') \<or> \<not> t (opt_prop config ''chainId'')
              \<or> \<not> t (opt_prop (opt_prop config ''eip712'') ''name'') \<or> \<not> t (opt_prop (opt_prop config ''eip712'') ''version'')
            then Inl (Error ''EVM USDC or EIP-712 domain configuration is incomplete.'')
          else (case js_Number (auth_window config) of
              None \<Rightarrow> Inl (Error ''The EVM authorization window is invalid.'')
            | Some w \<Rightarrow> if \<not> safe_integer w \<or> w \<le> 120 then Inl (Error ''The EVM authorization window is invalid.'') else Inr to))"

definition typed_value :: "string \<Rightarrow> string \<Rightarrow> int \<Rightarrow> int \<Rightarrow> string \<Rightarrow> json" where
  "typed_value from to value validBefore nonce = JObj [(''from'', JStr from), (''to'', JStr to),
     (''value'', JStr (int_string 10 value)), (''validAfter'', JStr ''0''),
     (''validBefore'', JStr (int_string 10 validBefore)), (''nonce'', JStr nonce)]"

definition auth_value :: "string \<Rightarrow> string option \<Rightarrow> string \<Rightarrow> int \<Rightarrow> int \<Rightarrow> string \<Rightarrow> json" where
  "auth_value client salt to value validBefore nonce = JObj [(''client'', JStr client), (''to'', JStr to),
     (''value'', JStr (int_string 10 value)), (''valid_after'', JStr ''0''),
     (''valid_before'', JStr (int_string 10 validBefore)), (''nonce'', JStr nonce), (''salt'', opt_string salt)]"

definition claim_domain :: "json option \<Rightarrow> json" where
  "claim_domain config = JObj [
     (''name'', the_json (opt_prop (opt_prop config ''eip712'') ''name'')),
     (''version'', the_json (opt_prop (opt_prop config ''eip712'') ''version'')),
     (''chainId'', json_num (js_Number (opt_prop config ''chainId''))),
     (''verifyingContract'', the_json (opt_prop config ''usdc''))]"

definition buildEvmClaim :: "signers \<Rightarrow> int \<Rightarrow> bytes \<Rightarrow> claim_input \<Rightarrow> built result" where
  "buildEvmClaim g now_ms rand i =
     then_do (assertEvmClaim i) (\<lambda>to.
       let now = now_ms div 1000; validBefore = now + 15 * 60 in
       then_do (if validBefore - now \<le> 120 then Inr True
                else then_do (BigInt_opt (auth_window (i_config i))) (\<lambda>w. Inr (validBefore - now > w))) (\<lambda>outside.
         if outside then Inl (Error ''The EVM authorization expiry is outside the permitted window.'')
         else
           let nonce = ''0x'' @ hex_of_bytes rand;
               from = ac_address (i_signer i); bal = i_balance i;
               txHash = g_typed_hash g (claim_domain (i_config i)) (typed_value from to bal validBefore nonce);
               (r, s, v) = g_evm_sign g (sp_privateKey (i_secret i)) txHash in
           Inr \<lparr>b_txHash = txHash, b_derivedAddress = from,
                b_clientSig = JObj [(''r1'', JStr r), (''s1'', JStr s), (''v'', JNum v)],
                b_calls = JArr [],
                b_auth3009 = Some (auth_value (sp_clientAddress (i_secret i)) (sp_salt (i_secret i)) to bal validBefore nonce),
                b_starknet = None, b_messageBytes = None\<rparr>))"

section \<open>Starknet: an invoke transaction\<close>

definition felt_of :: "int \<Rightarrow> string result" where
  "felt_of n = (if n < 0 \<or> STARK_PRIME \<le> n then Inl (Error ''Starknet value is outside the felt range.'')
     else Inr (''0x'' @ int_string 16 n))"

definition felt_text_of :: "string \<Rightarrow> string result" where
  "felt_text_of s = then_do (to_BigInt s) felt_of"

fun bounds_total :: "json option \<Rightarrow> int \<Rightarrow> string list \<Rightarrow> int result" where
  "bounds_total bounds maximum [] = Inr maximum"
| "bounds_total bounds maximum (name # names) =
     then_do (BigInt_opt (opt_prop (opt_prop bounds name) ''max_amount'')) (\<lambda>amount.
     then_do (BigInt_opt (opt_prop (opt_prop bounds name) ''max_price_per_unit'')) (\<lambda>price.
       if amount \<le> 0 \<or> price \<le> 0 then Inl (Error (''Starknet '' @ name @ '' bounds must be positive.''))
       else bounds_total bounds (maximum + amount * price) names))"

definition checkedStarknetBounds :: "json option \<Rightarrow> json option result" where
  "checkedStarknetBounds config =
     (let bounds = opt_prop config ''resourceBounds'' in
      if \<not> js_truthy bounds \<or> list_ex (\<lambda>name. \<not> js_truthy (opt_prop bounds name)) BOUND_KEYS
      then Inl (Error ''Starknet resource bounds are missing.'')
      else then_do (bounds_total bounds 0 BOUND_KEYS) (\<lambda>maximum.
           then_do (BigInt_opt (opt_prop config ''maxFeeFri'')) (\<lambda>cap.
             if cap < maximum then Inl (Error ''Starknet resource bounds exceed the 0.2 STRK fee cap.'') else Inr bounds)))"

definition starknet_tx :: "string \<Rightarrow> json option \<Rightarrow> int \<Rightarrow> json option \<Rightarrow> json" where
  "starknet_tx sender chainId nonce bounds = JObj [(''senderAddress'', JStr sender), (''version'', JStr ''0x3''),
     (''chainId'', the_json chainId), (''nonce'', JStr (int_string 10 nonce)), (''tip'', JStr ''0''),
     (''paymasterData'', JArr []), (''accountDeploymentData'', JArr []), (''nonceDataAvailabilityMode'', JNum 0),
     (''feeDataAvailabilityMode'', JNum 0), (''resourceBounds'', the_json bounds)]"

definition starknet_part :: "claim_input \<Rightarrow> int \<Rightarrow> json option \<Rightarrow> json" where
  "starknet_part i nonce bounds = JObj [(''client_pubkey'', JStr (ac_publicKey (i_signer i))),
     (''deploy_salt'', opt_string (sp_salt (i_secret i))), (''nonce'', JStr (int_string 10 nonce)), (''tip'', JStr ''0''),
     (''l1_gas'', the_json (opt_prop bounds ''l1_gas'')), (''l2_gas'', the_json (opt_prop bounds ''l2_gas'')),
     (''l1_data_gas'', the_json (opt_prop bounds ''l1_data_gas''))]"

definition starknet_calldata :: "signers \<Rightarrow> json option \<Rightarrow> string list \<Rightarrow> string list result" where
  "starknet_calldata g config transferData =
     then_do (felt_of 1) (\<lambda>one.
     then_do (then_do (BigInt_opt (opt_prop config ''usdc'')) felt_of) (\<lambda>token.
     then_do (felt_text_of (g_selector g ''transfer'')) (\<lambda>selector.
     then_do (felt_of (int (length transferData))) (\<lambda>len.
       Inr ([one, token, selector, len] @ transferData)))))"

definition starknet_transfer :: "string \<Rightarrow> int \<Rightarrow> string list result" where
  "starknet_transfer to balance =
     then_do (felt_of (balance AND (push_bit 128 1 - 1))) (\<lambda>amountLow.
     then_do (felt_of (drop_bit 128 balance)) (\<lambda>amountHigh.
       Inr [to, amountLow, amountHigh]))"

definition starknet_ready :: "claim_input \<Rightarrow> string \<Rightarrow> json option result" where
  "starknet_ready i to =
     (let config = i_config i in
      if i_balance i \<le> 0 then Inl (Error ''Nothing to claim.'')
      else if \<not> list_all (\<lambda>k. js_truthy (opt_prop config k)) [''usdc'', ''classHash'', ''cosigner'', ''chainId'']
      then Inl (Error ''Starknet account configuration is incomplete.'')
      else then_do (checkedStarknetBounds config) (\<lambda>bounds.
        if ac_address (i_signer i) = to then Inl (Error ''The destination cannot be the stealth account.'') else Inr bounds))"

definition buildStarknetClaim :: "signers \<Rightarrow> net \<Rightarrow> claim_input \<Rightarrow> built result" where
  "buildStarknetClaim g net i =
     (case canonicalAddress ''STARKNET'' (i_destination i) of
        None \<Rightarrow> Inl (Error ''Enter a valid Starknet destination address.'')
      | Some to \<Rightarrow>
          then_do (starknet_ready i to) (\<lambda>bounds.
          then_do (starknetAccountNonce net ''STARKNET'' (ac_address (i_signer i))) (\<lambda>nonce.
          then_do (starknet_transfer to (i_balance i)) (\<lambda>transferData.
          then_do (starknet_calldata g (i_config i) transferData) (\<lambda>calldata.
            let txHash = g_invoke_hash g (starknet_tx (ac_address (i_signer i)) (opt_prop (i_config i) ''chainId'') nonce bounds)
                  (g_compile g calldata);
                (r, s) = g_stark_sign g txHash (sp_privateKey (i_secret i)) in
            then_do (felt_of r) (\<lambda>r1. then_do (felt_of s) (\<lambda>s1. then_do (felt_text_of txHash) (\<lambda>h.
              Inr \<lparr>b_txHash = h, b_derivedAddress = ac_address (i_signer i),
                   b_clientSig = JObj [(''r1'', JStr r1), (''s1'', JStr s1)],
                   b_calls = JArr [JObj [(''contract_address'', the_json (opt_prop (i_config i) ''usdc'')),
                     (''entrypoint'', JStr ''transfer''), (''calldata'', JArr (map JStr transferData))]],
                   b_auth3009 = None, b_starknet = Some (starknet_part i nonce bounds), b_messageBytes = None\<rparr>))))))))"

section \<open>Solana: a message for the relayer\<close>

definition solana_checks :: "claim_input \<Rightarrow> string \<Rightarrow> unit result" where
  "solana_checks i dest =
     (if dest = ac_address (i_signer i) then Inl (Error ''The destination cannot be the private-lane account.'')
      else if i_balance i \<le> 0 then Inl (Error ''Nothing to claim.'')
      else if push_bit 64 1 \<le> i_balance i then Inl (Error ''The Solana token amount exceeds the SPL u64 limit.'')
      else if \<not> list_all (\<lambda>k. js_truthy (opt_prop (i_config i) k)) [''cosigner'', ''relayer'', ''usdc'']
      then Inl (Error ''Solana stealth configuration is incomplete.'')
      else Inr ())"

definition recent_blockhash :: "net \<Rightarrow> string result" where
  "recent_blockhash net =
     then_do (rpc net ''SOLANA'' ''getLatestBlockhash'' [JObj [(''commitment'', JStr ''confirmed'')]] Default) (\<lambda>latest.
       let h = opt_prop (opt_prop latest ''value'') ''blockhash'' in
       if \<not> js_truthy h then Inl (Error ''Solana did not return a recent blockhash.'') else Inr (coerce h))"

definition solana_args :: "claim_input \<Rightarrow> string \<Rightarrow> string \<Rightarrow> string \<Rightarrow> claim_args" where
  "solana_args i source destination blockhash = \<lparr>
     c_relayer = cfg_text (i_config i) ''relayer'', c_client = sp_clientAddress (i_secret i),
     c_cosigner = cfg_text (i_config i) ''cosigner'', c_source = source, c_destination = destination,
     c_mint = cfg_text (i_config i) ''usdc'', c_amount = i_balance i, c_blockhash = blockhash,
     c_authority = ac_address (i_signer i)\<rparr>"

definition solana_accounts :: "signers \<Rightarrow> net \<Rightarrow> claim_input \<Rightarrow> string \<Rightarrow> (string \<times> string) result" where
  "solana_accounts g net i dest =
     then_do (usdcAta (g_sha g) (ac_address (i_signer i)) (cfg_text (i_config i) ''usdc'')) (\<lambda>source.
     then_do (usdcAta (g_sha g) dest (cfg_text (i_config i) ''usdc'')) (\<lambda>destination.
     then_do (contractExists net ''SOLANA'' source) (\<lambda>s.
       if \<not> s then Inl (Error (''The private lane'' @ [CHR 0x27] @ ''s USDC token account is not initialized yet.''))
       else then_do (contractExists net ''SOLANA'' destination) (\<lambda>d.
         if \<not> d then Inl (Error ''The destination has no USDC token account. Create it before claiming.'')
         else Inr (source, destination)))))"

definition solana_built :: "signers \<Rightarrow> claim_input \<Rightarrow> bytes \<Rightarrow> built" where
  "solana_built g i messageBytes =
     \<lparr>b_txHash = ''0x'' @ hex_of_bytes (g_sha g messageBytes), b_derivedAddress = sp_clientAddress (i_secret i),
      b_clientSig = JObj [(''sig_hex'', JStr (hex_of_bytes (g_ed_sign g messageBytes (sp_privateKey (i_secret i)))))],
      b_calls = JArr [], b_auth3009 = None, b_starknet = None,
      b_messageBytes = Some (JStr (''0x'' @ hex_of_bytes messageBytes))\<rparr>"

definition buildSolanaClaim :: "signers \<Rightarrow> net \<Rightarrow> claim_input \<Rightarrow> built result" where
  "buildSolanaClaim g net i =
     (case canonicalAddress ''SOLANA'' (i_destination i) of
        None \<Rightarrow> Inl (Error ''Enter a valid Solana destination address.'')
      | Some dest \<Rightarrow>
          then_do (solana_checks i dest) (\<lambda>u.
          then_do (solana_accounts g net i dest) (\<lambda>(source, destination).
          then_do (recent_blockhash net) (\<lambda>blockhash.
          then_do (buildSolanaMessage (solana_args i source destination blockhash)) (\<lambda>messageBytes.
            if 1232 < length messageBytes then Inl (Error ''The Solana claim message exceeds the transaction size limit.'')
            else Inr (solana_built g i messageBytes))))))"

text \<open>\<open>CLAIM_BUILDERS[kind]\<close>\<close>

definition claim_builder :: "string \<Rightarrow> (signers \<Rightarrow> net \<Rightarrow> int \<Rightarrow> bytes \<Rightarrow> claim_input \<Rightarrow> built result) option" where
  "claim_builder kind =
     (if kind = ''evm'' then Some (\<lambda>g net now_ms rand i. buildEvmClaim g now_ms rand i)
      else if kind = ''starknet'' then Some (\<lambda>g net now_ms rand i. buildStarknetClaim g net i)
      else if kind = ''solana'' then Some (\<lambda>g net now_ms rand i. buildSolanaClaim g net i)
      else None)"

section \<open>What is signed is what is relayed\<close>


section \<open>The Solana claim\<close>

lemma claim_message_read:
  assumes "key_bytes ''account'' (claim_keys a) = Inr keys" "length hash = 32"
  shows "decode_message (ser_message (claim_message keys hash v)) = Some (claim_message keys hash v)"
    and "length (ser_message (claim_message keys hash v)) = 312"
proof -
  have wf: "wf_message (claim_message keys hash v)" "length keys = 8"
    using assms key_bytes_length [of _ "claim_keys a" keys] by (auto simp: wf_message_def claim_message_def claim_keys_def)
  show "decode_message (ser_message (claim_message keys hash v)) = Some (claim_message keys hash v)"
    by (rule decode_ser_message [OF wf(1)])
  show "length (ser_message (claim_message keys hash v)) = 312"
    using wf by (subst ser_message_length) (auto simp: claim_message_def ser_instr_def ser_vec_def leb_small)
qed

lemma solana_checks_Inr: "solana_checks i dest = Inr u \<longleftrightarrow> dest \<noteq> ac_address (i_signer i) \<and> 0 < i_balance i \<and>
    i_balance i < 2 ^ 64 \<and> list_all (\<lambda>k. js_truthy (opt_prop (i_config i) k)) [''cosigner'', ''relayer'', ''usdc'']"
  by (auto simp: solana_checks_def push_bit_eq_mult)

lemma solana_accounts_Inr: "solana_accounts g net i dest = Inr (source, destination) \<longleftrightarrow>
    usdcAta (g_sha g) (ac_address (i_signer i)) (cfg_text (i_config i) ''usdc'') = Inr source \<and>
    usdcAta (g_sha g) dest (cfg_text (i_config i) ''usdc'') = Inr destination \<and>
    contractExists net ''SOLANA'' source = Inr True \<and> contractExists net ''SOLANA'' destination = Inr True"
  by (auto simp: solana_accounts_def then_do_Inr split: if_splits)

lemma buildSolanaMessage_read:
  "(buildSolanaMessage a = Inr bs \<and> decode_message bs = Some msg) \<longleftrightarrow>
    (\<exists>keys hash. key_bytes ''account'' (claim_keys a) = Inr keys \<and> distinct (claim_keys a) \<and>
       length hash = 32 \<and> c_blockhash a = base58Encode hash \<and> 0 \<le> c_amount a \<and> c_amount a < 2 ^ 64 \<and>
       msg = claim_message keys hash (c_amount a) \<and> bs = ser_message msg)"
  unfolding buildSolanaMessage_Inr pubkeyBytes_Inr using claim_message_read(1) by (safe; fastforce)

lemma buildSolanaMessage_short: "buildSolanaMessage a = Inr bs \<Longrightarrow> length bs = 312"
  unfolding buildSolanaMessage_Inr pubkeyBytes_Inr using claim_message_read(2) by auto

lemma buildSolanaClaim_Inr: "buildSolanaClaim g net i = Inr b \<longleftrightarrow>
    (\<exists>dest source destination h bs. canonicalAddress ''SOLANA'' (i_destination i) = Some dest \<and>
       solana_checks i dest = Inr () \<and> solana_accounts g net i dest = Inr (source, destination) \<and>
       recent_blockhash net = Inr h \<and> buildSolanaMessage (solana_args i source destination h) = Inr bs \<and>
       b = solana_built g i bs)"
proof -
  have m: "then_do (buildSolanaMessage a) (\<lambda>bs. if 1232 < length bs then Inl e else Inr (f bs)) =
      then_do (buildSolanaMessage a) (\<lambda>bs. Inr (f bs))" for a e and f :: "bytes \<Rightarrow> built"
    by (cases "buildSolanaMessage a") (simp_all add: buildSolanaMessage_short)
  show ?thesis
    by (cases "canonicalAddress ''SOLANA'' (i_destination i)") (auto simp: buildSolanaClaim_def m then_do_Inr)
qed

lemma solana_built_fields:
  "b_messageBytes (solana_built g i bs') = Some (JStr (''0x'' @ hex_of_bytes bs)) \<longleftrightarrow> bs = bs'"
  "b_txHash (solana_built g i bs) = ''0x'' @ hex_of_bytes (g_sha g bs)"
  using hex_of_bytes_inject by (auto simp: solana_built_def)

text \<open>
  C25: a Solana claim is built exactly when it can move the money, and its message says so. For a destination other than
  the account, a positive balance that fits u64 and a complete configuration, when the token accounts of
  the lane and of the destination exist and the node gives a block hash: the message reads back as one
  transfer of the whole balance from the lane's token account to the destination's, by the lane's account, with the
  relayer, the client and the cosigner as its signers, all eight keys different. The size limit is never reached.
\<close>

theorem solana_claim_exact:
  "(\<exists>b bs. buildSolanaClaim g net i = Inr b \<and> b_messageBytes b = Some (JStr (''0x'' @ hex_of_bytes bs)) \<and>
      b_txHash b = ''0x'' @ hex_of_bytes (g_sha g bs) \<and> decode_message bs = Some msg) \<longleftrightarrow>
   (\<exists>dest source destination keys hash. canonicalAddress ''SOLANA'' (i_destination i) = Some dest \<and>
      dest \<noteq> ac_address (i_signer i) \<and> 0 < i_balance i \<and> i_balance i < 2 ^ 64 \<and>
      list_all (\<lambda>k. js_truthy (opt_prop (i_config i) k)) [''cosigner'', ''relayer'', ''usdc''] \<and>
      usdcAta (g_sha g) (ac_address (i_signer i)) (cfg_text (i_config i) ''usdc'') = Inr source \<and>
      usdcAta (g_sha g) dest (cfg_text (i_config i) ''usdc'') = Inr destination \<and>
      contractExists net ''SOLANA'' source = Inr True \<and> contractExists net ''SOLANA'' destination = Inr True \<and>
      recent_blockhash net = Inr (base58Encode hash) \<and> length hash = 32 \<and>
      list_all2 (\<lambda>k b. length b = 32 \<and> k = base58Encode b)
        [cfg_text (i_config i) ''relayer'', sp_clientAddress (i_secret i), cfg_text (i_config i) ''cosigner'', source,
         destination, cfg_text (i_config i) ''usdc'', TOKEN_PROGRAM, ac_address (i_signer i)] keys \<and> distinct keys \<and>
      msg = claim_message keys hash (i_balance i))"
  (is "?L \<longleftrightarrow> ?R")
proof -
  let ?ks = "\<lambda>source destination. [cfg_text (i_config i) ''relayer'', sp_clientAddress (i_secret i),
    cfg_text (i_config i) ''cosigner'', source, destination, cfg_text (i_config i) ''usdc'', TOKEN_PROGRAM, ac_address (i_signer i)]"
  have keys: "claim_keys (solana_args i s d h) = ?ks s d" for s d h
    by (simp add: claim_keys_def solana_args_def)
  have distinct: "list_all2 (\<lambda>k b. length b = 32 \<and> k = base58Encode b) (?ks s d) keys \<Longrightarrow> distinct (?ks s d) \<longleftrightarrow> distinct keys" for s d keys
    using key_bytes_distinct [of "''account''" "?ks s d" keys] unfolding key_bytes_Inr .
  have args: "c_blockhash (solana_args i s d h) = h" "c_amount (solana_args i s d h) = i_balance i" for s d h
    by (simp_all add: solana_args_def)
  have "?L \<longleftrightarrow> (\<exists>dest source destination h bs. canonicalAddress ''SOLANA'' (i_destination i) = Some dest \<and>
      solana_checks i dest = Inr () \<and> solana_accounts g net i dest = Inr (source, destination) \<and>
      recent_blockhash net = Inr h \<and>
      buildSolanaMessage (solana_args i source destination h) = Inr bs \<and> decode_message bs = Some msg)"
    unfolding buildSolanaClaim_Inr using solana_built_fields by metis
  also have "\<dots> \<longleftrightarrow> ?R"
    unfolding solana_checks_Inr solana_accounts_Inr buildSolanaMessage_read keys args key_bytes_Inr
    using distinct by (safe; fastforce)
  finally show ?thesis .
qed

section \<open>Starknet amounts and fees\<close>

lemma felt_of_Inr: "felt_of n = Inr s \<longleftrightarrow> 0 \<le> n \<and> n < STARK_PRIME \<and> s = ''0x'' @ int_string 16 n"
  by (auto simp: felt_of_def)

lemma felt_of_value: "felt_of n = Inr s \<Longrightarrow> to_BigInt s = Inr n"
proof -
  assume "felt_of n = Inr s"
  then have n: "0 \<le> n" "s = ''0x'' @ int_string 16 n" by (simp_all add: felt_of_Inr)
  then have "s = ''0x'' @ nat_string 16 (nat n)" by (simp add: int_string_def)
  then show ?thesis using n(1) by (simp add: to_BigInt_def del: append_Cons append_Nil)
qed

lemma split_128: "(n :: int) AND (push_bit 128 1 - 1) = n mod 2 ^ 128" "drop_bit 128 n = n div 2 ^ 128"
proof -
  have "n AND (push_bit 128 1 - 1) = take_bit 128 n"
    by (simp only: take_bit_eq_mask mask_eq_exp_minus_1 push_bit_of_1)
  then show "n AND (push_bit 128 1 - 1) = n mod 2 ^ 128" by (simp only: take_bit_eq_mod)
qed (simp add: drop_bit_eq_div)

definition bound_cost :: "json option \<Rightarrow> string \<Rightarrow> int result" where
  "bound_cost bounds name =
     then_do (BigInt_opt (opt_prop (opt_prop bounds name) ''max_amount'')) (\<lambda>amount.
     then_do (BigInt_opt (opt_prop (opt_prop bounds name) ''max_price_per_unit'')) (\<lambda>price. Inr (amount * price)))"

lemma bounds_total_sum:
  "bounds_total bounds m names = Inr t \<Longrightarrow>
     \<exists>cs. list_all2 (\<lambda>k c. bound_cost bounds k = Inr c \<and> 0 < c) names cs \<and> t = m + sum_list cs"
proof (induction names arbitrary: m)
  case (Cons k ks)
  then obtain a p where ap: "BigInt_opt (opt_prop (opt_prop bounds k) ''max_amount'') = Inr a"
      "BigInt_opt (opt_prop (opt_prop bounds k) ''max_price_per_unit'') = Inr p" "0 < a" "0 < p"
      "bounds_total bounds (m + a * p) ks = Inr t"
    by (auto simp: then_do_Inr split: if_splits)
  then obtain cs where "list_all2 (\<lambda>k c. bound_cost bounds k = Inr c \<and> 0 < c) ks cs" "t = m + a * p + sum_list cs"
    using Cons.IH by blast
  then show ?case using ap by (intro exI [of _ "a * p # cs"]) (simp add: bound_cost_def)
qed simp


section \<open>Witnesses\<close>

definition toy_signers :: signers where
  "toy_signers = \<lparr>g_typed_hash = (\<lambda>d v. ''0x07''), g_evm_sign = (\<lambda>k h. (''r'', ''s'', 27)), g_selector = (\<lambda>n. felt_text 5),
     g_compile = (\<lambda>xs. xs), g_invoke_hash = (\<lambda>t xs. felt_text 9), g_stark_sign = (\<lambda>h k. (3, 4)), g_ed_sign = (\<lambda>m k. m), g_sha = keccak256\<rparr>"

definition toy_input :: "string \<Rightarrow> string \<Rightarrow> json \<Rightarrow> claim_input" where
  "toy_input address dest config = \<lparr>i_signer = \<lparr>ac_chain = [], ac_kind = [], ac_address = address, ac_publicKey = [], ac_secret = None\<rparr>,
     i_secret = \<lparr>sp_privateKey = ''0x1'', sp_clientAddress = ''0x2'', sp_salt = Some ''0x3''\<rparr>, i_destination = dest,
     i_balance = 5, i_config = Some config\<rparr>"

definition toy_evm_config :: json where
  "toy_evm_config = JObj [(''usdc'', JStr ''0x6''), (''chainId'', JNum 8453),
     (''eip712'', JObj [(''name'', JStr ''U''), (''version'', JStr ''2'')])]"


definition toy_stark_config :: json where
  "toy_stark_config = JObj [(''usdc'', JNum 6), (''chainId'', JStr ''0x5''), (''classHash'', JStr ''0x7''), (''cosigner'', JStr ''0x8''),
     (''maxFeeFri'', JNum 100), (''resourceBounds'', JObj (map (\<lambda>k. (k, JObj [(''max_amount'', JNum 2), (''max_price_per_unit'', JNum 3)]))
       BOUND_KEYS))]"

definition nonce_net :: net where
  "nonce_net url method params = Response 200 (Some (JObj [(''result'', JNum 4)]))"

lemma toy_bounds: "\<exists>bs. checkedStarknetBounds (Some toy_stark_config) = Inr bs"
  by (simp add: checkedStarknetBounds_def toy_stark_config_def BOUND_KEYS_def js_truthy_def opt_prop_def BigInt_opt_def BigInt_json_def)


end
