(* ===== verification/Lane.thy ===== *)
theory Lane
  imports Stealth_Core Discovery Passkey Scan
begin

text \<open>
  \<open>scripts/lane.js\<close>: creating a lane and verifying one that came from a backup. The network is asked anew at every
  step, so each step has its own snapshot; the parallel requests of one step share a snapshot and are made in order.
  Messages of progress have no effect on the result and are left out.
\<close>

section \<open>The outside of a lane\<close>

text \<open>
  \<open>s_search\<close> is what happens during a search for a Solana receiver: the time it starts, and for each round the network and
  the time the round starts. The rounds after the list start after any deadline.
\<close>

record 'w site =
  s_env :: "'w env"
  s_curves :: curves
  s_net :: "('w, net) query"
  s_search :: "('w, int \<times> (net \<times> int) list) query"

definition sha_of :: "'w site \<Rightarrow> bytes \<Rightarrow> bytes" where
  "sha_of site = x_sha (s_curves site)"

definition get_net :: "'w site \<Rightarrow> ('w, net) act" where
  "get_net site = ask (s_net site)"

section \<open>Settings of a private lane\<close>

definition sameIdentity :: "chain \<Rightarrow> json option \<Rightarrow> string option \<Rightarrow> bool" where
  "sameIdentity c a b =
     (if \<not> js_truthy a \<or> \<not> truthy b then False
      else if ch_kind c = ''evm'' \<or> ch_kind c = ''starknet'' then to_lower (template a) = to_lower (the b)
      else a = Some (JStr (the b)))"

text \<open>The own properties of a value that is spread, and \<open>{ ...a, ...b }\<close>.\<close>

definition own_entries :: "json option \<Rightarrow> (string \<times> json) list" where
  "own_entries v = (case v of
      Some (JObj kvs) \<Rightarrow> kvs
    | Some (JArr xs) \<Rightarrow> zip (map (nat_string 10) [0..<length xs]) xs
    | Some (JStr s) \<Rightarrow> zip (map (nat_string 10) [0..<length s]) (map (\<lambda>c. JStr [c]) s)
    | _ \<Rightarrow> [])"

definition spread_fields :: "(string \<times> json) list \<Rightarrow> (string \<times> json) list \<Rightarrow> (string \<times> json) list" where
  "spread_fields a b = map (\<lambda>(k, v). (k, case map_of b k of None \<Rightarrow> v | Some u \<Rightarrow> u)) a
     @ filter (\<lambda>(k, v). map_of a k = None) b"

definition pinned_keys :: "chain \<Rightarrow> string list" where
  "pinned_keys c = ''cosigner'' # (if ch_kind c = ''evm'' then [''factory''] else [])
     @ (if ch_kind c = ''solana'' then [''relayer''] else [])"

text \<open>\<open>xs.find((item) => String(item.chain).toUpperCase() === chain.key)\<close>\<close>

fun find_published :: "string \<Rightarrow> json list \<Rightarrow> json option result" where
  "find_published key [] = Inr None"
| "find_published key (item # items) =
     then_do (get_prop (Some item) ''chain'') (\<lambda>k.
       if to_upper (template k) = key then Inr (Some item) else find_published key items)"

definition published_for :: "chain \<Rightarrow> json option \<Rightarrow> json option result" where
  "published_for c response =
     (let cs = opt_prop response ''cosigners'' in
      if nullish cs then Inr None
      else (case as_array cs of None \<Rightarrow> Inl TypeError | Some items \<Rightarrow> find_published (ch_key c) items))"

text \<open>The settings the server publishes, in canonical form, by key.\<close>

definition live_setting :: "chain \<Rightarrow> json option \<Rightarrow> string \<Rightarrow> string option" where
  "live_setting c published k =
     (if k = ''cosigner'' then
        (if ch_kind c = ''starknet'' then canonicalEvm (coerce (opt_prop published k))
         else canonicalAddress (ch_key c) (coerce (opt_prop published k)))
      else if k = ''factory'' then canonicalAddress (ch_key c) (coerce (opt_prop published k))
      else canonicalAddress ''SOLANA'' (coerce (opt_prop published k)))"

definition settings_from :: "chain \<Rightarrow> json option \<Rightarrow> json option \<Rightarrow> json \<Rightarrow> json option result" where
  "settings_from c snapshot base response =
     then_do (published_for c (Some response)) (\<lambda>published.
       if \<not> js_truthy published then Inl (LaneError (''The API did not publish a cosigner for '' @ ch_name c @ ''.''))
       else let live = live_setting c published in
         if list_ex (\<lambda>k. \<not> truthy (live k)) (pinned_keys c)
         then Inl (LaneError (''The API returned incomplete stealth settings for '' @ ch_name c @ ''.''))
         else if js_truthy snapshot then
           (case find (\<lambda>k. \<not> sameIdentity c (opt_prop snapshot k) (live k)) (pinned_keys c) of
              Some k \<Rightarrow> Inl (LaneError (''The '' @ ch_name c @ '' '' @ k
                @ '' returned by the API differs from the value used to derive this lane.''))
            | None \<Rightarrow> Inr (Some (JObj (spread_fields (own_entries base) (own_entries snapshot)))))
         else Inr (Some (JObj (spread_fields (own_entries base) (map (\<lambda>k. (k, opt_string (live k))) (pinned_keys c))))))"

definition resolveStealthConfig :: "'w site \<Rightarrow> chain option \<Rightarrow> json option \<Rightarrow> ('w, json option) act" where
  "resolveStealthConfig site oc snapshot =
     (case oc of
        None \<Rightarrow> throw (LaneError ''Private lanes are not enabled on this chain.'')
      | Some c \<Rightarrow>
          if \<not> stealthReady (Some c) then throw (LaneError (''Private lanes are not enabled on '' @ ch_name c @ ''.''))
          else seq (of_result (base_config c)) (\<lambda>base.
               seq (getStealthCosigners (e_fetch (s_env site))) (\<lambda>response.
                 of_result (settings_from c snapshot base response))))"

section \<open>Receivers\<close>

record lane_receiver =
  lr_chain :: string
  lr_address :: string
  lr_merchant :: string
  lr_start :: "json option"

text \<open>\<open>e?.message || e\<close> in a template\<close>

definition error_text :: "js_error \<Rightarrow> string" where
  "error_text e = (if message e = [] then ''Error'' else message e)"

definition zero_address :: "string \<Rightarrow> bool" where
  "zero_address a \<longleftrightarrow> take 2 a = ''0x'' \<and> drop 2 a \<noteq> [] \<and> list_all (\<lambda>c. c = CHR ''0'') (drop 2 a)"

definition compute_leg :: "(bytes \<Rightarrow> bytes) \<Rightarrow> net \<Rightarrow> string \<Rightarrow> string \<Rightarrow> string \<Rightarrow> chain \<Rightarrow> lane_receiver result" where
  "compute_leg sha net target recipient identity leg =
     then_do (cctpRoute sha (ch_key leg) target recipient) (\<lambda>route.
     then_do (if ch_key leg = target then Inr recipient else merchantIdentity sha (ch_key leg) identity) (\<lambda>merchant.
       case predictReceiver net (ch_key leg) merchant route of
         Inl e \<Rightarrow> Inl (LaneError (''Could not compute the '' @ ch_name leg @ '' receiver: '' @ error_text e))
       | Inr predicted \<Rightarrow>
           (case canonicalAddress (ch_key leg) (coerce (Some predicted)) of
              None \<Rightarrow> Inl (LaneError (''The '' @ ch_name leg @ '' factory returned an invalid receiver address.''))
            | Some address \<Rightarrow>
                if zero_address address
                then Inl (LaneError (''The '' @ ch_name leg @ '' factory returned an invalid receiver address.''))
                else Inr \<lparr>lr_chain = ch_key leg, lr_address = address, lr_merchant = merchant, lr_start = None\<rparr>)))"

definition computeReceivers :: "(bytes \<Rightarrow> bytes) \<Rightarrow> net \<Rightarrow> string \<Rightarrow> string \<Rightarrow> string \<Rightarrow> lane_receiver list result" where
  "computeReceivers sha net target recipient identity =
     (if \<not> (case chainByKey target of None \<Rightarrow> False | Some c \<Rightarrow> canSettle c)
      then Inl (LaneError ((case chainByKey target of None \<Rightarrow> target | Some c \<Rightarrow> ch_name c)
        @ '' is not available as a settlement chain yet.''))
      else traverse (compute_leg sha net target recipient identity) laneChains)"

definition solanaLeg :: "(bytes \<Rightarrow> bytes) \<Rightarrow> string \<Rightarrow> string \<Rightarrow> string \<Rightarrow> (string \<times> route) result" where
  "solanaLeg sha target recipient identity =
     then_do (if target = ''SOLANA'' then Inr recipient else merchantIdentity sha ''SOLANA'' identity) (\<lambda>merchant.
     then_do (cctpRoute sha ''SOLANA'' target recipient) (\<lambda>route. Inr (merchant, route)))"

text \<open>\<open>h == null ? null : Math.max(0, h - 10)\<close>, of a height that may be NaN\<close>

definition rewind :: "int option option \<Rightarrow> json" where
  "rewind h = (case h of None \<Rightarrow> JNull | Some n \<Rightarrow> json_num (map_option (\<lambda>i. max 0 (i - 10)) n))"

definition snapshotStartBlocks :: "net \<Rightarrow> lane_receiver list \<Rightarrow> lane_receiver list" where
  "snapshotStartBlocks net rs = map (\<lambda>r. r\<lparr>lr_start := Some (rewind (ok_part (headBlock net (lr_chain r))))\<rparr>) rs"

definition receiver_json :: "lane_receiver \<Rightarrow> json" where
  "receiver_json r = JObj ([(''chain'', JStr (lr_chain r)), (''address'', JStr (lr_address r)), (''merchant'', JStr (lr_merchant r))]
     @ opt_field ''startBlock'' (lr_start r))"

section \<open>Creating a lane\<close>

record lane_form =
  lf_wallet :: string
  lf_target :: string
  lf_webhook :: "string option"
  lf_privacy :: bool

definition newLaneId :: "'w site \<Rightarrow> string \<Rightarrow> ('w, string) act" where
  "newLaneId site seed =
     seq (ask (e_random (s_env site) 16)) (\<lambda>rand.
     seq (ask (e_now (s_env site))) (\<lambda>now.
       ret (generateLaneId (sha_of site) seed rand (nat now))))"

text \<open>Who is paid: the lane's identifier, the payout account, and what a private lane also keeps.\<close>

record payout =
  po_laneId :: string
  po_recipient :: string
  po_merchant :: "string option"
  po_token :: "json option"
  po_prf :: "json option"
  po_config :: "json option"

definition private_payout :: "'w site \<Rightarrow> chain \<Rightarrow> lane_form \<Rightarrow> string \<Rightarrow> ('w, payout) act" where
  "private_payout site c form target =
     (if \<not> stealthReady (Some c) then throw (LaneError (''Private lanes are not enabled on '' @ ch_name c @ '' yet.''))
      else seq (resolveStealthConfig site (Some c) None) (\<lambda>config.
           seq (newLaneId site (lf_wallet form)) (\<lambda>laneId.
           seq (getVerifiedTokenWithPrf (s_env site) (''create-lane:'' @ laneId) (laneSalt (sha_of site) laneId) 1) (\<lambda>r.
           seq (get_net site) (\<lambda>net.
           seq (of_result (deriveStealthAddress (s_curves site) net (la_prf r) laneId (Some (JNum 0)) target config)) (\<lambda>account.
             ret \<lparr>po_laneId = laneId, po_recipient = ac_address account, po_merchant = None, po_token = la_token r,
                  po_prf = la_credential r, po_config = config\<rparr>))))))"

definition public_payout :: "'w site \<Rightarrow> chain \<Rightarrow> lane_form \<Rightarrow> string \<Rightarrow> ('w, payout) act" where
  "public_payout site c form target =
     (case canonicalAddress target (lf_wallet form) of
        None \<Rightarrow> throw (LaneError (''Enter a valid '' @ ch_name c @ '' address.''))
      | Some canon \<Rightarrow>
          seq (newLaneId site canon) (\<lambda>laneId.
            ret \<lparr>po_laneId = laneId, po_recipient = canon, po_merchant = Some canon, po_token = None,
                 po_prf = Some JNull, po_config = Some JNull\<rparr>))"

definition solana_chain :: "chain option" where
  "solana_chain = chainByKey ''SOLANA''"

definition solana_on :: bool where
  "solana_on = (case solana_chain of None \<Rightarrow> False | Some c \<Rightarrow> canDiscover c)"

definition solana_from :: "'w site \<Rightarrow> ('w, int option option) act" where
  "solana_from site =
     (if solana_on then seq (get_net site) (\<lambda>net. ret (ok_part (headBlock net ''SOLANA''))) else ret None)"

definition payout_warning :: "'w site \<Rightarrow> string \<Rightarrow> string \<Rightarrow> ('w, string list) act" where
  "payout_warning site target recipient =
     (if target \<noteq> ''SOLANA'' then ret []
      else handle
        (seq (of_result (usdcAta (sha_of site) recipient (case solana_chain of None \<Rightarrow> [] | Some c \<Rightarrow> usdc_text c))) (\<lambda>ata.
         seq (get_net site) (\<lambda>net.
         seq (of_result (contractExists net ''SOLANA'' ata)) (\<lambda>there.
           ret (if there then []
             else [''The payout wallet has no USDC token account yet. Create it (receive any USDC once) before the first payment.''])))))
        (\<lambda>e. ret []))"

text \<open>A height that is not a number is below no slot, so the search from it finds nothing.\<close>

definition find_receiver ::
    "(bytes \<Rightarrow> bytes) \<Rightarrow> int \<times> (net \<times> int) list \<Rightarrow> string \<Rightarrow> route \<Rightarrow> int option \<Rightarrow> string option result" where
  "find_receiver sha search merchant route fromSlot =
     (case fromSlot of
        None \<Rightarrow> then_do solanaProgram (\<lambda>p. Inr None)
      | Some f \<Rightarrow>
          let (now, rounds) = search;
              nets = \<lambda>i. if i < length rounds then fst (rounds ! i) else (\<lambda>u m p. Fetch_failed []);
              clock = \<lambda>i. if i < length rounds then snd (rounds ! i) else now + 45000 in
          (case discoverSolanaReceiver sha nets clock now merchant route f 45000 of None \<Rightarrow> Inr None | Some r \<Rightarrow> r))"

definition solana_receiver ::
    "'w site \<Rightarrow> int option option \<Rightarrow> string \<Rightarrow> string \<Rightarrow> string \<Rightarrow> ('w, lane_receiver list \<times> string list) act" where
  "solana_receiver site from target recipient identity =
     (if \<not> solana_on then ret ([], [])
      else handle
        (case from of
           None \<Rightarrow> throw (Error ''Solana RPC unavailable'')
         | Some slot \<Rightarrow>
             seq (of_result (solanaLeg (sha_of site) target recipient identity)) (\<lambda>(merchant, route).
             seq (ask (s_search site)) (\<lambda>search.
             seq (of_result (find_receiver (sha_of site) search merchant route slot)) (\<lambda>found.
               ret (case found of
                  Some address \<Rightarrow> ([\<lparr>lr_chain = ''SOLANA'', lr_address = address, lr_merchant = merchant,
                      lr_start = Some (rewind (Some slot))\<rparr>], [])
                | None \<Rightarrow> ([], [''The Solana receiver was not found on-chain in time, so this lane has no Solana option.'']))))))
        (\<lambda>e. ret ([], [''Solana receiver skipped: '' @ error_text e])))"

definition lane_json :: "string \<Rightarrow> payout \<Rightarrow> lane_form \<Rightarrow> int \<Rightarrow> lane_receiver list \<Rightarrow> json" where
  "lane_json target p form now receivers = JObj ([(''v'', JNum 2), (''id'', JStr (po_laneId p)), (''privacy'', JBool (lf_privacy form)),
     (''targetChain'', JStr target), (''targetRecipient'', JStr (po_recipient p)),
     (''merchantAddress'', str_or_null (po_merchant p)), (''index'', JNum 0)]
     @ opt_field ''prfCredentialId'' (po_prf p) @
     [(''webhookUrl'', str_or_null (lf_webhook form)), (''createdAt'', JNum now)]
     @ opt_field ''stealthConfig'' (po_config p) @
     [(''receivers'', JArr (map receiver_json receivers))])"

definition save_new :: "quota \<Rightarrow> json \<Rightarrow> string \<Rightarrow> storage \<Rightarrow> storage \<times> unit result" where
  "save_new quota lane laneId st =
     (case saveLane quota st lane of (st', ok) \<Rightarrow>
       (st', if ok then Inr () else Inl (LaneError
         (''The lane was announced but could not be saved in this browser (storage full or blocked). Write down lane id ''
          @ laneId @ '' before leaving this page.''))))"

definition announce :: "'w site \<Rightarrow> lane_form \<Rightarrow> string \<Rightarrow> payout \<Rightarrow> lane_receiver list \<Rightarrow> ('w, json \<times> string list) act" where
  "announce site form target p receivers =
     seq (if lf_privacy form then ret (po_token p)
          else seq (getVerifiedToken (s_env site) (''create-lane:'' @ po_laneId p) None 1) (\<lambda>v. ret (v_token v))) (\<lambda>token.
     seq (solana_from site) (\<lambda>from.
     seq (api_createLane (e_fetch (s_env site)) \<lparr>q_chain = target, q_address = po_recipient p, q_laneId = po_laneId p,
        q_verifiedToken = token, q_targetChain = target, q_targetRecipient = po_recipient p, q_webhookUrl = lf_webhook form\<rparr>) (\<lambda>_.
     seq (payout_warning site target (po_recipient p)) (\<lambda>ws.
     seq (solana_receiver site from target (po_recipient p) (po_recipient p)) (\<lambda>(extra, ws').
     seq (ask (e_now (s_env site))) (\<lambda>now.
       let lane = lane_json target p form now (receivers @ extra) in
       seq (store (save_new (e_quota (s_env site)) lane (po_laneId p))) (\<lambda>_. ret (lane, ws @ ws'))))))))"

definition createLane :: "'w site \<Rightarrow> lane_form \<Rightarrow> ('w, json \<times> string list) act" where
  "createLane site form =
     (let target = wire (lf_target form) in
      case chainByKey target of
        None \<Rightarrow> throw (LaneError ''Choose a settlement chain.'')
      | Some c \<Rightarrow>
          seq (if lf_privacy form then private_payout site c form target else public_payout site c form target) (\<lambda>p.
          seq (get_net site) (\<lambda>net.
          seq (of_result (computeReceivers (sha_of site) net target (po_recipient p) (po_recipient p))) (\<lambda>predicted.
          seq (get_net site) (\<lambda>net'.
            announce site form target p (snapshotStartBlocks net' predicted))))))"

section \<open>Verifying a lane\<close>

definition private_recipient :: "'w site \<Rightarrow> json \<Rightarrow> string \<Rightarrow> ('w, string) act" where
  "private_recipient site lane target =
     (let prop = opt_prop (Some lane); laneId = template (prop ''id'') in
      seq (evaluatePrf (s_env site) (laneSalt (sha_of site) laneId)
            (if js_truthy (prop ''prfCredentialId'') then prop ''prfCredentialId'' else None)) (\<lambda>secret.
      seq (get_net site) (\<lambda>net.
      seq (of_result (deriveStealthAddress (s_curves site) net secret laneId
            (if js_truthy (prop ''index'') then prop ''index'' else Some (JNum 0)) target
            (if nullish (prop ''stealthConfig'') then None else prop ''stealthConfig''))) (\<lambda>account.
        if Some (JStr (ac_address account)) \<noteq> prop ''targetRecipient''
        then throw (LaneError (''This passkey does not derive the lane'' @ [CHR 0x27]
          @ ''s payout account. Wrong passkey, or a tampered backup.''))
        else ret (ac_address account)))))"

definition public_recipient :: "json \<Rightarrow> string \<Rightarrow> string result" where
  "public_recipient lane target =
     (case canonicalAddress target (coerce (opt_prop (Some lane) ''merchantAddress'')) of
        None \<Rightarrow> Inl (LaneError ''Lane payout address does not match its merchant address.'')
      | Some canon \<Rightarrow>
          if Some (JStr canon) \<noteq> opt_prop (Some lane) ''targetRecipient''
          then Inl (LaneError ''Lane payout address does not match its merchant address.'')
          else Inr canon)"

definition mismatch :: "json \<Rightarrow> js_error" where
  "mismatch r = LaneError (''The '' @ (case chain_json (opt_prop (Some r) ''chain'') of
      None \<Rightarrow> template (opt_prop (Some r) ''chain'') | Some c \<Rightarrow> ch_name c)
    @ '' receiver does not match the on-chain factory'' @ [CHR 0x27] @ ''s answer.'')"

text \<open>The receivers one after another, against those computed anew.\<close>

fun check_receivers :: "'w site \<Rightarrow> lane_receiver list \<Rightarrow> string \<Rightarrow> string \<Rightarrow> json list \<Rightarrow> ('w, unit) act" where
  "check_receivers site recomputed target recipient [] = ret ()"
| "check_receivers site recomputed target recipient (r # rs) =
     seq (let address = opt_prop (Some r) ''address'' in
       case chain_json (opt_prop (Some r) ''chain'') of
         None \<Rightarrow> throw (mismatch r)
       | Some c \<Rightarrow>
           if ch_kind c = ''solana'' then
             seq (of_result (solanaLeg (sha_of site) target recipient recipient)) (\<lambda>(merchant, route).
             seq (get_net site) (\<lambda>net.
             seq (of_result (verifySolanaReceiver (sha_of site) net merchant (template address) route)) (\<lambda>ok.
               if ok then ret ()
               else throw (LaneError ''The Solana receiver is not announced on-chain for this merchant and route.''))))
           else (case find (\<lambda>x. lr_chain x = wire_json (opt_prop (Some r) ''chain'')) recomputed of
               None \<Rightarrow> throw (mismatch r)
             | Some x \<Rightarrow> if Some (JStr (lr_address x)) \<noteq> address then throw (mismatch r) else ret ()))
       (\<lambda>_. check_receivers site recomputed target recipient rs)"

definition lane_receivers :: "json \<Rightarrow> json list" where
  "lane_receivers lane = (case as_array (opt_prop (Some lane) ''receivers'') of None \<Rightarrow> [] | Some rs \<Rightarrow> rs)"

definition mark :: "quota \<Rightarrow> string \<Rightarrow> storage \<Rightarrow> storage \<times> unit result" where
  "mark quota laneId st = (case markVerified quota st laneId of (st', ok) \<Rightarrow> (st', Inr ()))"

definition verifyLane :: "'w site \<Rightarrow> json \<Rightarrow> ('w, bool) act" where
  "verifyLane site lane =
     (let target = wire_json (opt_prop (Some lane) ''targetChain'') in
      seq (if js_truthy (opt_prop (Some lane) ''privacy'') then private_recipient site lane target
           else of_result (public_recipient lane target)) (\<lambda>recipient.
      seq (get_net site) (\<lambda>net.
      seq (of_result (computeReceivers (sha_of site) net target recipient recipient)) (\<lambda>recomputed.
      seq (check_receivers site recomputed target recipient (lane_receivers lane)) (\<lambda>_.
      seq (store (mark (e_quota (s_env site)) (template (opt_prop (Some lane) ''id'')))) (\<lambda>_. ret True))))))"

end
