(* ===== verification/Lane_Sound.thy ===== *)
theory Lane_Sound
  imports Lane
begin

text \<open>
  What creating and verifying a lane guarantee (\<open>scripts/lane.js\<close>): which receivers a stored or verified lane can
  have, whatever the server, the network and the authenticator do, and what becomes of the stored lanes.
\<close>

section \<open>What a receiver of a lane is\<close>

text \<open>
  \<open>seen\<close> holds of every network the site shows between requests, \<open>searched\<close> of every network of a search. A receiver is
  confirmed when the factory's answer for it was the same from both sources in such a network, or, on Solana,
  when an announcement of exactly this merchant and route was verified in one.
\<close>

definition site_shows :: "'w site \<Rightarrow> (net \<Rightarrow> bool) \<Rightarrow> (net \<Rightarrow> bool) \<Rightarrow> bool" where
  "site_shows site seen searched \<longleftrightarrow> (\<forall>w. seen (fst (s_net site w)) \<and>
     (\<forall>x \<in> set (snd (fst (s_search site w))). searched (fst x)))"

definition predicted_receiver :: "(bytes \<Rightarrow> bytes) \<Rightarrow> (net \<Rightarrow> bool) \<Rightarrow> string \<Rightarrow> string \<Rightarrow> string \<Rightarrow> string \<Rightarrow> string \<Rightarrow> bool" where
  "predicted_receiver sha seen target recipient k merchant address \<longleftrightarrow>
     (\<exists>net c route v. seen net \<and> chainByKey k = Some c \<and> cctpRoute sha k target recipient = Inr route \<and>
        (if k = target then merchant = recipient else merchantIdentity sha k recipient = Inr merchant) \<and>
        predictReceiver net k merchant route = Inr v \<and> canonicalAddress k (coerce (Some v)) = Some address \<and>
        \<not> zero_address address)"

definition announced_receiver :: "(bytes \<Rightarrow> bytes) \<Rightarrow> (net \<Rightarrow> bool) \<Rightarrow> string \<Rightarrow> string \<Rightarrow> string \<Rightarrow> string \<Rightarrow> bool" where
  "announced_receiver sha searched target recipient merchant address \<longleftrightarrow>
     (\<exists>net p route data. searched net \<and> solanaProgram = Inr p \<and> solanaLeg sha target recipient recipient = Inr (merchant, route) \<and>
        announced_and_verified sha net p merchant route address data)"

definition confirmed :: "(bytes \<Rightarrow> bytes) \<Rightarrow> (net \<Rightarrow> bool) \<Rightarrow> (net \<Rightarrow> bool) \<Rightarrow> string \<Rightarrow> string \<Rightarrow> lane_receiver \<Rightarrow> bool" where
  "confirmed sha seen searched target recipient r \<longleftrightarrow>
     predicted_receiver sha seen target recipient (lr_chain r) (lr_merchant r) (lr_address r) \<or>
     lr_chain r = ''SOLANA'' \<and> announced_receiver sha searched target recipient (lr_merchant r) (lr_address r)"

lemma chainByKey_member: "c \<in> set CHAINS \<Longrightarrow> chainByKey (ch_key c) = Some c"
proof -
  have "list_all (\<lambda>k. wire k = k) (map ch_key CHAINS)" by (simp add: CHAINS_def wire_def char_eval)
  then show "c \<in> set CHAINS \<Longrightarrow> chainByKey (ch_key c) = Some c" by (simp add: chainByKey_Some list_all_iff)
qed

lemma compute_leg_Inr:
  assumes "compute_leg sha net target recipient recipient leg = Inr r" "seen net" "leg \<in> set CHAINS"
  shows "lr_chain r = ch_key leg \<and> predicted_receiver sha seen target recipient (lr_chain r) (lr_merchant r) (lr_address r)"
proof -
  have leg: "chainByKey (ch_key leg) = Some leg" using assms(3) by (rule chainByKey_member)
  obtain route m where 1: "cctpRoute sha (ch_key leg) target recipient = Inr route"
      "(if ch_key leg = target then Inr recipient else merchantIdentity sha (ch_key leg) recipient) = Inr m"
    using assms(1) unfolding compute_leg_def then_do_Inr by blast
  obtain v where v: "predictReceiver net (ch_key leg) m route = Inr v"
    using assms(1) 1 by (cases "predictReceiver net (ch_key leg) m route") (simp_all add: compute_leg_def)
  obtain a where a: "canonicalAddress (ch_key leg) (coerce (Some v)) = Some a"
    using assms(1) 1 v by (cases "canonicalAddress (ch_key leg) (coerce (Some v))") (simp_all add: compute_leg_def)
  then have r: "\<not> zero_address a" "r = \<lparr>lr_chain = ch_key leg, lr_address = a, lr_merchant = m, lr_start = None\<rparr>"
    using assms(1) 1 v by (auto simp: compute_leg_def split: if_splits)
  moreover have "if ch_key leg = target then m = recipient else merchantIdentity sha (ch_key leg) recipient = Inr m"
    using 1(2) by (simp split: if_splits)
  ultimately have "predicted_receiver sha seen target recipient (ch_key leg) m a"
    using leg 1(1) v a assms(2) unfolding predicted_receiver_def by (intro exI [of _ net] exI [of _ leg] exI [of _ route] exI [of _ v] conjI)
  then show ?thesis by (simp add: r(2))
qed

lemma computeReceivers_Inr:
  assumes "computeReceivers sha net target recipient recipient = Inr rs" "seen net" "r \<in> set rs"
  shows "lr_chain r \<in> ch_key ` set laneChains"
    "predicted_receiver sha seen target recipient (lr_chain r) (lr_merchant r) (lr_address r)"
proof -
  have "list_all2 (\<lambda>leg r. compute_leg sha net target recipient recipient leg = Inr r) laneChains rs"
    using assms(1) by (auto simp: computeReceivers_def traverse_Inr split: if_splits)
  moreover obtain i where i: "i < length rs" "r = rs ! i" using assms(3) by (auto simp: in_set_conv_nth)
  ultimately have "compute_leg sha net target recipient recipient (laneChains ! i) = Inr r" "i < length laneChains"
    by (auto dest: list_all2_nthD2 list_all2_lengthD)
  then obtain leg where leg: "leg \<in> set laneChains" "compute_leg sha net target recipient recipient leg = Inr r"
    using nth_mem by blast
  then have "leg \<in> set CHAINS" by (simp add: laneChains_def)
  from compute_leg_Inr [where seen = seen, OF leg(2) assms(2) this] leg(1)
  show "lr_chain r \<in> ch_key ` set laneChains"
    "predicted_receiver sha seen target recipient (lr_chain r) (lr_merchant r) (lr_address r)" by blast+
qed

lemma discovered:
  assumes "now + t \<le> clock n" "discoverSolanaReceiver sha nets clock now m route f t = Some (Inr (Some r))"
  shows "\<exists>j data p. solanaProgram = Inr p \<and> clock j < now + t \<and> announced_and_verified sha (nets j) p m route r data"
proof -
  obtain p where p: "solanaProgram = Inr p" "disc_loop sha nets clock p m route f (now + t) 0 [] = Some (Some r)"
    using assms(2) by (auto simp: discoverSolanaReceiver_def split: sum.splits)
  then show ?thesis
    using disc_loop_sound [of "now + t" clock 0 n sha nets p m route f "[]"] assms(1) by (auto simp: found_in_def)
qed

lemma find_receiver_Inr:
  assumes "find_receiver sha (now, rounds) m route fromSlot = Inr (Some a)" "\<forall>x \<in> set rounds. searched (fst x)"
  shows "\<exists>net p data. searched net \<and> solanaProgram = Inr p \<and> announced_and_verified sha net p m route a data"
proof -
  obtain f where f: "fromSlot = Some f"
    using assms(1) by (cases fromSlot) (auto simp: find_receiver_def then_do_Inr)
  let ?nets = "\<lambda>i. if i < length rounds then fst (rounds ! i) else (\<lambda>u m p. Fetch_failed [])"
  let ?clock = "\<lambda>i. if i < length rounds then snd (rounds ! i) else now + 45000"
  have "discoverSolanaReceiver sha ?nets ?clock now m route f 45000 = Some (Inr (Some a))"
    using assms(1) f by (auto simp: find_receiver_def split: option.splits)
  then obtain j data p where j: "solanaProgram = Inr p" "?clock j < now + 45000"
      "announced_and_verified sha (?nets j) p m route a data"
    using discovered [of now 45000 ?clock "length rounds"] by fastforce
  then have "j < length rounds" by (auto split: if_splits)
  moreover from this have "searched (fst (rounds ! j))" using assms(2) by simp
  ultimately show ?thesis using j by auto
qed

section \<open>Creation\<close>

text \<open>No operation of a lane loses a stored lane.\<close>

definition lanes_kept :: "storage \<Rightarrow> storage \<Rightarrow> bool" where
  "lanes_kept st st' \<longleftrightarrow> lane_id ` set (getLanes st) \<subseteq> lane_id ` set (getLanes st')"

interpretation ln: guarantee lanes_kept
  by unfold_locales (auto simp: lanes_kept_def)

lemma getLanes_cong: "st' K_lanes = st K_lanes \<Longrightarrow> getLanes st' = getLanes st"
  by (simp add: getLanes_def read_item_def)

lemma passkey_lanes: "passkey_rel quota st st' \<Longrightarrow> lanes_kept st st'"
proof -
  assume "passkey_rel quota st st'"
  then have r: "\<forall>k. k \<notin> {ROOT_KEY, AUTH_KEY, ARCHIVE_KEY} \<longrightarrow> st' k = st k" unfolding passkey_rel_def by (elim conjE)
  have k: "K_lanes \<notin> {ROOT_KEY, AUTH_KEY, ARCHIVE_KEY}"
    by (simp add: K_lanes_def ROOT_KEY_def AUTH_KEY_def ARCHIVE_KEY_def)
  have "st' K_lanes = st K_lanes" by (rule r [rule_format, OF k])
  from getLanes_cong [of st' st, OF this] show ?thesis by (simp add: lanes_kept_def)
qed

lemma ensures_mono: "ensures R st Q m \<Longrightarrow> (\<And>st st'. R st st' \<Longrightarrow> R' st st') \<Longrightarrow> ensures R' st (\<lambda>y st'. True) m"
  unfolding ensures_def by blast

lemma passkey_keeps: "ensures (passkey_rel q) st Q m \<Longrightarrow> ensures lanes_kept st (\<lambda>y st'. True) m"
  by (rule ensures_mono [OF _ passkey_lanes])

lemma request_keeps: "ensures lanes_kept st (\<lambda>y st'. True) (request fetch path body method)"
  unfolding request_def by (rule ln.ens_ask_result) simp

lemmas lane_intros = ln.ens_skip ln.ens_ret ln.ens_throw

text \<open>The operations that do not touch the lanes.\<close>

lemma newLaneId_keeps: "ensures lanes_kept st (\<lambda>y st'. True) (newLaneId site seed)"
  unfolding newLaneId_def by (intro lane_intros) simp

lemma resolveStealthConfig_keeps: "ensures lanes_kept st (\<lambda>y st'. True) (resolveStealthConfig site oc snapshot)"
  unfolding resolveStealthConfig_def getStealthCosigners_def
  by (auto intro!: lane_intros ln.ens_seq [OF request_keeps] ln.ens_result split: option.splits)

lemma private_payout_keeps: "ensures lanes_kept st (\<lambda>y st'. True) (private_payout site c form target)"
  unfolding private_payout_def get_net_def
  by (auto intro!: lane_intros ln.ens_seq [OF resolveStealthConfig_keeps] ln.ens_seq [OF newLaneId_keeps]
      ln.ens_seq [OF passkey_keeps [OF getVerifiedTokenWithPrf_ok]])

text \<open>A public lane pays the canonical form of the wallet that was entered.\<close>

definition payout_ok :: "lane_form \<Rightarrow> string \<Rightarrow> payout \<Rightarrow> bool" where
  "payout_ok form target p \<longleftrightarrow> \<not> lf_privacy form \<longrightarrow> canonicalAddress target (lf_wallet form) = Some (po_recipient p)"

lemma payout_keeps: "ensures lanes_kept st (\<lambda>p st'. payout_ok form target p)
    (if lf_privacy form then private_payout site c form target else public_payout site c form target)"
proof (cases "lf_privacy form")
  case True
  then show ?thesis
    using private_payout_keeps by (simp add: payout_ok_def)
next
  case False
  then show ?thesis
    unfolding public_payout_def
    by (auto simp: payout_ok_def intro!: lane_intros ln.ens_seq [OF newLaneId_keeps] split: option.splits)
qed

lemma payout_warning_keeps: "ensures lanes_kept st (\<lambda>y st'. True) (payout_warning site target recipient)"
  unfolding payout_warning_def get_net_def by (auto intro!: lane_intros ln.ens_handle)

lemma solana_from_keeps: "ensures lanes_kept st (\<lambda>y st'. True) (solana_from site)"
  unfolding solana_from_def get_net_def by (auto intro!: lane_intros)

lemma solana_receiver_keeps:
  assumes "site_shows site seen searched"
  shows "ensures lanes_kept st (\<lambda>(rs, ws) st'. \<forall>r \<in> set rs. confirmed (sha_of site) seen searched target recipient r)
    (solana_receiver site from target recipient recipient)"
proof (cases solana_on)
  case False
  then show ?thesis by (simp add: solana_receiver_def ln.ens_ret)
next
  case True
  let ?Q = "\<lambda>(rs, ws) st'. \<forall>r \<in> set rs. confirmed (sha_of site) seen searched target recipient r"
  have search: "ensures lanes_kept st ?Q (seq (ask (s_search site)) (\<lambda>search.
        seq (of_result (find_receiver (sha_of site) search m route slot)) (\<lambda>found. ret (case found of
            Some address \<Rightarrow> ([\<lparr>lr_chain = ''SOLANA'', lr_address = address, lr_merchant = m, lr_start = Some (rewind (Some slot))\<rparr>], [])
          | None \<Rightarrow> ([], warn)))))"
    if leg: "solanaLeg (sha_of site) target recipient recipient = Inr (m, route)" for m route slot warn
  proof (rule ln.ens_ask_where [where A = "\<lambda>x. \<forall>y \<in> set (snd x). searched (fst y)"])
    show "\<forall>y \<in> set (snd (fst (s_search site w))). searched (fst y)" for w
      using assms by (simp add: site_shows_def)
  next
    fix search :: "int \<times> (net \<times> int) list" assume s: "\<forall>y \<in> set (snd search). searched (fst y)"
    obtain now rounds where search: "search = (now, rounds)" by (cases search)
    have "confirmed (sha_of site) seen searched target recipient
        \<lparr>lr_chain = ''SOLANA'', lr_address = a, lr_merchant = m, lr_start = Some (rewind (Some slot))\<rparr>"
      if f: "find_receiver (sha_of site) search m route slot = Inr (Some a)" for a
    proof -
      obtain net p data where "searched net" "solanaProgram = Inr p" "announced_and_verified (sha_of site) net p m route a data"
        using find_receiver_Inr [of "sha_of site" now rounds m route slot a searched] f s search by auto
      then have "announced_receiver (sha_of site) searched target recipient m a"
        using leg unfolding announced_receiver_def by blast
      then show ?thesis by (simp add: confirmed_def)
    qed
    then show "ensures lanes_kept st ?Q (seq (of_result (find_receiver (sha_of site) search m route slot)) (\<lambda>found. ret (case found of
            Some address \<Rightarrow> ([\<lparr>lr_chain = ''SOLANA'', lr_address = address, lr_merchant = m, lr_start = Some (rewind (Some slot))\<rparr>], [])
          | None \<Rightarrow> ([], warn))))"
      by (auto intro!: ln.ens_skip_result ln.ens_ret split: option.splits)
  qed
  show ?thesis
    unfolding solana_receiver_def
    by (auto simp: True intro!: ln.ens_handle ln.ens_throw ln.ens_ret ln.ens_skip_result search split: option.splits)
qed

text \<open>Saving.\<close>

lemma getLanes_of_put: "getLanes (put st K_lanes (JArr ls)) = filter isLane ls"
  by (simp add: getLanes_def as_array_def)

lemma saveLane_ok:
  assumes "saveLane quota st lane = (st', ok)" "isLane lane" "lane_id lane = Some (JStr i)"
  shows "lanes_kept st st' \<and> (ok \<longrightarrow> getLane st' i = Some lane)"
proof (cases ok)
  case False
  then have "st' = st" using assms(1) by (auto simp: saveLane_def write_item_cases split: if_splits)
  then show ?thesis using False by (simp add: ln.R_refl)
next
  case True
  then have st': "getLanes st' = lane # filter isLane (filter (\<lambda>l. lane_id l \<noteq> lane_id lane) (getLanes st))"
    using assms(1,2) by (auto simp: saveLane_def write_item_cases getLanes_of_put split: if_splits)
  have "\<forall>l \<in> set (getLanes st). isLane l"
    by (auto simp: getLanes_def split: option.splits)
  then have "lanes_kept st st'" unfolding lanes_kept_def st' by auto
  then show ?thesis using assms(3) by (simp add: getLane_def st')
qed

lemma lane_json_props:
  "lane_id (lane_json target p form now rs) = Some (JStr (po_laneId p))"
  "opt_prop (Some (lane_json target p form now rs)) ''targetChain'' = Some (JStr target)"
  "opt_prop (Some (lane_json target p form now rs)) ''targetRecipient'' = Some (JStr (po_recipient p))"
  "opt_prop (Some (lane_json target p form now rs)) ''receivers'' = Some (JArr (map receiver_json rs))"
  by (simp_all add: lane_json_def lane_id_def opt_prop_def opt_field_def split: option.splits)

lemma receiver_json_props:
  "opt_prop (Some (receiver_json r)) ''chain'' = Some (JStr (lr_chain r))"
  "opt_prop (Some (receiver_json r)) ''address'' = Some (JStr (lr_address r))"
  by (simp_all add: receiver_json_def opt_prop_def)

lemma isLane_lane_json:
  assumes "chainByKey target \<noteq> None" "\<forall>r \<in> set rs. chainByKey (lr_chain r) \<noteq> None"
  shows "isLane (lane_json target p form now rs)"
  unfolding isLane_def lane_json_props(2,4) lane_json_props(1) [unfolded lane_id_def]
  using assms chain_json_wire
  by (auto simp: js_truthy_def lane_json_def as_array_def receiver_json_props list_all_iff receiver_json_def)

text \<open>A stored lane with these receivers, to this payout account.\<close>

definition lane_stored :: "string \<Rightarrow> string \<Rightarrow> lane_receiver list \<Rightarrow> json \<Rightarrow> storage \<Rightarrow> bool" where
  "lane_stored target recipient rs lane st \<longleftrightarrow>
     (\<exists>i. lane_id lane = Some (JStr i) \<and> getLane st i = Some lane) \<and>
     opt_prop (Some lane) ''targetChain'' = Some (JStr target) \<and>
     opt_prop (Some lane) ''targetRecipient'' = Some (JStr recipient) \<and>
     opt_prop (Some lane) ''receivers'' = Some (JArr (map receiver_json rs))"

lemma confirmed_chain: "confirmed sha seen searched target recipient r \<Longrightarrow> chainByKey (lr_chain r) \<noteq> None"
proof -
  have "''SOLANA'' \<in> set CHAIN_KEYS" by (simp add: chain_keys)
  then have "chainByKey ''SOLANA'' \<noteq> None" by (simp add: chainByKey_None wire_def char_eval)
  then show "confirmed sha seen searched target recipient r \<Longrightarrow> chainByKey (lr_chain r) \<noteq> None"
    by (auto simp: confirmed_def predicted_receiver_def)
qed

lemma save_new_keeps:
  assumes "chainByKey target \<noteq> None" "\<forall>r \<in> set rs. confirmed sha seen searched target (po_recipient p) r"
  shows "ensures lanes_kept st (\<lambda>(lane, ws) st'. \<exists>rs. lane_stored target (po_recipient p) rs lane st' \<and>
      (\<forall>r \<in> set rs. confirmed sha seen searched target (po_recipient p) r))
    (seq (store (save_new quota (lane_json target p form now rs) (po_laneId p))) (\<lambda>_. ret (lane_json target p form now rs, ws)))"
proof (rule ln.ens_seq [OF ln.ens_store])
  let ?lane = "lane_json target p form now rs"
  have lane: "isLane ?lane" using assms confirmed_chain by (intro isLane_lane_json) blast+
  fix st' r assume e: "save_new quota ?lane (po_laneId p) st = (st', r)"
  obtain st1 ok where ok: "saveLane quota st ?lane = (st1, ok)" by (cases "saveLane quota st ?lane")
  then have st1: "st1 = st'" "(\<exists>u. r = Inr u) \<longleftrightarrow> ok" using e by (auto simp: save_new_def split: if_splits)
  show "lanes_kept st st' \<and> (\<forall>u. r = Inr u \<longrightarrow> getLane st' (po_laneId p) = Some ?lane)"
    using saveLane_ok [OF ok lane lane_json_props(1)] st1 by blast
qed (use assms(2) in \<open>auto simp: lane_stored_def lane_json_props intro!: ln.ens_ret\<close>)

lemma announce_keeps:
  assumes "site_shows site seen searched" "chainByKey target \<noteq> None"
    and "\<forall>r \<in> set rs. confirmed (sha_of site) seen searched target (po_recipient p) r"
  shows "ensures lanes_kept st (\<lambda>(lane, ws) st'. \<exists>rs. lane_stored target (po_recipient p) rs lane st' \<and>
      (\<forall>r \<in> set rs. confirmed (sha_of site) seen searched target (po_recipient p) r)) (announce site form target p rs)"
proof -
  have token: "ensures lanes_kept st (\<lambda>y st'. True) (if lf_privacy form then ret (po_token p)
      else seq (getVerifiedToken (s_env site) b None 1) (\<lambda>v. ret (v_token v)))" for st b
    by (auto intro!: ln.ens_ret ln.ens_seq [OF passkey_keeps [OF getVerifiedToken_ok]])
  show ?thesis
    unfolding announce_def api_createLane_def Let_def
    by (rule ln.ens_seq [OF token], rule ln.ens_seq [OF solana_from_keeps], rule ln.ens_seq [OF request_keeps],
        rule ln.ens_seq [OF payout_warning_keeps], rule ln.ens_seq [OF solana_receiver_keeps [OF assms(1)]])
      (use assms(3) in \<open>auto intro!: ln.ens_skip_ask save_new_keeps [OF assms(2)]\<close>)
qed

lemma createLane_keeps:
  assumes "site_shows site seen searched"
  shows "ensures lanes_kept st (\<lambda>(lane, ws) st'. \<exists>recipient rs. lane_stored (wire (lf_target form)) recipient rs lane st' \<and>
      (\<not> lf_privacy form \<longrightarrow> canonicalAddress (wire (lf_target form)) (lf_wallet form) = Some recipient) \<and>
      (\<forall>r \<in> set rs. confirmed (sha_of site) seen searched (wire (lf_target form)) recipient r)) (createLane site form)"
    (is "ensures lanes_kept st ?Q _")
proof (cases "chainByKey (wire (lf_target form))")
  case None
  then show ?thesis by (simp add: createLane_def ln.ens_throw)
next
  case (Some c)
  let ?t = "wire (lf_target form)"
  have seen: "seen (fst (s_net site w))" for w using assms by (simp add: site_shows_def)
  have rest: "ensures lanes_kept st ?Q (seq (get_net site) (\<lambda>net.
      seq (of_result (computeReceivers (sha_of site) net ?t (po_recipient p) (po_recipient p))) (\<lambda>rs.
      seq (get_net site) (\<lambda>net'. announce site form ?t p (snapshotStartBlocks net' rs)))))"
    if p: "payout_ok form ?t p" for p st
    unfolding get_net_def
  proof (rule ln.ens_ask_where [where A = seen, OF seen], rule ln.ens_skip_result, rule ln.ens_skip_ask)
    fix net rs net' assume n: "seen net" "computeReceivers (sha_of site) net ?t (po_recipient p) (po_recipient p) = Inr rs"
    have "\<forall>r \<in> set (snapshotStartBlocks net' rs). confirmed (sha_of site) seen searched ?t (po_recipient p) r"
      using computeReceivers_Inr(2) [OF n(2), of seen, OF n(1)] by (auto simp: confirmed_def snapshotStartBlocks_def)
    then show "ensures lanes_kept st ?Q (announce site form ?t p (snapshotStartBlocks net' rs))"
      using p Some by (intro ensures_weaken [OF announce_keeps [OF assms]]) (auto simp: payout_ok_def)
  qed
  show ?thesis
    unfolding createLane_def Let_def Some option.case
    by (rule ln.ens_seq [OF payout_keeps]) (rule rest)
qed

text \<open>
  At every moment the public node or the proxy of each chain answers as in \<open>truth\<close>; they may take turns in lying. The
  receiver is then the one the factory of \<open>truth\<close> gives.
\<close>

definition one_honest :: "'w site \<Rightarrow> net \<Rightarrow> bool" where
  "one_honest site truth \<longleftrightarrow> (\<forall>w. \<forall>c \<in> set CHAINS.
     fst (s_net site w) (direct_url c) = truth (direct_url c) \<or> fst (s_net site w) (proxy_url c) = truth (proxy_url c))"

definition true_receiver :: "(bytes \<Rightarrow> bytes) \<Rightarrow> net \<Rightarrow> string \<Rightarrow> string \<Rightarrow> string \<Rightarrow> string \<Rightarrow> string \<Rightarrow> bool" where
  "true_receiver sha truth target recipient k merchant address \<longleftrightarrow>
     (\<exists>c route. chainByKey k = Some c \<and> cctpRoute sha k target recipient = Inr route \<and>
        (if k = target then merchant = recipient else merchantIdentity sha k recipient = Inr merchant) \<and>
        (\<forall>v. predictReceiver truth k merchant route = Inr v \<longrightarrow>
          (\<exists>u. canonicalAddress k (coerce (Some u)) = Some address \<and> (u = v \<or> sameAddress (ch_kind c) u v = Inr True))))"

lemma predicted_true:
  assumes "predicted_receiver sha (\<lambda>net. \<forall>c \<in> set CHAINS. net (direct_url c) = truth (direct_url c) \<or> net (proxy_url c) = truth (proxy_url c))
      target recipient k merchant address"
  shows "true_receiver sha truth target recipient k merchant address"
proof -
  obtain net c route v where n: "\<forall>c \<in> set CHAINS. net (direct_url c) = truth (direct_url c) \<or> net (proxy_url c) = truth (proxy_url c)"
    and c: "chainByKey k = Some c" and route: "cctpRoute sha k target recipient = Inr route"
    and m: "if k = target then merchant = recipient else merchantIdentity sha k recipient = Inr merchant"
    and v: "predictReceiver net k merchant route = Inr v" and a: "canonicalAddress k (coerce (Some v)) = Some address"
    using assms unfolding predicted_receiver_def by blast
  have "c \<in> set CHAINS" using c chainByKey_Some by blast
  then have h: "net (direct_url c) = truth (direct_url c) \<or> net (proxy_url c) = truth (proxy_url c)" using n by blast
  have "\<forall>u. predictReceiver truth k merchant route = Inr u \<longrightarrow> v = u \<or> sameAddress (ch_kind c) v u = Inr True"
    using agreeing_predictions [OF c h v] by blast
  then show ?thesis using c route m a unfolding true_receiver_def by blast
qed

definition sound_receiver :: "(bytes \<Rightarrow> bytes) \<Rightarrow> net \<Rightarrow> (net \<Rightarrow> bool) \<Rightarrow> string \<Rightarrow> string \<Rightarrow> lane_receiver \<Rightarrow> bool" where
  "sound_receiver sha truth searched target recipient r \<longleftrightarrow>
     true_receiver sha truth target recipient (lr_chain r) (lr_merchant r) (lr_address r) \<or>
     lr_chain r = ''SOLANA'' \<and> announced_receiver sha searched target recipient (lr_merchant r) (lr_address r)"

text \<open>
  C1: a new lane pays the merchant. Whatever the server answers and however the ceremonies go, creating a lane loses no
  stored lane; when it returns, the lane is stored, a public lane pays the canonical form of the wallet that
  was entered, and every receiver is either the one the true factory gives for the merchant and the route to
  the payout account, as long as one of the two sources of each chain is honest at each moment, or was
  announced on Solana for exactly them and verified in a network of the search.
\<close>

theorem createLane_sound:
  assumes "one_honest site truth" "\<forall>w. \<forall>x \<in> set (snd (fst (s_search site w))). searched (fst x)"
  shows "ensures lanes_kept st (\<lambda>(lane, warnings) st'. \<exists>recipient rs. lane_stored (wire (lf_target form)) recipient rs lane st' \<and>
      (\<not> lf_privacy form \<longrightarrow> canonicalAddress (wire (lf_target form)) (lf_wallet form) = Some recipient) \<and>
      (\<forall>r \<in> set rs. sound_receiver (sha_of site) truth searched (wire (lf_target form)) recipient r)) (createLane site form)"
proof -
  let ?honest = "\<lambda>net. \<forall>c \<in> set CHAINS. net (direct_url c) = truth (direct_url c) \<or> net (proxy_url c) = truth (proxy_url c)"
  have "site_shows site ?honest searched" using assms by (simp add: site_shows_def one_honest_def)
  moreover have "confirmed sha ?honest searched t a r \<Longrightarrow> sound_receiver sha truth searched t a r" for sha t a r
    unfolding confirmed_def sound_receiver_def using predicted_true by blast
  ultimately show ?thesis
    by (intro ensures_weaken [OF createLane_keeps]) (assumption, clarsimp, blast)
qed

section \<open>Verification\<close>

lemma find_update_first: "(\<And>x. Q (f x) = Q x) \<Longrightarrow> find Q (update_first Q f xs) = map_option f (find Q xs)"
  by (induction xs) auto

lemma opt_prop_delete: "opt_prop (Some (delete_prop k l)) j = (if j = k then None else opt_prop (Some l) j)"
proof (cases l)
  case (JObj kvs)
  have "map_of (filter (\<lambda>(k', v). k' \<noteq> k) kvs) j = (if j = k then None else map_of kvs j)"
    by (induction kvs) auto
  then show ?thesis by (simp add: delete_prop_def JObj opt_prop_def)
qed (simp_all add: delete_prop_def opt_prop_def)

lemma js_truthy_delete: "js_truthy (Some (delete_prop k l)) = js_truthy (Some l)"
  by (cases l) (simp_all add: delete_prop_def js_truthy_def)

lemma delete_mark [simp]:
  "isLane (delete_prop ''needsVerify'' l) = isLane l" "lane_id (delete_prop ''needsVerify'' l) = lane_id l"
  by (simp_all add: isLane_def lane_id_def opt_prop_delete js_truthy_delete)

lemma update_first_all: "\<forall>x \<in> set xs. A x \<Longrightarrow> (\<And>x. A (f x) = A x) \<Longrightarrow> filter A (update_first Q f xs) = update_first Q f xs"
  by (induction xs) auto

lemma update_first_ids: "(\<And>x. g (f x) = g x) \<Longrightarrow> map g (update_first Q f xs) = map g xs"
  by (induction xs) auto

lemma mark_ok:
  assumes "mark quota i st = (st', r)"
  shows "lanes_kept st st' \<and> (accepts quota \<longrightarrow> (\<forall>l. getLane st' i = Some l \<longrightarrow> opt_prop (Some l) ''needsVerify'' = None))"
proof (cases "getLane st i")
  case None
  then have "st' = st" using assms by (simp add: mark_def markVerified_def)
  then show ?thesis using None by (simp add: ln.R_refl)
next
  case (Some lane)
  let ?Q = "\<lambda>l. lane_id l = Some (JStr i)" and ?f = "delete_prop ''needsVerify''"
  let ?ls = "update_first ?Q ?f (getLanes st)"
  have st': "st' = (if quota st K_lanes (JArr ?ls) then put st K_lanes (JArr ?ls) else st)"
    using assms by (auto simp: mark_def markVerified_def Some write_item_cases split: if_splits)
  have all: "\<forall>l \<in> set (getLanes st). isLane l" by (auto simp: getLanes_def split: option.splits)
  have ls: "getLanes (put st K_lanes (JArr ?ls)) = ?ls"
    unfolding getLanes_of_put by (rule update_first_all [OF all]) simp
  have "map lane_id ?ls = map lane_id (getLanes st)" by (rule update_first_ids) simp
  then have "set (map lane_id ?ls) = set (map lane_id (getLanes st))" by (rule arg_cong)
  then have "lane_id ` set ?ls = lane_id ` set (getLanes st)" by (simp only: set_map)
  then have "lanes_kept st st'" by (simp add: st' ls lanes_kept_def)
  moreover have "getLane (put st K_lanes (JArr ?ls)) i = map_option ?f (getLane st i)"
    unfolding getLane_def ls by (rule find_update_first) simp
  then have "\<forall>l. getLane (put st K_lanes (JArr ?ls)) i = Some l \<longrightarrow> opt_prop (Some l) ''needsVerify'' = None"
    by (auto simp: opt_prop_delete)
  ultimately show ?thesis using st' by (auto simp: accepts_def simp del: update_first.simps)
qed

text \<open>What verification has established of a receiver as it is stored.\<close>

definition receiver_checked :: "(bytes \<Rightarrow> bytes) \<Rightarrow> (net \<Rightarrow> bool) \<Rightarrow> string \<Rightarrow> string \<Rightarrow> json \<Rightarrow> bool" where
  "receiver_checked sha seen target recipient r \<longleftrightarrow>
     (\<exists>c. chain_json (opt_prop (Some r) ''chain'') = Some c \<and>
       (if ch_kind c = ''solana''
        then \<exists>net m route. seen net \<and> solanaLeg sha target recipient recipient = Inr (m, route) \<and>
          verifySolanaReceiver sha net m (template (opt_prop (Some r) ''address'')) route = Inr True
        else \<exists>m a. opt_prop (Some r) ''address'' = Some (JStr a) \<and> predicted_receiver sha seen target recipient (ch_key c) m a))"

lemma check_receivers_keeps:
  assumes "\<And>w. seen (fst (s_net site w))"
    and "\<forall>x \<in> set computed. predicted_receiver (sha_of site) seen target recipient (lr_chain x) (lr_merchant x) (lr_address x)"
  shows "ensures lanes_kept st (\<lambda>u st'. \<forall>r \<in> set rs. receiver_checked (sha_of site) seen target recipient r)
    (check_receivers site computed target recipient rs)"
proof (induction rs arbitrary: st)
  case Nil
  then show ?case by (simp add: ln.ens_ret)
next
  case (Cons r rs)
  let ?sha = "sha_of site" and ?Q = "\<lambda>u st'. receiver_checked (sha_of site) seen target recipient r"
  let ?address = "opt_prop (Some r) ''address''" and ?chain = "opt_prop (Some r) ''chain''"
  have solana: "ensures lanes_kept st ?Q (seq (of_result (solanaLeg ?sha target recipient recipient)) (\<lambda>(merchant, route).
             seq (get_net site) (\<lambda>net.
             seq (of_result (verifySolanaReceiver ?sha net merchant (template ?address) route)) (\<lambda>ok.
               if ok then ret () else throw e))))"
    if c: "chain_json ?chain = Some c" "ch_kind c = ''solana''" for c e
  proof (rule ln.ens_skip_result)
    fix leg assume leg: "solanaLeg ?sha target recipient recipient = Inr leg"
    obtain m route where mr: "leg = (m, route)" by (cases leg)
    have "ensures lanes_kept st ?Q (seq (of_result (verifySolanaReceiver ?sha net m (template ?address) route)) (\<lambda>ok.
               if ok then ret () else throw e))" if n: "seen net" for net
    proof (rule ln.ens_skip_result)
      fix ok assume v: "verifySolanaReceiver ?sha net m (template ?address) route = Inr ok"
      have "?Q u st" if ok for u st
        unfolding receiver_checked_def using that c n v leg mr by (intro exI [of _ c] conjI c) auto
      then show "ensures lanes_kept st ?Q (if ok then ret () else throw e)"
        by (cases ok) (simp_all add: ln.ens_ret ln.ens_throw)
    qed
    then show "ensures lanes_kept st ?Q (case leg of (merchant, route) \<Rightarrow>
             seq (get_net site) (\<lambda>net.
             seq (of_result (verifySolanaReceiver ?sha net merchant (template ?address) route)) (\<lambda>ok.
               if ok then ret () else throw e)))"
      unfolding mr prod.case get_net_def by (rule ln.ens_ask_where [where A = seen, OF assms(1)])
  qed
  have other: "?Q u st'" if c: "chain_json ?chain = Some c" "ch_kind c \<noteq> ''solana''"
    and x: "find (\<lambda>x. lr_chain x = wire_json ?chain) computed = Some x" "Some (JStr (lr_address x)) = ?address" for c x u st'
  proof -
    have "x \<in> set computed" "lr_chain x = wire_json ?chain" using x(1) by (auto simp: find_Some_iff)
    moreover have k: "ch_key c = wire_json ?chain"
      using c(1) by (simp add: chain_json_def chainByKey_Some wire_json_def)
    ultimately have "predicted_receiver ?sha seen target recipient (ch_key c) (lr_merchant x) (lr_address x)"
      using assms(2) by metis
    then show ?thesis unfolding receiver_checked_def using c x(2) [symmetric] by (intro exI [of _ c]) auto
  qed
  show ?case
    unfolding check_receivers.simps Let_def
  proof (rule ln.ens_seq [where Q = ?Q])
    show "ensures lanes_kept st ?Q (case chain_json ?chain of None \<Rightarrow> throw (mismatch r)
        | Some c \<Rightarrow> if ch_kind c = ''solana'' then
             seq (of_result (solanaLeg ?sha target recipient recipient)) (\<lambda>(merchant, route).
             seq (get_net site) (\<lambda>net.
             seq (of_result (verifySolanaReceiver ?sha net merchant (template ?address) route)) (\<lambda>ok.
               if ok then ret ()
               else throw (LaneError ''The Solana receiver is not announced on-chain for this merchant and route.''))))
           else (case find (\<lambda>x. lr_chain x = wire_json ?chain) computed of
               None \<Rightarrow> throw (mismatch r)
             | Some x \<Rightarrow> if Some (JStr (lr_address x)) \<noteq> ?address then throw (mismatch r) else ret ()))"
      using solana other
      by (cases "chain_json ?chain"; cases "find (\<lambda>x. lr_chain x = wire_json ?chain) computed")
        (auto intro!: ln.ens_throw ln.ens_ret)
  qed (use Cons.IH in \<open>auto intro: ensures_weaken\<close>)
qed

lemma private_recipient_keeps: "ensures lanes_kept st (\<lambda>a st'. opt_prop (Some lane) ''targetRecipient'' = Some (JStr a))
    (private_recipient site lane target)"
  unfolding private_recipient_def Let_def get_net_def
  by (auto intro!: ln.ens_seq [OF passkey_keeps [OF evaluatePrf_ok]] ln.ens_skip ln.ens_throw ln.ens_ret)

lemma public_recipient_Inr: "public_recipient lane target = Inr a \<longleftrightarrow>
    canonicalAddress target (coerce (opt_prop (Some lane) ''merchantAddress'')) = Some a \<and>
    opt_prop (Some lane) ''targetRecipient'' = Some (JStr a)"
  by (auto simp: public_recipient_def split: option.splits if_splits)

definition recipient_ok :: "json \<Rightarrow> string \<Rightarrow> string \<Rightarrow> bool" where
  "recipient_ok lane target recipient \<longleftrightarrow> opt_prop (Some lane) ''targetRecipient'' = Some (JStr recipient) \<and>
     (\<not> js_truthy (opt_prop (Some lane) ''privacy'') \<longrightarrow>
       canonicalAddress target (coerce (opt_prop (Some lane) ''merchantAddress'')) = Some recipient)"

lemma recipient_keeps: "ensures lanes_kept st (\<lambda>a st'. recipient_ok lane target a)
    (if js_truthy (opt_prop (Some lane) ''privacy'') then private_recipient site lane target else of_result (public_recipient lane target))"
  using private_recipient_keeps [of st lane site target]
  by (auto simp: recipient_ok_def public_recipient_Inr intro!: ln.ens_result)

lemma verifyLane_keeps:
  assumes "\<And>w. seen (fst (s_net site w))"
  shows "ensures lanes_kept st (\<lambda>u st'. (\<exists>recipient. recipient_ok lane (wire_json (opt_prop (Some lane) ''targetChain'')) recipient \<and>
        (\<forall>r \<in> set (lane_receivers lane). receiver_checked (sha_of site) seen (wire_json (opt_prop (Some lane) ''targetChain'')) recipient r)) \<and>
      (accepts (e_quota (s_env site)) \<longrightarrow>
        (\<forall>l. getLane st' (template (lane_id lane)) = Some l \<longrightarrow> opt_prop (Some l) ''needsVerify'' = None))) (verifyLane site lane)"
    (is "ensures lanes_kept st ?Q _")
proof -
  let ?sha = "sha_of site" and ?t = "wire_json (opt_prop (Some lane) ''targetChain'')"
  let ?q = "e_quota (s_env site)" and ?id = "template (opt_prop (Some lane) ''id'')"
  have finish: "ensures lanes_kept st ?Q (seq (store (mark ?q ?id)) (\<lambda>u. ret True))"
    if "recipient_ok lane ?t a" "\<forall>r \<in> set (lane_receivers lane). receiver_checked ?sha seen ?t a r" for st a
  proof (rule ln.ens_seq [OF ln.ens_store])
    fix st' r assume "mark ?q ?id st = (st', r)"
    from mark_ok [OF this] show "lanes_kept st st' \<and> (\<forall>u. r = Inr u \<longrightarrow>
        (accepts ?q \<longrightarrow> (\<forall>l. getLane st' ?id = Some l \<longrightarrow> opt_prop (Some l) ''needsVerify'' = None)))" by blast
  qed (use that in \<open>auto simp: lane_id_def intro!: ln.ens_ret\<close>)
  show ?thesis
    unfolding verifyLane_def Let_def get_net_def
  proof (rule ln.ens_seq [OF recipient_keeps], rule ln.ens_ask_where [where A = seen, OF assms], rule ln.ens_skip_result)
    fix a st net computed
    assume a: "recipient_ok lane ?t a" and n: "seen net" "computeReceivers ?sha net ?t a a = Inr computed"
    have c: "\<forall>x \<in> set computed. predicted_receiver ?sha seen ?t a (lr_chain x) (lr_merchant x) (lr_address x)"
      using computeReceivers_Inr(2) [OF n(2), of seen, OF n(1)] by blast
    show "ensures lanes_kept st ?Q (seq (check_receivers site computed ?t a (lane_receivers lane)) (\<lambda>u.
        seq (store (mark ?q ?id)) (\<lambda>u. ret True)))"
      by (rule ln.ens_seq [OF check_receivers_keeps [OF assms c]]) (rule finish [OF a])
  qed
qed


section \<open>Settings\<close>

lemma map_of_spread: "map_of (spread_fields a b) k = (case map_of b k of None \<Rightarrow> map_of a k | Some v \<Rightarrow> Some v)"
proof -
  have 1: "map_of (map (\<lambda>(k, v). (k, case map_of b k of None \<Rightarrow> v | Some u \<Rightarrow> u)) a) k =
      map_option (\<lambda>v. case map_of b k of None \<Rightarrow> v | Some u \<Rightarrow> u) (map_of a k)"
    by (induction a) (auto split: option.splits)
  have 2: "map_of (filter (\<lambda>(k, v). map_of a k = None) b) k = (if map_of a k = None then map_of b k else None)"
    by (induction b) auto
  show ?thesis by (auto simp: spread_fields_def map_add_def 1 2 split: option.splits)
qed

lemma map_of_settings: "k \<in> set ks \<Longrightarrow> map_of (map (\<lambda>k. (k, f k)) ks) k = Some (f k)"
  by (induction ks) auto

lemma settings_from_pinned:
  assumes "settings_from c snapshot base response = Inr config" "k \<in> set (pinned_keys c)"
  shows "\<exists>published s. published_for c (Some response) = Inr published \<and> live_setting c published k = Some s \<and>
    (if js_truthy snapshot then opt_prop config k = opt_prop snapshot k \<and> sameIdentity c (opt_prop config k) (Some s)
     else opt_prop config k = Some (JStr s))"
proof -
  obtain published where p: "published_for c (Some response) = Inr published" "js_truthy published"
      "\<not> list_ex (\<lambda>k. \<not> truthy (live_setting c published k)) (pinned_keys c)"
    using assms(1) by (auto simp: settings_from_def then_do_Inr Let_def split: if_splits)
  then have "truthy (live_setting c published k)" using assms(2) by (auto simp: list_ex_iff)
  then obtain s where s: "live_setting c published k = Some s" by (auto simp: truthy_def split: option.splits)
  show ?thesis
  proof (cases "js_truthy snapshot")
    case True
    have f: "find (\<lambda>k. \<not> sameIdentity c (opt_prop snapshot k) (live_setting c published k)) (pinned_keys c) = None"
      and cfg: "config = Some (JObj (spread_fields (own_entries base) (own_entries snapshot)))"
      using assms(1) p True by (auto simp: settings_from_def Let_def split: option.splits)
    then have same: "sameIdentity c (opt_prop snapshot k) (Some s)" using assms(2) s by (auto simp: find_None_iff)
    then obtain v where v: "opt_prop snapshot k = Some v"
      by (cases "opt_prop snapshot k") (simp_all add: sameIdentity_def js_truthy_def)
    then obtain kvs where "snapshot = Some (JObj kvs)" by (auto simp: opt_prop_def split: option.splits json.splits)
    then have "opt_prop config k = opt_prop snapshot k"
      using v by (simp add: cfg opt_prop_def map_of_spread own_entries_def)
    then show ?thesis using True p(1) s same by auto
  next
    case False
    then have "config = Some (JObj (spread_fields (own_entries base) (map (\<lambda>k. (k, opt_string (live_setting c published k))) (pinned_keys c))))"
      using assms(1) p by (simp add: settings_from_def Let_def)
    then have "opt_prop config k = Some (JStr s)"
      using map_of_settings [OF assms(2), of "\<lambda>k. opt_string (live_setting c published k)"] s
      by (simp add: opt_prop_def map_of_spread opt_string_def)
    then show ?thesis using False p(1) s by auto
  qed
qed


section \<open>Witnesses\<close>

definition published_cosigner :: json where
  "published_cosigner = JObj [(''cosigners'', JArr [JObj [(''chain'', JStr ''STARKNET''), (''cosigner'', JStr (''0x'' @ replicate 40 CHR ''1''))]])]"


text \<open>A site whose network is always the same and whose searches are over at once.\<close>

definition still_site :: "net \<Rightarrow> unit site" where
  "still_site net = \<lparr>s_env = key_env, s_curves = toy_curves, s_net = (\<lambda>w. (net, w)), s_search = (\<lambda>w. ((0, []), w))\<rparr>"

lemma still_site_honest: "one_honest (still_site net) net"
  by (simp add: one_honest_def still_site_def)

text \<open>A network whose factories answer every call with the same two receivers and that knows nothing else.\<close>

definition factory_net :: net where
  "factory_net url method params =
     (if method = ''eth_call'' then Response 200 (Some (JObj [(''result'', JStr (''0x'' @ replicate 64 CHR ''a''))]))
      else if method = ''starknet_call'' then Response 200 (Some (JObj [(''result'', JArr [JStr (felt_text (2 ^ 200))])]))
      else Fetch_failed ''offline'')"

lemma factory_rpc:
  assumes "chainByKey k = Some c"
  shows "rpc factory_net k ''eth_call'' params src = Inr (Some (JStr (''0x'' @ replicate 64 CHR ''a'')))"
    "rpc factory_net k ''starknet_call'' params src = Inr (Some (JArr [JStr (felt_text (2 ^ 200))]))"
  using assms
  by (simp_all add: rpc_def requireChain_def rpcCall_def proxyCall_def unwrap_def factory_net_def js_truthy_def Let_def del: replicate.simps)

lemma zero_felt:
  assumes "zero_address (felt_text n)"
  shows "n = 0"
proof -
  let ?h = "pad_start 64 CHR ''0'' (nat_string 16 n)"
  have all: "\<forall>c \<in> set ?h. c = CHR ''0''"
    using assms unfolding zero_address_def felt_text_def list_all_iff by (simp only: append_Cons append_Nil drop_Suc_Cons drop_0 numeral_2_eq_2) blast
  have "pad_start (length ?h) CHR ''0'' [] = replicate (length ?h) CHR ''0''" by (simp only: pad_start_def list.size(3) diff_zero append_Nil2)
  also have "\<dots> = ?h" using all by (rule replicate_length_same)
  finally have "of_digits 16 (map digit_num (pad_start (length ?h) CHR ''0'' [])) = of_digits 16 (map digit_num ?h)" by (rule arg_cong)
  then show ?thesis by (simp only: value_pad_start) (simp add: digits_nat_string)
qed

lemma factory_predicts:
  assumes "chainByKey k = Some c" "ch_kind c = ''evm'' \<or> ch_kind c = ''starknet''"
  shows "\<exists>v a. predictReceiver factory_net k m r = Inr v \<and> canonicalAddress k (coerce (Some v)) = Some a \<and> \<not> zero_address a"
  using assms(2)
proof
  assume e: "ch_kind c = ''evm''"
  have h: "hex64 (''0x'' @ replicate 64 CHR ''a'')" by (simp add: hex64_def list_all_iff char_eval del: replicate.simps)
  have d: "drop (length (''0x'' @ replicate 64 CHR ''a'') - 40) (''0x'' @ replicate 64 CHR ''a'') = replicate 40 CHR ''a''"
    by (simp add: drop_Cons' del: replicate.simps)
  have v: "predictVia factory_net c m r src = Inr (JStr (''0x'' @ replicate 40 CHR ''a''))" for src
    using factory_rpc(1) [OF chainByKey_ch_key [OF assms(1)]] h d e
    by (simp add: predictVia_def template_def Let_def del: replicate.simps)
  have "canonicalAddress k (''0x'' @ replicate 40 CHR ''a'') = Some (''0x'' @ to_lower (replicate 40 CHR ''a''))"
    unfolding canonicalAddress_evm [OF assms(1) e] by (rule canonicalEvm_form) (simp_all add: list_all_iff char_eval)
  moreover have "\<not> zero_address (''0x'' @ to_lower (replicate 40 CHR ''a''))"
    by (simp add: zero_address_def to_lower_def char_eval) (simp add: list_all_iff)
  ultimately show ?thesis
    using v e assms(1) by (auto simp: predictReceiver_Inr sameAddress_def coerce_def simp del: replicate.simps)
next
  assume e: "ch_kind c = ''starknet''"
  have v: "predictVia factory_net c m r src = Inr (JStr (felt_text (2 ^ 200)))" for src
    using factory_rpc(2) [OF chainByKey_ch_key [OF assms(1)]] e
    by (simp add: predictVia_def js_truthy_def opt_elem_def) (simp add: felt_text_def)
  have "canonicalAddress k (felt_text (2 ^ 200)) = Some (felt_text (2 ^ 200))"
    using canonicalFelt_felt_text [of "2 ^ 200"] assms(1) e by (simp add: canonicalAddress_def EVM_LIMIT_def STARK_PRIME_value)
  moreover have "\<not> zero_address (felt_text (2 ^ 200))"
    using zero_felt by force
  ultimately show ?thesis
    using v e assms(1) by (auto simp: predictReceiver_Inr sameAddress_def coerce_def BigInt_json_def felt_text_BigInt)
qed

definition toy_wallet :: string where
  "toy_wallet = ''0x'' @ replicate 40 CHR ''1''"

definition toy_form :: lane_form where
  "toy_form = \<lparr>lf_wallet = toy_wallet, lf_target = ''BASE'', lf_webhook = None, lf_privacy = False\<rparr>"

lemma toy_canonical: "canonicalEvm toy_wallet = Some toy_wallet"
  unfolding toy_wallet_def by (subst canonicalEvm_form; simp add: list_all_iff char_eval)

lemma chain_BASE: "\<exists>c. chainByKey ''BASE'' = Some c \<and> ch_kind c = ''evm'' \<and> canSettle c"
  by (simp add: chainByKey_def CHAINS_def wire_def char_eval canSettle_def canPredict_def truthy_def)

lemma wire_BASE: "wire ''BASE'' = ''BASE''"
  by (simp add: wire_def char_eval)

lemma toy_leg:
  assumes "leg \<in> set laneChains"
  shows "\<exists>r. compute_leg sha factory_net ''BASE'' toy_wallet toy_wallet leg = Inr r"
proof -
  have leg: "chainByKey (ch_key leg) = Some leg" "ch_kind leg = ''evm'' \<or> ch_kind leg = ''starknet''"
    using assms chainByKey_member by (auto simp: laneChains_def canPredict_def)
  obtain b where b: "chainByKey ''BASE'' = Some b" "ch_kind b = ''evm''" using chain_BASE by blast
  have a: "canonicalAddress ''BASE'' toy_wallet = Some toy_wallet"
    unfolding canonicalAddress_evm [OF b] by (rule toy_canonical)
  have "toy_wallet \<noteq> []" by (simp add: toy_wallet_def)
  then have "\<exists>route. cctpRoute sha (ch_key leg) ''BASE'' toy_wallet = Inr route"
    using cctpRoute_total [of "ch_key leg" "''BASE''", OF _ b(1) a] by (cases "wire (ch_key leg) = wire ''BASE''") (auto simp: cctpRoute_def)
  then obtain route where route: "cctpRoute sha (ch_key leg) ''BASE'' toy_wallet = Inr route" ..
  have "\<exists>m. merchantIdentity sha (ch_key leg) toy_wallet = Inr m"
    using leg hex_BigInt_20 [of "replicate 40 CHR ''1''"] toy_canonical
    by (auto simp: merchantIdentity_def toy_wallet_def [symmetric]) (auto simp: toy_wallet_def list_all_iff char_eval)
  then obtain m where m: "(if ch_key leg = ''BASE'' then Inr toy_wallet else merchantIdentity sha (ch_key leg) toy_wallet) = Inr m"
    by (cases "ch_key leg = ''BASE''") auto
  obtain v x where "predictReceiver factory_net (ch_key leg) m route = Inr v"
      "canonicalAddress (ch_key leg) (coerce (Some v)) = Some x" "\<not> zero_address x"
    using factory_predicts [OF leg] by blast
  then show ?thesis using route m by (simp add: compute_leg_def)
qed

lemma toy_receivers: "\<exists>rs. computeReceivers sha factory_net ''BASE'' toy_wallet toy_wallet = Inr rs"
proof -
  have "\<forall>leg \<in> set ls. \<exists>r. f leg = Inr r \<Longrightarrow> \<exists>rs. traverse f ls = Inr rs" for f :: "chain \<Rightarrow> lane_receiver result" and ls
    by (induction ls) auto
  then show ?thesis using toy_leg chain_BASE by (auto simp: computeReceivers_def)
qed

lemma key_token: "\<exists>v. getVerifiedToken key_env b None 1 (key_storage, ()) = (Inr v, (key_storage, ()))"
proof -
  have "ensureAuthCredential key_env (key_storage, ()) = (Inr (Some (JStr ''R'')), (key_storage, ()))"
    by (simp add: ensureAuthCredential_def seq_def look_def ret_def key_storage_ids js_truthy_def)
  then show ?thesis
    by (simp add: getVerifiedToken_def numeral_2_eq_2 seq_def handle_def ret_def authStart_def key_request key_ceremony)
qed

lemma still_ask:
  "get_net (still_site net) s = (Inr net, s)" "ask (e_random key_env n) s = (Inr (replicate n 0), s)" "ask (e_now key_env) s = (Inr 5, s)"
  by (cases s; simp add: get_net_def still_site_def ask_def key_env_def)+

lemma still_site_env: "s_env (still_site net) = key_env" "sha_of (still_site net) = keccak256"
  by (simp_all add: still_site_def sha_of_def toy_curves_def)

lemma offline_head: "ok_part (headBlock factory_net ''SOLANA'') = None"
proof -
  obtain c where c: "chainByKey ''SOLANA'' = Some c" "ch_kind c = ''solana''"
    by (simp add: chainByKey_def CHAINS_def wire_def char_eval)
  then have "rpc factory_net (ch_key c) ''getSlot'' ps Default = Inl (Error ''offline'')" for ps
    using chainByKey_ch_key [OF c(1)]
    by (simp add: rpc_def requireChain_def rpcCall_def proxyCall_def unwrap_def factory_net_def)
  then show ?thesis using c by (simp add: headBlock_def requireChain_def)
qed

lemma toy_announce:
  "\<exists>lane ws st'. announce (still_site factory_net) toy_form ''BASE'' p rs (key_storage, ()) = (Inr (lane, ws), (st', ()))"
proof -
  let ?s = "(key_storage, ())" and ?site = "still_site factory_net"
  obtain v where v: "getVerifiedToken key_env (''create-lane:'' @ po_laneId p) None 1 ?s = (Inr v, ?s)" using key_token by blast
  have f: "solana_from ?site ?s = (Inr None, ?s)"
    by (simp add: solana_from_def seq_def still_ask ret_def offline_head)
  have w: "payout_warning ?site ''BASE'' a ?s = (Inr [], ?s)" for a by (simp add: payout_warning_def ret_def)
  obtain out where r: "solana_receiver ?site None ''BASE'' (po_recipient p) (po_recipient p) ?s = (Inr ([], out), ?s)"
    by (cases solana_on) (simp_all add: solana_receiver_def handle_def throw_def ret_def)
  have "save_new (e_quota key_env) l i key_storage = (fst (saveLane (e_quota key_env) key_storage l), Inr ())" for l i
    by (simp add: save_new_def saveLane_def write_item_cases key_env_def)
  then show ?thesis
    using v by (simp add: announce_def api_createLane_def still_site_env toy_form_def seq_def ret_def f w r key_request
        still_ask store_def Let_def)
qed

lemma toy_create:
  "\<exists>lane ws st'. createLane (still_site factory_net) toy_form (key_storage, ()) = (Inr (lane, ws), (st', ()))"
proof -
  let ?s = "(key_storage, ())" and ?site = "still_site factory_net"
  obtain b where b: "chainByKey ''BASE'' = Some b" "ch_kind b = ''evm''" using chain_BASE by blast
  have a: "canonicalAddress ''BASE'' (lf_wallet toy_form) = Some toy_wallet"
    unfolding canonicalAddress_evm [OF b] by (simp add: toy_form_def toy_canonical)
  have t: "wire (lf_target toy_form) = ''BASE''" "\<not> lf_privacy toy_form" by (simp_all add: toy_form_def wire_BASE)
  obtain p where p: "public_payout ?site b toy_form ''BASE'' ?s = (Inr p, ?s)" "po_recipient p = toy_wallet"
    by (simp add: public_payout_def a newLaneId_def seq_def still_site_env still_ask ret_def)
  obtain rs where rs: "computeReceivers keccak256 factory_net ''BASE'' toy_wallet toy_wallet = Inr rs" using toy_receivers by blast
  show ?thesis
    using toy_announce
    by (simp add: createLane_def t b seq_def p still_ask still_site_env of_result_def rs Let_def)
qed

theorem createLane_sound_witness:
  "\<exists>lane ws st' rs. createLane (still_site factory_net) toy_form (key_storage, ()) = (Inr (lane, ws), (st', ())) \<and>
     lane_stored ''BASE'' toy_wallet rs lane st' \<and>
     (\<forall>r \<in> set rs. sound_receiver keccak256 factory_net (\<lambda>net. False) ''BASE'' toy_wallet r)"
proof -
  obtain lane ws st' where run: "createLane (still_site factory_net) toy_form (key_storage, ()) = (Inr (lane, ws), (st', ()))"
    using toy_create by blast
  have "canonicalAddress ''BASE'' toy_wallet = Some toy_wallet"
    using chain_BASE canonicalAddress_evm toy_canonical by metis
  moreover have "\<forall>w. \<forall>x \<in> set (snd (fst (s_search (still_site factory_net) w))). False" by (simp add: still_site_def)
  note ensuresD [OF createLane_sound [OF still_site_honest, of factory_net "\<lambda>net. False", OF this] run]
  ultimately show ?thesis
    using run by (auto simp: toy_form_def wire_BASE still_site_env)
qed

definition toy_lane :: json where
  "toy_lane = JObj [(''id'', JStr ''L''), (''targetChain'', JStr ''BASE''), (''merchantAddress'', JStr toy_wallet),
     (''targetRecipient'', JStr toy_wallet), (''receivers'', JArr []), (''needsVerify'', JBool True)]"


end
