(* ===== verification/Stealth_Page.thy ===== *)
theory Stealth_Page
  imports Lane_Sound Stealth_Claim Ui
begin

text \<open>
  The claim of \<open>scripts/stealth.js\<close>: the page picks a lane, the passkey unlocks it, the payload is built, a second
  ceremony is bound to the payload's hash, and both are posted. Here the page is its status; what it draws is in \<open>Stealth_View\<close>.
\<close>

section \<open>Messages\<close>

text \<open>What a thrown value shows of itself.\<close>

record caught =
  er_name :: string
  er_message :: string
  er_status :: int
  er_retry :: "string option"
  er_code :: int

definition caught_of :: "js_error \<Rightarrow> caught" where
  "caught_of e = \<lparr>er_name = (case e of ApiError s m r \<Rightarrow> ''ApiError'' | RpcError m c \<Rightarrow> ''RpcError'' | LaneError m \<Rightarrow> ''LaneError''
       | TypeError \<Rightarrow> ''TypeError'' | SyntaxError \<Rightarrow> ''SyntaxError'' | Error m \<Rightarrow> ''Error''),
     er_message = message e,
     er_status = (case e of ApiError s m r \<Rightarrow> s | _ \<Rightarrow> 0),
     er_retry = (case e of ApiError s m r \<Rightarrow> r | _ \<Rightarrow> None),
     er_code = (case e of RpcError m c \<Rightarrow> (case c of None \<Rightarrow> 0 | Some n \<Rightarrow> n) | _ \<Rightarrow> 0)\<rparr>"

text \<open>\<open>s.replace("..", ".")\<close>: the first occurrence.\<close>

fun one_dot :: "string \<Rightarrow> string" where
  "one_dot (a # b # s) = (if a = CHR ''.'' \<and> b = CHR ''.'' then CHR ''.'' # s else a # one_dot (b # s))"
| "one_dot s = s"

definition describeError :: "caught \<Rightarrow> string" where
  "describeError err =
     (if er_name err = ''NotAllowedError'' \<or> er_name err = ''AbortError''
      then ''The passkey or wallet prompt was cancelled or timed out.''
      else if er_name err = ''ApiError'' \<and> er_status err = 429 then
        let wait = (case er_retry err of
            Some r \<Rightarrow> if r = [] then '' Try again later.'' else '' Try again in '' @ r @ ''s.''
          | None \<Rightarrow> '' Try again later.'')
        in one_dot (er_message err @ ''.'' @ wait)
      else if er_code err = 4001 then ''You rejected the request in your wallet.''
      else take 300 (if er_message err = [] then er_name err else er_message err))"

text \<open>\<open>message.replace(/^Claim rejected:\s*/i, "")\<close>\<close>

definition drop_rejected :: "string \<Rightarrow> string" where
  "drop_rejected m =
     (if to_lower (take 15 m) = ''claim rejected:'' then dropWhile is_space (drop 15 m) else m)"

definition claimErrorMessage :: "caught \<Rightarrow> string" where
  "claimErrorMessage err =
     (if er_name err \<noteq> ''ApiError'' then describeError err
      else if er_status err = 400 then ''Claim rejected: '' @ drop_rejected (er_message err)
      else if er_status err = 401 then ''The passkey approval expired or did not match this claim. Please try again.''
      else if er_status err = 429 then
        (case er_retry err of
           Some r \<Rightarrow> if r = [] then ''Too many claim attempts. Try again later.''
             else ''Too many claim attempts. Try again in '' @ r @ '' seconds.''
         | None \<Rightarrow> ''Too many claim attempts. Try again later.'')
      else if er_status err = 503 then ''Claims are temporarily unavailable for this chain. Your funds remain in the private lane.''
      else describeError err)"

section \<open>The page\<close>

text \<open>A row is a lane and its balance, \<open>None\<close> when it could not be read.\<close>

record page =
  pg_rows :: "(json \<times> int option) list"
  pg_selected :: "(json \<times> int option) option"
  pg_filter :: string
  pg_busy :: bool
  pg_status :: string

definition lane_prop :: "json \<Rightarrow> string \<Rightarrow> json option" where
  "lane_prop lane k = opt_prop (Some lane) k"

definition privateLanes :: "storage \<Rightarrow> json list" where
  "privateLanes st = filter (\<lambda>l. js_truthy (lane_prop l ''privacy'')) (getLanes st)"

definition visibleRows :: "page \<Rightarrow> (json \<times> int option) list" where
  "visibleRows pg = filter (\<lambda>(lane, balance). pg_filter pg = ''ALL'' \<or> lane_prop lane ''targetChain'' = Some (JStr (pg_filter pg))) (pg_rows pg)"

definition lane_balance :: "(bytes \<Rightarrow> bytes) \<Rightarrow> net \<Rightarrow> json \<Rightarrow> int result" where
  "lane_balance sha net lane =
     tokenBalance sha net (coerce (lane_prop lane ''targetChain'')) (template (lane_prop lane ''targetRecipient''))"

definition refresh :: "(bytes \<Rightarrow> bytes) \<Rightarrow> net \<Rightarrow> storage \<Rightarrow> page \<Rightarrow> page" where
  "refresh sha net st pg =
     (let rows = map (\<lambda>lane. (lane, ok_part (lane_balance sha net lane))) (privateLanes st);
          failed = length (filter (\<lambda>(lane, balance). balance = None) rows) in
      pg\<lparr>pg_rows := rows,
         pg_status := (if failed \<noteq> 0 then ''Some balances could not be read ('' @ nat_string 10 failed @ ''). Try again shortly.''
           else ''Up to date'')\<rparr>)"

text \<open>The total the page shows, in atoms: unread balances count as nothing.\<close>

definition shown_total :: "page \<Rightarrow> int" where
  "shown_total pg = sum_list (map (\<lambda>(lane, balance). case balance of None \<Rightarrow> 0 | Some b \<Rightarrow> b) (visibleRows pg))"

definition can_claim :: "page \<Rightarrow> bool" where
  "can_claim pg \<longleftrightarrow> \<not> pg_busy pg \<and> (case pg_selected pg of Some (lane, Some b) \<Rightarrow> 0 < b | _ \<Rightarrow> False)"

section \<open>Following a claim\<close>

definition is_selected :: "page \<Rightarrow> json \<Rightarrow> bool" where
  "is_selected pg lane \<longleftrightarrow> (case pg_selected pg of None \<Rightarrow> False | Some (l, b) \<Rightarrow> lane_id l = lane_id lane)"

definition show_balance :: "json \<Rightarrow> int \<Rightarrow> page \<Rightarrow> page" where
  "show_balance lane b pg = pg\<lparr>
     pg_rows := map (\<lambda>(l, old). if lane_id l = lane_id lane then (l, Some b) else (l, old)) (pg_rows pg),
     pg_selected := (if is_selected pg lane then Some (lane, Some b) else pg_selected pg)\<rparr>"

text \<open>The balances are what the five reads give.\<close>

fun pollClaimBalance :: "json \<Rightarrow> int \<Rightarrow> string \<Rightarrow> int result list \<Rightarrow> page \<Rightarrow> page" where
  "pollClaimBalance lane previous reference [] pg =
     (if is_selected pg lane
      then pg\<lparr>pg_status := ''Claim reference '' @ short_text ''...'' reference @ '' is queued. The balance has not changed yet.''\<rparr>
      else pg)"
| "pollClaimBalance lane previous reference (r # rs) pg =
     (case r of
        Inl e \<Rightarrow> pollClaimBalance lane previous reference rs pg
      | Inr b \<Rightarrow>
          let pg' = show_balance lane b pg in
          if b < previous then
            (if is_selected pg' lane
             then pg'\<lparr>pg_status := ''Claim reference '' @ short_text ''...'' reference @ '' processed. Remaining balance: ''
               @ formatUsdc (int_string 10 b) 2 @ '' USDC.''\<rparr>
             else pg')
          else pollClaimBalance lane previous reference rs pg')"

section \<open>Claiming\<close>

text \<open>What the page checks before it starts, and what it starts with.\<close>

record planned_claim =
  pl_lane :: json
  pl_balance :: int
  pl_destination :: string
  pl_chain :: chain

definition lane_chain :: "json \<Rightarrow> string" where
  "lane_chain lane = coerce (lane_prop lane ''targetChain'')"

definition claim_plan :: "page \<Rightarrow> string \<Rightarrow> string + planned_claim" where
  "claim_plan pg input =
     (case pg_selected pg of
        None \<Rightarrow> Inl ''Select a lane first.''
      | Some (lane, balance) \<Rightarrow>
          (case canonicalAddress (lane_chain lane) input of
             None \<Rightarrow> Inl (''Enter a valid '' @ chainLabel (lane_chain lane) @ '' destination address.'')
           | Some destination \<Rightarrow>
               (case balance of
                  None \<Rightarrow> Inl ''Nothing to claim on this lane.''
                | Some b \<Rightarrow>
                    if b \<le> 0 then Inl ''Nothing to claim on this lane.''
                    else (case chainByKey (lane_chain lane) of
                        None \<Rightarrow> Inl (''Claiming on '' @ chainLabel (lane_chain lane) @ '' is not supported yet.'')
                      | Some c \<Rightarrow>
                          if claim_builder (ch_kind c) = None
                          then Inl (''Claiming on '' @ chainLabel (lane_chain lane) @ '' is not supported yet.'')
                          else Inr \<lparr>pl_lane = lane, pl_balance = b, pl_destination = destination, pl_chain = c\<rparr>))))"

definition build_claim :: "'w site \<Rightarrow> signers \<Rightarrow> string \<Rightarrow> claim_input \<Rightarrow> ('w, built) act" where
  "build_claim site g kind i =
     seq (get_net site) (\<lambda>net.
     seq (ask (e_now (s_env site))) (\<lambda>now.
     seq (ask (e_random (s_env site) 32)) (\<lambda>rand.
       case claim_builder kind of
         None \<Rightarrow> throw TypeError
       | Some builder \<Rightarrow> of_result (builder g net now rand i))))"

definition unlock :: "'w site \<Rightarrow> planned_claim \<Rightarrow> json option \<Rightarrow> ('w, account \<times> secret_part) act" where
  "unlock site plan config =
     (let lane = pl_lane plan; laneId = template (lane_prop lane ''id'') in
      seq (evaluatePrf (s_env site) (laneSalt (sha_of site) laneId)
            (if js_truthy (lane_prop lane ''prfCredentialId'') then lane_prop lane ''prfCredentialId'' else None)) (\<lambda>secret.
      seq (get_net site) (\<lambda>net.
      seq (of_result (deriveStealthSigner (s_curves site) net secret laneId
            (if js_truthy (lane_prop lane ''index'') then lane_prop lane ''index'' else Some (JNum 0)) (lane_chain lane) config)) (\<lambda>signer.
        if Some (JStr (ac_address signer)) \<noteq> lane_prop lane ''targetRecipient''
        then throw (Error ''This passkey does not match the lane. Use the passkey the lane was created with.'')
        else case ac_secret signer of None \<Rightarrow> throw TypeError | Some sp \<Rightarrow> ret (signer, sp)))))"

definition claim_binding :: "string \<Rightarrow> built \<Rightarrow> string" where
  "claim_binding chain b = ''claim:'' @ apiChain chain @ '':'' @ b_derivedAddress b @ '':'' @ b_txHash b"

definition claim_of :: "string \<Rightarrow> built \<Rightarrow> json option \<Rightarrow> claim" where
  "claim_of chain b token = \<lparr>cl_chain = chain, cl_txHash = b_txHash b, cl_derivedAddress = b_derivedAddress b,
     cl_clientSig = b_clientSig b, cl_verifiedToken = token, cl_calls = Some (b_calls b), cl_auth3009 = b_auth3009 b,
     cl_starknet = b_starknet b, cl_messageBytes = b_messageBytes b\<rparr>"

text \<open>The body of the \<open>try\<close>; it returns the claim that was posted and its reference.\<close>

definition run_claim :: "'w site \<Rightarrow> signers \<Rightarrow> planned_claim \<Rightarrow> ('w, claim \<times> string) act" where
  "run_claim site g plan =
     (let lane = pl_lane plan; chain = lane_chain lane; stored = lane_prop lane ''stealthConfig'' in
      seq (resolveStealthConfig site (Some (pl_chain plan)) (if nullish stored then None else stored)) (\<lambda>config.
      seq (unlock site plan config) (\<lambda>(signer, sp).
      seq (build_claim site g (ch_kind (pl_chain plan)) \<lparr>i_signer = signer, i_secret = sp,
            i_destination = pl_destination plan, i_balance = pl_balance plan, i_config = config\<rparr>) (\<lambda>b.
        if b_txHash b = [] \<or> b_derivedAddress b = [] then throw (Error ''Claim builder returned an incomplete result.'')
        else seq (getVerifiedToken (s_env site) (claim_binding chain b) None 1) (\<lambda>v.
             let c = claim_of chain b (v_token v) in
             seq (submitStealthClaim (e_fetch (s_env site)) c) (\<lambda>res.
               ret (c, if js_truthy (opt_prop (Some res) ''transaction_hash'')
                 then template (opt_prop (Some res) ''transaction_hash'') else b_txHash b)))))))"

text \<open>The handler of the button: nothing while a claim is under way, and never busy when it is over.\<close>

definition claim_page :: "'w site \<Rightarrow> signers \<Rightarrow> string \<Rightarrow> page \<Rightarrow> 'w sys \<Rightarrow> page \<times> claim option \<times> 'w sys" where
  "claim_page site g input pg s =
     (if pg_busy pg then (pg, None, s)
      else case claim_plan pg input of
        Inl m \<Rightarrow> (pg\<lparr>pg_status := m\<rparr>, None, s)
      | Inr plan \<Rightarrow>
          (case run_claim site g plan s of
             (Inl e, s') \<Rightarrow> (pg\<lparr>pg_status := ''Claim failed: '' @ claimErrorMessage (caught_of e), pg_busy := False\<rparr>, None, s')
           | (Inr (c, reference), s') \<Rightarrow>
               (pg\<lparr>pg_status := ''Claim queued. Claim reference: '' @ short_text ''...'' reference @ ''. Checking balance...'',
                   pg_busy := False\<rparr>, Some c, s')))"

section \<open>What is posted\<close>

lemma claim_plan_Inr: "claim_plan pg input = Inr plan \<Longrightarrow>
    pg_selected pg = Some (pl_lane plan, Some (pl_balance plan)) \<and> 0 < pl_balance plan \<and>
    canonicalAddress (lane_chain (pl_lane plan)) input = Some (pl_destination plan) \<and>
    chainByKey (lane_chain (pl_lane plan)) = Some (pl_chain plan)"
  by (auto simp: claim_plan_def split: option.splits if_splits)

lemma unlock_Inr:
  assumes "unlock site plan config s = (Inr (signer, sp), s')"
  shows "lane_prop (pl_lane plan) ''targetRecipient'' = Some (JStr (ac_address signer)) \<and> ac_secret signer = Some sp"
  using assms by (auto simp: unlock_def Let_def run_Inr split: if_splits option.splits)

lemma run_claim_Inr:
  assumes "run_claim site g plan s = (Inr (c, reference), s')"
  obtains config s1 s2 s3 s4 s5 signer sp b v where
    "resolveStealthConfig site (Some (pl_chain plan))
      (if nullish (lane_prop (pl_lane plan) ''stealthConfig'') then None else lane_prop (pl_lane plan) ''stealthConfig'') s = (Inr config, s1)"
    "unlock site plan config s1 = (Inr (signer, sp), s2)"
    "build_claim site g (ch_kind (pl_chain plan)) \<lparr>i_signer = signer, i_secret = sp,
       i_destination = pl_destination plan, i_balance = pl_balance plan, i_config = config\<rparr> s2 = (Inr b, s3)"
    "getVerifiedToken (s_env site) (claim_binding (lane_chain (pl_lane plan)) b) None 1 s3 = (Inr v, s4)"
    "c = claim_of (lane_chain (pl_lane plan)) b (v_token v)" "b_txHash b \<noteq> []"
  using assms by (auto simp: run_claim_def Let_def run_Inr split: if_splits)

lemma resolve_pinned:
  assumes "resolveStealthConfig site (Some c) snapshot s = (Inr config, s')" "js_truthy snapshot" "k \<in> set (pinned_keys c)"
  shows "opt_prop config k = opt_prop snapshot k"
proof -
  obtain base response where "settings_from c snapshot base response = Inr config"
    using assms(1) by (auto simp: resolveStealthConfig_def run_Inr split: if_splits)
  from settings_from_pinned [OF this assms(3)] show ?thesis using assms(2) by auto
qed

lemma build_claim_Inr:
  assumes "build_claim site g kind i s = (Inr b, s')"
  shows "\<exists>builder net now rand. claim_builder kind = Some builder \<and> builder g net now rand i = Inr b"
  using assms by (auto simp: build_claim_def run_Inr split: option.splits) blast

text \<open>
  C6: a posted claim is the one that was approved. While a claim is under way a second click changes nothing, and no claim
  leaves the page busy. When a claim is posted, the lane was selected with a positive balance and the
  destination is the canonical form of what was typed; the derived account is the lane's; a lane with its own
  settings was derived with them; the payload is what the builder of the chain made for the whole balance;
  and the passkey's approval in it was given for the very chain, account and hash that are posted.
\<close>

theorem claim_page_sound:
  "case claim_page site g input pg s of (pg', None, s') \<Rightarrow> (if pg_busy pg then pg' = pg \<and> s' = s else \<not> pg_busy pg')
   | (pg', Some c, s') \<Rightarrow> \<not> pg_busy pg \<and> \<not> pg_busy pg' \<and>
      (\<exists>lane balance chain destination signer secret config b v s3 s4 builder net now rand.
         pg_selected pg = Some (lane, Some balance) \<and> 0 < balance \<and>
         chainByKey (lane_chain lane) = Some chain \<and> canonicalAddress (lane_chain lane) input = Some destination \<and>
         lane_prop lane ''targetRecipient'' = Some (JStr (ac_address signer)) \<and>
         (if js_truthy (lane_prop lane ''stealthConfig'')
          then list_all (\<lambda>k. opt_prop config k = opt_prop (lane_prop lane ''stealthConfig'') k) (pinned_keys chain) else True) \<and>
         claim_builder (ch_kind chain) = Some builder \<and>
         builder g net now rand \<lparr>i_signer = signer, i_secret = secret, i_destination = destination, i_balance = balance,
           i_config = config\<rparr> = Inr b \<and>
         c = claim_of (lane_chain lane) b (v_token v) \<and>
         getVerifiedToken (s_env site) (''claim:'' @ apiChain (cl_chain c) @ '':'' @ cl_derivedAddress c @ '':'' @ cl_txHash c) None 1 s3
           = (Inr v, s4))"
proof (cases "pg_busy pg")
  case True
  then show ?thesis by (simp add: claim_page_def)
next
  case False
  show ?thesis
  proof (cases "claim_plan pg input")
    case (Inl m)
    then show ?thesis using False by (simp add: claim_page_def)
  next
    case (Inr plan)
    let ?lane = "pl_lane plan" and ?stored = "lane_prop (pl_lane plan) ''stealthConfig''"
    obtain r s' where run: "run_claim site g plan s = (r, s')" by (cases "run_claim site g plan s")
    show ?thesis
    proof (cases r)
      case (Inl e)
      then show ?thesis using False Inr run by (simp add: claim_page_def)
    next
      case r: (Inr out)
      obtain c reference where "out = (c, reference)" by (cases out)
      then have out: "run_claim site g plan s = (Inr (c, reference), s')" using run r by simp
      obtain config s1 s2 s3 s4 signer sp b v where steps:
          "resolveStealthConfig site (Some (pl_chain plan)) (if nullish ?stored then None else ?stored) s = (Inr config, s1)"
          "unlock site plan config s1 = (Inr (signer, sp), s2)"
          "build_claim site g (ch_kind (pl_chain plan)) \<lparr>i_signer = signer, i_secret = sp,
             i_destination = pl_destination plan, i_balance = pl_balance plan, i_config = config\<rparr> s2 = (Inr b, s3)"
          "getVerifiedToken (s_env site) (claim_binding (lane_chain ?lane) b) None 1 s3 = (Inr v, s4)"
          "c = claim_of (lane_chain ?lane) b (v_token v)"
        by (rule run_claim_Inr [OF out])
      obtain builder net now rand where builder: "claim_builder (ch_kind (pl_chain plan)) = Some builder"
          "builder g net now rand \<lparr>i_signer = signer, i_secret = sp, i_destination = pl_destination plan,
             i_balance = pl_balance plan, i_config = config\<rparr> = Inr b"
        using build_claim_Inr [OF steps(3)] by blast
      have "js_truthy ?stored \<Longrightarrow> \<not> nullish ?stored" by (cases ?stored) (auto simp: nullish_def js_truthy_def)
      then have pinned: "if js_truthy ?stored then list_all (\<lambda>k. opt_prop config k = opt_prop ?stored k) (pinned_keys (pl_chain plan)) else True"
        using resolve_pinned [OF steps(1)] by (auto simp: list_all_iff)
      have binding: "getVerifiedToken (s_env site) (''claim:'' @ apiChain (cl_chain c) @ '':'' @ cl_derivedAddress c @ '':'' @ cl_txHash c)
          None 1 s3 = (Inr v, s4)"
        using steps(4,5) by (simp add: claim_binding_def claim_of_def)
      show ?thesis
        unfolding claim_page_def if_not_P [OF False] Inr out sum.case prod.case option.case
        using False claim_plan_Inr [OF Inr] unlock_Inr [OF steps(2)] builder steps(5) binding pinned
        by (intro conjI exI [of _ ?lane] exI [of _ "pl_balance plan"] exI [of _ "pl_chain plan"] exI [of _ "pl_destination plan"]
            exI [of _ signer] exI [of _ sp] exI [of _ config] exI [of _ b] exI [of _ v] exI [of _ s3] exI [of _ s4]
            exI [of _ builder] exI [of _ net] exI [of _ now] exI [of _ rand]) simp_all
    qed
  qed
qed

section \<open>Following a claim\<close>

text \<open>The reads change the balance of that lane only, and the page stays as busy as it was.\<close>

lemma pollClaimBalance_others:
  "map fst (pg_rows (pollClaimBalance lane previous reference rs pg)) = map fst (pg_rows pg) \<and>
   filter (\<lambda>(l, b). lane_id l \<noteq> lane_id lane) (pg_rows (pollClaimBalance lane previous reference rs pg))
     = filter (\<lambda>(l, b). lane_id l \<noteq> lane_id lane) (pg_rows pg) \<and>
   pg_busy (pollClaimBalance lane previous reference rs pg) = pg_busy pg"
proof (induction rs arbitrary: pg)
  case (Cons r rs)
  have f: "map fst (map (\<lambda>(l, old). if A l then (l, Some b) else (l, old)) xs) = map fst xs"
    "filter (\<lambda>(l, b). \<not> A l) (map (\<lambda>(l, old). if A l then (l, Some b) else (l, old)) xs) = filter (\<lambda>(l, b). \<not> A l) xs" for A b xs
    by (induction xs) auto
  have "map fst (pg_rows (show_balance lane b pg)) = map fst (pg_rows pg)"
    "filter (\<lambda>(l, b). lane_id l \<noteq> lane_id lane) (pg_rows (show_balance lane b pg)) = filter (\<lambda>(l, b). lane_id l \<noteq> lane_id lane) (pg_rows pg)"
    "pg_busy (show_balance lane b pg) = pg_busy pg" for b
    using f [of "\<lambda>l. lane_id l = lane_id lane" b "pg_rows pg"] by (simp_all add: show_balance_def)
  then show ?case by (cases r) (simp_all add: Cons.IH Let_def)
qed simp

end
