(* ===== verification/Gasless.thy ===== *)
theory Gasless
  imports Lane_Sound Solana_Scan Solana_Tx
begin

text \<open>
  \<open>scripts/gasless.js\<close>: the payer's wallet signs an authorization and the keeper pays the gas. The wallets and the bundled
  Starknet library are parameters; nothing is assumed of a wallet. An error of a wallet that has a numeric code is an
  \<open>RpcError\<close>.
\<close>

section \<open>Results\<close>

definition VALID_FOR_SEC :: int where "VALID_FOR_SEC = 600"

record settlement =
  se_receiver :: string
  se_owner :: string
  se_amountRaw :: string
  se_fromSlot :: "int option"
  se_lastValid :: "json option"

record signed_payment =
  sg_payload :: json
  sg_from :: string
  sg_receiver :: "string option"
  sg_settlement :: "settlement option"

definition randomHex :: "'w site \<Rightarrow> nat \<Rightarrow> ('w, string) act" where
  "randomHex site n = seq (ask (e_random (s_env site) n)) (\<lambda>bs. ret (''0x'' @ hex_of_bytes bs))"

definition now_seconds :: "'w site \<Rightarrow> ('w, int) act" where
  "now_seconds site = seq (ask (e_now (s_env site))) (\<lambda>ms. ret (ms div 1000))"

text \<open>\<open>CHAINS[key]\<close>\<close>

definition chain_entry :: "string \<Rightarrow> chain option" where
  "chain_entry k = find (\<lambda>c. ch_key c = k) CHAINS"

section \<open>EVM: transfer with authorization\<close>

type_synonym 'w provider = "string \<Rightarrow> json list \<Rightarrow> ('w, json option result) query"

fun error_code :: "js_error \<Rightarrow> int option" where
  "error_code (RpcError m c) = c"
| "error_code e = None"

definition chain_id :: "chain \<Rightarrow> int" where
  "chain_id c = (case ch_chainId c of None \<Rightarrow> 0 | Some n \<Rightarrow> n)"

definition add_params :: "chain \<Rightarrow> string \<Rightarrow> json" where
  "add_params c hex = JObj [(''chainId'', JStr hex), (''chainName'', JStr (ch_name c)),
     (''nativeCurrency'', JObj [(''name'', JStr ''Ether''), (''symbol'', JStr ''ETH''), (''decimals'', JNum 18)]),
     (''rpcUrls'', JArr [opt_string (ch_rpc c)]),
     (''blockExplorerUrls'', JArr (if truthy (ch_explorerBase c) then [opt_string (ch_explorerBase c)] else []))]"

definition ensureEvmChain :: "'w provider \<Rightarrow> chain \<Rightarrow> ('w, unit) act" where
  "ensureEvmChain provider c =
     (let hex = ''0x'' @ int_string 16 (chain_id c) in
      seq (handle (ask_result (provider ''wallet_switchEthereumChain'' [JObj [(''chainId'', JStr hex)]]))
            (\<lambda>e. if error_code e \<noteq> Some 4902 then throw e
                 else ask_result (provider ''wallet_addEthereumChain'' [add_params c hex]))) (\<lambda>_.
      seq (ask_result (provider ''eth_chainId'' [])) (\<lambda>current.
        if parseInt16 current \<noteq> Some (chain_id c)
        then throw (Error (''Switch your wallet to '' @ ch_name c @ '' and try again.'')) else ret ())))"

definition evm_message :: "string \<Rightarrow> string \<Rightarrow> string \<Rightarrow> int \<Rightarrow> string \<Rightarrow> (string \<times> json) list" where
  "evm_message from receiver amountRaw now nonce = [(''from'', JStr from), (''to'', JStr receiver), (''value'', JStr amountRaw),
     (''validAfter'', JNum 0), (''validBefore'', JNum (now + VALID_FOR_SEC)), (''nonce'', JStr nonce)]"

definition typed_field :: "string \<times> string \<Rightarrow> json" where
  "typed_field = (\<lambda>(n, t). JObj [(''name'', JStr n), (''type'', JStr t)])"

definition EVM_TYPES :: json where
  "EVM_TYPES = JObj [
     (''EIP712Domain'', JArr (map typed_field [(''name'', ''string''), (''version'', ''string''), (''chainId'', ''uint256''),
        (''verifyingContract'', ''address'')])),
     (''TransferWithAuthorization'', JArr (map typed_field [(''from'', ''address''), (''to'', ''address''), (''value'', ''uint256''),
        (''validAfter'', ''uint256''), (''validBefore'', ''uint256''), (''nonce'', ''bytes32'')]))]"

definition evm_domain :: "chain \<Rightarrow> (string \<times> json) list" where
  "evm_domain c = (case ch_eip712 c of None \<Rightarrow> [] | Some d \<Rightarrow> [(''name'', JStr (eip_name d)), (''version'', JStr (eip_version d))])
     @ [(''chainId'', JNum (chain_id c)), (''verifyingContract'', opt_string (ch_usdc c))]"

definition evm_typed_data :: "chain \<Rightarrow> (string \<times> json) list \<Rightarrow> json" where
  "evm_typed_data c m = JObj [(''types'', EVM_TYPES), (''domain'', JObj (evm_domain c)),
     (''primaryType'', JStr ''TransferWithAuthorization''), (''message'', JObj m)]"

text \<open>\<open>const [from] = accounts\<close>, and \<open>!from\<close>\<close>

definition first_account :: "json option \<Rightarrow> string result" where
  "first_account v = (case v of
      Some (JArr (x # xs)) \<Rightarrow> if js_truthy (Some x) then Inr (js_String x) else Inl (Error ''No wallet account available.'')
    | Some (JArr []) \<Rightarrow> Inl (Error ''No wallet account available.'')
    | Some (JStr (c # s)) \<Rightarrow> Inr [c]
    | Some (JStr []) \<Rightarrow> Inl (Error ''No wallet account available.'')
    | _ \<Rightarrow> Inl TypeError)"

definition signEvmTransfer :: "'w site \<Rightarrow> 'w provider option \<Rightarrow> string \<Rightarrow> string \<Rightarrow> string \<Rightarrow> ('w, signed_payment) act" where
  "signEvmTransfer site ethereum chainKey receiver amountRaw =
     (case chain_entry chainKey of
        None \<Rightarrow> throw (Error ''Gasless payments are not available on this network.'')
      | Some c \<Rightarrow>
          if \<not> canGasless c then throw (Error ''Gasless payments are not available on this network.'')
          else case ethereum of
            None \<Rightarrow> throw (Error ''No EVM wallet detected.'')
          | Some provider \<Rightarrow>
              seq (ask_result (provider ''eth_requestAccounts'' [])) (\<lambda>accounts.
              seq (of_result (first_account accounts)) (\<lambda>from.
              seq (ensureEvmChain provider c) (\<lambda>_.
              seq (now_seconds site) (\<lambda>now.
              seq (randomHex site 32) (\<lambda>nonce.
                let m = evm_message from receiver amountRaw now nonce in
                seq (ask_result (provider ''eth_signTypedData_v4'' [JStr from, JStr (stringify (evm_typed_data c m))])) (\<lambda>signature.
                  ret \<lparr>sg_payload = JObj ([(''kind'', JStr ''evm'')] @ m @ opt_field ''signature'' signature),
                       sg_from = from, sg_receiver = None, sg_settlement = None\<rparr>)))))))"

section \<open>Starknet: outside execution\<close>

definition SNIP9_V1_INTERFACE_ID :: string where
  "SNIP9_V1_INTERFACE_ID = ''0x68cfd18b92d1907b8ba3cc324900277f5a3622099431ea85dd8089255e4181''"

definition SNIP9_V2_INTERFACE_ID :: string where
  "SNIP9_V2_INTERFACE_ID = ''0x1d1144bb2138366ff28d8e9ab57456b1d332ac42196230c3a602003c89872''"

text \<open>The functions of the bundled library that are used.\<close>

record starklib =
  k_selector :: "string \<Rightarrow> string"
  k_address :: "string \<Rightarrow> string result"
  k_transfer :: "string \<Rightarrow> string \<Rightarrow> string list result"

record outside_call =
  oc_to :: string
  oc_selector :: string
  oc_calldata :: "string list"

record outside_execution =
  oe_caller :: string
  oe_nonce :: string
  oe_after :: int
  oe_before :: int
  oe_calls :: "outside_call list"

definition call_fields :: "outside_call \<Rightarrow> (string \<times> json) list" where
  "call_fields c = [(''to'', JStr (oc_to c)), (''selector'', JStr (oc_selector c)), (''calldata'', JArr (map JStr (oc_calldata c)))]"

definition exec_fields :: "outside_execution \<Rightarrow> json list \<Rightarrow> (string \<times> json) list" where
  "exec_fields e calls = [(''caller'', JStr (oe_caller e)), (''nonce'', JStr (oe_nonce e)),
     (''execute_after'', JNum (oe_after e)), (''execute_before'', JNum (oe_before e)), (''calls'', JArr calls)]"

definition outside_json :: "outside_execution \<Rightarrow> json" where
  "outside_json e = JObj (exec_fields e (map (\<lambda>c. JObj (call_fields c)) (oe_calls e)))"

definition TYPES_REV0 :: json where
  "TYPES_REV0 = JObj [
     (''StarkNetDomain'', JArr (map typed_field [(''name'', ''felt''), (''version'', ''felt''), (''chainId'', ''felt'')])),
     (''OutsideExecution'', JArr (map typed_field [(''caller'', ''felt''), (''nonce'', ''felt''), (''execute_after'', ''felt''),
        (''execute_before'', ''felt''), (''calls_len'', ''felt''), (''calls'', ''OutsideCall*'')])),
     (''OutsideCall'', JArr (map typed_field [(''to'', ''felt''), (''selector'', ''felt''), (''calldata_len'', ''felt''), (''calldata'', ''felt*'')]))]"

definition TYPES_REV1 :: json where
  "TYPES_REV1 = JObj [
     (''StarknetDomain'', JArr (map typed_field [(''name'', ''shortstring''), (''version'', ''shortstring''), (''chainId'', ''shortstring''),
        (''revision'', ''shortstring'')])),
     (''OutsideExecution'', JArr (map typed_field [(''Caller'', ''ContractAddress''), (''Nonce'', ''felt''), (''Execute After'', ''u128''),
        (''Execute Before'', ''u128''), (''Calls'', ''Call*'')])),
     (''Call'', JArr (map typed_field [(''To'', ''ContractAddress''), (''Selector'', ''selector''), (''Calldata'', ''felt*'')]))]"

definition typed_domain :: "string \<Rightarrow> string \<Rightarrow> (string \<times> json) list" where
  "typed_domain version chainId = [(''name'', JStr ''Account.execute_from_outside''), (''version'', JStr version), (''chainId'', JStr chainId)]"

definition buildTypedData :: "outside_execution \<Rightarrow> string \<Rightarrow> string \<Rightarrow> json" where
  "buildTypedData e chainId version =
     (if version = ''2'' then JObj [(''types'', TYPES_REV1), (''primaryType'', JStr ''OutsideExecution''),
        (''domain'', JObj (typed_domain ''2'' chainId @ [(''revision'', JStr ''1'')])),
        (''message'', JObj [(''Caller'', JStr (oe_caller e)), (''Nonce'', JStr (oe_nonce e)),
          (''Execute After'', JNum (oe_after e)), (''Execute Before'', JNum (oe_before e)),
          (''Calls'', JArr (map (\<lambda>c. JObj [(''To'', JStr (oc_to c)), (''Selector'', JStr (oc_selector c)),
             (''Calldata'', JArr (map JStr (oc_calldata c)))]) (oe_calls e)))])]
      else JObj [(''types'', TYPES_REV0), (''primaryType'', JStr ''OutsideExecution''),
        (''domain'', JObj (typed_domain ''1'' chainId)),
        (''message'', JObj (exec_fields e (map (\<lambda>c. JObj (call_fields c @ [(''calldata_len'', JNum (int (length (oc_calldata c))))])) (oe_calls e))
          @ [(''calls_len'', JNum (int (length (oe_calls e))))]))])"

definition starknet_chain :: "chain option" where
  "starknet_chain = chainByKey ''STARKNET''"

definition supportsInterface :: "starklib \<Rightarrow> net \<Rightarrow> string \<Rightarrow> string \<Rightarrow> bool result" where
  "supportsInterface lib net address interfaceId =
     then_do (rpcCall net (case starknet_chain of None \<Rightarrow> [] | Some c \<Rightarrow> direct_url c) ''starknet_call''
        [JObj [(''contract_address'', JStr address), (''entry_point_selector'', JStr (k_selector lib ''supports_interface'')),
               (''calldata'', JArr [JStr interfaceId])], JStr ''latest'']) (\<lambda>out.
       case as_array out of
         None \<Rightarrow> Inr False
       | Some [] \<Rightarrow> Inr False
       | Some (x # xs) \<Rightarrow> then_do (BigInt_json x) (\<lambda>n. Inr (n \<noteq> 0)))"

text \<open>The two questions, each to the network of its moment.\<close>

definition detectSnip9Version :: "starklib \<Rightarrow> net \<Rightarrow> net \<Rightarrow> string \<Rightarrow> string result" where
  "detectSnip9Version lib net net' address =
     (let v2 = supportsInterface lib net address SNIP9_V2_INTERFACE_ID;
          v1 = supportsInterface lib net' address SNIP9_V1_INTERFACE_ID in
      if v2 = Inr True then Inr ''2''
      else if v1 = Inr True then Inr ''1''
      else if v2 = Inr False \<or> v1 = Inr False
      then Inl (Error ''This Starknet account does not support gasless (SNIP-9) transfers.'')
      else Inr ''2'')"

definition toHexFelt :: "json option \<Rightarrow> string result" where
  "toHexFelt v = then_do (BigInt_opt v) (\<lambda>n. Inr (''0x'' @ int_string 16 n))"

definition signature_list :: "json option \<Rightarrow> string list result" where
  "signature_list answer =
     (case as_array answer of
        Some xs \<Rightarrow> Inr (map js_String xs)
      | None \<Rightarrow> then_do (get_prop answer ''r'') (\<lambda>r. then_do (toHexFelt r) (\<lambda>r'.
          then_do (get_prop answer ''s'') (\<lambda>s. then_do (toHexFelt s) (\<lambda>s'. Inr [r', s'])))))"

text \<open>What a wallet shows once it is enabled; an absent function is \<open>None\<close>.\<close>

record 'w stark_view =
  sv_selected :: "string option"
  sv_address :: "string option"
  sv_sign :: "(json \<Rightarrow> ('w, json option result) query) option"
  sv_account_chain :: "('w, json option result) query option"
  sv_provider_chain :: "('w, json option result) query option"
  sv_chainId :: "json option"

record 'w stark_wallet =
  sw_connected :: bool
  sw_enable :: "('w, unit result) query"
  sw_view :: "('w, 'w stark_view) query"

definition reported_chain :: "'w stark_view \<Rightarrow> ('w, string) act" where
  "reported_chain v =
     seq (handle
       (case sv_account_chain v of
          Some q \<Rightarrow> ask_result q
        | None \<Rightarrow> (case sv_provider_chain v of
             Some q \<Rightarrow> ask_result q
           | None \<Rightarrow> ret (if js_truthy (sv_chainId v) then sv_chainId v else None)))
       (\<lambda>e. ret None)) (\<lambda>reported.
     ret (if js_truthy reported then template reported else ''0x534e5f4d41494e''))"

definition is_mainnet :: "string \<Rightarrow> bool" where
  "is_mainnet chainId \<longleftrightarrow> to_lower chainId = ''sn_main'' \<or> to_lower chainId = ''0x534e5f4d41494e''"

definition transfer_execution :: "starklib \<Rightarrow> string \<Rightarrow> string \<Rightarrow> string \<Rightarrow> string \<Rightarrow> int \<Rightarrow> string list \<Rightarrow> outside_execution" where
  "transfer_execution lib caller token selector nonce now calldata =
     \<lparr>oe_caller = caller, oe_nonce = nonce, oe_after = now - 60, oe_before = now + VALID_FOR_SEC,
      oe_calls = [\<lparr>oc_to = token, oc_selector = selector, oc_calldata = calldata\<rparr>]\<rparr>"

definition stark_payload :: "outside_execution \<Rightarrow> string list \<Rightarrow> string \<Rightarrow> json" where
  "stark_payload e signature user = JObj [(''kind'', JStr ''starknet''), (''outsideExecution'', outside_json e),
     (''signature'', JArr (map JStr signature)), (''userAddress'', JStr user)]"

definition signStarknetTransfer ::
    "'w site \<Rightarrow> starklib \<Rightarrow> 'w stark_wallet option \<Rightarrow> string \<Rightarrow> string \<Rightarrow> ('w, signed_payment \<times> string) act" where
  "signStarknetTransfer site lib wallet receiver amountRaw =
     (case starknet_chain of
        None \<Rightarrow> throw TypeError
      | Some c \<Rightarrow>
      if \<not> canGasless c then throw (Error ''Gasless payments are not available on Starknet.'')
      else case wallet of
        None \<Rightarrow> throw (Error ''No Starknet wallet detected.'')
      | Some wal \<Rightarrow>
      seq (if sw_connected wal then ret () else ask_result (sw_enable wal)) (\<lambda>_.
      seq (ask (sw_view wal)) (\<lambda>v.
      let rawUser = (if truthy (sv_selected v) then sv_selected v else sv_address v) in
      if \<not> truthy rawUser then throw (Error ''Could not read your Starknet account.'')
      else case sv_sign v of
        None \<Rightarrow> throw (Error ''This wallet cannot sign SNIP-9 messages.'')
      | Some sign \<Rightarrow>
      seq (of_result (k_address lib (the rawUser))) (\<lambda>user.
      seq (of_result (k_address lib KEEPER_STARKNET_ADDRESS)) (\<lambda>caller.
      seq (reported_chain v) (\<lambda>chainId.
      if \<not> is_mainnet chainId then throw (Error ''Switch your Starknet wallet to mainnet and try again.'')
      else
      seq (get_net site) (\<lambda>net.
      seq (get_net site) (\<lambda>net'.
      seq (of_result (detectSnip9Version lib net net' user)) (\<lambda>version.
      seq (of_result (then_do (k_address lib receiver) (\<lambda>to. k_transfer lib to amountRaw))) (\<lambda>calldata.
      seq (now_seconds site) (\<lambda>now.
      seq (randomHex site 31) (\<lambda>nonce.
      seq (of_result (k_address lib (usdc_text c))) (\<lambda>token.
      let e = transfer_execution lib caller token (k_selector lib ''transfer'') nonce now calldata in
      seq (ask_result (sign (buildTypedData e chainId version))) (\<lambda>answer.
      seq (of_result (signature_list answer)) (\<lambda>signature.
        ret (\<lparr>sg_payload = stark_payload e signature user, sg_from = user, sg_receiver = None, sg_settlement = None\<rparr>, version))))))))))))))))"

section \<open>Solana: a message the keeper pays for\<close>

record sol_account =
  so_address :: string
  so_chains :: "string list"

record 'w sol_wallet =
  so_sign :: "(sol_account \<Rightarrow> bytes \<Rightarrow> string \<Rightarrow> ('w, bytes result) query) option"
  so_connect :: "('w, unit result) query option"
  so_supported :: "string list"
  so_accounts :: "('w, sol_account list) query"

definition wallet_chain :: "chain \<Rightarrow> string" where
  "wallet_chain c = (case ch_walletChain c of None \<Rightarrow> ''undefined'' | Some w \<Rightarrow> w)"

definition supportsSolanaPay :: "'w sol_wallet \<Rightarrow> chain \<Rightarrow> bool" where
  "supportsSolanaPay wal c \<longleftrightarrow> so_sign wal \<noteq> None \<and> so_connect wal \<noteq> None \<and> wallet_chain c \<in> set (so_supported wal)"

text \<open>Registered wallets are not registered again.\<close>

definition register_wallets :: "'w list \<Rightarrow> 'w list \<Rightarrow> 'w list" where
  "register_wallets known ws = foldl (\<lambda>acc w. if w \<in> set acc then acc else acc @ [w]) known ws"

definition connectSolanaWallet :: "'w sol_wallet list \<Rightarrow> chain \<Rightarrow> ('w, 'w sol_wallet \<times> sol_account) act" where
  "connectSolanaWallet wallets c =
     (case find (\<lambda>wal. supportsSolanaPay wal c) wallets of
        None \<Rightarrow> throw (Error ''No Solana wallet detected.'')
      | Some wal \<Rightarrow>
          seq (ask (so_accounts wal)) (\<lambda>before.
          seq (if before = [] then (case so_connect wal of None \<Rightarrow> throw TypeError | Some q \<Rightarrow> ask_result q) else ret ()) (\<lambda>_.
          seq (ask (so_accounts wal)) (\<lambda>accounts.
            case find (\<lambda>a. wallet_chain c \<in> set (so_chains a)) accounts of
              Some a \<Rightarrow> ret (wal, a)
            | None \<Rightarrow> (case accounts of [] \<Rightarrow> throw (Error ''No Solana account available.'') | a # rest \<Rightarrow> ret (wal, a))))))"

definition keeper_of :: "chain \<Rightarrow> string" where
  "keeper_of c = (case ch_keeper c of None \<Rightarrow> [] | Some k \<Rightarrow> k)"

definition payer_args :: "chain \<Rightarrow> string \<Rightarrow> string \<Rightarrow> string \<Rightarrow> string \<Rightarrow> string \<Rightarrow> transfer_args" where
  "payer_args c owner source destination amountRaw blockhash = \<lparr>t_feePayer = keeper_of c, t_owner = owner, t_source = source,
     t_destination = destination, t_mint = usdc_text c, t_amount = amountRaw, t_decimals = 6, t_blockhash = blockhash\<rparr>"

definition has_funds :: "(bytes \<Rightarrow> bytes) \<Rightarrow> net \<Rightarrow> chain \<Rightarrow> string \<Rightarrow> string \<Rightarrow> unit result" where
  "has_funds sha net c owner amountRaw =
     then_do (tokenBalance sha net (ch_key c) owner) (\<lambda>balance.
     then_do (to_BigInt amountRaw) (\<lambda>amount.
       if balance < amount then Inl (Error ''This Solana wallet does not hold enough USDC.'') else Inr ()))"

definition destination_of :: "(bytes \<Rightarrow> bytes) \<Rightarrow> chain \<Rightarrow> string \<Rightarrow> string result" where
  "destination_of sha c receiver =
     (if SOLANA_RECEIVER_KIND = ''token-account'' then Inr receiver else usdcAta sha receiver (usdc_text c))"

text \<open>\<open>Math.max(0, (await headBlock(key).catch(() => 0)) - 5)\<close>\<close>

definition start_slot :: "net \<Rightarrow> string \<Rightarrow> int option" where
  "start_slot net k = (case headBlock net k of Inl e \<Rightarrow> Some 0 | Inr h \<Rightarrow> map_option (\<lambda>n. max 0 (n - 5)) h)"

text \<open>What the wallet gave back: the message unchanged, and the owner's signature in the second place.\<close>

definition owner_signature :: "bytes \<Rightarrow> bytes \<Rightarrow> bytes result" where
  "owner_signature msg bs =
     then_do (parseTransaction bs) (\<lambda>(signatures, out).
       if out \<noteq> msg
       then Inl (Error ''Your wallet modified the transaction, so it cannot be relayed. Try another Solana wallet.'')
       else if length signatures < 2 \<or> list_all (\<lambda>b. b = 0) (signatures ! 1)
       then Inl (Error ''The wallet did not sign the transaction.'') else Inr (signatures ! 1))"

definition signSolanaTransfer :: "'w site \<Rightarrow> 'w sol_wallet list \<Rightarrow> string \<Rightarrow> string \<Rightarrow> ('w, signed_payment) act" where
  "signSolanaTransfer site wallets receiver amountRaw =
     (case solana_chain of
        None \<Rightarrow> throw TypeError
      | Some c \<Rightarrow>
      if \<not> canGasless c then throw (Error ''Gasless payments are not available on Solana.'')
      else
      seq (of_result (pubkeyBytes (keeper_of c) ''keeper address'')) (\<lambda>_.
      seq (connectSolanaWallet wallets c) (\<lambda>(wal, account).
      let owner = so_address account in
      seq (get_net site) (\<lambda>net.
      seq (of_result (has_funds (sha_of site) net c owner amountRaw)) (\<lambda>_.
      seq (of_result (usdcAta (sha_of site) owner (usdc_text c))) (\<lambda>source.
      seq (of_result (destination_of (sha_of site) c receiver)) (\<lambda>destination.
      seq (get_net site) (\<lambda>net.
      seq (of_result (then_do (rpc net (ch_key c) ''getLatestBlockhash'' [JObj [(''commitment'', JStr ''confirmed'')]] Default)
        (\<lambda>r. get_prop r ''value''))) (\<lambda>val.
      seq (get_net site) (\<lambda>net.
      let fromSlot = start_slot net (ch_key c) in
      seq (of_result (then_do (get_prop val ''blockhash'') (\<lambda>h.
        buildTransferCheckedMessage (payer_args c owner source destination amountRaw (template h))))) (\<lambda>message.
      case so_sign wal of
        None \<Rightarrow> throw TypeError
      | Some sign \<Rightarrow>
      seq (ask_result (sign account (unsignedTransaction message 2) (wallet_chain c))) (\<lambda>out.
      seq (of_result (owner_signature message out)) (\<lambda>signature.
        ret \<lparr>sg_payload = JObj [(''kind'', JStr ''solana''), (''message'', JStr (toBase64 message)),
               (''signature'', JStr (toBase64 signature)), (''owner'', JStr owner)],
             sg_from = owner, sg_receiver = Some destination,
             sg_settlement = Some \<lparr>se_receiver = receiver, se_owner = owner, se_amountRaw = amountRaw, se_fromSlot = fromSlot,
               se_lastValid = opt_prop val ''lastValidBlockHeight''\<rparr>\<rparr>)))))))))))))"

section \<open>Waiting for the settlement\<close>

definition SETTLE_MAX_POLLS :: nat where "SETTLE_MAX_POLLS = 40"

datatype settled = Confirmed | Expired | Unknown

text \<open>One poll: the height first, the scan after. \<open>nets\<close> is the network at each step of the poll.\<close>

definition settle_poll ::
    "(bytes \<Rightarrow> bytes) \<Rightarrow> settlement \<Rightarrow> (nat \<Rightarrow> net) \<Rightarrow> int option \<Rightarrow> (int option \<times> deposit list \<times> int option) result" where
  "settle_poll sha se nets cursor =
     then_do (rpc (nets 0) ''SOLANA'' ''getBlockHeight'' [JObj [(''commitment'', JStr ''finalized'')]] Default) (\<lambda>h.
       case scanDeposits sha (\<lambda>i. nets (Suc i)) ''SOLANA'' (se_receiver se) cursor of
         None \<Rightarrow> Inl TypeError
       | Some r \<Rightarrow> then_do r (\<lambda>(ds, nx). Inr (js_Number h, ds, nx)))"

definition pays :: "settlement \<Rightarrow> deposit \<Rightarrow> bool" where
  "pays se d \<longleftrightarrow> d_amount d = se_amountRaw se \<and> d_from d = Some (JStr (se_owner se))"

definition past_expiry :: "settlement \<Rightarrow> int option \<Rightarrow> bool" where
  "past_expiry se height = num_less (js_Number (se_lastValid se)) height"

fun settle :: "(bytes \<Rightarrow> bytes) \<Rightarrow> settlement \<Rightarrow> (nat \<Rightarrow> net) list \<Rightarrow> int option \<Rightarrow> settled" where
  "settle sha se [] cursor = Unknown"
| "settle sha se (nets # polls) cursor =
     (case settle_poll sha se nets cursor of
        Inl e \<Rightarrow> settle sha se polls cursor
      | Inr (height, ds, nx) \<Rightarrow>
          if list_ex (pays se) ds then Confirmed
          else if past_expiry se height then Expired
          else settle sha se polls nx)"

definition awaitSolanaSettlement :: "(bytes \<Rightarrow> bytes) \<Rightarrow> settlement \<Rightarrow> (nat \<Rightarrow> nat \<Rightarrow> net) \<Rightarrow> settled" where
  "awaitSolanaSettlement sha se polls = settle sha se (map polls [0..<SETTLE_MAX_POLLS]) (se_fromSlot se)"

section \<open>What was signed is what is sent\<close>

lemma chain_entry_Some: "chain_entry k = Some c \<Longrightarrow> c \<in> set CHAINS \<and> ch_key c = k"
  unfolding chain_entry_def by (drule find_Some_set) simp

lemma ensureEvmChain_Inr:
  assumes "ensureEvmChain provider c s = (Inr u, s')"
  shows "\<exists>w w' current. provider ''eth_chainId'' [] w = (Inr current, w') \<and> parseInt16 current = Some (chain_id c)"
  using assms by (auto simp: ensureEvmChain_def Let_def run_Inr ask_result_Inr split: if_splits)

text \<open>
  A gasless EVM payment is the authorization the wallet signed. When it returns, the chain is one of the table, the
  wallet said it is on that chain, and the signature in the payload is what the wallet answered to signing
  exactly this: a transfer from the account to the receiver of the amount, of the chain's USDC contract and in
  its domain, valid for ten minutes from now, with the nonce of the payload.
\<close>

lemma evm_payment_signed:
  assumes "signEvmTransfer site ethereum chainKey receiver amountRaw s = (Inr p, s')"
  shows "\<exists>c provider payer now nonce signature w1 w2 w3 w4 current.
    chain_entry chainKey = Some c \<and> canGasless c \<and> ethereum = Some provider \<and>
    provider ''eth_chainId'' [] w1 = (Inr current, w2) \<and> parseInt16 current = Some (chain_id c) \<and>
    provider ''eth_signTypedData_v4'' [JStr payer, JStr (stringify (JObj [(''types'', EVM_TYPES), (''domain'', JObj (evm_domain c)),
       (''primaryType'', JStr ''TransferWithAuthorization''),
       (''message'', JObj [(''from'', JStr payer), (''to'', JStr receiver), (''value'', JStr amountRaw),
         (''validAfter'', JNum 0), (''validBefore'', JNum (now + 600)), (''nonce'', JStr nonce)])]))] w3 = (Inr signature, w4) \<and>
    sg_from p = payer \<and>
    sg_payload p = JObj ([(''kind'', JStr ''evm''), (''from'', JStr payer), (''to'', JStr receiver), (''value'', JStr amountRaw),
         (''validAfter'', JNum 0), (''validBefore'', JNum (now + 600)), (''nonce'', JStr nonce)] @ opt_field ''signature'' signature)"
proof -
  obtain c provider where c: "chain_entry chainKey = Some c" "canGasless c" "ethereum = Some provider"
    using assms by (auto simp: signEvmTransfer_def throw_Inr split: option.splits if_splits)
  obtain payer now nonce signature s1 s2 s3 s4 where steps: "ensureEvmChain provider c s1 = (Inr (), s2)"
      "ask_result (provider ''eth_signTypedData_v4'' [JStr payer,
         JStr (stringify (evm_typed_data c (evm_message payer receiver amountRaw now nonce)))]) s3 = (Inr signature, s4)"
      "p = \<lparr>sg_payload = JObj ([(''kind'', JStr ''evm'')] @ evm_message payer receiver amountRaw now nonce @ opt_field ''signature'' signature),
         sg_from = payer, sg_receiver = None, sg_settlement = None\<rparr>"
    using assms by (auto simp: signEvmTransfer_def c run_Inr Let_def)
  obtain w1 w2 current where "provider ''eth_chainId'' [] w1 = (Inr current, w2)" "parseInt16 current = Some (chain_id c)"
    using ensureEvmChain_Inr [OF steps(1)] by blast
  moreover have "provider ''eth_signTypedData_v4'' [JStr payer,
         JStr (stringify (evm_typed_data c (evm_message payer receiver amountRaw now nonce)))] (snd s3) = (Inr signature, snd s4)"
    using steps(2) by (simp only: ask_result_Inr)
  moreover have "sg_from p = payer"
    "sg_payload p = JObj ([(''kind'', JStr ''evm'')] @ evm_message payer receiver amountRaw now nonce @ opt_field ''signature'' signature)"
    by (simp_all only: steps(3) signed_payment.select_convs)
  ultimately show ?thesis
    using c unfolding evm_typed_data_def evm_message_def VALID_FOR_SEC_def append_Cons append_Nil
    by (intro exI conjI) assumption+
qed

definition toy_provider :: "unit provider" where
  "toy_provider method params w =
     (Inr (if method = ''eth_requestAccounts'' then Some (JArr [JStr ''A'']) else if method = ''eth_chainId'' then Some (JStr ''2105'') else Some (JStr ''S'')), w)"

lemma toy_ask: "ask_result (toy_provider method params) s = (Inr (if method = ''eth_requestAccounts'' then Some (JArr [JStr ''A''])
    else if method = ''eth_chainId'' then Some (JStr ''2105'') else Some (JStr ''S'')), s)"
  by (cases s) (simp add: ask_result_def toy_provider_def)

lemma evm_payment_signed_witness:
  "\<exists>p. signEvmTransfer (still_site factory_net) (Some toy_provider) ''BASE'' ''R'' ''7'' (Map.empty, ()) = (Inr p, (Map.empty, ())) \<and>
     sg_from p = ''A''"
proof -
  obtain c where c: "chain_entry ''BASE'' = Some c" "canGasless c" "chain_id c = 8453"
    by (simp add: chain_entry_def CHAINS_def canGasless_def truthy_def chain_id_def)
  have "parseInt16 (Some (JStr ''2105'')) = Some 8453"
    by (simp add: parseInt16_def template_def char_eval strip_0x_def is_space_def Let_def digit_num_def digit_val_def of_digits_def)
  then have e: "ensureEvmChain toy_provider c (Map.empty, ()) = (Inr (), (Map.empty, ()))"
    by (simp add: ensureEvmChain_def Let_def seq_def handle_def toy_ask c ret_def)
  have "\<exists>p. signEvmTransfer (still_site factory_net) (Some toy_provider) ''BASE'' ''R'' ''7'' (Map.empty, ()) = (Inr p, (Map.empty, ()))"
    by (simp add: signEvmTransfer_def c seq_def toy_ask of_result_def first_account_def js_truthy_def e now_seconds_def randomHex_def
        still_site_env still_ask ret_def Let_def)
  then obtain p where p: "signEvmTransfer (still_site factory_net) (Some toy_provider) ''BASE'' ''R'' ''7'' (Map.empty, ()) = (Inr p, (Map.empty, ()))" ..
  have "sg_from p = ''A''"
    using p by (simp add: signEvmTransfer_def c seq_def toy_ask of_result_def first_account_def js_truthy_def e now_seconds_def randomHex_def
        still_site_env still_ask ret_def Let_def) auto
  then show ?thesis using evm_payment_signed [OF p] p by blast
qed

section \<open>The version of an account\<close>

text \<open>
  The signing format. The second revision is used when the account says it supports it, and otherwise when neither
  question could be answered; the first when only that is supported; and an account that answered without
  supporting either is refused.
\<close>

lemma snip9_version:
  "detectSnip9Version lib net net' address =
     (case (supportsInterface lib net address SNIP9_V2_INTERFACE_ID, supportsInterface lib net' address SNIP9_V1_INTERFACE_ID) of
        (Inr True, v1) \<Rightarrow> Inr ''2''
      | (v2, Inr True) \<Rightarrow> Inr ''1''
      | (Inl e, Inl e') \<Rightarrow> Inr ''2''
      | (v2, v1) \<Rightarrow> Inl (Error ''This Starknet account does not support gasless (SNIP-9) transfers.''))"
  by (cases "supportsInterface lib net address SNIP9_V2_INTERFACE_ID"; cases "supportsInterface lib net' address SNIP9_V1_INTERFACE_ID")
    (auto simp: detectSnip9Version_def Let_def split: bool.splits)

section \<open>The Solana payment\<close>

lemma owner_signature_Inr: "owner_signature msg bs = Inr sig \<longleftrightarrow>
    (\<exists>signatures. parseTransaction bs = Inr (signatures, msg) \<and> 2 \<le> length signatures \<and> sig = signatures ! 1 \<and> \<not> list_all (\<lambda>b. b = 0) sig)"
  by (auto simp: owner_signature_def then_do_Inr not_less split: if_splits)

lemma transfer_read:
  assumes "buildTransferCheckedMessage a = Inr bs"
  shows "\<exists>keys hash v. list_all2 (\<lambda>k b. length b = 32 \<and> k = base58Encode b) (transfer_keys a) keys \<and> distinct keys \<and>
    js_BigInt (t_amount a) = Some v \<and> 0 \<le> v \<and> v < 2 ^ 64 \<and> decode_message bs = Some (transfer_message keys hash v (t_decimals a))"
proof -
  obtain keys hash v where k: "key_bytes ''key'' (transfer_keys a) = Inr keys" "distinct (transfer_keys a)"
      "pubkeyBytes (t_blockhash a) ''blockhash'' = Inr hash" "js_BigInt (t_amount a) = Some v" "0 \<le> v" "v < 2 ^ 64"
      "bs = ser_message (transfer_message keys hash v (t_decimals a))"
    using assms by (auto simp: buildTransferCheckedMessage_Inr)
  have "length hash = 32" using k(3) by (auto simp: pubkeyBytes_Inr)
  then have "decode_message bs = Some (transfer_message keys hash v (t_decimals a))"
    unfolding k(7) using k(1) key_bytes_length by (intro decode_ser_message) (auto simp: wf_message_def transfer_message_def)
  moreover have "distinct keys" using key_bytes_distinct [OF k(1)] k(2) by simp
  ultimately show ?thesis using k key_bytes_Inr by blast
qed

lemma signSolanaTransfer_Inr:
  assumes "signSolanaTransfer site wallets receiver amountRaw s = (Inr p, s')"
  shows "\<exists>c owner source destination msg signature signatures out keys hash v.
    solana_chain = Some c \<and> canGasless c \<and>
    usdcAta (sha_of site) owner (usdc_text c) = Inr source \<and> destination_of (sha_of site) c receiver = Inr destination \<and>
    js_BigInt amountRaw = Some v \<and> decode_message msg = Some (transfer_message keys hash v 6) \<and>
    list_all2 (\<lambda>k b. length b = 32 \<and> k = base58Encode b) [keeper_of c, owner, source, destination, usdc_text c, TOKEN_PROGRAM] keys \<and>
    distinct keys \<and> parseTransaction out = Inr (signatures, msg) \<and> 2 \<le> length signatures \<and> signature = signatures ! 1 \<and>
    \<not> list_all (\<lambda>b. b = 0) signature \<and> sg_from p = owner \<and> sg_receiver p = Some destination \<and>
    sg_payload p = JObj [(''kind'', JStr ''solana''), (''message'', JStr (toBase64 msg)),
               (''signature'', JStr (toBase64 signature)), (''owner'', JStr owner)]"
proof -
  obtain c where c: "solana_chain = Some c" "canGasless c"
    using assms by (auto simp: signSolanaTransfer_def throw_Inr split: option.splits if_splits)
  obtain owner source destination msg signature out h settlement where steps:
      "usdcAta (sha_of site) owner (usdc_text c) = Inr source" "destination_of (sha_of site) c receiver = Inr destination"
      "buildTransferCheckedMessage (payer_args c owner source destination amountRaw h) = Inr msg"
      "owner_signature msg out = Inr signature"
      "p = \<lparr>sg_payload = JObj [(''kind'', JStr ''solana''), (''message'', JStr (toBase64 msg)),
               (''signature'', JStr (toBase64 signature)), (''owner'', JStr owner)],
             sg_from = owner, sg_receiver = Some destination, sg_settlement = settlement\<rparr>"
    using assms by (auto simp: signSolanaTransfer_def c run_Inr then_do_Inr Let_def split: option.splits prod.splits)
  obtain keys hash v where m: "list_all2 (\<lambda>k b. length b = 32 \<and> k = base58Encode b)
      [keeper_of c, owner, source, destination, usdc_text c, TOKEN_PROGRAM] keys" "distinct keys" "js_BigInt amountRaw = Some v"
      "decode_message msg = Some (transfer_message keys hash v 6)"
    using transfer_read [OF steps(3)] by (auto simp: transfer_keys_def payer_args_def)
  obtain signatures where "parseTransaction out = Inr (signatures, msg)" "2 \<le> length signatures" "signature = signatures ! 1"
      "\<not> list_all (\<lambda>b. b = 0) signature"
    using steps(4) unfolding owner_signature_Inr by blast
  moreover have "sg_from p = owner" "sg_receiver p = Some destination"
    "sg_payload p = JObj [(''kind'', JStr ''solana''), (''message'', JStr (toBase64 msg)),
               (''signature'', JStr (toBase64 signature)), (''owner'', JStr owner)]"
    by (simp_all only: steps(5) signed_payment.select_convs)
  ultimately show ?thesis
    using c steps(1,2) m by (intro exI conjI) assumption+
qed


section \<open>The settlement\<close>

text \<open>All the answers the polls give, when none of them ends the wait.\<close>

fun poll_answers ::
    "(bytes \<Rightarrow> bytes) \<Rightarrow> settlement \<Rightarrow> (nat \<Rightarrow> net) list \<Rightarrow> int option \<Rightarrow> (int option \<times> deposit list) list" where
  "poll_answers sha se [] cursor = []"
| "poll_answers sha se (nets # polls) cursor =
     (case settle_poll sha se nets cursor of
        Inl e \<Rightarrow> poll_answers sha se polls cursor
      | Inr (height, ds, nx) \<Rightarrow> (height, ds) # poll_answers sha se polls nx)"

lemma settle_first: "settle sha se polls cursor =
    (case find (\<lambda>(h, ds). list_ex (pays se) ds \<or> past_expiry se h) (poll_answers sha se polls cursor) of
       None \<Rightarrow> Unknown | Some (h, ds) \<Rightarrow> if list_ex (pays se) ds then Confirmed else Expired)"
  by (induction polls arbitrary: cursor) (auto split: sum.splits)

lemma find_split: "find A xs = Some x \<longleftrightarrow> (\<exists>us vs. xs = us @ x # vs \<and> A x \<and> list_all (\<lambda>u. \<not> A u) us)"
proof
  show "find A xs = Some x \<Longrightarrow> \<exists>us vs. xs = us @ x # vs \<and> A x \<and> list_all (\<lambda>u. \<not> A u) us"
  proof (induction xs)
    case (Cons y ys)
    show ?case
    proof (cases "A y")
      case True
      then show ?thesis using Cons.prems by (rule_tac exI [of _ "[]"]) auto
    next
      case False
      then obtain us vs where "ys = us @ x # vs \<and> A x \<and> list_all (\<lambda>u. \<not> A u) us" using Cons by auto
      then show ?thesis using False by (rule_tac exI [of _ "y # us"]) auto
    qed
  qed simp
  have "find A (us @ x # vs) = Some x" if "A x" "list_all (\<lambda>u. \<not> A u) us" for us vs
    using that by (induction us) auto
  then show "\<exists>us vs. xs = us @ x # vs \<and> A x \<and> list_all (\<lambda>u. \<not> A u) us \<Longrightarrow> find A xs = Some x" by blast
qed

lemma settle_outcome:
  fixes polls se sha
  defines "xs \<equiv> poll_answers sha se (map polls [0..<40]) (se_fromSlot se)"
  shows "(awaitSolanaSettlement sha se polls = Confirmed \<longleftrightarrow>
      (\<exists>us h ds vs. xs = us @ (h, ds) # vs \<and> list_ex (pays se) ds \<and> list_all (\<lambda>(h, ds). \<not> list_ex (pays se) ds \<and> \<not> past_expiry se h) us)) \<and>
    (awaitSolanaSettlement sha se polls = Expired \<longleftrightarrow>
      (\<exists>us h ds vs. xs = us @ (h, ds) # vs \<and> past_expiry se h \<and> list_all (\<lambda>(h, ds). \<not> list_ex (pays se) ds) (us @ [(h, ds)]) \<and>
         list_all (\<lambda>(h, ds). \<not> past_expiry se h) us)) \<and>
    (awaitSolanaSettlement sha se polls = Unknown \<longleftrightarrow> list_all (\<lambda>(h, ds). \<not> list_ex (pays se) ds \<and> \<not> past_expiry se h) xs)"
proof -
  let ?A = "\<lambda>(h, ds). list_ex (pays se) ds \<or> past_expiry se h"
  have o: "awaitSolanaSettlement sha se polls = (case find ?A xs of None \<Rightarrow> Unknown
      | Some (h, ds) \<Rightarrow> if list_ex (pays se) ds then Confirmed else Expired)"
    by (simp add: awaitSolanaSettlement_def settle_first SETTLE_MAX_POLLS_def xs_def)
  have o3: "awaitSolanaSettlement sha se polls = Confirmed \<longleftrightarrow> (\<exists>h ds. find ?A xs = Some (h, ds) \<and> list_ex (pays se) ds)"
    "awaitSolanaSettlement sha se polls = Expired \<longleftrightarrow> (\<exists>h ds. find ?A xs = Some (h, ds) \<and> \<not> list_ex (pays se) ds)"
    "awaitSolanaSettlement sha se polls = Unknown \<longleftrightarrow> find ?A xs = None"
    unfolding o by (auto split: option.splits prod.splits)
  have none: "find ?A xs = None \<longleftrightarrow> list_all (\<lambda>(h, ds). \<not> list_ex (pays se) ds \<and> \<not> past_expiry se h) xs"
    by (auto simp: find_None_iff list_all_iff)
  have a: "list_all (\<lambda>u. \<not> ?A u) us \<longleftrightarrow> list_all (\<lambda>(h, ds). \<not> list_ex (pays se) ds \<and> \<not> past_expiry se h) us" for us
    by (rule arg_cong [where f = "\<lambda>Q. list_all Q us"]) (auto simp: fun_eq_iff)
  have conf: "(\<exists>h ds. find ?A xs = Some (h, ds) \<and> list_ex (pays se) ds) \<longleftrightarrow>
      (\<exists>us h ds vs. xs = us @ (h, ds) # vs \<and> list_ex (pays se) ds \<and> list_all (\<lambda>(h, ds). \<not> list_ex (pays se) ds \<and> \<not> past_expiry se h) us)"
    unfolding find_split a prod.case by blast
  have split: "list_all (\<lambda>(h, ds). \<not> list_ex (pays se) ds \<and> \<not> past_expiry se h) us \<longleftrightarrow>
      list_all (\<lambda>(h, ds). \<not> list_ex (pays se) ds) us \<and> list_all (\<lambda>(h, ds). \<not> past_expiry se h) us" for us :: "(int option \<times> deposit list) list"
    by (induction us) auto
  have expd: "(\<exists>h ds. find ?A xs = Some (h, ds) \<and> \<not> list_ex (pays se) ds) \<longleftrightarrow>
      (\<exists>us h ds vs. xs = us @ (h, ds) # vs \<and> past_expiry se h \<and> list_all (\<lambda>(h, ds). \<not> list_ex (pays se) ds) (us @ [(h, ds)]) \<and>
         list_all (\<lambda>(h, ds). \<not> past_expiry se h) us)"
    (is "?L \<longleftrightarrow> ?R")
  proof
    assume ?L
    then obtain h ds us vs where u: "xs = us @ (h, ds) # vs" "?A (h, ds)" "list_all (\<lambda>u. \<not> ?A u) us" "\<not> list_ex (pays se) ds"
      unfolding find_split by blast
    have us: "list_all (\<lambda>(h, ds). \<not> list_ex (pays se) ds) us" "list_all (\<lambda>(h, ds). \<not> past_expiry se h) us"
      using u(3) unfolding a split by blast+
    show ?R
      using u(2,4) us by (intro exI [of _ us] exI [of _ h] exI [of _ ds] exI [of _ vs]) (simp add: u(1))
  next
    assume ?R
    then obtain us h ds vs where u: "xs = us @ (h, ds) # vs" "past_expiry se h" "list_all (\<lambda>(h, ds). \<not> list_ex (pays se) ds) (us @ [(h, ds)])"
        "list_all (\<lambda>(h, ds). \<not> past_expiry se h) us" by blast
    then have "list_all (\<lambda>u. \<not> ?A u) us" "\<not> list_ex (pays se) ds" unfolding a split by simp_all
    then show ?L using u(1,2) unfolding find_split by blast
  qed
  show ?thesis unfolding o3 conf expd none by (intro conjI refl)
qed

text \<open>
  C23: the outcome of a gasless Solana payment is the first answer that decides it. The wait makes at most 40 polls and always
  ends. It says confirmed exactly when an answer shows a transfer of this amount by this owner and no answer
  before it was past the expiry, and expired exactly when an answer past the expiry does not show it and no
  answer before it did: so it never says that nothing was sent after it saw the money arrive. It stays
  unknown only when no answer decided.
\<close>

theorem settlement_outcome:
  "let xs = poll_answers sha se (map polls [0..<40]) (se_fromSlot se) in
    (awaitSolanaSettlement sha se polls = Confirmed \<longleftrightarrow>
      (\<exists>us h ds vs. xs = us @ (h, ds) # vs \<and> list_ex (pays se) ds \<and> list_all (\<lambda>(h, ds). \<not> list_ex (pays se) ds \<and> \<not> past_expiry se h) us)) \<and>
    (awaitSolanaSettlement sha se polls = Expired \<longleftrightarrow>
      (\<exists>us h ds vs. xs = us @ (h, ds) # vs \<and> past_expiry se h \<and> list_all (\<lambda>(h, ds). \<not> list_ex (pays se) ds) (us @ [(h, ds)]) \<and>
         list_all (\<lambda>(h, ds). \<not> past_expiry se h) us)) \<and>
    (awaitSolanaSettlement sha se polls = Unknown \<longleftrightarrow> list_all (\<lambda>(h, ds). \<not> list_ex (pays se) ds \<and> \<not> past_expiry se h) xs)"
  unfolding Let_def by (rule settle_outcome)

end
