(* ===== verification/Catch_Up.thy ===== *)
theory Catch_Up
  imports Watcher
begin

text \<open>
  The deposit watcher catches up: while the head of a chain stands still and its scans succeed, the polls of
  \<open>scripts/watcher.js\<close> bring the cursor of a receiver past the head, at least 4000 blocks a poll.
\<close>

section \<open>The windows of one poll\<close>

definition steady :: "int \<Rightarrow> int \<Rightarrow> scan \<Rightarrow> bool" where
  "steady h w scan \<longleftrightarrow> (\<forall>c. \<exists>ds nx. scan (Some c) = Some (Inr (ds, Some nx)) \<and>
     (if h < c then nx = c else c < nx \<and> min (h + 1) (c + w) \<le> nx \<and> nx \<le> h + 1))"

lemma recordScan_writes:
  assumes "store_ok st" "\<forall>st k v. quota st k v"
  shows "\<exists>st' added. recordScan quota st now r ds nb laneId = (st', Inr (Some added)) \<and> store_ok st' \<and>
    cursor_at st' = (cursor_at st)(rkey r := Some (json_num nb))"
proof -
  obtain st' out where e: "recordScan quota st now r ds nb laneId = (st', Inr out)" "store_ok st'"
      "case out of None \<Rightarrow> True | Some a \<Rightarrow> cursor_at st' = (cursor_at st)(rkey r := Some (json_num nb))"
    using recordScan_outcome [OF assms(1), of quota now r ds nb laneId] by (auto split: option.splits)
  have hs: "\<exists>cs hs. read_item st K_cursors (JObj []) = JObj cs \<and> list_all is_obj (getHistory st)"
    using assms(1) by (auto elim: store_okE)
  then have "out \<noteq> None"
    using e(1) assms(2) traverse_ids [of "getHistory st"]
    by (auto simp: recordScan_def Let_def write_item_cases set_prop_def split: if_splits)
  then show ?thesis using e by auto
qed

lemma windows_catch_up:
  assumes "store_ok st" "\<forall>st k v. quota st k v" "\<forall>i. steady h w (scan i)" "0 \<le> w"
    and "cursor_at st (rkey r) = Some (JNum c)" "c \<le> h + 1"
  shows "\<exists>st' em c'. windows quota now r laneId scan k i (Some c) st emitted = Some (st', em, Inr ()) \<and> store_ok st' \<and>
    cursor_at st' (rkey r) = Some (JNum c') \<and> c \<le> c' \<and> min (h + 1) (c + int k * w) \<le> c' \<and> c' \<le> h + 1"
  using assms(1,5,6)
proof (induction k arbitrary: i c st emitted)
  case 0
  then show ?case by auto
next
  case (Suc k)
  obtain ds nx where s: "scan i (Some c) = Some (Inr (ds, Some nx))"
      "if h < c then nx = c else c < nx \<and> min (h + 1) (c + w) \<le> nx \<and> nx \<le> h + 1"
    using assms(3) unfolding steady_def by blast
  show ?case
  proof (cases "h < c")
    case True
    then have "windows quota now r laneId scan (Suc k) i (Some c) st emitted = Some (st, emitted, Inr ())"
      using s by (simp add: num_eq_def)
    then show ?thesis using True Suc.prems by auto
  next
    case False
    then have n: "c < nx" "min (h + 1) (c + w) \<le> nx" "nx \<le> h + 1" using s(2) by auto
    obtain st1 added where r: "recordScan quota st (now i) r ds (Some nx) laneId = (st1, Inr (Some added))" "store_ok st1"
        "cursor_at st1 (rkey r) = Some (JNum nx)"
      using recordScan_writes [OF Suc.prems(1) assms(2), of "now i" r ds "Some nx" laneId] by (auto simp: json_num_def)
    have step: "windows quota now r laneId scan (Suc k) i (Some c) st emitted =
        windows quota now r laneId scan k (i + 1) (Some nx) st1 (emitted @ added)"
      using s(1) r(1) n(1) by (simp add: num_eq_def)
    obtain st' em c' where IH: "windows quota now r laneId scan k (i + 1) (Some nx) st1 (emitted @ added) = Some (st', em, Inr ())"
        "store_ok st'" "cursor_at st' (rkey r) = Some (JNum c')" "nx \<le> c'" "min (h + 1) (nx + int k * w) \<le> c'" "c' \<le> h + 1"
      using Suc.IH [OF r(2,3) n(3)] by blast
    have "min (h + 1) (c + int (Suc k) * w) \<le> c'"
    proof (cases "h + 1 \<le> c + w")
      case True
      then show ?thesis using n(2) IH(4) by linarith
    next
      case False
      then have "c + w \<le> nx" using n(2) by linarith
      then show ?thesis using IH(5) by (simp add: algebra_simps)
    qed
    then show ?thesis using step IH n(1) by auto
  qed
qed

section \<open>Many polls\<close>

text \<open>Poll after poll of one receiver; each has its own scans and clock. It ends early when one does not succeed.\<close>

primrec polls ::
    "quota \<Rightarrow> (nat \<Rightarrow> nat \<Rightarrow> int) \<Rightarrow> receiver \<Rightarrow> int option \<Rightarrow> string option \<Rightarrow> (nat \<Rightarrow> int option result) \<Rightarrow> (nat \<Rightarrow> nat \<Rightarrow> scan) \<Rightarrow> nat \<Rightarrow> storage \<Rightarrow> storage option" where
  "polls quota now r startBlock laneId head scans 0 st = Some st"
| "polls quota now r startBlock laneId head scans (Suc n) st =
     (case polls quota now r startBlock laneId head scans n st of
        None \<Rightarrow> None
      | Some st1 \<Rightarrow>
          (case scanReceiver quota (now n) r startBlock laneId (head n) (scans n) st1 of
             Some (st2, em, Inr u) \<Rightarrow> Some st2
           | _ \<Rightarrow> None))"

lemma getCursor_at: "store_ok st \<Longrightarrow> getCursor st (rc_chain r) (rc_address r) = Inr (Some c) \<longleftrightarrow>
    cursor_at st (rkey r) = Some (JNum c) \<and> 0 \<le> c"
  by (auto simp: getCursor_ok split: option.splits json.splits if_splits)

lemma polls_catch_up:
  assumes "store_ok st" "\<forall>st k v. quota st k v" "\<forall>n i. steady h w (scans n i)" "0 \<le> w"
    and "getCursor st (rc_chain r) (rc_address r) = Inr (Some c)" "c \<le> h + 1"
  shows "\<exists>st' c'. polls quota now r startBlock laneId head scans n st = Some st' \<and> store_ok st' \<and>
    getCursor st' (rc_chain r) (rc_address r) = Inr (Some c') \<and> c \<le> c' \<and> min (h + 1) (c + int n * (8 * w)) \<le> c' \<and> c' \<le> h + 1"
proof (induction n)
  case 0
  then show ?case using assms by auto
next
  case (Suc n)
  then obtain st1 c1 where 1: "polls quota now r startBlock laneId head scans n st = Some st1" "store_ok st1"
      "getCursor st1 (rc_chain r) (rc_address r) = Inr (Some c1)" "c \<le> c1" "min (h + 1) (c + int n * (8 * w)) \<le> c1" "c1 \<le> h + 1"
    by blast
  have c1: "cursor_at st1 (rkey r) = Some (JNum c1)" "0 \<le> c1" using 1(3) getCursor_at [OF 1(2)] by auto
  obtain st2 em c2 where 2: "windows quota (now n) r laneId (scans n) 8 0 (Some c1) st1 [] = Some (st2, em, Inr ())" "store_ok st2"
      "cursor_at st2 (rkey r) = Some (JNum c2)" "c1 \<le> c2" "min (h + 1) (c1 + int 8 * w) \<le> c2" "c2 \<le> h + 1"
    using windows_catch_up [OF 1(2) assms(2) _ assms(4) c1(1) 1(6), where k = 8 and i = 0 and scan = "scans n"] assms(3) by blast
  have "polls quota now r startBlock laneId head scans (Suc n) st = Some st2"
    using 1(1,3) 2(1) by (simp add: scanReceiver_def MAX_WINDOWS_PER_RECEIVER_def)
  moreover have "getCursor st2 (rc_chain r) (rc_address r) = Inr (Some c2)"
    using 2(2,3,4) c1(2) getCursor_at by auto
  moreover have "min (h + 1) (c + int (Suc n) * (8 * w)) \<le> c2"
    using 1(5) 2(4,5,6) by (simp add: algebra_simps min_def split: if_splits)
  ultimately show ?case using 1(4) 2(2,4,6) by auto
qed

text \<open>
  C22: the watcher catches up. Take a chain whose head stands at \<open>h\<close> while scans from any cursor succeed, and a
  storage that accepts writes, in which the receiver has a cursor not past the block after the head. Then
  every poll succeeds, and after \<open>n\<close> polls the cursor has moved by at least 4000 blocks a poll, up to the block
  after the head, where it stays.
\<close>

theorem watcher_catches_up:
  assumes "store_ok st" "\<forall>st k v. quota st k v" "chainByKey (rc_chain r) = Some ch"
    and "\<forall>n i. headBlock (nets n i 0) (rc_chain r) = Inr (Some h)"
    and "\<forall>n i f. \<exists>ds nx. scanDeposits sha (nets n i) (rc_chain r) (rc_address r) (Some f) = Some (Inr (ds, nx))"
    and "getCursor st (rc_chain r) (rc_address r) = Inr (Some c)" "c \<le> h + 1"
  shows "\<exists>st' c'. polls quota now r startBlock laneId head
      (\<lambda>n i. scanDeposits sha (nets n i) (rc_chain r) (rc_address r)) n st = Some st' \<and>
    getCursor st' (rc_chain r) (rc_address r) = Inr (Some c') \<and> min (h + 1) (c + 4000 * int n) \<le> c' \<and> c' \<le> h + 1"
proof -
  have "steady h 500 (scanDeposits sha (nets n i) (rc_chain r) (rc_address r))" for n i
    unfolding steady_def
  proof
    fix f
    obtain ds nx where s: "scanDeposits sha (nets n i) (rc_chain r) (rc_address r) (Some f) = Some (Inr (ds, nx))"
      using assms(5) by blast
    have "nx = Some (if h < f then f else f + window_of (ch_kind ch) (h + 1 - f))"
      using next_block [OF assms(3) _ s] assms(4) by blast
    then show "\<exists>ds nx. scanDeposits sha (nets n i) (rc_chain r) (rc_address r) (Some f) = Some (Inr (ds, Some nx)) \<and>
        (if h < f then nx = f else f < nx \<and> min (h + 1) (f + 500) \<le> nx \<and> nx \<le> h + 1)"
      using s by (auto simp: window_of_def)
  qed
  then have "\<forall>n i. steady h 500 (scanDeposits sha (nets n i) (rc_chain r) (rc_address r))" by blast
  from polls_catch_up [OF assms(1,2) this _ assms(6,7), of now startBlock laneId head n] show ?thesis by auto
qed

definition cursor_storage :: storage where
  "cursor_storage = [K_cursors \<mapsto> JObj [(receiverKey ''BASE'' ''0xab'', JNum 3)]]"

lemma cursor_storage_ok: "store_ok cursor_storage"
  by (simp add: cursor_storage_def store_ok_def read_item_def K_cursors_def K_lanes_def K_history_def)

lemma cursor_storage_at: "getCursor cursor_storage ''BASE'' ''0xab'' = Inr (Some 3)"
  using cursor_storage_ok by (simp add: getCursor_ok cursor_at_def cursor_storage_def read_item_def)

theorem watcher_catches_up_witness:
  "\<exists>st' c'. polls (\<lambda>st k v. True) (\<lambda>n i. 0) \<lparr>rc_chain = ''BASE'', rc_address = ''0xab''\<rparr> None None (\<lambda>n. Inr None)
      (\<lambda>n i. scanDeposits keccak256 (\<lambda>i. five_net) ''BASE'' ''0xab'') 2 cursor_storage = Some st' \<and>
    getCursor st' ''BASE'' ''0xab'' = Inr (Some c') \<and> c' = 6"
proof -
  obtain ch where c: "chainByKey ''BASE'' = Some ch" using base_entry by blast
  have "\<exists>ds nx. scanDeposits keccak256 (\<lambda>i. five_net) ''BASE'' ''0xab'' (Some f) = Some (Inr (ds, nx))" for f
    using five_net_scans by blast
  then show ?thesis
    using watcher_catches_up [of cursor_storage "\<lambda>st k v. True" "\<lparr>rc_chain = ''BASE'', rc_address = ''0xab''\<rparr>" ch "\<lambda>n i j. five_net" 5 keccak256 3
        "\<lambda>n i. 0" None None "\<lambda>n. Inr None" 2] c cursor_storage_ok cursor_storage_at five_net_head by fastforce
qed

end
