(* ===== verification/Scan_Task.thy ===== *)
theory Scan_Task
  imports Catch_Up "HOL-Library.Sublist"
begin

text \<open>
  The scan of one chain in \<open>scripts/watcher.js\<close> as a task that waits: a \<open>phase\<close> is the place of its \<open>await\<close>, and \<open>task_step\<close>
  is one piece, from one \<open>await\<close> to the next, which runs without being interrupted. The answers of the network are those
  of the jobs' feeds, as in \<open>Watcher\<close>. The lemmas say what a piece touches, that the pieces of a task make up
  \<open>scanChain\<close>, and that what other code writes in between makes no difference to it.
\<close>

section \<open>Listeners\<close>

text \<open>\<open>listeners\<close> is a \<open>Set\<close>, which keeps the order of insertion; a listener that throws does not stop the others.\<close>

definition onDeposit :: "'cb list \<Rightarrow> 'cb \<Rightarrow> 'cb list" where
  "onDeposit listeners cb = (if cb \<in> set listeners then listeners else listeners @ [cb])"

definition unsubscribe :: "'cb list \<Rightarrow> 'cb \<Rightarrow> 'cb list" where
  "unsubscribe listeners cb = filter (\<lambda>x. x \<noteq> cb) listeners"

fun emit :: "('cb \<Rightarrow> json \<Rightarrow> string option \<Rightarrow> 's \<Rightarrow> 's \<times> unit result) \<Rightarrow> 'cb list \<Rightarrow> json \<Rightarrow> string option \<Rightarrow> 's \<Rightarrow> 's" where
  "emit call [] d lane s = s"
| "emit call (cb # cbs) d lane s = emit call cbs d lane (fst (call cb d lane s))"

section \<open>One task\<close>

datatype phase =
    Start "(job \<times> feed) list"
  | Next "(job \<times> feed) list"
  | AwaitHead job feed "(job \<times> feed) list"
  | AwaitScan job feed nat nat "int option" "(job \<times> feed) list"
  | Finished

record timing =
  t_started :: int
  t_failed :: int

type_synonym shared = "storage \<times> chain_state option"

definition backoff :: "chain_state option \<Rightarrow> chain_state" where
  "backoff entry = (case entry of None \<Rightarrow> \<lparr>failures = 0, nextAt = 0\<rparr> | Some s \<Rightarrow> s)"

text \<open>The \<open>catch\<close> of \<open>scanChain\<close>.\<close>

definition scan_failed :: "timing \<Rightarrow> chain_state option \<Rightarrow> chain_state option" where
  "scan_failed t entry =
     (let n = failures (backoff entry) + 1; delay = min (TICK_MS * 2 ^ n) MAX_BACKOFF_MS in
      Some \<lparr>failures = n, nextAt = t_failed t + delay\<rparr>)"

text \<open>The first cursor of a receiver is stored before its first scan.\<close>

definition first_cursor :: "quota \<Rightarrow> timing \<Rightarrow> job \<Rightarrow> feed \<Rightarrow> (job \<times> feed) list \<Rightarrow> int option \<Rightarrow> shared \<Rightarrow> shared \<times> json list \<times> phase" where
  "first_cursor quota t j f rest cursor s =
     (case setCursor_num quota (fst s) (rkey (j_receiver j)) cursor of
        (st', Inl e) \<Rightarrow> ((st', scan_failed t (snd s)), [], Finished)
      | (st', Inr u) \<Rightarrow> ((st', snd s), [], AwaitScan j f (MAX_WINDOWS_PER_RECEIVER - 1) 0 cursor rest))"

fun task_step :: "quota \<Rightarrow> timing \<Rightarrow> phase \<Rightarrow> shared \<Rightarrow> (shared \<times> json list \<times> phase) option" where
  "task_step quota t (Start jobs) s =
     Some (s, [], if t_started t < nextAt (backoff (snd s)) then Finished else Next jobs)"
| "task_step quota t (Next []) s = Some ((fst s, Some \<lparr>failures = 0, nextAt = 0\<rparr>), [], Finished)"
| "task_step quota t (Next ((j, f) # rest)) s =
     (case getCursor (fst s) (rc_chain (j_receiver j)) (rc_address (j_receiver j)) of
        Inl e \<Rightarrow> Some ((fst s, scan_failed t (snd s)), [], Finished)
      | Inr (Some c) \<Rightarrow> Some (s, [], AwaitScan j f (MAX_WINDOWS_PER_RECEIVER - 1) 0 (Some c) rest)
      | Inr None \<Rightarrow>
          (case j_start j of
             Some b \<Rightarrow> Some (first_cursor quota t j f rest (Some b) s)
           | None \<Rightarrow> Some (s, [], AwaitHead j f rest)))"
| "task_step quota t (AwaitHead j f rest) s =
     (case f_head f of
        Inl e \<Rightarrow> Some ((fst s, scan_failed t (snd s)), [], Finished)
      | Inr cursor \<Rightarrow> Some (first_cursor quota t j f rest cursor s))"
| "task_step quota t (AwaitScan j f k i cursor rest) s =
     (case f_scan f i cursor of
        None \<Rightarrow> None
      | Some (Inl e) \<Rightarrow> Some ((fst s, scan_failed t (snd s)), [], Finished)
      | Some (Inr (deposits, nextBlock)) \<Rightarrow>
          if num_eq nextBlock cursor then Some (s, [], Next rest)
          else (case recordScan quota (fst s) (f_now f i) (j_receiver j) deposits nextBlock (j_lane j) of
              (st', Inr (Some added)) \<Rightarrow>
                Some ((st', snd s), added, if k = 0 then Next rest else AwaitScan j f (k - 1) (i + 1) nextBlock rest)
            | (st', r) \<Rightarrow> Some ((st', scan_failed t (snd s)), [], Finished)))"
| "task_step quota t Finished s = None"

text \<open>The keys of the storage the scan writes.\<close>

definition watched :: "string \<Rightarrow> bool" where
  "watched k \<longleftrightarrow> k = K_history \<or> k = K_cursors"

section \<open>What one piece touches\<close>

fun phase_jobs :: "phase \<Rightarrow> (job \<times> feed) list" where
  "phase_jobs (Start jobs) = jobs"
| "phase_jobs (Next jobs) = jobs"
| "phase_jobs (AwaitHead j f rest) = (j, f) # rest"
| "phase_jobs (AwaitScan j f k i cursor rest) = (j, f) # rest"
| "phase_jobs Finished = []"

definition phase_keys :: "phase \<Rightarrow> string set" where
  "phase_keys p = (\<lambda>(j, f). rkey (j_receiver j)) ` set (phase_jobs p)"

lemma phase_keysI: "(j, f) \<in> set (phase_jobs p) \<Longrightarrow> rkey (j_receiver j) \<in> phase_keys p"
  by (force simp: phase_keys_def)

lemma phase_keys_mono: "set (phase_jobs p') \<subseteq> set (phase_jobs p) \<Longrightarrow> phase_keys p' \<subseteq> phase_keys p"
  unfolding phase_keys_def by blast

lemma write_item_other: "write_item quota st k v = (st', b) \<Longrightarrow> k' \<noteq> k \<Longrightarrow> st' k' = st k'"
  by (rule local_storage.wr_other)

lemma recordScan_other: "recordScan quota st now r ds nb laneId = (st', out) \<Longrightarrow> \<not> watched k \<Longrightarrow> st' k = st k"
  by (auto simp: recordScan_def watched_def Let_def write_item_def split: sum.splits if_splits)

lemma setCursor_num_other: "setCursor_num quota st key n = (st', out) \<Longrightarrow> \<not> watched k \<Longrightarrow> st' k = st k"
  by (auto simp: setCursor_num_def watched_def Let_def write_item_def split: sum.splits if_splits)

text \<open>A piece leaves the storage alone, stores the first cursor of one of its receivers, or records one scan of it.\<close>

definition wrote :: "quota \<Rightarrow> job \<Rightarrow> storage \<Rightarrow> json list \<Rightarrow> storage \<Rightarrow> bool" where
  "wrote quota j st em st' \<longleftrightarrow>
     (\<exists>n out. setCursor_num quota st (rkey (j_receiver j)) n = (st', out) \<and> em = []) \<or>
     (\<exists>now ds nb out. recordScan quota st now (j_receiver j) ds nb (j_lane j) = (st', out) \<and> (em = [] \<or> out = Inr (Some em)))"

lemma first_cursor_wrote: "first_cursor quota t j f rest cursor s = ((st1, cs1), em, p1) \<Longrightarrow>
    wrote quota j (fst s) em st1 \<and> set (phase_jobs p1) \<subseteq> insert (j, f) (set rest)"
  by (auto simp: first_cursor_def wrote_def split: prod.splits sum.splits)

lemma task_step_wrote:
  assumes "task_step quota t p (st, cs) = Some ((st1, cs1), em, p1)"
  shows "(st1 = st \<and> em = [] \<or> (\<exists>(j, f) \<in> set (phase_jobs p). wrote quota j st em st1)) \<and> set (phase_jobs p1) \<subseteq> set (phase_jobs p)"
proof (cases "(quota, t, p, (st, cs))" rule: task_step.cases)
  case (3 quota' t' j f rest s)
  then show ?thesis
    using assms by (auto split: sum.splits option.splits dest!: first_cursor_wrote)
next
  case (4 quota' t' j f rest s)
  then show ?thesis
    using assms by (auto split: sum.splits dest!: first_cursor_wrote)
next
  case (5 quota' t' j f k i cursor rest s)
  then consider "st1 = st \<and> em = []" "set (phase_jobs p1) \<subseteq> set (phase_jobs p)"
    | ds nb out where "recordScan quota st (f_now f i) (j_receiver j) ds nb (j_lane j) = (st1, out)" "em = [] \<or> out = Inr (Some em)"
      "set (phase_jobs p1) \<subseteq> set (phase_jobs p)"
    using assms by (force split: sum.splits option.splits if_splits prod.splits)
  then show ?thesis
  proof cases
    case 1
    then show ?thesis by simp
  next
    case (2 ds nb out)
    then have "wrote quota j st em st1" unfolding wrote_def by blast
    then show ?thesis using 2(3) 5 by auto
  qed
qed (use assms in \<open>auto split: if_splits\<close>)

lemma wrote_frame:
  assumes "store_ok st" "wrote quota j st em st1"
  shows "frame (rkey (j_receiver j)) st st1" "\<exists>rec. subseq em rec \<and> added_to st rec st1" "\<not> watched k \<Longrightarrow> st1 k = st k"
proof -
  consider (first) n out where "setCursor_num quota st (rkey (j_receiver j)) n = (st1, out)" "em = []"
    | (scan) now ds nb out where "recordScan quota st now (j_receiver j) ds nb (j_lane j) = (st1, out)" "em = [] \<or> out = Inr (Some em)"
    using assms(2) unfolding wrote_def by blast
  then have "frame (rkey (j_receiver j)) st st1 \<and> (\<exists>rec. subseq em rec \<and> added_to st rec st1)"
  proof cases
    case first
    then show ?thesis using setCursor_num_ok [OF assms(1), of quota "rkey (j_receiver j)" n] by (force simp: added_to_def)
  next
    case scan
    then show ?thesis using recordScan_frame [OF assms(1) scan(1)] by auto
  qed
  then show "frame (rkey (j_receiver j)) st st1" "\<exists>rec. subseq em rec \<and> added_to st rec st1" by blast+
  show "\<not> watched k \<Longrightarrow> st1 k = st k"
    using assms(2) recordScan_other setCursor_num_other unfolding wrote_def by blast
qed

lemma frame_at: "frame key st st1 \<Longrightarrow> k \<noteq> key \<Longrightarrow> cursor_at st1 k = cursor_at st k"
  unfolding frame_def by (metis fun_upd_other)

lemma task_step_frame:
  assumes "store_ok st" "task_step quota t p (st, cs) = Some ((st1, cs1), em, p1)"
  shows "store_ok st1" "k \<notin> phase_keys p \<Longrightarrow> cursor_at st1 k = cursor_at st k"
    "\<exists>rec. subseq em rec \<and> added_to st rec st1" "\<not> watched k' \<Longrightarrow> st1 k' = st k'"
    "set (phase_jobs p1) \<subseteq> set (phase_jobs p)"
proof -
  show "set (phase_jobs p1) \<subseteq> set (phase_jobs p)" using task_step_wrote [OF assms(2)] by blast
  consider "st1 = st" "em = []" | j f where "(j, f) \<in> set (phase_jobs p)" "wrote quota j st em st1"
    using task_step_wrote [OF assms(2)] by blast
  then have "store_ok st1 \<and> (k \<notin> phase_keys p \<longrightarrow> cursor_at st1 k = cursor_at st k) \<and>
      (\<exists>rec. subseq em rec \<and> added_to st rec st1) \<and> (\<not> watched k' \<longrightarrow> st1 k' = st k')"
  proof cases
    case 1
    have "subseq em [] \<and> added_to st [] st1" using 1 by (simp add: added_to_def)
    then show ?thesis using 1 assms(1) by blast
  next
    case (2 j f)
    note w = wrote_frame [OF assms(1) 2(2)]
    have "k \<noteq> rkey (j_receiver j)" if "k \<notin> phase_keys p" using that phase_keysI [OF 2(1)] by blast
    then show ?thesis using w frame_at [OF w(1)] by (simp add: frame_def)
  qed
  then show "store_ok st1" "k \<notin> phase_keys p \<Longrightarrow> cursor_at st1 k = cursor_at st k"
    "\<exists>rec. subseq em rec \<and> added_to st rec st1" "\<not> watched k' \<Longrightarrow> st1 k' = st k'" by blast+
qed

text \<open>The history keeps distinct identifiers, and at most 500 entries.\<close>

definition history_ok :: "storage \<Rightarrow> bool" where
  "history_ok st \<longleftrightarrow> distinct (ids (getHistory st)) \<and> length (getHistory st) \<le> MAX_HISTORY"

lemma hist_put_history_ok:
  assumes "history_ok st"
  shows "history_ok (hist_put st (scan_added st now r ds laneId))"
proof -
  let ?a = "scan_added st now r ds laneId"
  have e: "ids (take n (rev ?a @ getHistory st)) = take n (rev (ids ?a) @ ids (getHistory st))" for n
    by (simp add: ids_def take_map rev_map)
  have "distinct (rev (ids ?a) @ ids (getHistory st))"
    using assms scan_added_ids [of st now r ds laneId] by (auto simp: history_ok_def)
  then have "distinct (ids (take MAX_HISTORY (rev ?a @ getHistory st)))" unfolding e by (rule distinct_take)
  then show ?thesis using assms by (simp add: history_ok_def getHistory_hist_put del: take_append)
qed

lemma history_ok_same: "getHistory st' = getHistory st \<Longrightarrow> history_ok st' = history_ok st"
  by (simp add: history_ok_def)

lemma recordScan_history_ok:
  assumes "store_ok st" "history_ok st" "recordScan quota st now r ds nb laneId = (st', out)"
  shows "history_ok st'"
proof -
  let ?a = "scan_added st now r ds laneId"
  obtain h c where "(st', out) =
      (if \<not> h \<and> ?a \<noteq> [] then (st, Inr None) else if \<not> c then (hist_put st ?a, Inr None)
       else (cursor_put (hist_put st ?a) (rkey r) nb, Inr (Some ?a)))"
    using recordScan_ok [OF assms(1), of quota now r ds nb laneId] assms(3) by (auto simp: Let_def)
  then have "st' = st \<or> st' = hist_put st ?a \<or> st' = cursor_put (hist_put st ?a) (rkey r) nb" by (auto split: if_splits)
  then show ?thesis using hist_put_history_ok [OF assms(2)] assms(2) history_ok_same [OF cursor_put_reads(1)] by blast
qed

lemma task_step_history_ok:
  assumes "store_ok st" "history_ok st" "task_step quota t p (st, cs) = Some ((st1, cs1), em, p1)"
  shows "history_ok st1"
proof -
  have "history_ok st1" if w: "wrote quota j st em st1" for j
  proof -
    consider (first) n out where "setCursor_num quota st (rkey (j_receiver j)) n = (st1, out)"
      | (scan) now ds nb out where "recordScan quota st now (j_receiver j) ds nb (j_lane j) = (st1, out)"
      using w unfolding wrote_def by blast
    then show ?thesis
    proof cases
      case first
      then have "getHistory st1 = getHistory st" using setCursor_num_ok [OF assms(1), of quota "rkey (j_receiver j)" n] by auto
      then show ?thesis using assms(2) by (simp add: history_ok_def)
    next
      case scan
      then show ?thesis by (rule recordScan_history_ok [OF assms(1,2)])
    qed
  qed
  then show ?thesis using task_step_wrote [OF assms(3)] assms(2) by auto
qed

section \<open>A task alone is the chain's scan\<close>

text \<open>
  What is left of \<open>scanChain\<close> at a phase. A piece of the task does not change it, so that a task run alone to its end
  computes \<open>scanChain\<close>.
\<close>

definition and_then :: "quota \<Rightarrow> (job \<times> feed) list \<Rightarrow> outcome option \<Rightarrow> json list \<Rightarrow> outcome option" where
  "and_then quota rest out emitted =
     (case out of
        None \<Rightarrow> None
      | Some (st', em, Inl e) \<Rightarrow> Some (st', emitted @ em, Inl e)
      | Some (st', em, Inr u) \<Rightarrow> run_jobs quota rest st' (emitted @ em))"

definition from_cursor :: "quota \<Rightarrow> job \<Rightarrow> feed \<Rightarrow> int option \<Rightarrow> storage \<Rightarrow> outcome option" where
  "from_cursor quota j f cursor st =
     (case setCursor_num quota st (rkey (j_receiver j)) cursor of
        (st', Inl e) \<Rightarrow> Some (st', [], Inl e)
      | (st', Inr u) \<Rightarrow> windows quota (f_now f) (j_receiver j) (j_lane j) (f_scan f) MAX_WINDOWS_PER_RECEIVER 0 cursor st' [])"

definition conclude :: "timing \<Rightarrow> chain_state option \<Rightarrow> outcome option \<Rightarrow> (storage \<times> json list \<times> chain_state option) option" where
  "conclude t entry out =
     (case out of
        None \<Rightarrow> None
      | Some (st', em, Inr u) \<Rightarrow> Some (st', em, Some \<lparr>failures = 0, nextAt = 0\<rparr>)
      | Some (st', em, Inl e) \<Rightarrow> Some (st', em, scan_failed t entry))"

fun chain_rest :: "quota \<Rightarrow> timing \<Rightarrow> phase \<Rightarrow> shared \<Rightarrow> json list \<Rightarrow> (storage \<times> json list \<times> chain_state option) option" where
  "chain_rest quota t (Start jobs) s em =
     (if t_started t < nextAt (backoff (snd s)) then Some (fst s, em, snd s) else conclude t (snd s) (run_jobs quota jobs (fst s) em))"
| "chain_rest quota t (Next jobs) s em = conclude t (snd s) (run_jobs quota jobs (fst s) em)"
| "chain_rest quota t (AwaitHead j f rest) s em = conclude t (snd s) (and_then quota rest
     (case f_head f of Inl e \<Rightarrow> Some (fst s, [], Inl e) | Inr cursor \<Rightarrow> from_cursor quota j f cursor (fst s)) em)"
| "chain_rest quota t (AwaitScan j f k i cursor rest) s em = conclude t (snd s) (and_then quota rest
     (windows quota (f_now f) (j_receiver j) (j_lane j) (f_scan f) (Suc k) i cursor (fst s) []) em)"
| "chain_rest quota t Finished s em = Some (fst s, em, snd s)"

lemma scanChain_rest: "scanChain quota (t_started t) (t_failed t) entry jobs st = chain_rest quota t (Start jobs) (st, entry) []"
  by (auto simp: scanChain_def conclude_def backoff_def scan_failed_def Let_def split: option.splits sum.splits)

lemma windows_emitted:
  "windows quota now r l scan k i cursor st emitted =
     map_option (\<lambda>(st', em, out). (st', emitted @ em, out)) (windows quota now r l scan k i cursor st [])"
proof (induction k arbitrary: i cursor st emitted)
  case (Suc k)
  show ?case
    by (auto simp: Suc [of _ _ _ "emitted @ _"] Suc [of _ _ _ "_ # _"] option.map_comp comp_def case_prod_unfold
        split: option.splits sum.splits prod.splits)
      (subst Suc, subst (2) Suc, simp add: option.map_comp comp_def case_prod_unfold)
qed simp

lemma and_then_emitted: "and_then quota rest (map_option (\<lambda>(st', em, out). (st', emitted @ em, out)) x) em0 = and_then quota rest x (em0 @ emitted)"
  by (cases x) (auto simp: and_then_def split: sum.splits)

lemma run_jobs_pieces: "run_jobs quota ((j, f) # jobs) st emitted =
    and_then quota jobs
      (case getCursor st (rc_chain (j_receiver j)) (rc_address (j_receiver j)) of
         Inl e \<Rightarrow> Some (st, [], Inl e)
       | Inr (Some c) \<Rightarrow> windows quota (f_now f) (j_receiver j) (j_lane j) (f_scan f) (Suc (MAX_WINDOWS_PER_RECEIVER - 1)) 0 (Some c) st []
       | Inr None \<Rightarrow>
           (case j_start j of
              Some b \<Rightarrow> from_cursor quota j f (Some b) st
            | None \<Rightarrow> (case f_head f of Inl e \<Rightarrow> Some (st, [], Inl e) | Inr cursor \<Rightarrow> from_cursor quota j f cursor st))) emitted"
proof -
  have "MAX_WINDOWS_PER_RECEIVER = Suc (MAX_WINDOWS_PER_RECEIVER - 1)" by (simp add: MAX_WINDOWS_PER_RECEIVER_def)
  then show ?thesis
    by (auto simp: and_then_def scanReceiver_def from_cursor_def Let_def simp del: windows.simps split: sum.splits option.splits)
qed

lemma first_cursor_rest:
  assumes "first_cursor quota t j f rest cursor (st, cs) = ((st1, cs1), em1, p1)"
  shows "chain_rest quota t p1 (st1, cs1) (em @ em1) = conclude t cs (and_then quota rest (from_cursor quota j f cursor st) em)"
  using assms
  by (auto simp: first_cursor_def from_cursor_def conclude_def and_then_def MAX_WINDOWS_PER_RECEIVER_def
      split: prod.splits sum.splits)

lemma task_step_rest:
  assumes "task_step quota t p (st, cs) = Some ((st1, cs1), em1, p1)"
  shows "chain_rest quota t p (st, cs) em = chain_rest quota t p1 (st1, cs1) (em @ em1)"
proof (cases "(quota, t, p, (st, cs))" rule: task_step.cases)
  case (3 quota' t' j f rest s)
  have fc: "chain_rest quota t p (st, cs) em = chain_rest quota t p1 (st1, cs1) (em @ em1)"
    if "getCursor st (rc_chain (j_receiver j)) (rc_address (j_receiver j)) = Inr None" "j_start j = Some b" for b
    using that 3 assms first_cursor_rest [of quota t j f rest "Some b" st cs st1 cs1 em1 p1 em]
    by (auto simp: run_jobs_pieces simp del: run_jobs.simps windows.simps)
  show ?thesis
  proof (cases "\<exists>b. getCursor st (rc_chain (j_receiver j)) (rc_address (j_receiver j)) = Inr None \<and> j_start j = Some b")
    case True
    then show ?thesis using fc by blast
  next
    case False
    then show ?thesis
      using 3 assms
      by (auto simp: run_jobs_pieces simp del: run_jobs.simps windows.simps split: sum.splits option.splits)
        (auto simp: and_then_def conclude_def)
  qed
next
  case (4 quota' t' j f rest s)
  then show ?thesis
    using assms first_cursor_rest [of quota t j f rest "projr (f_head f)" st cs st1 cs1 em1 p1 em]
    by (cases "f_head f") (auto simp: and_then_def [where out = "Some _"] conclude_def [where out = "Some _"] simp del: windows.simps)
next
  case (5 quota' t' j f k i cursor rest s)
  then have p: "p = AwaitScan j f k i cursor rest" by simp
  let ?w = "windows quota (f_now f) (j_receiver j) (j_lane j) (f_scan f)"
  let ?go = "\<lambda>out. conclude t cs (and_then quota rest out em)"
  obtain a where a: "f_scan f i cursor = Some a" using assms p by (cases "f_scan f i cursor") auto
  show ?thesis
  proof (cases "\<exists>ds nb. a = Inr (ds, nb) \<and> \<not> num_eq nb cursor")
    case False
    then show ?thesis using assms p a by (cases a) (auto simp: and_then_def conclude_def split: if_splits)
  next
    case True
    then obtain ds nb where d: "a = Inr (ds, nb)" "\<not> num_eq nb cursor" by blast
    obtain st2 out where r: "recordScan quota st (f_now f i) (j_receiver j) ds nb (j_lane j) = (st2, out)" by fastforce
    show ?thesis
    proof (cases "\<exists>added. out = Inr (Some added)")
      case False
      then show ?thesis
        using assms p a d r by (auto simp: and_then_def conclude_def split: sum.splits option.splits)
    next
      case True
      then obtain added where o: "out = Inr (Some added)" by blast
      have l: "chain_rest quota t p (st, cs) em = ?go (?w k (i + 1) nb st2 added)"
        using p a d r o by simp
      have e: "st1 = st2 \<and> cs1 = cs \<and> em1 = added \<and> p1 = (if k = 0 then Next rest else AwaitScan j f (k - 1) (i + 1) nb rest)"
        using assms p a d r o by simp
      show ?thesis
      proof (cases k)
        case 0
        then show ?thesis using l e by (simp add: and_then_def)
      next
        case (Suc k')
        have "?go (?w (Suc k') (i + 1) nb st2 added) = conclude t cs (and_then quota rest (?w (Suc k') (i + 1) nb st2 []) (em @ added))"
          by (subst windows_emitted) (simp only: and_then_emitted)
        then show ?thesis using l e Suc by simp
      qed
    qed
  qed
qed (use assms in \<open>auto simp: conclude_def\<close>)

lemma put_unwatched:
  assumes "\<not> watched k"
  shows "getHistory (put st k v) = getHistory st" "cursor_at (put st k v) = cursor_at st" "store_ok (put st k v) = store_ok st"
  using assms by (auto simp: watched_def getHistory_def cursor_at_def store_ok_def)

section \<open>What another task or the page does makes no difference\<close>

text \<open>Two storages that agree on the cursors of a set of receivers.\<close>

definition agree :: "string set \<Rightarrow> storage \<Rightarrow> storage \<Rightarrow> bool" where
  "agree K st st' \<longleftrightarrow> store_ok st \<and> store_ok st' \<and> (\<forall>k \<in> K. cursor_at st k = cursor_at st' k)"

lemma agree_cursor: "agree K st st' \<Longrightarrow> rkey r \<in> K \<Longrightarrow>
    getCursor st (rc_chain r) (rc_address r) = getCursor st' (rc_chain r) (rc_address r)"
  by (simp add: agree_def getCursor_ok)

lemma setCursor_num_writes:
  assumes "store_ok st" "\<forall>st k v. quota st k v"
  shows "setCursor_num quota st key n = (cursor_put st key n, Inr ())"
  using assms by (elim store_okE) (simp add: setCursor_num_def set_prop_def write_item_cases cursor_put_def)

lemma first_cursor_view:
  assumes "\<forall>st k v. quota st k v" "agree K st st'"
  shows "\<exists>st1 st2 p. first_cursor quota t j f rest c (st, cs) = ((st1, cs), [], p) \<and>
    first_cursor quota t j f rest c (st', cs) = ((st2, cs), [], p) \<and> agree K st1 st2"
  using assms store_ok_put(2) cursor_at_put
  by (auto simp: first_cursor_def setCursor_num_writes agree_def)

lemma task_step_view:
  assumes "\<forall>st k v. quota st k v" "agree K st st'" "phase_keys p \<subseteq> K"
    and "task_step quota t p (st, cs) = Some ((st1, cs1), em, p1)"
  shows "\<exists>st2 em'. task_step quota t p (st', cs) = Some ((st2, cs1), em', p1) \<and> agree K st1 st2"
proof (cases "(quota, t, p, (st, cs))" rule: task_step.cases)
  case (3 quota' t' j f rest s)
  then have "rkey (j_receiver j) \<in> K" using assms(3) by (auto simp: phase_keys_def)
  then have g: "getCursor st' (rc_chain (j_receiver j)) (rc_address (j_receiver j)) =
      getCursor st (rc_chain (j_receiver j)) (rc_address (j_receiver j))"
    using agree_cursor [OF assms(2)] by simp
  have v: "\<exists>st1 st2 p. first_cursor quota t j f rest c (st, cs) = ((st1, cs), [], p) \<and>
      first_cursor quota t j f rest c (st', cs) = ((st2, cs), [], p) \<and> agree K st1 st2" for c
    by (rule first_cursor_view [OF assms(1,2)])
  show ?thesis
    using 3 assms(2,4) g v [of "j_start j"]
    by (auto split: sum.splits option.splits)
next
  case (4 quota' t' j f rest s)
  have v: "\<exists>st1 st2 p. first_cursor quota t j f rest c (st, cs) = ((st1, cs), [], p) \<and>
      first_cursor quota t j f rest c (st', cs) = ((st2, cs), [], p) \<and> agree K st1 st2" for c
    by (rule first_cursor_view [OF assms(1,2)])
  show ?thesis using 4 assms(2,4) v [of "projr (f_head f)"] by (auto split: sum.splits)
next
  case (5 quota' t' j f k i cursor rest s)
  then have p: "p = AwaitScan j f k i cursor rest" by simp
  obtain a where a: "f_scan f i cursor = Some a" using assms(4) p by (cases "f_scan f i cursor") auto
  have ok: "store_ok st" "store_ok st'" using assms(2) by (simp_all add: agree_def)
  show ?thesis
  proof (cases "\<exists>ds nb. a = Inr (ds, nb) \<and> \<not> num_eq nb cursor")
    case False
    then show ?thesis using assms(2,4) p a by (cases a) (auto split: if_splits)
  next
    case True
    then obtain ds nb where d: "a = Inr (ds, nb)" "\<not> num_eq nb cursor" by blast
    note w = recordScan_writes [OF _ assms(1), of _ "f_now f i" "j_receiver j" ds nb "j_lane j"]
    obtain x1 a1 where r1: "recordScan quota st (f_now f i) (j_receiver j) ds nb (j_lane j) = (x1, Inr (Some a1))" "store_ok x1"
        "cursor_at x1 = (cursor_at st)(rkey (j_receiver j) := Some (json_num nb))"
      using w [OF ok(1)] by blast
    obtain x2 a2 where r2: "recordScan quota st' (f_now f i) (j_receiver j) ds nb (j_lane j) = (x2, Inr (Some a2))" "store_ok x2"
        "cursor_at x2 = (cursor_at st')(rkey (j_receiver j) := Some (json_num nb))"
      using w [OF ok(2)] by blast
    have "agree K x1 x2" using r1(2,3) r2(2,3) assms(2) by (simp add: agree_def)
    then show ?thesis using assms(4) p a d r1(1) r2(1) by simp
  qed
qed (use assms in auto)

end
