(* ===== verification/Concurrent.thy ===== *)
theory Concurrent
  imports Scan_Task Lane
begin

text \<open>
  How the tasks of a poll of \<open>scripts/watcher.js\<close> interleave. \<open>runPoll\<close> starts one task per chain and awaits them together;
  between two pieces of a task other chains' tasks, other code of the page and other tabs run. The answers of the network
  are those of the jobs' feeds, so that a schedule is only the order in which the pieces run.
\<close>

section \<open>A poll under a schedule\<close>

text \<open>
  \<open>Resume i\<close> runs the next piece of task \<open>i\<close>; \<open>Write k v\<close> is other code of the page, or another tab, that stores a value
  under a key of its own (lanes, settings, identities, seen marks).
\<close>

datatype event = Resume nat | Write string json

record poll =
  po_store :: storage
  po_states :: "string \<Rightarrow> chain_state option"
  po_emitted :: "json list"
  po_tasks :: "(string \<times> phase) list"

fun poll_step :: "quota \<Rightarrow> (string \<Rightarrow> timing) \<Rightarrow> event \<Rightarrow> poll \<Rightarrow> poll" where
  "poll_step quota clock (Resume i) po =
     (if i < length (po_tasks po)
      then (let (c, p) = po_tasks po ! i in
            case task_step quota (clock c) p (po_store po, po_states po c) of
              None \<Rightarrow> po
            | Some ((st, cs), em, p') \<Rightarrow>
                \<lparr>po_store = st, po_states = (po_states po)(c := cs), po_emitted = po_emitted po @ em,
                 po_tasks = (po_tasks po)[i := (c, p')]\<rparr>)
      else po)"
| "poll_step quota clock (Write k v) po = (if watched k then po else po\<lparr>po_store := put (po_store po) k v\<rparr>)"

definition poll_run :: "quota \<Rightarrow> (string \<Rightarrow> timing) \<Rightarrow> event list \<Rightarrow> poll \<Rightarrow> poll" where
  "poll_run quota clock evs po = fold (poll_step quota clock) evs po"

text \<open>\<open>runPoll\<close>: the receivers of all lanes by chain, and one task for each.\<close>

definition receiver_job :: "string option \<Rightarrow> json \<Rightarrow> (string \<times> job) option" where
  "receiver_job laneId r =
     (case (as_string (opt_prop (Some r) ''chain''), as_string (opt_prop (Some r) ''address'')) of
        (Some c, Some a) \<Rightarrow>
          (case opt_prop (Some r) ''startBlock'' of
             None \<Rightarrow> Some (c, \<lparr>j_receiver = \<lparr>rc_chain = c, rc_address = a\<rparr>, j_start = None, j_lane = laneId\<rparr>)
           | Some JNull \<Rightarrow> Some (c, \<lparr>j_receiver = \<lparr>rc_chain = c, rc_address = a\<rparr>, j_start = None, j_lane = laneId\<rparr>)
           | Some (JNum b) \<Rightarrow> Some (c, \<lparr>j_receiver = \<lparr>rc_chain = c, rc_address = a\<rparr>, j_start = Some b, j_lane = laneId\<rparr>)
           | _ \<Rightarrow> None)
      | _ \<Rightarrow> None)"

definition lane_jobs :: "json list \<Rightarrow> (string \<times> job) list option" where
  "lane_jobs ls = those (concat (map (\<lambda>l. map (receiver_job (as_string (lane_id l))) (lane_receivers l)) ls))"

definition poll_tasks :: "(string \<times> job) list \<Rightarrow> feed list \<Rightarrow> (string \<times> phase) list" where
  "poll_tasks jobs feeds = map (\<lambda>(c, js). (c, Start js)) (byChain (map (\<lambda>((c, j), f). (c, (j, f))) (zip jobs feeds)))"

definition poll_start :: "storage \<Rightarrow> (string \<Rightarrow> chain_state option) \<Rightarrow> (string \<times> phase) list \<Rightarrow> poll" where
  "poll_start st states tasks = \<lparr>po_store = st, po_states = states, po_emitted = [], po_tasks = tasks\<rparr>"

section \<open>The tasks of a poll\<close>

definition task_ok :: "string \<times> phase \<Rightarrow> bool" where
  "task_ok task \<longleftrightarrow> fst task \<in> set CHAIN_KEYS \<and> (\<forall>(j, f) \<in> set (phase_jobs (snd task)). rc_chain (j_receiver j) = fst task)"

definition tasks_ok :: "(string \<times> phase) list \<Rightarrow> bool" where
  "tasks_ok tasks \<longleftrightarrow> distinct (map fst tasks) \<and> (\<forall>task \<in> set tasks. task_ok task)"

lemma tasks_ok_Nil [simp]: "tasks_ok []"
  by (simp add: tasks_ok_def)

lemma chain_text: "c \<in> set CHAIN_KEYS \<Longrightarrow> wire c = c \<and> CHR '':'' \<notin> set c"
  by (auto simp: chain_keys wire_def char_eval)

lemma receiverKey_chain:
  assumes "c \<in> set CHAIN_KEYS" "c' \<in> set CHAIN_KEYS" "receiverKey c a = receiverKey c' a'"
  shows "c = c'"
proof -
  have "takeWhile (\<lambda>x. x \<noteq> CHR '':'') (receiverKey d b) = d" if "d \<in> set CHAIN_KEYS" for d b
    using chain_text [OF that] unfolding receiverKey_def by (subst takeWhile_append2) auto
  then show ?thesis using assms by metis
qed

definition chain_cursors :: "string \<Rightarrow> string set" where
  "chain_cursors c = range (receiverKey c)"

lemma tasks_ok_keys:
  assumes "tasks_ok tasks" "i < length tasks" "tasks ! i = (c, p)"
  shows "phase_keys p \<subseteq> chain_cursors c" "c \<in> set CHAIN_KEYS"
    "j < length tasks \<Longrightarrow> j \<noteq> i \<Longrightarrow> fst (tasks ! j) \<noteq> c"
    "j < length tasks \<Longrightarrow> j \<noteq> i \<Longrightarrow> k \<in> chain_cursors (fst (tasks ! j)) \<Longrightarrow> k \<notin> phase_keys p"
proof -
  have m: "(c, p) \<in> set tasks" using assms(2,3) by (metis nth_mem)
  have t: "c \<in> set CHAIN_KEYS \<and> (\<forall>(j, f) \<in> set (phase_jobs p). rc_chain (j_receiver j) = c)"
  proof -
    have "task_ok (c, p)" using assms(1) m by (simp add: tasks_ok_def)
    then show ?thesis by (simp add: task_ok_def)
  qed
  then show c: "c \<in> set CHAIN_KEYS" by blast
  show k: "phase_keys p \<subseteq> chain_cursors c"
    using t unfolding phase_keys_def chain_cursors_def by force
  show d: "fst (tasks ! j) \<noteq> c" if "j < length tasks" "j \<noteq> i" for j
  proof -
    have "distinct (map fst tasks)" using assms(1) by (simp add: tasks_ok_def)
    then show ?thesis using assms(2,3) that by (metis distinct_conv_nth fst_conv length_map nth_map)
  qed
  show "k \<notin> phase_keys p" if "j < length tasks" "j \<noteq> i" "k \<in> chain_cursors (fst (tasks ! j))"
  proof -
    have "fst (tasks ! j) \<in> set CHAIN_KEYS"
      using assms(1) nth_mem [OF that(1)] by (simp add: tasks_ok_def task_ok_def)
    then show ?thesis using k c d [OF that(1,2)] that(3) receiverKey_chain by (fastforce simp: chain_cursors_def)
  qed
qed

lemma tasks_ok_update:
  assumes "tasks_ok tasks" "i < length tasks" "tasks ! i = (c, p)" "set (phase_jobs p1) \<subseteq> set (phase_jobs p)"
  shows "tasks_ok (tasks[i := (c, p1)])"
proof -
  have "map fst (tasks[i := (c, p1)]) = map fst tasks"
    using assms(2,3) by (simp add: map_update list_update_same_conv)
  moreover have "task_ok (c, p)" using assms(1-3) nth_mem [of i tasks] by (simp add: tasks_ok_def)
  then have "task_ok (c, p1)" using assms(4) by (auto simp: task_ok_def)
  ultimately show ?thesis
    using assms(1) set_update_subset_insert [of tasks i "(c, p1)"] by (auto simp: tasks_ok_def)
qed

text \<open>\<open>runPoll\<close> makes one task for each chain of the lanes.\<close>

lemma add_job_keys: "map fst (add_job c j gs) = (if c \<in> set (map fst gs) then map fst gs else map fst gs @ [c])"
  by (induction c j gs rule: add_job.induct) auto

lemma add_job_jobs: "(c', js) \<in> set (add_job c j gs) \<Longrightarrow> x \<in> set js \<Longrightarrow> (\<exists>js'. (c', js') \<in> set gs \<and> x \<in> set js') \<or> c' = c \<and> x = j"
proof (induction c j gs rule: add_job.induct)
  case (2 chain j c js rest)
  then show ?case by (cases "c = chain") auto
qed simp

lemma byChain_groups: "distinct (map fst (byChain xs)) \<and> set (map fst (byChain xs)) = fst ` set xs \<and>
    (\<forall>(c, js) \<in> set (byChain xs). \<forall>x \<in> set js. (c, x) \<in> set xs)"
proof (induction xs rule: rev_induct)
  case Nil
  then show ?case by (simp add: byChain_def)
next
  case (snoc y xs)
  obtain c j where y: "y = (c, j)" by fastforce
  have e: "byChain (xs @ [y]) = add_job c j (byChain xs)" by (simp add: byChain_def y)
  have "(c', x) \<in> set (xs @ [y])" if "(c', js) \<in> set (add_job c j (byChain xs))" "x \<in> set js" for c' js x
    using add_job_jobs [OF that] snoc y by auto
  then show ?case using snoc unfolding e add_job_keys by (auto simp: y)
qed

lemma byChain_jobs: "(c, js) \<in> set (byChain xs) \<Longrightarrow> x \<in> set js \<Longrightarrow> (c, x) \<in> set xs"
  using byChain_groups [of xs] by blast

lemma those_Some: "those xs = Some ys \<Longrightarrow> xs = map Some ys"
  by (induction xs arbitrary: ys) (auto split: option.splits)

lemma receiver_job_chain: "receiver_job l r = Some (c, j) \<Longrightarrow> rc_chain (j_receiver j) = c \<and> as_string (opt_prop (Some r) ''chain'') = Some c"
  by (auto simp: receiver_job_def split: option.splits json.splits)

lemma wire_json_str: "wire_json (Some (JStr c)) = wire c"
  by (simp add: wire_json_def coerce_def js_truthy_def wire_def)

lemma lane_jobs_chains:
  assumes "lane_jobs (getLanes st) = Some jobs" "(c, j) \<in> set jobs"
  shows "rc_chain (j_receiver j) = c" "wire c = c \<Longrightarrow> c \<in> set CHAIN_KEYS"
proof -
  have "Some (c, j) \<in> set (concat (map (\<lambda>l. map (receiver_job (as_string (lane_id l))) (lane_receivers l)) (getLanes st)))"
    unfolding those_Some [OF assms(1) [unfolded lane_jobs_def]] using assms(2) by force
  then obtain l r where r: "l \<in> set (getLanes st)" "r \<in> set (lane_receivers l)" "receiver_job (as_string (lane_id l)) r = Some (c, j)"
    by (auto dest: sym)
  then show "rc_chain (j_receiver j) = c" using receiver_job_chain by blast
  have "isLane l" using r(1) getLanes_isLane [of st] by (simp add: list_all_iff)
  then have "chain_json (opt_prop (Some r) ''chain'') \<noteq> None"
    using r(2) unfolding isLane_def lane_receivers_def by (cases "as_array (opt_prop (Some l) ''receivers'')") (simp_all add: list_all_iff)
  moreover have "opt_prop (Some r) ''chain'' = Some (JStr c)"
    using receiver_job_chain [OF r(3)] by (auto simp: as_string_def split: option.splits json.splits)
  ultimately show "c \<in> set CHAIN_KEYS" if "wire c = c"
    using that by (simp add: chain_json_def wire_json_str chainByKey_None del: not_None_eq)
qed

lemma poll_tasks_ok:
  assumes "lane_jobs (getLanes st) = Some jobs" "\<forall>(c, j) \<in> set jobs. wire c = c"
  shows "tasks_ok (poll_tasks jobs feeds)"
proof -
  define xs where "xs = map (\<lambda>((c, j), f). (c, (j, f))) (zip jobs feeds)"
  have x: "rc_chain (j_receiver j) = c \<and> c \<in> set CHAIN_KEYS" if "(c, (j, f)) \<in> set xs" for c j f
  proof -
    have "(c, j) \<in> set jobs" using that by (auto simp: xs_def dest: set_zip_leftD)
    then show ?thesis using lane_jobs_chains [OF assms(1)] assms(2) by blast
  qed
  have k: "fst ` set xs \<subseteq> set CHAIN_KEYS" unfolding image_subset_iff using x by (metis prod.collapse)
  have t: "poll_tasks jobs feeds = map (\<lambda>(c, js). (c, Start js)) (byChain xs)" by (simp only: poll_tasks_def xs_def)
  note g = byChain_groups [of xs]
  have "distinct (map fst (poll_tasks jobs feeds))" using g by (simp add: t comp_def case_prod_unfold)
  moreover have "task_ok (c, p)"
    if m: "(c, p) \<in> set (poll_tasks jobs feeds)" for c p
  proof -
    obtain js where js: "(c, js) \<in> set (byChain xs)" "p = Start js" using m by (auto simp: t)
    have "c \<in> set (map fst (byChain xs))" using js(1) by force
    then have "c \<in> fst ` set xs" using g by blast
    moreover have "(c, y) \<in> set xs" if "y \<in> set js" for y using js(1) that by (rule byChain_jobs)
    ultimately show ?thesis using k x unfolding js(2) phase_jobs.simps task_ok_def fst_conv snd_conv by blast
  qed
  ultimately show ?thesis unfolding tasks_ok_def by auto
qed

text \<open>
  Each task under any schedule is where it would be had it run alone: the storage it would have left agrees with the
  real one on the cursors of its chain, and what is left of the scan gives the same result.
\<close>

definition as_if_alone :: "quota \<Rightarrow> (string \<Rightarrow> timing) \<Rightarrow> (string \<Rightarrow> (storage \<times> json list \<times> chain_state option) option) \<Rightarrow> poll \<Rightarrow> string \<times> phase \<Rightarrow> bool" where
  "as_if_alone quota clock alone po task \<longleftrightarrow>
     (case task of (c, p) \<Rightarrow> \<exists>st em. agree (chain_cursors c) (po_store po) st \<and>
        chain_rest quota (clock c) p (st, po_states po c) em = alone c)"

lemma agree_others:
  assumes "agree K st st'" "store_ok st1" "\<forall>k \<in> K. cursor_at st1 k = cursor_at st k"
  shows "agree K st1 st'"
  using assms by (simp add: agree_def)

lemma task_step_alone:
  assumes "\<forall>st k v. quota st k v" "phase_keys p \<subseteq> chain_cursors c"
    and "task_step quota (clock c) p (po_store po, po_states po c) = Some ((st1, cs1), em1, p1)"
    and "as_if_alone quota clock alone po (c, p)"
  shows "as_if_alone quota clock alone \<lparr>po_store = st1, po_states = (po_states po)(c := cs1), po_emitted = em2, po_tasks = ts\<rparr> (c, p1)"
proof -
  obtain st em where a: "agree (chain_cursors c) (po_store po) st" "chain_rest quota (clock c) p (st, po_states po c) em = alone c"
    using assms(4) by (auto simp: as_if_alone_def)
  obtain st2 em' where b: "task_step quota (clock c) p (st, po_states po c) = Some ((st2, cs1), em', p1)" "agree (chain_cursors c) st1 st2"
    using task_step_view [OF assms(1) a(1) assms(2,3)] by blast
  show ?thesis using a(2) b(2) task_step_rest [OF b(1), of em] by (auto simp: as_if_alone_def)
qed

lemma poll_step_alone:
  assumes "\<forall>st k v. quota st k v"
    and "store_ok (po_store po)" "tasks_ok (po_tasks po)" "\<forall>task \<in> set (po_tasks po). as_if_alone quota clock alone po task"
    and po1: "po1 = poll_step quota clock ev po"
  shows "store_ok (po_store po1) \<and> tasks_ok (po_tasks po1) \<and> map fst (po_tasks po1) = map fst (po_tasks po) \<and>
    (\<forall>task \<in> set (po_tasks po1). as_if_alone quota clock alone po1 task)"
proof (cases ev)
  case (Write k v)
  show ?thesis
  proof (cases "watched k")
    case True
    then show ?thesis using assms Write by simp
  next
    case False
    then have k: "cursor_at (put (po_store po) k v) = cursor_at (po_store po)" "store_ok (put (po_store po) k v)"
      using assms(2) put_unwatched by auto
    have "as_if_alone quota clock alone (po\<lparr>po_store := put (po_store po) k v\<rparr>) (c, p)"
      if "as_if_alone quota clock alone po (c, p)" for c p
      using that k by (auto simp: as_if_alone_def agree_def)
    then show ?thesis using assms False Write k(2) by auto
  qed
next
  case (Resume i)
  show ?thesis
  proof (cases "i < length (po_tasks po) \<and> task_step quota (clock (fst (po_tasks po ! i))) (snd (po_tasks po ! i))
      (po_store po, po_states po (fst (po_tasks po ! i))) \<noteq> None")
    case False
    then have "po1 = po" unfolding po1 Resume by (auto simp: case_prod_unfold Let_def split: option.splits)
    then show ?thesis using assms(2-4) by blast
  next
    case True
    obtain c p where t: "po_tasks po ! i = (c, p)" by fastforce
    then obtain st1 cs1 em1 p1 where s: "task_step quota (clock c) p (po_store po, po_states po c) = Some ((st1, cs1), em1, p1)"
      using True by fastforce
    have i: "i < length (po_tasks po)" using True by blast
    have e: "po1 = \<lparr>po_store = st1, po_states = (po_states po)(c := cs1), po_emitted = po_emitted po @ em1,
        po_tasks = (po_tasks po)[i := (c, p1)]\<rparr>"
      unfolding po1 Resume using i t s by simp
    note keys = tasks_ok_keys [OF assms(3) i t]
    note fr = task_step_frame [OF assms(2) s]
    have "as_if_alone quota clock alone po1 (po_tasks po1 ! n)" if n: "n < length (po_tasks po)" for n
    proof (cases "n = i")
      case True
      have "as_if_alone quota clock alone po (c, p)" using assms(4) i t by (metis nth_mem)
      then show ?thesis using task_step_alone [of quota p c clock po, OF assms(1) keys(1) s] i True unfolding e by simp
    next
      case False
      obtain c' p' where t': "po_tasks po ! n = (c', p')" by fastforce
      have "c' \<noteq> c" using keys(3) [OF n False] t' by simp
      moreover have "as_if_alone quota clock alone po (c', p')" using assms(4) n t' by (metis nth_mem)
      moreover have "\<forall>k \<in> chain_cursors c'. cursor_at st1 k = cursor_at (po_store po) k"
        using fr(2) keys(4) [OF n False] t' by simp
      ultimately show ?thesis using t' False fr(1) agree_others unfolding e as_if_alone_def by (auto simp: fun_upd_def) blast
    qed
    then have "\<forall>task \<in> set (po_tasks po1). as_if_alone quota clock alone po1 task"
      by (metis e in_set_conv_nth length_list_update poll.select_convs(4))
    moreover have "map fst (po_tasks po1) = map fst (po_tasks po)"
      unfolding e using i t by (simp add: map_update list_update_same_conv)
    ultimately show ?thesis using fr(1) tasks_ok_update [OF assms(3) i t fr(5)] unfolding e by simp
  qed
qed

lemma poll_run_alone:
  assumes "\<forall>st k v. quota st k v"
    and "store_ok (po_store po)" "tasks_ok (po_tasks po)" "\<forall>task \<in> set (po_tasks po). as_if_alone quota clock alone po task"
    and po1: "po1 = poll_run quota clock evs po"
  shows "store_ok (po_store po1) \<and> tasks_ok (po_tasks po1) \<and> map fst (po_tasks po1) = map fst (po_tasks po) \<and>
    (\<forall>task \<in> set (po_tasks po1). as_if_alone quota clock alone po1 task)"
  unfolding po1 using assms(2-4)
proof (induction evs arbitrary: po)
  case Nil
  then show ?case by (simp add: poll_run_def)
next
  case (Cons ev evs)
  let ?po = "poll_step quota clock ev po"
  have e: "poll_run quota clock (ev # evs) po = poll_run quota clock evs ?po" by (simp add: poll_run_def)
  have s: "store_ok (po_store ?po)" "tasks_ok (po_tasks ?po)" "map fst (po_tasks ?po) = map fst (po_tasks po)"
    "\<forall>task \<in> set (po_tasks ?po). as_if_alone quota clock alone ?po task"
    using poll_step_alone [OF assms(1) Cons.prems refl, of ev] by blast+
  show ?case using Cons.IH [OF s(1,2,4)] unfolding e s(3) .
qed

lemma scans_alone_start:
  assumes "store_ok st" "distinct (map fst groups)"
  shows "\<forall>task \<in> set (map (\<lambda>(c, js). (c, Start js)) groups).
    as_if_alone quota clock (\<lambda>c. case map_of groups c of None \<Rightarrow> None | Some js \<Rightarrow> scanChain quota (t_started (clock c)) (t_failed (clock c)) (states c) js st)
      (poll_start st states (map (\<lambda>(c, js). (c, Start js)) groups)) task"
proof -
  have "agree K st st" for K using assms(1) by (simp add: agree_def)
  then show ?thesis using assms(2) by (force simp: as_if_alone_def poll_start_def scanChain_rest)
qed

lemma fst_nth: "map fst xs = map fst ys \<Longrightarrow> i < length xs \<Longrightarrow> fst (xs ! i) = fst (ys ! i)"
  by (metis length_map nth_map)

text \<open>
  C15: the tasks of a poll do not disturb each other. Whatever the order in which the pieces of the tasks run, with whatever else the
  page or another tab stores in between, and as long as the storage accepts writes: a task that has ended has left its
  chain exactly as the scan of that chain alone would have, the backoff state and the cursors of all its receivers.
\<close>

theorem interleaving_harmless:
  assumes "store_ok st" "\<forall>st k v. quota st k v"
    and "lane_jobs (getLanes st) = Some jobs" "\<forall>(c, j) \<in> set jobs. wire c = c"
    and "groups = byChain (map (\<lambda>((c, j), f). (c, (j, f))) (zip jobs feeds))" "i < length groups" "groups ! i = (c, js)"
    and "po = poll_run quota clock evs (poll_start st states (poll_tasks jobs feeds))" "po_tasks po ! i = (c', Finished)"
  shows "c' = c \<and> (\<exists>st' em. scanChain quota (t_started (clock c)) (t_failed (clock c)) (states c) js st = Some (st', em, po_states po c) \<and>
    (\<forall>a. getCursor (po_store po) c a = getCursor st' c a))"
proof -
  let ?tasks = "map (\<lambda>(c, js). (c, Start js)) groups"
  let ?alone = "\<lambda>c. case map_of groups c of None \<Rightarrow> None | Some js \<Rightarrow> scanChain quota (t_started (clock c)) (t_failed (clock c)) (states c) js st"
  have t: "poll_tasks jobs feeds = ?tasks" by (simp only: poll_tasks_def assms(5))
  have d: "distinct (map fst groups)" using byChain_groups assms(5) by blast
  have ok: "tasks_ok ?tasks" using poll_tasks_ok [OF assms(3,4), of feeds] by (simp only: t)
  have r: "map fst (po_tasks po) = map fst ?tasks" "\<forall>task \<in> set (po_tasks po). as_if_alone quota clock ?alone po task"
  proof -
    let ?po = "poll_start st states ?tasks"
    have s: "po_store ?po = st" "po_tasks ?po = ?tasks" by (simp_all add: poll_start_def)
    note a = scans_alone_start [OF assms(1) d, of quota clock states]
    have "store_ok (po_store ?po)" "tasks_ok (po_tasks ?po)" "\<forall>task \<in> set (po_tasks ?po). as_if_alone quota clock ?alone ?po task"
      unfolding s by (rule assms(1) ok a)+
    from poll_run_alone [OF assms(2) this assms(8) [unfolded t]]
    show "map fst (po_tasks po) = map fst ?tasks" "\<forall>task \<in> set (po_tasks po). as_if_alone quota clock ?alone po task"
      unfolding s by blast+
  qed
  have l: "i < length (po_tasks po)" using assms(6) map_eq_imp_length_eq [OF r(1)] by simp
  have c: "c' = c" using fst_nth [OF r(1) l] assms(6,7,9) by simp
  have "as_if_alone quota clock ?alone po (c', Finished)" using r(2) nth_mem [OF l] unfolding assms(9) by (rule bspec)
  moreover have "?alone c = scanChain quota (t_started (clock c)) (t_failed (clock c)) (states c) js st"
    using d assms(6,7) nth_mem [of i groups] by simp
  ultimately obtain st' em where "agree (chain_cursors c) (po_store po) st'"
      "scanChain quota (t_started (clock c)) (t_failed (clock c)) (states c) js st = Some (st', em, po_states po c)"
    unfolding as_if_alone_def c by (auto simp: eq_commute [of "Some _"])
  moreover have "getCursor (po_store po) c a = getCursor st' c a" for a
    using calculation(1) by (simp add: agree_def getCursor_ok chain_cursors_def)
  ultimately show ?thesis using c by blast
qed

section \<open>A poll ends\<close>

text \<open>The pieces left to a task, at most.\<close>

fun work :: "phase \<Rightarrow> nat" where
  "work (Start jobs) = 2 + 10 * length jobs"
| "work (Next jobs) = 1 + 10 * length jobs"
| "work (AwaitHead j f rest) = 10 + 10 * length rest"
| "work (AwaitScan j f k i cursor rest) = k + 2 + 10 * length rest"
| "work Finished = 0"

definition always_answers :: "feed \<Rightarrow> bool" where
  "always_answers f \<longleftrightarrow> (\<forall>i c. f_scan f i c \<noteq> None)"

lemma first_cursor_work: "\<exists>st1 cs1 em p1. first_cursor quota t j f rest c s = ((st1, cs1), em, p1) \<and> work p1 < 10 + 10 * length rest"
  by (auto simp: first_cursor_def MAX_WINDOWS_PER_RECEIVER_def split: prod.splits sum.splits)

lemma task_step_work:
  assumes "\<forall>jf \<in> set (phase_jobs p). always_answers (snd jf)" "p \<noteq> Finished"
  shows "\<exists>st1 cs1 em p1. task_step quota t p (st, cs) = Some ((st1, cs1), em, p1) \<and> work p1 < work p"
proof (cases "(quota, t, p, (st, cs))" rule: task_step.cases)
  case (3 quota' t' j f rest s)
  then show ?thesis
    using first_cursor_work [of quota t j f rest "j_start j" s]
    by (auto simp: MAX_WINDOWS_PER_RECEIVER_def split: sum.splits option.splits)
next
  case (4 quota' t' j f rest s)
  then show ?thesis using first_cursor_work [of quota t j f rest "projr (f_head f)" s] by (auto split: sum.splits)
next
  case (5 quota' t' j f k i cursor rest s)
  then have "\<exists>a. f_scan f i cursor = Some a" using assms(1) by (auto simp: always_answers_def)
  then obtain a where "f_scan f i cursor = Some a" by blast
  then show ?thesis using 5 by (auto split: sum.splits option.splits prod.splits)
qed (use assms in auto)

definition resumes :: "nat \<Rightarrow> event list \<Rightarrow> nat" where
  "resumes i evs = length (filter (\<lambda>ev. ev = Resume i) evs)"

text \<open>The remaining work of task \<open>i\<close>; a piece of another task leaves it.\<close>

definition answered :: "(string \<times> phase) list \<Rightarrow> bool" where
  "answered tasks \<longleftrightarrow> (\<forall>task \<in> set tasks. \<forall>jf \<in> set (phase_jobs (snd task)). always_answers (snd jf))"

lemma poll_step_work:
  assumes "store_ok (po_store po)" "answered (po_tasks po)" "i < length (po_tasks po)"
    and po1: "po1 = poll_step quota clock ev po"
  shows "store_ok (po_store po1)" "answered (po_tasks po1)" "length (po_tasks po1) = length (po_tasks po)"
    "work (snd (po_tasks po1 ! i)) \<le> work (snd (po_tasks po ! i)) - resumes i [ev]"
proof -
  have "store_ok (po_store po1) \<and> answered (po_tasks po1) \<and> length (po_tasks po1) = length (po_tasks po) \<and>
      work (snd (po_tasks po1 ! i)) \<le> work (snd (po_tasks po ! i)) - resumes i [ev]"
  proof (cases ev)
    case (Write k v)
    then show ?thesis using assms by (auto simp: resumes_def watched_def store_ok_def)
  next
    case (Resume n)
    show ?thesis
    proof (cases "n < length (po_tasks po)")
      case False
      then show ?thesis using assms Resume by (auto simp: resumes_def)
    next
      case True
      obtain c p where t: "po_tasks po ! n = (c, p)" by fastforce
      have "(c, p) \<in> set (po_tasks po)" using t True by (metis nth_mem)
      then have a: "\<forall>jf \<in> set (phase_jobs p). always_answers (snd jf)" using assms(2) unfolding answered_def by fastforce
      show ?thesis
      proof (cases "p = Finished")
        case True
        then show ?thesis using assms Resume t by (auto simp: resumes_def)
      next
        case False
        obtain st1 cs1 em p1 where s: "task_step quota (clock c) p (po_store po, po_states po c) = Some ((st1, cs1), em, p1)" "work p1 < work p"
          using task_step_work [OF a False] by blast
        note fr = task_step_frame [OF assms(1) s(1)]
        have "\<forall>jf \<in> set (phase_jobs (snd (c, p1))). always_answers (snd jf)" using a fr(5) by auto
        then have "answered ((po_tasks po)[n := (c, p1)])"
          using assms(2) set_update_subset_insert [of "po_tasks po" n "(c, p1)"] unfolding answered_def by blast
        then show ?thesis using po1 Resume True t s fr(1) assms(3) by (auto simp: resumes_def nth_list_update)
      qed
    qed
  qed
  then show "store_ok (po_store po1)" "answered (po_tasks po1)" "length (po_tasks po1) = length (po_tasks po)"
    "work (snd (po_tasks po1 ! i)) \<le> work (snd (po_tasks po ! i)) - resumes i [ev]" by blast+
qed

lemma poll_run_work:
  assumes "store_ok (po_store po)" "answered (po_tasks po)" "i < length (po_tasks po)"
  shows "work (snd (po_tasks (poll_run quota clock evs po) ! i)) \<le> work (snd (po_tasks po ! i)) - resumes i evs \<and>
    length (po_tasks (poll_run quota clock evs po)) = length (po_tasks po)"
  using assms
proof (induction evs arbitrary: po)
  case Nil
  then show ?case by (simp add: poll_run_def resumes_def)
next
  case (Cons ev evs)
  let ?po = "poll_step quota clock ev po"
  note s = poll_step_work [OF Cons.prems refl, of quota clock ev]
  have "resumes i (ev # evs) = resumes i [ev] + resumes i evs" by (simp add: resumes_def)
  moreover have "poll_run quota clock (ev # evs) po = poll_run quota clock evs ?po" by (simp add: poll_run_def)
  ultimately show ?case using Cons.IH [OF s(1,2)] s(3,4) Cons.prems(3) by fastforce
qed

lemma task_ends:
  assumes "store_ok st" "\<forall>f \<in> set feeds. always_answers f"
    and "groups = byChain (map (\<lambda>((c, j), f). (c, (j, f))) (zip jobs feeds))" "i < length groups"
    and "2 + 10 * length (snd (groups ! i)) \<le> resumes i evs"
  shows "snd (po_tasks (poll_run quota clock evs (poll_start st states (poll_tasks jobs feeds))) ! i) = Finished"
proof -
  let ?po = "poll_start st states (poll_tasks jobs feeds)"
  have t: "po_tasks ?po = map (\<lambda>(c, js). (c, Start js)) groups" by (simp only: poll_tasks_def poll_start_def assms(3) poll.simps)
  have f: "always_answers f" if "(c, js) \<in> set groups" "(j, f) \<in> set js" for c js j f
  proof -
    have "(c, (j, f)) \<in> set (map (\<lambda>((c, j), f). (c, (j, f))) (zip jobs feeds))"
      using that unfolding assms(3) by (rule byChain_jobs)
    then show ?thesis using assms(2) by (auto dest: set_zip_rightD)
  qed
  have "answered (po_tasks ?po)" using f unfolding t answered_def by fastforce
  moreover have "work (snd (po_tasks ?po ! i)) = 2 + 10 * length (snd (groups ! i))"
    using assms(4) by (simp add: t case_prod_unfold)
  ultimately have "work (snd (po_tasks (poll_run quota clock evs ?po) ! i)) = 0"
    using poll_run_work [of ?po i quota clock evs] assms(1,4,5) t by (simp add: poll_start_def)
  then show ?thesis by (cases "snd (po_tasks (poll_run quota clock evs ?po) ! i)") auto
qed

text \<open>
  C18: a poll ends. When every scan is answered, whatever the answers, every task ends after at most two pieces and ten more for each
  receiver of its chain, in any order, whether or not the storage accepts writes.
\<close>

theorem poll_ends:
  assumes "store_ok st" "\<forall>f \<in> set feeds. always_answers f"
    and "groups = byChain (map (\<lambda>((c, j), f). (c, (j, f))) (zip jobs feeds))" "i < length groups"
    and "2 + 10 * length (snd (groups ! i)) \<le> resumes i evs"
  shows "snd (po_tasks (poll_run quota clock evs (poll_start st states (poll_tasks jobs feeds))) ! i) = Finished"
  using assms by (rule task_ends)

section \<open>Every state of a poll\<close>

fun page_write :: "event \<Rightarrow> storage \<Rightarrow> storage" where
  "page_write (Resume i) st = st"
| "page_write (Write k v) st = (if watched k then st else put st k v)"

lemma poll_step_pieces:
  "poll_step quota clock (Resume i) po = po \<or>
   (\<exists>c p st cs em p'. i < length (po_tasks po) \<and> po_tasks po ! i = (c, p) \<and>
      task_step quota (clock c) p (po_store po, po_states po c) = Some ((st, cs), em, p') \<and>
      poll_step quota clock (Resume i) po = \<lparr>po_store = st, po_states = (po_states po)(c := cs),
        po_emitted = po_emitted po @ em, po_tasks = (po_tasks po)[i := (c, p')]\<rparr>)"
  by (auto simp: Let_def split: prod.splits option.splits)

definition poll_safe :: "storage \<Rightarrow> event list \<Rightarrow> poll \<Rightarrow> bool" where
  "poll_safe st evs po \<longleftrightarrow> store_ok (po_store po) \<and> history_ok (po_store po) \<and>
     (\<exists>rec. subseq (po_emitted po) rec \<and> added_to st rec (po_store po)) \<and>
     (\<forall>k. if watched k then True else po_store po k = fold page_write evs st k)"

lemma poll_step_safe:
  assumes "poll_safe st evs po"
  shows "poll_safe st (evs @ [ev]) (poll_step quota clock ev po)"
proof (cases ev)
  case (Write k v)
  show ?thesis
  proof (cases "watched k")
    case False
    then show ?thesis using assms Write put_unwatched [OF False] by (simp add: poll_safe_def history_ok_def added_to_def) (simp add: put_def)
  qed (use assms Write in \<open>simp add: poll_safe_def\<close>)
next
  case (Resume i)
  consider "poll_step quota clock ev po = po"
    | c p st1 cs em p' where "task_step quota (clock c) p (po_store po, po_states po c) = Some ((st1, cs), em, p')"
        "po_store (poll_step quota clock ev po) = st1" "po_emitted (poll_step quota clock ev po) = po_emitted po @ em"
    using poll_step_pieces [of quota clock i po] unfolding Resume by force
  then show ?thesis
  proof cases
    case 1
    then show ?thesis using assms Resume by (simp add: poll_safe_def)
  next
    case (2 c p st1 cs em p')
    have ok: "store_ok (po_store po)" "history_ok (po_store po)" using assms by (simp_all add: poll_safe_def)
    obtain rec where rec: "subseq (po_emitted po) rec" "added_to st rec (po_store po)" using assms by (auto simp: poll_safe_def)
    obtain rec' where rec': "subseq em rec'" "added_to (po_store po) rec' st1" using task_step_frame(3) [OF ok(1) 2(1)] by blast
    have "subseq (po_emitted po @ em) (rec @ rec')" "added_to st (rec @ rec') st1"
      using list_emb_append_mono [OF rec(1) rec'(1)] added_to_trans [OF rec(2) rec'(2)] by blast+
    then show ?thesis
      using assms Resume 2 task_step_frame(1,4) [OF ok(1) 2(1)] task_step_history_ok [OF ok 2(1)]
      unfolding poll_safe_def by auto
  qed
qed

text \<open>
  C16: what holds at every moment of any polls. Whatever tasks run (even several on one chain, as when two polls overlap), in any order
  and with any refused writes: the storage stays well formed and the history keeps distinct deposits, at most 500;
  the deposits handed to the listeners are among those recorded in the history, in the same order, and nothing else
  was added to it; no other item of the storage is touched, so no lane is ever lost.
\<close>

theorem polls_safe:
  assumes "store_ok st" "history_ok st"
  shows "poll_safe st evs (poll_run quota clock evs (poll_start st states tasks))"
proof (induction evs rule: rev_induct)
  case Nil
  have "subseq [] [] \<and> added_to st [] st" by (simp add: added_to_def)
  then show ?case using assms unfolding poll_safe_def by (auto simp: poll_run_def poll_start_def)
next
  case (snoc ev evs)
  then show ?case using poll_step_safe [OF snoc.IH, of ev quota clock] by (simp add: poll_run_def)
qed

section \<open>Examples\<close>

text \<open>A lane with a receiver on Base and one on Monad, and a network without deposits.\<close>

definition two_chains :: json where
  "two_chains = JObj [(''id'', JStr ''L''), (''targetChain'', JStr ''BASE''), (''receivers'', JArr [
     JObj [(''chain'', JStr ''BASE''), (''address'', JStr ''0xab''), (''startBlock'', JNum 3)],
     JObj [(''chain'', JStr ''MONAD''), (''address'', JStr ''0xab''), (''startBlock'', JNum 5)]])]"

definition two_chains_store :: storage where
  "two_chains_store = [K_lanes \<mapsto> JArr [two_chains]]"

definition quiet_feed :: feed where
  "quiet_feed = \<lparr>f_now = (\<lambda>i. 0), f_head = Inr None, f_scan = (\<lambda>i c. Some (Inr ([], c)))\<rparr>"

definition two_chains_jobs :: "(string \<times> job) list" where
  "two_chains_jobs =
     [(''BASE'', \<lparr>j_receiver = \<lparr>rc_chain = ''BASE'', rc_address = ''0xab''\<rparr>, j_start = Some 3, j_lane = Some ''L''\<rparr>),
      (''MONAD'', \<lparr>j_receiver = \<lparr>rc_chain = ''MONAD'', rc_address = ''0xab''\<rparr>, j_start = Some 5, j_lane = Some ''L''\<rparr>)]"

lemma two_chains_lanes: "getLanes two_chains_store = [two_chains]"
proof -
  have "chain_json (Some (JStr ''BASE'')) \<noteq> None" "chain_json (Some (JStr ''MONAD'')) \<noteq> None"
    unfolding chain_json_def wire_json_str chainByKey_wire chainByKey_None chain_keys
    by (simp_all add: wire_def char_eval)
  then show ?thesis
    by (simp add: getLanes_def two_chains_store_def read_item_def as_array_def isLane_def two_chains_def opt_prop_def as_string_def js_truthy_def)
qed

lemma two_chains_jobs: "lane_jobs (getLanes two_chains_store) = Some two_chains_jobs"
  by (simp add: two_chains_lanes lane_jobs_def two_chains_def lane_receivers_def lane_id_def opt_prop_def as_array_def as_string_def
      receiver_job_def two_chains_jobs_def)

lemma two_chains_ok: "store_ok two_chains_store" "history_ok two_chains_store"
  by (simp_all add: two_chains_store_def store_ok_def read_item_def history_ok_def getHistory_def as_array_def ids_def MAX_HISTORY_def)

lemma two_chains_canonical: "\<forall>(c, j) \<in> set two_chains_jobs. wire c = c"
  by (simp add: two_chains_jobs_def wire_def char_eval)

lemma two_chains_groups: "byChain (map (\<lambda>((c, j), f). (c, (j, f))) (zip two_chains_jobs [quiet_feed, quiet_feed])) =
    map (\<lambda>(c, j). (c, [(j, quiet_feed)])) two_chains_jobs"
  by (simp add: byChain_def two_chains_jobs_def)

definition in_turns :: "event list" where
  "in_turns = Write ''beanie.seen'' JNull # concat (replicate 12 [Resume 0, Resume 1])"

lemma in_turns_resumes: "resumes 0 in_turns = 12"
  by (simp add: resumes_def in_turns_def eval_nat_numeral)

lemma two_chains_first: "map (\<lambda>(c, j). (c, [(j, quiet_feed)])) two_chains_jobs ! 0 = (''BASE'', [(snd (hd two_chains_jobs), quiet_feed)])"
  by (simp add: two_chains_jobs_def)

lemma two_chains_ends: "snd (po_tasks (poll_run quota clock in_turns
    (poll_start two_chains_store states (poll_tasks two_chains_jobs [quiet_feed, quiet_feed]))) ! 0) = Finished"
proof (rule task_ends [OF two_chains_ok(1) _ refl])
  show "\<forall>f \<in> set [quiet_feed, quiet_feed]. always_answers f" by (simp add: always_answers_def quiet_feed_def)
qed (simp_all add: two_chains_groups two_chains_first in_turns_resumes, simp add: two_chains_jobs_def)

theorem poll_ends_witness:
  "snd (po_tasks (poll_run (\<lambda>st k v. False) (\<lambda>c. \<lparr>t_started = 0, t_failed = 0\<rparr>) in_turns
    (poll_start two_chains_store (\<lambda>c. None) (poll_tasks two_chains_jobs [quiet_feed, quiet_feed]))) ! 0) = Finished"
proof (rule poll_ends [OF two_chains_ok(1) _ refl])
  show "\<forall>f \<in> set [quiet_feed, quiet_feed]. always_answers f" by (simp add: always_answers_def quiet_feed_def)
qed (simp_all add: two_chains_groups two_chains_first in_turns_resumes, simp add: two_chains_jobs_def)

theorem interleaving_harmless_witness:
  "\<exists>st' em po. po = poll_run (\<lambda>st k v. True) (\<lambda>c. \<lparr>t_started = 0, t_failed = 0\<rparr>) in_turns
      (poll_start two_chains_store (\<lambda>c. None) (poll_tasks two_chains_jobs [quiet_feed, quiet_feed])) \<and>
    scanChain (\<lambda>st k v. True) 0 0 None [(snd (hd two_chains_jobs), quiet_feed)] two_chains_store = Some (st', em, po_states po ''BASE'') \<and>
    getCursor (po_store po) ''BASE'' ''0xab'' = getCursor st' ''BASE'' ''0xab''"
proof -
  define po where "po = poll_run (\<lambda>st k v. True) (\<lambda>c. \<lparr>t_started = 0, t_failed = 0\<rparr>) in_turns
      (poll_start two_chains_store (\<lambda>c. None) (poll_tasks two_chains_jobs [quiet_feed, quiet_feed]))"
  have f: "po_tasks po ! 0 = (fst (po_tasks po ! 0), Finished)"
    using two_chains_ends unfolding po_def by (metis prod.collapse)
  have "0 < length (map (\<lambda>(c, j). (c, [(j, quiet_feed)])) two_chains_jobs)" by (simp add: two_chains_jobs_def)
  from interleaving_harmless [OF two_chains_ok(1) _ two_chains_jobs two_chains_canonical two_chains_groups [symmetric] this two_chains_first po_def f]
  show ?thesis by (auto simp flip: po_def)
qed

theorem polls_safe_witness:
  "poll_safe two_chains_store in_turns (poll_run (\<lambda>st k v. True) (\<lambda>c. \<lparr>t_started = 0, t_failed = 0\<rparr>) in_turns
    (poll_start two_chains_store (\<lambda>c. None) (poll_tasks two_chains_jobs [quiet_feed, quiet_feed])))"
  by (rule polls_safe [OF two_chains_ok])

text \<open>
  Without the lock two tabs can scan one receiver at a time, and the one that ends last may put its cursor back: the
  same blocks are scanned again, and the deposits found again are not recorded twice (\<open>recordScan_idempotent\<close>).
\<close>

definition feed_to :: "int \<Rightarrow> feed" where
  "feed_to n = \<lparr>f_now = (\<lambda>i. 0), f_head = Inr None, f_scan = (\<lambda>i c. Some (Inr ([], Some n)))\<rparr>"

definition scans_base :: "int \<Rightarrow> string \<times> phase" where
  "scans_base n = (''BASE'', AwaitScan \<lparr>j_receiver = \<lparr>rc_chain = ''BASE'', rc_address = ''0xab''\<rparr>, j_start = None, j_lane = None\<rparr> (feed_to n) 0 0 (Some 3) [])"

lemma two_scans_at_once:
  defines "run \<equiv> \<lambda>evs. po_store (poll_run (\<lambda>st k v. True) (\<lambda>c. \<lparr>t_started = 0, t_failed = 0\<rparr>) evs
      (poll_start cursor_storage (\<lambda>c. None) [scans_base 9, scans_base 5]))"
  shows "getCursor (run [Resume 0]) ''BASE'' ''0xab'' = Inr (Some 9)" "getCursor (run [Resume 0, Resume 1]) ''BASE'' ''0xab'' = Inr (Some 5)"
proof -
  let ?r = "\<lparr>rc_chain = ''BASE'', rc_address = ''0xab''\<rparr>" and ?q = "\<lambda>st k v. True"
  note w = recordScan_writes [where quota = ?q and now = 0 and r = ?r and ds = "[]" and laneId = None]
  obtain st1 a1 where 1: "recordScan ?q cursor_storage 0 ?r [] (Some 9) None = (st1, Inr (Some a1))" "store_ok st1"
      "cursor_at st1 = (cursor_at cursor_storage)(rkey ?r := Some (json_num (Some 9)))"
    using w [OF cursor_storage_ok, of "Some 9"] by auto
  obtain st2 a2 where 2: "recordScan ?q st1 0 ?r [] (Some 5) None = (st2, Inr (Some a2))" "store_ok st2"
      "cursor_at st2 = (cursor_at st1)(rkey ?r := Some (json_num (Some 5)))"
    using w [OF 1(2), of "Some 5"] by auto
  have "run [Resume 0] = st1" "run [Resume 0, Resume 1] = st2"
    using 1(1) 2(1) by (simp_all add: run_def poll_run_def poll_start_def scans_base_def feed_to_def num_eq_def)
  then show "getCursor (run [Resume 0]) ''BASE'' ''0xab'' = Inr (Some 9)" "getCursor (run [Resume 0, Resume 1]) ''BASE'' ''0xab'' = Inr (Some 5)"
    using 1(2,3) 2(2,3) by (simp_all add: getCursor_ok json_num_def)
qed

end
