(* ===== verification/Watcher_Tabs.thy ===== *)
theory Watcher_Tabs
  imports Concurrent
begin

text \<open>
  The watcher of \<open>scripts/watcher.js\<close> in several tabs of one browser: the Web Lock that lets one tab poll at a time, and the
  timer that asks for the polls.
\<close>

section \<open>Several tabs and the lock\<close>

text \<open>
  \<open>pollNow\<close> in the tabs of a browser. With Web Locks a poll runs only while its tab holds the lock; \<open>polling\<close> keeps a tab from
  polling twice. A tab may be closed at any moment, which releases its lock. \<open>net\<close> restricts the answers of the network.
\<close>

record tab =
  tb_polling :: bool
  tb_states :: "string \<Rightarrow> chain_state option"
  tb_tasks :: "(string \<times> phase) list"

record browser =
  br_store :: storage
  br_lock :: "nat option"
  br_tabs :: "nat \<Rightarrow> tab"

definition idle_tab :: tab where
  "idle_tab = \<lparr>tb_polling = False, tb_states = (\<lambda>c. None), tb_tasks = []\<rparr>"

definition opened :: "storage \<Rightarrow> browser" where
  "opened st = \<lparr>br_store = st, br_lock = None, br_tabs = (\<lambda>t. idle_tab)\<rparr>"

definition release :: "nat \<Rightarrow> nat option \<Rightarrow> nat option" where
  "release t lock = (if lock = Some t then None else lock)"

inductive browser_step :: "bool \<Rightarrow> quota \<Rightarrow> (feed \<Rightarrow> bool) \<Rightarrow> browser \<Rightarrow> browser \<Rightarrow> bool"
  for web_locks quota net where
  poll_begins: "\<not> tb_polling (br_tabs b t) \<Longrightarrow> \<not> web_locks \<or> br_lock b = None \<Longrightarrow>
    lane_jobs (getLanes (br_store b)) = Some jobs \<Longrightarrow> \<forall>(c, j) \<in> set jobs. wire c = c \<Longrightarrow> list_all net feeds \<Longrightarrow>
    browser_step web_locks quota net b (b\<lparr>br_lock := (if web_locks then Some t else br_lock b),
      br_tabs := (br_tabs b)(t := (br_tabs b t)\<lparr>tb_polling := True, tb_tasks := poll_tasks jobs feeds\<rparr>)\<rparr>)"
| piece_runs: "i < length (tb_tasks (br_tabs b t)) \<Longrightarrow> tb_tasks (br_tabs b t) ! i = (c, p) \<Longrightarrow>
    task_step quota clock p (br_store b, tb_states (br_tabs b t) c) = Some ((st, cs), em, p') \<Longrightarrow>
    browser_step web_locks quota net b (b\<lparr>br_store := st, br_tabs := (br_tabs b)(t := (br_tabs b t)\<lparr>
      tb_states := (tb_states (br_tabs b t))(c := cs), tb_tasks := (tb_tasks (br_tabs b t))[i := (c, p')]\<rparr>)\<rparr>)"
| poll_over: "tb_polling (br_tabs b t) \<Longrightarrow> \<forall>task \<in> set (tb_tasks (br_tabs b t)). snd task = Finished \<Longrightarrow>
    browser_step web_locks quota net b (b\<lparr>br_lock := release t (br_lock b),
      br_tabs := (br_tabs b)(t := (br_tabs b t)\<lparr>tb_polling := False, tb_tasks := []\<rparr>)\<rparr>)"
| page_stores: "\<not> watched k \<Longrightarrow> browser_step web_locks quota net b (b\<lparr>br_store := put (br_store b) k v\<rparr>)"
| tab_closes: "browser_step web_locks quota net b (b\<lparr>br_lock := release t (br_lock b), br_tabs := (br_tabs b)(t := idle_tab)\<rparr>)"

text \<open>A waiting task knows the cursor that is stored, if one is.\<close>

abbreviation stored_cursor :: "storage \<Rightarrow> receiver \<Rightarrow> int option result" where
  "stored_cursor st r \<equiv> getCursor st (rc_chain r) (rc_address r)"

fun synced :: "storage \<Rightarrow> phase \<Rightarrow> bool" where
  "synced st (AwaitHead j f rest) \<longleftrightarrow> stored_cursor st (j_receiver j) = Inr None"
| "synced st (AwaitScan j f k i cursor rest) \<longleftrightarrow> stored_cursor st (j_receiver j) = Inr None \<or> stored_cursor st (j_receiver j) = Inr cursor"
| "synced st p \<longleftrightarrow> True"

definition cursors_kept :: "storage \<Rightarrow> storage \<Rightarrow> bool" where
  "cursors_kept st st' \<longleftrightarrow>
     (\<forall>c a n. getCursor st c a = Inr (Some n) \<longrightarrow> (\<exists>m \<ge> n. getCursor st' c a = Inr (Some m)))"

lemma cursors_kept_refl: "cursors_kept st st"
  by (auto simp: cursors_kept_def)

lemma cursors_keptI:
  assumes "store_ok st" "store_ok st'" "\<And>k. k \<noteq> rkey r \<Longrightarrow> cursor_at st' k = cursor_at st k"
    and "\<And>n. stored_cursor st r = Inr (Some n) \<Longrightarrow> \<exists>m \<ge> n. stored_cursor st' r = Inr (Some m)"
  shows "cursors_kept st st'"
  unfolding cursors_kept_def
proof (intro allI impI)
  fix c a n
  assume n: "getCursor st c a = Inr (Some n)"
  show "\<exists>m \<ge> n. getCursor st' c a = Inr (Some m)"
  proof (cases "receiverKey c a = rkey r")
    case True
    then have "getCursor st c a = stored_cursor st r" "getCursor st' c a = stored_cursor st' r"
      using assms(1,2) by (simp_all add: getCursor_ok)
    then show ?thesis using n assms(4) by simp
  next
    case False
    then have "getCursor st' c a = getCursor st c a" using assms(1-3) by (simp add: getCursor_ok)
    then show ?thesis using n by auto
  qed
qed

lemma cursor_of_num: "(case Some (json_num nb) of Some (JNum i) \<Rightarrow> if 0 \<le> i then Some i else None | _ \<Rightarrow> None) \<in> {None, nb}"
  by (cases nb) (auto simp: json_num_def)

lemma first_cursor_synced:
  assumes "store_ok st" "stored_cursor st (j_receiver j) = Inr None"
    and "first_cursor quota t j f rest cursor (st, cs) = ((st1, cs1), em, p1)"
  shows "synced st1 p1 \<and> cursors_kept st st1"
proof -
  obtain st2 where s: "setCursor_num quota st (rkey (j_receiver j)) cursor = (st2, Inr ())" "st2 = st \<or> st2 = cursor_put st (rkey (j_receiver j)) cursor"
      "store_ok st2" "\<And>k. k \<noteq> rkey (j_receiver j) \<Longrightarrow> cursor_at st2 k = cursor_at st k"
  proof -
    obtain cs where "read_item st K_cursors (JObj []) = JObj cs" using assms(1) by (rule store_okE)
    then have "setCursor_num quota st (rkey (j_receiver j)) cursor = (st, Inr ()) \<or>
        setCursor_num quota st (rkey (j_receiver j)) cursor = (cursor_put st (rkey (j_receiver j)) cursor, Inr ())"
      by (simp add: setCursor_num_def set_prop_def write_item_cases cursor_put_def)
    then show ?thesis using that assms(1) store_ok_put(2) [OF assms(1)] cursor_at_put [OF assms(1)] by auto
  qed
  have "stored_cursor st2 (j_receiver j) = Inr None \<or> stored_cursor st2 (j_receiver j) = Inr cursor"
    using s(2) assms(2) cursor_of_num [of cursor] store_ok_put(2) [OF assms(1)] cursor_at_put [OF assms(1)]
    by (auto simp: getCursor_ok)
  moreover have "cursors_kept st st2" by (rule cursors_keptI [OF assms(1) s(3,4)]) (auto simp: assms(2))
  ultimately show ?thesis using s(1) assms(3) by (auto simp: first_cursor_def)
qed

lemma task_step_synced:
  assumes "store_ok st" "\<forall>jf \<in> set (phase_jobs p). moves_on (f_scan (snd jf))" "synced st p"
    and "task_step quota t p (st, cs) = Some ((st1, cs1), em, p1)"
  shows "synced st1 p1 \<and> cursors_kept st st1"
proof (cases "(quota, t, p, (st, cs))" rule: task_step.cases)
  case (3 quota' t' j f rest s)
  then show ?thesis
    using assms first_cursor_synced [OF assms(1)] cursors_kept_refl
    by (auto split: sum.splits option.splits)
next
  case (4 quota' t' j f rest s)
  then show ?thesis using assms first_cursor_synced [OF assms(1)] cursors_kept_refl by (auto split: sum.splits)
next
  case (5 quota' t' j f k i cursor rest s)
  then have p: "p = AwaitScan j f k i cursor rest" by simp
  obtain a where a: "f_scan f i cursor = Some a" using assms(4) p by (cases "f_scan f i cursor") auto
  show ?thesis
  proof (cases "\<exists>ds nb. a = Inr (ds, nb) \<and> \<not> num_eq nb cursor")
    case False
    then show ?thesis using assms(4) p a cursors_kept_refl by (cases a) (auto split: if_splits)
  next
    case True
    then obtain ds nb where d: "a = Inr (ds, nb)" "\<not> num_eq nb cursor" by blast
    let ?r = "j_receiver j"
    obtain st2 out where r: "recordScan quota st (f_now f i) ?r ds nb (j_lane j) = (st2, Inr out)" "store_ok st2"
        "case out of None \<Rightarrow> cursor_at st2 = cursor_at st | Some added \<Rightarrow> cursor_at st2 = (cursor_at st)(rkey ?r := Some (json_num nb))"
      using recordScan_outcome [OF assms(1), of quota "f_now f i" ?r ds nb "j_lane j"] by (auto split: option.splits)
    have st1: "st1 = st2" and p1: "synced st1 p1 \<longleftrightarrow> out = None \<or> k = 0 \<or> stored_cursor st2 ?r = Inr None \<or> stored_cursor st2 ?r = Inr nb"
      using assms(4) p a d r(1) by (auto split: option.splits if_splits)
    have stored: "out \<noteq> None \<Longrightarrow> stored_cursor st2 ?r = Inr (case Some (json_num nb) of Some (JNum i) \<Rightarrow> if 0 \<le> i then Some i else None | _ \<Rightarrow> None)"
      using r(2,3) by (auto simp: getCursor_ok split: option.splits)
    then have "synced st1 p1" using p1 cursor_of_num [of nb] by auto
    moreover have "cursors_kept st st2"
    proof (rule cursors_keptI [OF assms(1) r(2)])
      show "cursor_at st2 k = cursor_at st k" if "k \<noteq> rkey ?r" for k using that r(3) by (auto split: option.splits)
      show "\<exists>m \<ge> n. stored_cursor st2 ?r = Inr (Some m)" if n: "stored_cursor st ?r = Inr (Some n)" for n
      proof (cases out)
        case None
        then show ?thesis using n r(2,3) assms(1) by (auto simp: getCursor_ok)
      next
        case (Some added)
        have c: "cursor = Some n" "0 \<le> n" using assms(3) p n assms(1) by (auto simp: getCursor_ok split: option.splits json.splits if_splits)
        have "moves_on (f_scan f)" using assms(2) p by simp
        then obtain m where "nb = Some m" "n \<le> m" using a d(1) c(1) unfolding moves_on_def by blast
        then show ?thesis using stored Some c(2) by (auto simp: json_num_def)
      qed
    qed
    ultimately show ?thesis using st1 by simp
  qed
qed (use assms cursors_kept_refl in auto)

text \<open>With the lock only its holder has tasks, so no two tasks ever share a chain.\<close>

definition tab_ok :: "storage \<Rightarrow> nat option \<Rightarrow> nat \<Rightarrow> tab \<Rightarrow> bool" where
  "tab_ok st lock t tb \<longleftrightarrow> (tb_polling tb \<longrightarrow> lock = Some t) \<and> (\<not> tb_polling tb \<longrightarrow> tb_tasks tb = []) \<and>
     tasks_ok (tb_tasks tb) \<and>
     (\<forall>task \<in> set (tb_tasks tb). synced st (snd task) \<and> (\<forall>jf \<in> set (phase_jobs (snd task)). moves_on (f_scan (snd jf))))"

definition browser_ok :: "browser \<Rightarrow> bool" where
  "browser_ok b \<longleftrightarrow> store_ok (br_store b) \<and> (\<forall>t. tab_ok (br_store b) (br_lock b) t (br_tabs b t))"

abbreviation steady_net :: "feed \<Rightarrow> bool" where
  "steady_net f \<equiv> moves_on (f_scan f)"

lemma synced_same:
  assumes "store_ok st" "store_ok st'" "\<And>k. k \<in> phase_keys p \<Longrightarrow> cursor_at st' k = cursor_at st k" "synced st p"
  shows "synced st' p"
  using assms by (cases p) (auto simp: getCursor_ok phase_keys_def)

lemma poll_tasks_feeds:
  assumes "list_all net feeds" "(c, p) \<in> set (poll_tasks jobs feeds)"
  shows "(\<exists>js. p = Start js) \<and> (\<forall>jf \<in> set (phase_jobs p). net (snd jf))"
proof -
  define xs where "xs = map (\<lambda>((c, j), f). (c, (j, f))) (zip jobs feeds)"
  have "net f" if "(c, (j, f)) \<in> set xs" for c j f
    using that assms(1) by (auto simp: xs_def list_all_iff dest: set_zip_rightD)
  moreover obtain js where js: "(c, js) \<in> set (byChain xs)" "p = Start js"
    using assms(2) by (auto simp: poll_tasks_def simp flip: xs_def)
  ultimately show ?thesis using byChain_jobs [OF js(1)] by fastforce
qed

lemma tab_ok_quiet: "\<not> tb_polling tb \<Longrightarrow> tab_ok st lock t tb \<longleftrightarrow> tb_tasks tb = []"
  by (auto simp: tab_ok_def)

lemma tab_ok_task:
  assumes "tab_ok st lock t tb" "i < length (tb_tasks tb)" "tb_tasks tb ! i = (c, p)"
  shows "synced st p" "\<forall>jf \<in> set (phase_jobs p). steady_net (snd jf)" "tasks_ok (tb_tasks tb)" "lock = Some t"
proof -
  have "(c, p) \<in> set (tb_tasks tb)" using assms(2,3) by (metis nth_mem)
  then show "synced st p" "\<forall>jf \<in> set (phase_jobs p). steady_net (snd jf)" "tasks_ok (tb_tasks tb)" "lock = Some t"
    using assms(1) by (force simp: tab_ok_def)+
qed

lemma tab_ok_piece:
  assumes "store_ok st" "tab_ok st lock t tb" "i < length (tb_tasks tb)" "tb_tasks tb ! i = (c, p)"
    and step: "task_step quota clock p (st, cs) = Some ((st1, cs1), em, p')"
  shows "tab_ok st1 lock t (tb\<lparr>tb_states := states, tb_tasks := (tb_tasks tb)[i := (c, p')]\<rparr>)"
proof -
  note p = tab_ok_task [OF assms(2-4)]
  note fr = task_step_frame [OF assms(1) step]
  note sy = task_step_synced [OF assms(1) p(2,1) step]
  have "synced st1 (snd task) \<and> (\<forall>jf \<in> set (phase_jobs (snd task)). steady_net (snd jf))"
    if task: "task \<in> set ((tb_tasks tb)[i := (c, p')])" for task
  proof -
    obtain n where n: "n < length (tb_tasks tb)" "task = (tb_tasks tb)[i := (c, p')] ! n"
      using task unfolding in_set_conv_nth by auto
    show ?thesis
    proof (cases "n = i")
      case True
      then show ?thesis using n sy fr(5) p(2) by auto
    next
      case False
      obtain c' q where e: "tb_tasks tb ! n = (c', q)" "task = (c', q)"
        using False n(2) by (metis nth_list_update_neq surj_pair)
      note old = tab_ok_task [OF assms(2) n(1) e(1)]
      have "cursor_at st1 k = cursor_at st k" if "k \<in> phase_keys q" for k
        using tasks_ok_keys(4) [OF p(3) assms(3,4) n(1) False] tasks_ok_keys(1) [OF p(3) n(1) e(1)] that e(1) fr(2) by auto
      then show ?thesis using synced_same [OF assms(1) fr(1) _ old(1)] old(2) e(2) by simp
    qed
  qed
  then show ?thesis
    using assms(2) tasks_ok_update [OF p(3) assms(3,4) fr(5)] p(4) by (auto simp: tab_ok_def)
qed

lemma tab_ok_moved: "tab_ok st lock t tb \<Longrightarrow> lock \<noteq> Some t \<Longrightarrow> tab_ok st' lock' t tb"
  by (auto simp: tab_ok_def)

lemma browser_step_ok:
  assumes "browser_ok b" "browser_step True quota steady_net b b'"
  shows "browser_ok b' \<and> cursors_kept (br_store b) (br_store b')"
  using assms(2)
proof (cases rule: browser_step.cases)
  case (poll_begins t jobs feeds)
  have "tasks_ok (poll_tasks jobs feeds)" using poll_begins(4,5) by (rule poll_tasks_ok)
  moreover have "synced st (snd task) \<and> (\<forall>jf \<in> set (phase_jobs (snd task)). steady_net (snd jf))"
    if m: "task \<in> set (poll_tasks jobs feeds)" for task st
    using poll_tasks_feeds [OF poll_begins(6), of "fst task" "snd task" jobs] m by auto
  ultimately have "tab_ok (br_store b) (Some t) t ((br_tabs b t)\<lparr>tb_polling := True, tb_tasks := poll_tasks jobs feeds\<rparr>)"
    by (simp add: tab_ok_def)
  moreover have "tab_ok (br_store b) (Some t) t' (br_tabs b t')" for t'
    using assms(1) poll_begins(3) tab_ok_moved [of "br_store b" "br_lock b" t' "br_tabs b t'"] by (auto simp: browser_ok_def)
  ultimately show ?thesis using assms(1) poll_begins(1) cursors_kept_refl by (simp add: browser_ok_def)
next
  case (piece_runs i t c p clock st cs em p')
  have ok: "store_ok (br_store b)" "tab_ok (br_store b) (br_lock b) t' (br_tabs b t')" for t'
    using assms(1) by (simp_all add: browser_ok_def)
  note p = tab_ok_task [OF ok(2) piece_runs(2,3)]
  have "tab_ok st (br_lock b) t' (br_tabs b t')" if "t' \<noteq> t" for t'
    using tab_ok_moved [OF ok(2)] p(4) that by simp
  then show ?thesis
    using tab_ok_piece [OF ok(1,2) piece_runs(2-4)] task_step_synced [OF ok(1) p(2,1) piece_runs(4)] task_step_frame(1) [OF ok(1) piece_runs(4)]
    unfolding piece_runs(1) browser_ok_def by simp
next
  case (poll_over t)
  have "tab_ok (br_store b) (release t (br_lock b)) t' (br_tabs b t')" if "t' \<noteq> t" for t'
    using assms(1) that by (auto simp: browser_ok_def tab_ok_def release_def)
  then show ?thesis using assms(1) cursors_kept_refl unfolding poll_over(1) browser_ok_def by (simp add: tab_ok_quiet)
next
  case (page_stores k v)
  note u = put_unwatched [OF page_stores(2), of "br_store b" v]
  have ok: "store_ok (br_store b)" "store_ok (put (br_store b) k v)" using assms(1) u by (simp_all add: browser_ok_def)
  have "synced (put (br_store b) k v) p" if "synced (br_store b) p" for p
    by (rule synced_same [OF ok _ that]) (simp add: u)
  then have "tab_ok (put (br_store b) k v) lock t tb" if "tab_ok (br_store b) lock t tb" for lock t tb
    using that by (simp add: tab_ok_def)
  moreover have "cursors_kept (br_store b) (put (br_store b) k v)"
    using cursors_kept_refl [of "br_store b"] ok by (simp add: cursors_kept_def getCursor_ok u)
  ultimately show ?thesis using assms(1) ok(2) unfolding page_stores(1) browser_ok_def by simp
next
  case (tab_closes t)
  have "tab_ok (br_store b) (release t (br_lock b)) t' (br_tabs b t')" if "t' \<noteq> t" for t'
    using assms(1) that by (auto simp: browser_ok_def tab_ok_def release_def)
  then show ?thesis using assms(1) cursors_kept_refl unfolding tab_closes(1) browser_ok_def by (simp add: tab_ok_quiet idle_tab_def)
qed

text \<open>
  C17: the lock of the watcher. With Web Locks, in every state that polls, pages and closed tabs can reach: at most one tab polls, and no
  step moves the cursor of a receiver back, as long as the scans do not. A closed tab gives the lock back, so that
  another tab can poll.
\<close>

theorem one_tab_polls:
  assumes "store_ok st" "(browser_step True quota steady_net)\<^sup>*\<^sup>* (opened st) b"
  shows "(tb_polling (br_tabs b t) \<and> tb_polling (br_tabs b t') \<longrightarrow> t = t') \<and>
    (browser_step True quota steady_net b b' \<longrightarrow> cursors_kept (br_store b) (br_store b')) \<and>
    (br_lock b = Some t \<longrightarrow> (\<exists>b2. browser_step True quota steady_net b b2 \<and> br_lock b2 = None \<and> br_store b2 = br_store b))"
proof -
  have "browser_ok (opened st)"
    using assms(1) by (simp add: browser_ok_def opened_def idle_tab_def tab_ok_quiet)
  with assms(2) have ok: "browser_ok b"
    by (induction rule: rtranclp_induct) (use browser_step_ok in blast)+
  have "\<exists>b2. browser_step True quota steady_net b b2 \<and> br_lock b2 = None \<and> br_store b2 = br_store b" if "br_lock b = Some t"
    using browser_step.tab_closes [of True quota steady_net b t] that by (force simp: release_def)
  moreover have "tb_polling (br_tabs b t) \<and> tb_polling (br_tabs b t') \<longrightarrow> t = t'"
  proof -
    have "tb_polling (br_tabs b x) \<Longrightarrow> br_lock b = Some x" for x using ok by (simp add: browser_ok_def tab_ok_def)
    then show ?thesis by (metis option.inject)
  qed
  ultimately show ?thesis using browser_step_ok [OF ok] by blast
qed

section \<open>The timer\<close>

text \<open>
  \<open>start\<close> and \<open>stop\<close>: the interval under way, and how many times \<open>tick\<close> listens for \<open>visibilitychange\<close>. \<open>fresh\<close> is the
  identifier the browser gives to the interval; the flag returned says that the first tick polls.
\<close>

record clockwork =
  ck_timer :: "nat option"
  ck_visible :: nat

definition start_watch :: "nat \<Rightarrow> bool \<Rightarrow> clockwork \<Rightarrow> clockwork \<times> bool" where
  "start_watch fresh hidden ck =
     (if ck_timer ck \<noteq> None then (ck, False) else (\<lparr>ck_timer = Some fresh, ck_visible = ck_visible ck + 1\<rparr>, \<not> hidden))"

definition stop_watch :: "clockwork \<Rightarrow> clockwork" where
  "stop_watch ck = ck\<lparr>ck_timer := None\<rparr>"

text \<open>How many polls an event asks for: the interval calls \<open>tick\<close> once, a change of visibility every listener.\<close>

datatype wake = Interval nat | Visibility

fun polls_asked :: "bool \<Rightarrow> clockwork \<Rightarrow> wake \<Rightarrow> nat" where
  "polls_asked hidden ck (Interval i) = (if ck_timer ck = Some i \<and> \<not> hidden then 1 else 0)"
| "polls_asked hidden ck Visibility = (if hidden then 0 else ck_visible ck)"

text \<open>
  Starting twice is starting once, a hidden page never polls, and a stopped interval is silent; but \<open>stop\<close> leaves the
  visibility listener in place, so that a stopped watcher still polls when the page is shown, once for each time it was
  started.
\<close>

lemma start_watch_twice: "start_watch j h (fst (start_watch i hidden ck)) = (fst (start_watch i hidden ck), False)"
  by (auto simp: start_watch_def)

lemma hidden_page_rests: "polls_asked True ck w = 0"
  by (cases w) simp_all

lemma stopped_watch_listens:
  "polls_asked False (stop_watch (fst (start_watch i hidden ck))) (Interval j) = 0"
  "polls_asked False (stop_watch (fst (start_watch i hidden ck))) Visibility = ck_visible ck + (if ck_timer ck = None then 1 else 0)"
  by (simp_all add: start_watch_def stop_watch_def)

section \<open>An example\<close>

text \<open>The first tab polls, and no second one can start until it is closed.\<close>

theorem one_tab_polls_witness:
  "\<exists>b. (browser_step True (\<lambda>st k v. True) steady_net)\<^sup>*\<^sup>* (opened two_chains_store) b \<and> tb_polling (br_tabs b 0) \<and> \<not> tb_polling (br_tabs b 1) \<and>
    (\<exists>b2. browser_step True (\<lambda>st k v. True) steady_net b b2 \<and> br_lock b2 = None)"
proof -
  let ?step = "browser_step True (\<lambda>st k v. True) steady_net"
  let ?o = "opened two_chains_store"
  have o: "br_store ?o = two_chains_store" "br_lock ?o = None" "\<not> tb_polling (br_tabs ?o 0)"
    by (simp_all add: opened_def idle_tab_def)
  have net: "list_all steady_net [quiet_feed, quiet_feed]" by (simp add: quiet_feed_def moves_on_def)
  have "\<exists>b. ?step ?o b \<and> tb_polling (br_tabs b 0)"
    by (intro exI conjI, rule browser_step.poll_begins [where t = 0 and jobs = two_chains_jobs, OF _ _ _ _ net])
      (use o two_chains_jobs two_chains_canonical in simp_all)
  then obtain b where b: "?step ?o b" "tb_polling (br_tabs b 0)" by blast
  have r: "?step\<^sup>*\<^sup>* ?o b" using b(1) by blast
  have one: "\<not> tb_polling (br_tabs b 1)" using one_tab_polls [OF two_chains_ok(1) r, of 0 1] b(2) by auto
  have "\<exists>b2. ?step b b2 \<and> br_lock b2 = None"
  proof (intro exI conjI, rule browser_step.tab_closes)
    show "br_lock (b\<lparr>br_lock := release (the (br_lock b)) (br_lock b), br_tabs := (br_tabs b)(the (br_lock b) := idle_tab)\<rparr>) = None"
      by (cases "br_lock b") (simp_all add: release_def)
  qed
  then show ?thesis using r one b(2) by blast
qed

end
