(* ===== verification/Pay_Link.thy ===== *)
theory Pay_Link
  imports Gasless
begin

text \<open>
  The link a merchant shares (\<open>laneShareUrl\<close> of \<open>scripts/lane.js\<close>), what the payer's page reads from it
  (\<open>parseLink\<close> of \<open>scripts/pay.js\<close>), and the widget an embedding page carries (\<open>buildEmbedSnippet\<close> and
  \<open>scripts/embed.js\<close>). A query is the list of its names and values, as \<open>URLSearchParams\<close> keeps it.
\<close>

section \<open>Queries\<close>

type_synonym search = "(string \<times> string) list"

definition sp_get :: "search \<Rightarrow> string \<Rightarrow> string option" where
  "sp_get ps k = map_of ps k"

definition sp_all :: "search \<Rightarrow> string \<Rightarrow> string list" where
  "sp_all ps k = map snd (filter (\<lambda>(n, v). n = k) ps)"

definition sp_append :: "search \<Rightarrow> string \<Rightarrow> string \<Rightarrow> search" where
  "sp_append ps k v = ps @ [(k, v)]"

text \<open>\<open>set\<close> replaces the first value of the name, drops the others, and appends when there is none.\<close>

fun sp_set :: "search \<Rightarrow> string \<Rightarrow> string \<Rightarrow> search" where
  "sp_set [] k v = [(k, v)]"
| "sp_set ((n, u) # ps) k v = (if n = k then (k, v) # filter (\<lambda>(m, w). m \<noteq> k) ps else (n, u) # sp_set ps k v)"

definition or_empty :: "string option \<Rightarrow> string" where
  "or_empty v = (case v of None \<Rightarrow> [] | Some s \<Rightarrow> s)"

lemma sp_set_new: "\<forall>(n, u) \<in> set ps. n \<noteq> k \<Longrightarrow> sp_set ps k v = ps @ [(k, v)]"
  by (induction ps) auto

lemma sp_get_append: "sp_get (ps @ qs) k = (case sp_get ps k of None \<Rightarrow> sp_get qs k | Some v \<Rightarrow> Some v)"
  by (simp add: sp_get_def map_add_def split: option.splits)

lemma sp_all_append: "sp_all (ps @ qs) k = sp_all ps k @ sp_all qs k"
  by (simp add: sp_all_def)

section \<open>Splitting\<close>

text \<open>\<open>s.split(c)\<close>, and the two sides of the first occurrence of a character.\<close>

fun split_on :: "char \<Rightarrow> string \<Rightarrow> string list" where
  "split_on c [] = [[]]"
| "split_on c (x # s) =
     (if x = c then [] # split_on c s
      else (case split_on c s of [] \<Rightarrow> [[x]] | w # ws \<Rightarrow> (x # w) # ws))"

definition cut_at :: "char \<Rightarrow> string \<Rightarrow> (string \<times> string) option" where
  "cut_at c s = (if c \<in> set s then Some (takeWhile (\<lambda>x. x \<noteq> c) s, tl (dropWhile (\<lambda>x. x \<noteq> c) s)) else None)"

lemma cut_at_append: "c \<notin> set a \<Longrightarrow> cut_at c (a @ [c] @ b) = Some (a, b)"
  by (simp add: cut_at_def takeWhile_append dropWhile_append)

lemma split_on_word: "c \<notin> set w \<Longrightarrow> split_on c w = [w]"
  by (induction w) auto

lemma split_on_append: "c \<notin> set w \<Longrightarrow> split_on c (w @ c # s) = w # split_on c s"
  by (induction w) auto

lemma split_on_join: "ws \<noteq> [] \<Longrightarrow> \<forall>w \<in> set ws. c \<notin> set w \<Longrightarrow> split_on c (join [c] ws) = ws"
proof (induction ws)
  case (Cons w ws)
  then show ?case by (cases ws) (simp_all add: split_on_word split_on_append)
qed simp

section \<open>The shared link\<close>

definition laneShareUrl :: "json \<Rightarrow> search" where
  "laneShareUrl lane =
     (let ps = sp_set (sp_set (sp_set [] ''lane'' (template (opt_prop (Some lane) ''id'')))
                 ''target'' (template (opt_prop (Some lane) ''targetChain'')))
                 ''merchant'' (template (opt_prop (Some lane) ''targetRecipient''));
          ps = (if js_truthy (opt_prop (Some lane) ''privacy'') then sp_set ps ''privacy'' ''1'' else ps) in
      foldl (\<lambda>ps r. sp_append ps ''r'' (template (opt_prop (Some r) ''chain'') @ '':'' @ template (opt_prop (Some r) ''address'')))
        ps (lane_receivers lane))"

section \<open>Reading a link\<close>

record pay_route =
  rt_chain :: string
  rt_address :: string

record pay_link =
  lk_params :: search
  lk_laneId :: string
  lk_routes :: "pay_route list"
  lk_target :: string
  lk_merchant :: string

definition link_route :: "string \<Rightarrow> pay_route option" where
  "link_route pair =
     (case cut_at CHR '':'' pair of
        None \<Rightarrow> None
      | Some (c, a) \<Rightarrow>
          (case (chain_entry (wire c), canonicalAddress (wire c) a) of
             (Some e, Some address) \<Rightarrow> if address = [] then None else Some \<lparr>rt_chain = wire c, rt_address = address\<rparr>
           | _ \<Rightarrow> None))"

text \<open>Names and addresses of a stored lane are used as texts.\<close>

definition text_of :: "json option \<Rightarrow> string" where
  "text_of v = (if js_truthy v then coerce v else [])"

definition stored_routes :: "json \<Rightarrow> pay_route list" where
  "stored_routes lane = map (\<lambda>r. \<lparr>rt_chain = text_of (opt_prop (Some r) ''chain''), rt_address = text_of (opt_prop (Some r) ''address'')\<rparr>)
     (lane_receivers lane)"

definition prefer_text :: "string \<Rightarrow> string \<Rightarrow> string" where
  "prefer_text a b = (if a = [] then b else a)"

definition parseLink :: "storage \<Rightarrow> search \<Rightarrow> pay_link" where
  "parseLink st params =
     (let laneId = or_empty (sp_get params ''lane'');
          routes = List.map_filter link_route (sp_all params ''r'');
          target = wire (or_empty (sp_get params ''target''));
          merchant = or_empty (sp_get params ''merchant'');
          own = (if routes = [] \<and> laneId \<noteq> [] then
                   (case getLane st laneId of
                      Some lane \<Rightarrow> if js_truthy (opt_prop (Some lane) ''needsVerify'') then None else Some lane
                    | None \<Rightarrow> None)
                 else None);
          routes = (case own of None \<Rightarrow> routes | Some lane \<Rightarrow> stored_routes lane);
          target = (case own of None \<Rightarrow> target | Some lane \<Rightarrow> prefer_text target (text_of (opt_prop (Some lane) ''targetChain'')));
          merchant = (case own of None \<Rightarrow> merchant | Some lane \<Rightarrow> prefer_text merchant (text_of (opt_prop (Some lane) ''targetRecipient'')));
          target = (if chain_entry target = None then [] else target);
          merchant = (if target \<noteq> [] \<and> canonicalAddress target merchant = None then [] else merchant) in
      \<lparr>lk_params = params, lk_laneId = laneId, lk_routes = routes, lk_target = target, lk_merchant = merchant\<rparr>)"

section \<open>The widget\<close>

text \<open>\<open>applyTheme\<close> and \<open>rgbVarToHex\<close>: a colour of the link, and the colour the page shows as text.\<close>

definition hex_colour :: "string \<Rightarrow> string option" where
  "hex_colour s =
     (let h = (if s \<noteq> [] \<and> hd s = CHR ''#'' then tl s else s) in
      if length h = 6 \<and> list_all is_hex h then Some h else None)"

definition toRgb :: "string option \<Rightarrow> string option" where
  "toRgb v = map_option (\<lambda>h. join '', '' (map (\<lambda>i. nat_string 10 (of_digits 16 (map digit_num (take 2 (drop i h))))) [0, 2, 4]))
     (hex_colour (or_empty v))"

definition parseInt10 :: "string \<Rightarrow> int option" where
  "parseInt10 s =
     (let s = dropWhile is_space s; neg = (s \<noteq> [] \<and> hd s = CHR ''-'');
          s = (if s \<noteq> [] \<and> (hd s = CHR ''-'' \<or> hd s = CHR ''+'') then tl s else s);
          d = takeWhile is_digit s in
      if d = [] then None
      else let n = int (of_digits 10 (map digit_num d)) in Some (if neg then - n else n))"

definition rgbVarToHex :: "string \<Rightarrow> string \<Rightarrow> string" where
  "rgbVarToHex raw fallback =
     (let parts = map (\<lambda>n. parseInt10 (js_trim n)) (split_on CHR '','' (js_trim raw)) in
      if length parts \<noteq> 3 \<or> None \<in> set parts then fallback
      else ''#'' @ concat (map (\<lambda>n. pad_start 2 CHR ''0'' (int_string 16 (the n))) parts))"

definition route_text :: "pay_route \<Rightarrow> string" where
  "route_text r = rt_chain r @ '':'' @ rt_address r"

definition embed_attrs :: "pay_link \<Rightarrow> string \<Rightarrow> string \<Rightarrow> (string \<times> string) list" where
  "embed_attrs link primary secondary =
     (if lk_laneId link = [] then [] else [(''data-lane'', lk_laneId link)])
     @ [(''data-routes'', join '','' (map route_text (lk_routes link)))]
     @ (if lk_target link = [] then [] else [(''data-target'', lk_target link)])
     @ (if lk_merchant link = [] then [] else [(''data-merchant'', lk_merchant link)])
     @ [(''data-primary-color'', rgbVarToHex primary ''#b8c99a''), (''data-secondary-color'', rgbVarToHex secondary ''#6248b0'')]"

definition quote_attr :: "string \<Rightarrow> string" where
  "quote_attr v = concat (map (\<lambda>c. if c = CHR 0x22 then ''&quot;'' else [c]) v)"

definition buildEmbedSnippet :: "string \<Rightarrow> pay_link \<Rightarrow> string \<Rightarrow> string \<Rightarrow> string" where
  "buildEmbedSnippet origin link primary secondary =
     ''<div'' @ [CHR 0x0A] @ ''  data-beanie-checkout'' @ [CHR 0x0A]
     @ join [CHR 0x0A] (map (\<lambda>(k, v). ''  '' @ k @ ''='' @ [CHR 0x22] @ quote_attr v @ [CHR 0x22]) (embed_attrs link primary secondary))
     @ [CHR 0x0A] @ ''></div>'' @ [CHR 0x0A] @ ''<script src='' @ [CHR 0x22] @ origin @ ''/embed.js'' @ [CHR 0x22] @ ''></script>''"

text \<open>The data attributes of the element that \<open>embed.js\<close> mounts, and the frame it makes.\<close>

record widget =
  da_mounted :: "string option"
  da_lane :: "string option"
  da_routes :: "string option"
  da_chain :: "string option"
  da_address :: "string option"
  da_target :: "string option"
  da_merchant :: "string option"
  da_ref :: "string option"
  da_primaryColor :: "string option"
  da_secondaryColor :: "string option"
  da_width :: "string option"
  da_height :: "string option"

record checkout_frame =
  fr_params :: search
  fr_maxWidth :: string
  fr_height :: string

definition is_alnum :: "char \<Rightarrow> bool" where
  "is_alnum c \<longleftrightarrow> is_digit c \<or> is_upper c \<or> is_lower c"

definition re_lane :: "string \<Rightarrow> bool" where
  "re_lane s \<longleftrightarrow> 1 \<le> length s \<and> length s \<le> 128 \<and> list_all (\<lambda>c. is_alnum c \<or> c = CHR ''_'' \<or> c = CHR ''-'') s"

definition re_chain :: "string \<Rightarrow> bool" where
  "re_chain s \<longleftrightarrow> 2 \<le> length s \<and> length s \<le> 16 \<and> list_all (\<lambda>c. is_upper c \<or> is_lower c) s"

definition re_addr :: "string \<Rightarrow> bool" where
  "re_addr s \<longleftrightarrow> 1 \<le> length s \<and> length s \<le> 100 \<and> list_all is_alnum s"

definition re_ref :: "string \<Rightarrow> bool" where
  "re_ref s \<longleftrightarrow> 1 \<le> length s \<and> length s \<le> 64 \<and> list_all (\<lambda>c. is_alnum c \<or> c = CHR ''_'' \<or> c = CHR ''.'' \<or> c = CHR ''-'') s"

definition re_color :: "string \<Rightarrow> bool" where
  "re_color s \<longleftrightarrow> hex_colour s \<noteq> None"

definition CSS_UNITS :: "string list" where
  "CSS_UNITS = [''px'', ''%'', ''rem'', ''em'', ''vh'', ''vw'']"

definition re_css :: "string \<Rightarrow> bool" where
  "re_css s \<longleftrightarrow>
     (let whole = takeWhile is_digit s; rest = dropWhile is_digit s;
          frac = (if rest \<noteq> [] \<and> hd rest = CHR ''.'' then takeWhile is_digit (tl rest) else []);
          unit = (if rest \<noteq> [] \<and> hd rest = CHR ''.'' then dropWhile is_digit (tl rest) else rest) in
      whole \<noteq> [] \<and> (rest \<noteq> [] \<and> hd rest = CHR ''.'' \<longrightarrow> frac \<noteq> []) \<and>
      unit \<in> set CSS_UNITS)"

text \<open>\<open>if (v && re.test(v)) params.set(name, f(v))\<close>\<close>

definition put_if :: "string option \<Rightarrow> (string \<Rightarrow> bool) \<Rightarrow> string \<Rightarrow> (string \<Rightarrow> string) \<Rightarrow> search \<Rightarrow> search" where
  "put_if v re name f ps = (case v of Some s \<Rightarrow> if s \<noteq> [] \<and> re s then sp_set ps name (f s) else ps | None \<Rightarrow> ps)"

definition put_route :: "search \<Rightarrow> string \<Rightarrow> search" where
  "put_route ps r =
     (case cut_at CHR '':'' r of
        None \<Rightarrow> ps
      | Some (c, a) \<Rightarrow> if c \<noteq> [] \<and> re_chain c \<and> re_addr a then sp_append ps ''r'' (c @ '':'' @ a) else ps)"

definition widget_routes :: "widget \<Rightarrow> string list" where
  "widget_routes d = filter (\<lambda>r. r \<noteq> []) (map js_trim (split_on CHR '','' (or_empty (da_routes d))))
     @ (if truthy (da_chain d) \<and> truthy (da_address d) then [the (da_chain d) @ '':'' @ the (da_address d)] else [])"

text \<open>\<open>d.replace("#", "")\<close>: a colour has it only in front.\<close>

definition drop_hash :: "string \<Rightarrow> string" where
  "drop_hash s = (if s \<noteq> [] \<and> hd s = CHR ''#'' then tl s else s)"

definition mount :: "widget \<Rightarrow> checkout_frame option \<times> widget" where
  "mount d =
     (if truthy (da_mounted d) then (None, d)
      else let ps = put_if (da_lane d) re_lane ''lane'' (\<lambda>s. s) [];
               ps = foldl put_route ps (widget_routes d) in
        if ps = [] then (None, d)
        else let ps = put_if (da_target d) re_chain ''target'' (\<lambda>s. s) ps;
                 ps = put_if (da_merchant d) re_addr ''merchant'' (\<lambda>s. s) ps;
                 ps = put_if (da_ref d) re_ref ''ref'' (\<lambda>s. s) ps;
                 ps = put_if (da_primaryColor d) re_color ''primaryColor'' drop_hash ps;
                 ps = put_if (da_secondaryColor d) re_color ''secondaryColor'' drop_hash ps in
          (Some \<lparr>fr_params = ps,
            fr_maxWidth = (if re_css (or_empty (da_width d)) then or_empty (da_width d) else ''440px''),
            fr_height = (if re_css (or_empty (da_height d)) then or_empty (da_height d) else ''640px'')\<rparr>,
           d\<lparr>da_mounted := Some ''1''\<rparr>))"

text \<open>The element of a snippet: \<open>data-primary-color\<close> is \<open>dataset.primaryColor\<close>, and so on.\<close>

definition widget_of :: "(string \<times> string) list \<Rightarrow> widget" where
  "widget_of attrs = \<lparr>da_mounted = None, da_lane = map_of attrs ''data-lane'', da_routes = map_of attrs ''data-routes'',
     da_chain = map_of attrs ''data-chain'', da_address = map_of attrs ''data-address'', da_target = map_of attrs ''data-target'',
     da_merchant = map_of attrs ''data-merchant'', da_ref = map_of attrs ''data-ref'',
     da_primaryColor = map_of attrs ''data-primary-color'', da_secondaryColor = map_of attrs ''data-secondary-color'',
     da_width = map_of attrs ''data-width'', da_height = map_of attrs ''data-height''\<rparr>"

section \<open>What a query keeps\<close>

lemma sp_get_set: "sp_get (sp_set ps n v) k = (if k = n then Some v else sp_get ps k)"
proof (induction ps)
  case (Cons p ps)
  have "map_of (filter (\<lambda>(m, w). m \<noteq> n) ps) k = map_of ps k" if "k \<noteq> n"
    using that by (induction ps) auto
  then show ?case using Cons by (cases p) (auto simp: sp_get_def)
qed (simp add: sp_get_def)

lemma sp_all_set: "sp_all (sp_set ps n v) k = (if k = n then [v] else sp_all ps k)"
proof (induction ps)
  case (Cons p ps)
  have "filter (\<lambda>(m, w). m = n) (filter (\<lambda>(m, w). m \<noteq> n) ps) = []" by (induction ps) auto
  moreover have "filter (\<lambda>(m, w). m = k) (filter (\<lambda>(m, w). m \<noteq> n) ps) = filter (\<lambda>(m, w). m = k) ps" if "k \<noteq> n"
    using that by (induction ps) auto
  ultimately show ?case using Cons by (cases p) (auto simp: sp_all_def)
qed (simp add: sp_all_def)

lemma put_if_frame:
  "k \<noteq> name \<Longrightarrow> sp_get (put_if v re name f ps) k = sp_get ps k"
  "k \<noteq> name \<Longrightarrow> sp_all (put_if v re name f ps) k = sp_all ps k"
  by (auto simp: put_if_def sp_get_set sp_all_set split: option.splits)

lemma put_if_get: "sp_get (put_if v re name f ps) name =
    (case v of Some s \<Rightarrow> if s \<noteq> [] \<and> re s then Some (f s) else sp_get ps name | None \<Rightarrow> sp_get ps name)"
  by (auto simp: put_if_def sp_get_set split: option.splits)

section \<open>Routes that survive the text\<close>

definition good_route :: "pay_route \<Rightarrow> bool" where
  "good_route r \<longleftrightarrow> chain_entry (rt_chain r) \<noteq> None \<and> canonicalAddress (rt_chain r) (rt_address r) = Some (rt_address r)"

lemma chain_entry_key: "chain_entry k \<noteq> None \<longleftrightarrow> k \<in> set CHAIN_KEYS"
  by (auto simp: chain_entry_def find_None_iff CHAIN_KEYS_def)

lemma key_forms: "k \<in> set CHAIN_KEYS \<Longrightarrow> wire k = k \<and> re_chain k"
  by (auto simp: chain_keys wire_def re_chain_def char_eval)

lemma hex_alnum: "is_hex c \<Longrightarrow> is_alnum c"
  by (auto simp: is_hex_def is_alnum_def is_digit_def is_lower_def is_upper_def in_range_def code_def)

lemma base58_alnum: "is_base58 c \<Longrightarrow> is_alnum c"
  by (auto simp: is_base58_def is_alnum_def is_digit_def is_lower_def is_upper_def in_range_def code_def)

lemma lower_hex: "is_hex c \<Longrightarrow> is_hex (lower_char c)"
proof -
  assume h: "is_hex c"
  then have "code (lower_char c) = (if 65 \<le> code c \<and> code c \<le> 70 then code c + 32 else code c)"
    by (auto simp: lower_char_def is_upper_def is_hex_def is_digit_def in_range_def code_char_of) (auto simp: code_def)
  then show ?thesis using h by (auto simp: is_hex_def is_digit_def in_range_def code_def split: if_splits)
qed

lemma canonical_re_addr:
  assumes "canonicalAddress k v = Some a"
  shows "re_addr a"
proof -
  have zx: "is_alnum CHR ''0''" "is_alnum CHR ''x''" by (simp_all add: is_alnum_def char_eval)
  consider "canonicalEvm v = Some a" | "canonicalFelt v = Some a" | "canonicalSolana v = Some a"
    using assms by (auto simp: canonicalAddress_def split: option.splits if_splits)
  then show ?thesis
  proof cases
    case 1
    then obtain h where "length h = 40" "list_all is_hex h" "a = ''0x'' @ to_lower h" by (auto simp: canonicalEvm_Some)
    then show ?thesis using zx by (auto simp: re_addr_def to_lower_def list_all_iff hex_alnum lower_hex)
  next
    case 2
    then obtain h where "1 \<le> length h" "length h \<le> 64" "list_all is_hex h" "a = ''0x'' @ pad_start 64 CHR ''0'' (to_lower h)"
      by (auto simp: canonicalFelt_def Let_def split: if_splits option.splits)
    then show ?thesis using zx by (auto simp: re_addr_def to_lower_def pad_start_def list_all_iff hex_alnum lower_hex)
  next
    case 3
    then have "length a \<le> 44" "1 \<le> length a" "list_all is_base58 a"
      by (auto simp: canonicalSolana_def Let_def split: if_splits option.splits)
    then show ?thesis by (auto simp: re_addr_def list_all_iff base58_alnum)
  qed
qed

lemma alnum_plain: "is_alnum c \<Longrightarrow> c \<noteq> CHR '':'' \<and> c \<noteq> CHR '','' \<and> \<not> is_space c"
  by (auto simp: is_alnum_def is_space_def is_digit_def is_lower_def is_upper_def in_range_def code_def)

lemma re_chain_plain: "re_chain s \<Longrightarrow> list_all is_alnum s \<and> s \<noteq> []"
  by (auto simp: re_chain_def list_all_iff is_alnum_def)

lemma route_parts:
  assumes "good_route r"
  shows "wire (rt_chain r) = rt_chain r" "re_chain (rt_chain r)" "rt_chain r \<noteq> []" "re_addr (rt_address r)" "rt_address r \<noteq> []"
    "cut_at CHR '':'' (route_text r) = Some (rt_chain r, rt_address r)" "CHR '','' \<notin> set (route_text r)"
    "js_trim (route_text r) = route_text r" "route_text r \<noteq> []"
proof -
  show c: "wire (rt_chain r) = rt_chain r" "re_chain (rt_chain r)"
    using assms key_forms [of "rt_chain r"] by (simp_all add: good_route_def chain_entry_key del: not_None_eq)
  show a: "re_addr (rt_address r)" using assms canonical_re_addr by (auto simp: good_route_def)
  then show "rt_address r \<noteq> []" by (auto simp: re_addr_def)
  have al: "\<forall>x \<in> set (rt_chain r) \<union> set (rt_address r). is_alnum x"
    using re_chain_plain [OF c(2)] a by (auto simp: re_addr_def list_all_iff)
  show "rt_chain r \<noteq> []" using re_chain_plain [OF c(2)] by simp
  have "CHR '':'' \<notin> set (rt_chain r)" using al alnum_plain by blast
  then show "cut_at CHR '':'' (route_text r) = Some (rt_chain r, rt_address r)"
    unfolding route_text_def by (rule cut_at_append)
  show "CHR '','' \<notin> set (route_text r)" using al alnum_plain by (auto simp: route_text_def)
  have "\<forall>x \<in> set (route_text r). \<not> is_space x"
    using al alnum_plain by (auto simp: route_text_def is_space_def code_def)
  then show "js_trim (route_text r) = route_text r" by (rule js_trim_no_space)
  show "route_text r \<noteq> []" by (simp add: route_text_def)
qed

lemma link_route_text: "good_route r \<Longrightarrow> link_route (route_text r) = Some r"
  using route_parts [of r] by (auto simp: link_route_def good_route_def)

lemma put_route_text: "good_route r \<Longrightarrow> put_route ps (route_text r) = ps @ [(''r'', route_text r)]"
  using route_parts [of r] by (simp add: put_route_def sp_append_def route_text_def)

lemma put_routes: "\<forall>r \<in> set rs. good_route r \<Longrightarrow>
    foldl put_route ps (map route_text rs) = ps @ map (\<lambda>r. (''r'', route_text r)) rs"
  by (induction rs arbitrary: ps) (simp_all add: put_route_text)

lemma sp_all_routes: "sp_all (map (\<lambda>r. (n, f r)) rs) k = (if k = n then map f rs else [])"
  by (induction rs) (auto simp: sp_all_def)

lemma sp_get_routes: "sp_get (map (\<lambda>r. (n, f r)) rs) k = (if k = n \<and> rs \<noteq> [] then Some (f (hd rs)) else None)"
  by (induction rs) (auto simp: sp_get_def)

lemma link_routes: "\<forall>r \<in> set rs. good_route r \<Longrightarrow> List.map_filter link_route (map route_text rs) = rs"
  by (induction rs) (simp_all add: link_route_text List.map_filter_simps)

section \<open>The link and the widget show the lane\<close>

text \<open>Reading a query that has routes; the storage plays no part.\<close>

lemma parseLink_read:
  assumes "\<forall>r \<in> set rs. good_route r" "rs \<noteq> []" "sp_all ps ''r'' = map route_text rs"
    and "chain_entry target \<noteq> None" "canonicalAddress target merchant \<noteq> None"
    and "sp_get ps ''target'' = Some target" "sp_get ps ''merchant'' = Some merchant"
  shows "lk_routes (parseLink st ps) = rs \<and> lk_target (parseLink st ps) = target \<and> lk_merchant (parseLink st ps) = merchant"
proof -
  have "wire target = target" using assms(4) key_forms [of target] by (simp add: chain_entry_key del: not_None_eq)
  then show ?thesis
    using assms link_routes [OF assms(1)] by (auto simp add: parseLink_def Let_def or_empty_def)
qed

definition shown_route :: "lane_receiver \<Rightarrow> pay_route" where
  "shown_route r = \<lparr>rt_chain = lr_chain r, rt_address = lr_address r\<rparr>"

lemma laneShareUrl_stored:
  assumes "lane_stored target recipient rs lane st"
  shows "sp_all (laneShareUrl lane) ''r'' = map route_text (map shown_route rs)" "sp_get (laneShareUrl lane) ''target'' = Some target"
    "sp_get (laneShareUrl lane) ''merchant'' = Some recipient"
proof -
  have f: "foldl (\<lambda>ps r. sp_append ps ''r'' (template (opt_prop (Some r) ''chain'') @ '':'' @ template (opt_prop (Some r) ''address'')))
      ps (map receiver_json rs) = ps @ map (\<lambda>r. (''r'', route_text (shown_route r))) rs" for ps
    by (induction rs arbitrary: ps)
      (simp_all add: sp_append_def receiver_json_props template_def route_text_def shown_route_def)
  have l: "lane_receivers lane = map receiver_json rs" "opt_prop (Some lane) ''targetChain'' = Some (JStr target)"
      "opt_prop (Some lane) ''targetRecipient'' = Some (JStr recipient)"
    using assms by (simp_all add: lane_stored_def lane_receivers_def as_array_def)
  show "sp_all (laneShareUrl lane) ''r'' = map route_text (map shown_route rs)" "sp_get (laneShareUrl lane) ''target'' = Some target"
    "sp_get (laneShareUrl lane) ''merchant'' = Some recipient"
    unfolding laneShareUrl_def Let_def l f
    by (simp_all add: sp_all_append sp_get_append sp_all_set sp_get_set sp_all_routes template_def) (simp_all add: sp_all_def sp_get_def comp_def)
qed

lemma mount_embed:
  assumes "\<forall>r \<in> set (lk_routes link). good_route r" "lk_routes link \<noteq> []"
    and "re_chain (lk_target link)" "re_addr (lk_merchant link)"
  shows "\<exists>fr. fst (mount (widget_of (embed_attrs link primary secondary))) = Some fr \<and>
    sp_all (fr_params fr) ''r'' = map route_text (lk_routes link) \<and>
    sp_get (fr_params fr) ''target'' = Some (lk_target link) \<and> sp_get (fr_params fr) ''merchant'' = Some (lk_merchant link)"
proof -
  let ?d = "widget_of (embed_attrs link primary secondary)" and ?rs = "lk_routes link"
  have ne: "lk_target link \<noteq> []" "lk_merchant link \<noteq> []" using assms(3,4) by (auto simp: re_chain_def re_addr_def)
  have d: "da_mounted ?d = None" "da_chain ?d = None" "da_target ?d = Some (lk_target link)" "da_merchant ?d = Some (lk_merchant link)"
      "da_routes ?d = Some (join '','' (map route_text ?rs))"
    using ne by (simp_all add: widget_of_def embed_attrs_def)
  have plain: "\<forall>w \<in> set (map route_text ?rs). CHR '','' \<notin> set w" using assms(1) route_parts(7) by auto
  have "map js_trim (map route_text ?rs) = map route_text ?rs" using assms(1) route_parts(8) by simp
  then have "filter (\<lambda>r. r \<noteq> []) (map js_trim (map route_text ?rs)) = map route_text ?rs" using assms(1) route_parts(9) by simp
  moreover have "split_on CHR '','' (join '','' (map route_text ?rs)) = map route_text ?rs"
    using split_on_join [OF _ plain] assms(2) by simp
  ultimately have r: "widget_routes ?d = map route_text ?rs"
    unfolding widget_routes_def d or_empty_def option.case by (simp add: truthy_def del: map_map)
  let ?ps = "foldl put_route (put_if (da_lane ?d) re_lane ''lane'' (\<lambda>s. s) []) (widget_routes ?d)"
  have ps: "?ps = put_if (da_lane ?d) re_lane ''lane'' (\<lambda>s. s) [] @ map (\<lambda>r. (''r'', route_text r)) ?rs"
    unfolding r by (rule put_routes [OF assms(1)])
  have rs: "sp_all ?ps ''r'' = map route_text ?rs"
    unfolding ps by (simp add: sp_all_append put_if_frame sp_all_routes) (simp add: sp_all_def)
  have "?ps \<noteq> []" using assms(2) unfolding ps by simp
  then show ?thesis
    unfolding mount_def d Let_def using rs assms(3,4) ne
    by (simp add: truthy_def put_if_frame put_if_get)
qed

text \<open>
  C10: a shared link shows its lane. Take a stored lane whose receivers are canonical addresses on chains of the table and
  whose payout account is a letters-and-digits address of the settlement chain. Whatever the payer's browser
  stores, the page that opens the link shows exactly the lane's receivers, in order, its settlement chain and its
  payout account; and so does the frame of a widget that is copied from that page into another site.
\<close>

theorem shared_link_shows_lane:
  assumes "lane_stored target recipient rs lane st" "rs \<noteq> []" "\<forall>r \<in> set rs. good_route (shown_route r)"
    and "chain_entry target \<noteq> None" "canonicalAddress target recipient \<noteq> None" "re_addr recipient"
  shows "let link = parseLink payer (laneShareUrl lane) in
    lk_routes link = map shown_route rs \<and> lk_target link = target \<and> lk_merchant link = recipient \<and>
    (\<exists>fr. fst (mount (widget_of (embed_attrs link primary secondary))) = Some fr \<and>
      (let copy = parseLink other (fr_params fr) in
       lk_routes copy = map shown_route rs \<and> lk_target copy = target \<and> lk_merchant copy = recipient))"
proof -
  let ?link = "parseLink payer (laneShareUrl lane)"
  have g: "\<forall>r \<in> set (map shown_route rs). good_route r" "map shown_route rs \<noteq> []" using assms(2,3) by auto
  have l: "lk_routes ?link = map shown_route rs" "lk_target ?link = target" "lk_merchant ?link = recipient"
    using parseLink_read [OF g laneShareUrl_stored(1) [OF assms(1)] assms(4,5) laneShareUrl_stored(2,3) [OF assms(1)]] by auto
  have t: "re_chain target" using assms(4) key_forms by (simp add: chain_entry_key del: not_None_eq)
  obtain fr where fr: "fst (mount (widget_of (embed_attrs ?link primary secondary))) = Some fr"
      "sp_all (fr_params fr) ''r'' = map route_text (map shown_route rs)"
      "sp_get (fr_params fr) ''target'' = Some target" "sp_get (fr_params fr) ''merchant'' = Some recipient"
    using mount_embed [of ?link primary secondary] g t assms(6) unfolding l by blast
  from parseLink_read [OF g fr(2) assms(4,5) fr(3,4)] show ?thesis
    unfolding Let_def l using fr(1) by blast
qed

section \<open>What an embedding page can pass\<close>

definition safe_char :: "char \<Rightarrow> bool" where
  "safe_char c \<longleftrightarrow> is_alnum c \<or> c \<in> {CHR ''_'', CHR ''-'', CHR ''.'', CHR '':''}"

definition safe_entry :: "string \<times> string \<Rightarrow> bool" where
  "safe_entry e \<longleftrightarrow> fst e \<in> {''lane'', ''r'', ''target'', ''merchant'', ''ref'', ''primaryColor'', ''secondaryColor''} \<and>
     snd e \<noteq> [] \<and> length (snd e) \<le> 128 \<and> list_all safe_char (snd e)"

lemma sp_set_all: "list_all A ps \<Longrightarrow> A (n, v) \<Longrightarrow> list_all A (sp_set ps n v)"
  by (induction ps n v rule: sp_set.induct) (auto simp: list_all_iff)

lemma put_if_all:
  assumes "list_all A ps" "\<And>s. s \<noteq> [] \<Longrightarrow> re s \<Longrightarrow> A (n, f s)"
  shows "list_all A (put_if v re n f ps)"
  using assms by (auto simp: put_if_def intro!: sp_set_all split: option.splits)

lemma alnum_safe: "is_alnum c \<Longrightarrow> safe_char c"
  by (simp add: safe_char_def)

lemma safe_forms:
  "re_lane s \<Longrightarrow> length s \<le> 128 \<and> list_all safe_char s"
  "re_chain s \<Longrightarrow> s \<noteq> [] \<and> length s \<le> 16 \<and> list_all safe_char s"
  "re_addr s \<Longrightarrow> s \<noteq> [] \<and> length s \<le> 100 \<and> list_all safe_char s"
  "re_ref s \<Longrightarrow> length s \<le> 64 \<and> list_all safe_char s"
  "re_color s \<Longrightarrow> drop_hash s \<noteq> [] \<and> length (drop_hash s) = 6 \<and> list_all safe_char (drop_hash s)"
  by (auto simp: re_lane_def re_chain_def re_addr_def re_ref_def re_color_def hex_colour_def drop_hash_def list_all_iff Let_def
      safe_char_def is_alnum_def simp flip: length_greater_0_conv dest: hex_alnum [unfolded is_alnum_def] split: if_splits)

lemma put_route_all: "list_all safe_entry ps \<Longrightarrow> list_all safe_entry (put_route ps r)"
proof -
  have c: "safe_char CHR '':''" by (simp add: safe_char_def)
  have "safe_entry (''r'', c @ '':'' @ a)" if "re_chain c" "re_addr a" for c a
    using safe_forms(2) [OF that(1)] safe_forms(3) [OF that(2)] c by (simp add: safe_entry_def)
  then show "list_all safe_entry ps \<Longrightarrow> list_all safe_entry (put_route ps r)"
    by (auto simp: put_route_def sp_append_def split: option.splits)
qed

lemma put_routes_all: "list_all safe_entry ps \<Longrightarrow> list_all safe_entry (foldl put_route ps rs)"
  by (induction rs arbitrary: ps) (simp_all add: put_route_all)

definition size_char :: "char \<Rightarrow> bool" where
  "size_char c \<longleftrightarrow> is_alnum c \<or> c = CHR ''.'' \<or> c = CHR ''%''"

lemma css_chars:
  assumes "re_css s"
  shows "list_all size_char s"
proof -
  have "list_all (list_all size_char) CSS_UNITS" by (simp add: CSS_UNITS_def size_char_def is_alnum_def char_eval)
  then have u: "unit \<in> set CSS_UNITS \<Longrightarrow> list_all size_char unit" for unit by (simp add: list_all_iff)
  have d: "list_all size_char (takeWhile is_digit t)" for t
    by (auto simp: list_all_iff size_char_def is_alnum_def dest: set_takeWhileD)
  let ?rest = "dropWhile is_digit s"
  have "list_all size_char ?rest"
  proof (cases "?rest \<noteq> [] \<and> hd ?rest = CHR ''.''")
    case True
    have "list_all size_char (dropWhile is_digit (tl ?rest))" using u assms True by (simp add: re_css_def Let_def)
    then have "list_all size_char (CHR ''.'' # takeWhile is_digit (tl ?rest) @ dropWhile is_digit (tl ?rest))"
      using d by (simp add: size_char_def del: takeWhile_dropWhile_id)
    then show ?thesis using True by (cases ?rest) auto
  next
    case False
    then have "?rest \<in> set CSS_UNITS" using assms by (auto simp: re_css_def Let_def)
    then show ?thesis by (rule u)
  qed
  then have "list_all size_char (takeWhile is_digit s @ ?rest)" using d by (simp del: takeWhile_dropWhile_id)
  then show ?thesis by simp
qed

text \<open>
  C29: an embedding page cannot inject anything. Whatever the data attributes of a checkout element are, the frame is made
  only when there is something to pay to, it is made at most once, its query has only the seven known names with
  values of at most 128 letters, digits and the characters underscore, hyphen, dot and colon, so that no value can end the query or carry
  markup, and its sizes are plain lengths.
\<close>

theorem widget_is_safe:
  "case mount d of
     (None, d') \<Rightarrow> d' = d
   | (Some fr, d') \<Rightarrow> mount d' = (None, d') \<and> \<not> truthy (da_mounted d) \<and> fr_params fr \<noteq> [] \<and> list_all safe_entry (fr_params fr) \<and>
       list_all (list_all size_char) [fr_maxWidth fr, fr_height fr]"
proof (cases "fst (mount d)")
  case (Some fr)
  define start where "start = foldl put_route (put_if (da_lane d) re_lane ''lane'' (\<lambda>s. s) []) (widget_routes d)"
  let ?ps = "put_if (da_secondaryColor d) re_color ''secondaryColor'' drop_hash (put_if (da_primaryColor d) re_color ''primaryColor'' drop_hash
      (put_if (da_ref d) re_ref ''ref'' (\<lambda>s. s) (put_if (da_merchant d) re_addr ''merchant'' (\<lambda>s. s)
        (put_if (da_target d) re_chain ''target'' (\<lambda>s. s) start))))"
  have fr: "\<not> truthy (da_mounted d)" "start \<noteq> []" "fr_params fr = ?ps"
      "fr_maxWidth fr = (if re_css (or_empty (da_width d)) then or_empty (da_width d) else ''440px'')"
      "fr_height fr = (if re_css (or_empty (da_height d)) then or_empty (da_height d) else ''640px'')"
    using Some by (auto simp: mount_def Let_def start_def split: if_splits)
  have m: "mount d = (Some fr, d\<lparr>da_mounted := Some ''1''\<rparr>)" using Some by (auto simp: mount_def Let_def split: if_splits)
  have once: "mount (d\<lparr>da_mounted := Some ''1''\<rparr>) = (None, d\<lparr>da_mounted := Some ''1''\<rparr>)" by (simp add: mount_def truthy_def)
  have "list_all safe_entry start"
    unfolding start_def by (intro put_routes_all put_if_all) (auto simp: safe_entry_def dest: safe_forms(1))
  then have all: "list_all safe_entry ?ps"
    by (intro put_if_all) (auto simp: safe_entry_def dest: safe_forms)
  have "sp_set ps n v \<noteq> []" for ps n v by (induction ps n v rule: sp_set.induct) auto
  then have "ps \<noteq> [] \<Longrightarrow> put_if v re n f ps \<noteq> []" for v re n f ps by (auto simp: put_if_def split: option.splits)
  then have ne: "?ps \<noteq> []" using fr(2) by simp
  have "list_all size_char ''440px''" "list_all size_char ''640px''"
    by (simp_all add: size_char_def is_alnum_def char_eval)
  then have "list_all size_char (fr_maxWidth fr)" "list_all size_char (fr_height fr)"
    using css_chars unfolding fr(4,5) by auto
  then show ?thesis using fr(1,3) all ne once by (simp add: m)
qed (auto simp: mount_def Let_def split: if_splits)

lemma quoted: "CHR 0x22 \<notin> set (quote_attr v)"
  by (auto simp: quote_attr_def split: if_splits)

definition toy_receiver :: lane_receiver where
  "toy_receiver = \<lparr>lr_chain = ''BASE'', lr_address = toy_wallet, lr_merchant = toy_wallet, lr_start = None\<rparr>"

definition toy_shared :: json where
  "toy_shared = lane_json ''BASE'' \<lparr>po_laneId = ''L'', po_recipient = toy_wallet, po_merchant = Some toy_wallet, po_token = None,
     po_prf = Some JNull, po_config = Some JNull\<rparr> toy_form 0 [toy_receiver]"

lemma toy_shared_stored: "lane_stored ''BASE'' toy_wallet [toy_receiver] toy_shared (put Map.empty K_lanes (JArr [toy_shared]))"
proof -
  have "isLane toy_shared"
    unfolding toy_shared_def using chain_BASE by (intro isLane_lane_json) (auto simp: toy_receiver_def)
  then show ?thesis
    by (simp add: lane_stored_def getLane_def getLanes_of_put toy_shared_def lane_json_props)
qed

theorem shared_link_shows_lane_witness:
  "lk_routes (parseLink Map.empty (laneShareUrl toy_shared)) = [\<lparr>rt_chain = ''BASE'', rt_address = toy_wallet\<rparr>] \<and>
   lk_merchant (parseLink Map.empty (laneShareUrl toy_shared)) = toy_wallet"
proof -
  have a: "canonicalAddress ''BASE'' toy_wallet = Some toy_wallet"
    using chain_BASE canonicalAddress_evm toy_canonical by metis
  have e: "chain_entry ''BASE'' \<noteq> None" unfolding chain_entry_key chain_keys by simp
  have g: "\<forall>r \<in> set [toy_receiver]. good_route (shown_route r)"
    using a e by (simp add: good_route_def shown_route_def toy_receiver_def)
  from a have "re_addr toy_wallet" "canonicalAddress ''BASE'' toy_wallet \<noteq> None" by (auto intro: canonical_re_addr)
  then show ?thesis
    using shared_link_shows_lane [OF toy_shared_stored _ g e, of Map.empty "[]" "[]" Map.empty]
    by (simp add: Let_def shown_route_def toy_receiver_def)
qed

end
