(* ===== verification/Pay_Page.thy ===== *)
theory Pay_Page
  imports Pay_Link Stealth_Page
begin

text \<open>
  The payer's page, \<open>scripts/pay.js\<close>: the text of the QR code, the filter of the amount field and the button of a gasless
  payment. Here the page is the hint under the button and whether the button is disabled; its markup is in \<open>Pay_View\<close>.
\<close>

section \<open>What the page shows of a route\<close>

definition addressQrText :: "pay_route \<Rightarrow> string result" where
  "addressQrText r =
     (case chain_entry (rt_chain r) of
        None \<Rightarrow> Inl TypeError
      | Some c \<Rightarrow>
          if ch_kind c = ''evm'' \<and> truthy (ch_usdc c)
          then Inr (''ethereum:'' @ usdc_text c @ ''@'' @ int_string 10 (chain_id c) @ ''/transfer?address='' @ rt_address r)
          else if ch_kind c = ''solana'' \<and> truthy (ch_usdc c) \<and> SOLANA_RECEIVER_KIND = ''wallet''
          then Inr (''solana:'' @ rt_address r @ ''?spl-token='' @ usdc_text c)
          else Inr (rt_address r))"

definition gasless_ok :: "pay_link \<Rightarrow> chain \<Rightarrow> bool" where
  "gasless_ok link c \<longleftrightarrow> lk_target link \<noteq> [] \<and> lk_merchant link \<noteq> [] \<and> canGasless c \<and>
     (ch_kind c \<noteq> ''starknet'' \<or> KEEPER_STARKNET_ADDRESS \<noteq> [])"

text \<open>The input filter of the amount field: digits, one dot, at most \<open>USDC_DECIMALS\<close> digits after it.\<close>

definition clean_amount :: "string \<Rightarrow> string" where
  "clean_amount value =
     (let v = filter (\<lambda>c. is_digit c \<or> c = CHR ''.'') value in
      case cut_at CHR ''.'' v of
        None \<Rightarrow> v
      | Some (whole, rest) \<Rightarrow> whole @ ''.'' @ take USDC_DECIMALS (filter (\<lambda>c. c \<noteq> CHR ''.'') rest))"

section \<open>The button\<close>

record 'w wallets =
  pw_ethereum :: "'w provider option"
  pw_lib :: starklib
  pw_stark :: "'w stark_wallet option"
  pw_solana :: "'w sol_wallet list"

record pay_form =
  fm_hint :: string
  fm_disabled :: bool
  fm_inFlight :: bool

definition sign_transfer :: "'w site \<Rightarrow> 'w wallets \<Rightarrow> chain \<Rightarrow> string \<Rightarrow> string \<Rightarrow> ('w, signed_payment) act" where
  "sign_transfer site ws c receiver amountRaw =
     (if ch_kind c = ''evm'' then signEvmTransfer site (pw_ethereum ws) (ch_key c) receiver amountRaw
      else if ch_kind c = ''solana'' then signSolanaTransfer site (pw_solana ws) receiver amountRaw
      else seq (signStarknetTransfer site (pw_lib ws) (pw_stark ws) receiver amountRaw) (\<lambda>(sg, version). ret sg))"

text \<open>\<open>params.get("ref") || `beanie-${Date.now().toString(36)}`\<close>\<close>

definition base36 :: "nat \<Rightarrow> string" where
  "base36 n = (if n = 0 then ''0'' else map (\<lambda>d. ''0123456789abcdefghijklmnopqrstuvwxyz'' ! d) (digits_of 36 n))"

definition pay_ref :: "'w site \<Rightarrow> search \<Rightarrow> ('w, string) act" where
  "pay_ref site params =
     (if truthy (sp_get params ''ref'') then ret (the (sp_get params ''ref''))
      else seq (ask (e_now (s_env site))) (\<lambda>now. ret (''beanie-'' @ base36 (nat now))))"

definition payment_of :: "pay_link \<Rightarrow> chain \<Rightarrow> pay_route \<Rightarrow> string \<Rightarrow> string \<Rightarrow> signed_payment \<Rightarrow> payment" where
  "payment_of link c route ref amountRaw sg = \<lparr>p_chain = ch_key c, p_merchantAddress = lk_merchant link,
     p_receiverAddress = (case sg_receiver sg of None \<Rightarrow> rt_address route | Some a \<Rightarrow> a),
     p_destinationChain = lk_target link, p_txRef = ref, p_fromAddress = sg_from sg, p_amountRaw = amountRaw,
     p_webhookUrl = None, p_signature = sg_payload sg\<rparr>"

text \<open>Signing and posting.\<close>

definition relay :: "'w site \<Rightarrow> 'w wallets \<Rightarrow> pay_link \<Rightarrow> chain \<Rightarrow> pay_route \<Rightarrow> string \<Rightarrow> ('w, payment \<times> signed_payment \<times> json) act" where
  "relay site ws link c route amountRaw =
     seq (sign_transfer site ws c (rt_address route) amountRaw) (\<lambda>sg.
     seq (pay_ref site (lk_params link)) (\<lambda>ref.
     let p = payment_of link c route ref amountRaw sg in
     seq (submitPayment (e_fetch (s_env site)) p) (\<lambda>res. ret (p, sg, res))))"

definition settled_hint :: "settled \<Rightarrow> string" where
  "settled_hint o' = (case o' of
      Confirmed \<Rightarrow> ''Payment confirmed on Solana.''
    | Expired \<Rightarrow> ''Expired before it was processed. Nothing was sent: tap Pay again.''
    | Unknown \<Rightarrow> ''Still processing. Check your wallet or the merchant before paying again.'')"

definition queued_hint :: "json \<Rightarrow> string" where
  "queued_hint res = (if js_truthy (opt_prop (Some res) ''message'') then ''Queued: '' @ template (opt_prop (Some res) ''message'') else ''Queued.'')"

text \<open>
  A click on the button of a page that offers it; \<open>polls\<close> is the network at every step of every poll of the settlement. The
  result is the form, the payment that was posted with what the wait for it gave, and the world.
\<close>

definition pay_click ::
    "'w site \<Rightarrow> 'w wallets \<Rightarrow> (nat \<Rightarrow> nat \<Rightarrow> net) \<Rightarrow> pay_link \<Rightarrow> chain \<Rightarrow> pay_route \<Rightarrow> string \<Rightarrow> pay_form \<Rightarrow> 'w sys \<Rightarrow>
      pay_form \<times> (payment \<times> settled option) option \<times> 'w sys" where
  "pay_click site ws polls link c route input form s =
     (if fm_inFlight form then (form, None, s)
      else case parseDecimalToRawUnits input USDC_DECIMALS of
        None \<Rightarrow> (form\<lparr>fm_hint := ''Enter a valid amount (up to '' @ nat_string 10 USDC_DECIMALS @ '' decimal places).''\<rparr>, None, s)
      | Some amountRaw \<Rightarrow>
          (case relay site ws link c route amountRaw s of
             (Inl e, s') \<Rightarrow> (\<lparr>fm_hint = ''Error: '' @ describeError (caught_of e), fm_disabled = False, fm_inFlight = False\<rparr>, None, s')
           | (Inr (p, sg, res), s') \<Rightarrow>
               (case sg_settlement sg of
                  None \<Rightarrow> (\<lparr>fm_hint = queued_hint res, fm_disabled = True, fm_inFlight = False\<rparr>, Some (p, None), s')
                | Some se \<Rightarrow>
                    let outcome = awaitSolanaSettlement (sha_of site) se polls in
                    (\<lparr>fm_hint = settled_hint outcome, fm_disabled = (outcome \<noteq> Expired), fm_inFlight = False\<rparr>, Some (p, Some outcome), s'))))"

section \<open>The amount field\<close>

lemma set_tl: "x \<in> set (tl xs) \<Longrightarrow> x \<in> set xs"
  by (cases xs) auto

lemma cut_none: "c \<notin> set s \<Longrightarrow> cut_at c s = None"
  by (simp add: cut_at_def)

text \<open>What the filter leaves, and that it never touches an amount the button accepts.\<close>

lemma clean_amount_forms:
  "\<exists>w f. list_all is_digit (w @ f) \<and> length f \<le> 6 \<and> (clean_amount s = w \<and> f = [] \<or> clean_amount s = w @ ''.'' @ f)"
proof -
  let ?v = "filter (\<lambda>c. is_digit c \<or> c = CHR ''.'') s"
  show ?thesis
  proof (cases "CHR ''.'' \<in> set ?v")
    case False
    then have "list_all is_digit ?v" by (auto simp: list_all_iff)
    then show ?thesis by (intro exI [of _ ?v] exI [of _ "[]"]) (simp add: clean_amount_def Let_def cut_none [OF False])
  next
    case True
    let ?w = "takeWhile (\<lambda>x. x \<noteq> CHR ''.'') ?v" and ?r = "tl (dropWhile (\<lambda>x. x \<noteq> CHR ''.'') ?v)"
    have sub: "x \<in> set ?r \<Longrightarrow> x \<in> set ?v" for x by (drule set_tl, drule set_dropWhileD)
    have w: "list_all is_digit ?w" by (auto simp: list_all_iff dest: set_takeWhileD)
    have f: "list_all is_digit (take USDC_DECIMALS (filter (\<lambda>c. c \<noteq> CHR ''.'') ?r))"
      by (auto simp: list_all_iff dest!: in_set_takeD sub)
    show ?thesis
      using w f True by (intro exI [of _ ?w] exI [of _ "take USDC_DECIMALS (filter (\<lambda>c. c \<noteq> CHR ''.'') ?r)"])
        (simp add: clean_amount_def Let_def cut_at_def USDC_DECIMALS_def)
  qed
qed

lemma clean_amount_id:
  assumes "decimal_parts t w f" "length f \<le> 6"
  shows "clean_amount t = t"
proof -
  have d: "list_all is_digit w" "list_all is_digit f" "t = w \<and> f = [] \<or> t = w @ CHR ''.'' # f" using assms(1) by (auto simp: decimal_parts_def)
  have nd: "\<not> is_digit CHR ''.''" by (simp add: is_digit_def in_range_def code_def)
  have keep: "filter (\<lambda>c. is_digit c \<or> c = CHR ''.'') t = t"
    using d by (auto simp: filter_id_conv list_all_iff)
  have no: "CHR ''.'' \<notin> set w" "CHR ''.'' \<notin> set f" using d nd by (auto simp: list_all_iff)
  then have "filter (\<lambda>c. c \<noteq> CHR ''.'') f = f" by (auto simp: filter_id_conv)
  then show ?thesis
    using d(3) no assms(2) cut_at_append [OF no(1), of f]
    by (auto simp: clean_amount_def Let_def keep cut_none USDC_DECIMALS_def)
qed

lemma accepted_amount_kept:
  assumes "parseDecimalToRawUnits s 6 = Some r"
  shows "clean_amount (js_trim s) = js_trim s"
proof -
  have "decimal_text (js_trim s)" using assms by (auto simp: parseDecimalToRawUnits_def Let_def split: if_splits)
  then obtain w f where p: "decimal_parts (js_trim s) w f" using decimal_text_parts by blast
  then have "length f \<le> 6" using assms parse_parts [OF p] by (auto split: if_splits)
  with p show ?thesis by (rule clean_amount_id)
qed

section \<open>What is posted\<close>

text \<open>What each signer hands to the page.\<close>

lemma evm_signed:
  assumes "signEvmTransfer site ethereum k receiver amountRaw s = (Inr sg, s')"
  shows "sg_settlement sg = None \<and> sg_receiver sg = None \<and> opt_prop (Some (sg_payload sg)) ''to'' = Some (JStr receiver) \<and>
    opt_prop (Some (sg_payload sg)) ''value'' = Some (JStr amountRaw)"
  using assms
  by (auto simp: signEvmTransfer_def throw_Inr run_Inr Let_def evm_message_def opt_prop_def split: option.splits if_splits)

lemma stark_signed:
  assumes "signStarknetTransfer site lib wallet receiver amountRaw s = (Inr (sg, v), s')"
  shows "sg_settlement sg = None \<and> sg_receiver sg = None"
  using assms
  by (auto simp: signStarknetTransfer_def throw_Inr run_Inr Let_def split: option.splits if_splits)

lemma solana_signed:
  assumes "signSolanaTransfer site wallets receiver amountRaw s = (Inr sg, s')"
  shows "\<exists>se. sg_settlement sg = Some se \<and> se_receiver se = receiver \<and> se_owner se = sg_from sg \<and> se_amountRaw se = amountRaw \<and>
    sg_receiver sg \<noteq> None"
  using assms
  by (auto simp: signSolanaTransfer_def throw_Inr run_Inr Let_def split: option.splits if_splits prod.splits)

definition waits_for :: "pay_route \<Rightarrow> payment \<Rightarrow> settlement \<Rightarrow> bool" where
  "waits_for route p se \<longleftrightarrow> se_receiver se = rt_address route \<and> se_owner se = p_fromAddress p \<and> se_amountRaw se = p_amountRaw p"

lemma relay_Inr:
  assumes "relay site ws link c route amountRaw s = (Inr (p, sg, res), s')"
  shows "\<exists>s1 ref. sign_transfer site ws c (rt_address route) amountRaw s = (Inr sg, s1) \<and> p = payment_of link c route ref amountRaw sg"
  using assms by (auto simp: relay_def run_Inr Let_def)

lemma sign_transfer_Inr:
  assumes "sign_transfer site ws c (rt_address route) amountRaw s = (Inr sg, s')"
  shows "(if ch_kind c = ''evm'' then opt_prop (Some (sg_payload sg)) ''to'' = Some (JStr (rt_address route)) \<and>
       opt_prop (Some (sg_payload sg)) ''value'' = Some (JStr amountRaw) else True) \<and>
    list_all (waits_for route (payment_of link c route ref amountRaw sg)) (case sg_settlement sg of None \<Rightarrow> [] | Some se \<Rightarrow> [se]) \<and>
    (sg_settlement sg \<noteq> None \<longleftrightarrow> ch_kind c = ''solana'')"
proof (cases "ch_kind c = ''evm''")
  case True
  then show ?thesis using assms evm_signed unfolding sign_transfer_def by fastforce
next
  case not_evm: False
  show ?thesis
  proof (cases "ch_kind c = ''solana''")
    case True
    then show ?thesis
      using assms not_evm solana_signed [of site "pw_solana ws" "rt_address route" amountRaw s sg s']
      by (auto simp: sign_transfer_def waits_for_def payment_of_def)
  next
    case False
    then show ?thesis
      using assms not_evm stark_signed [of site "pw_lib ws" "pw_stark ws" "rt_address route" amountRaw s sg]
      by (auto simp: sign_transfer_def run_Inr)
  qed
qed


end
