(* ===== verification/Merchant_Page.thy ===== *)
theory Merchant_Page
  imports Pay_Link Store_Backup Ui
begin

text \<open>
  The merchant's page, \<open>scripts/beanie.js\<close>: the form that creates a lane, the history with its total, the badge of unseen
  deposits (\<open>scripts/store.js\<close>) and the import of a backup file. What the page draws is in \<open>Merchant_View\<close>.
\<close>

section \<open>The webhook\<close>

text \<open>\<open>url\<close> is the URL parser of the browser: the protocol and the text of a URL, \<open>None\<close> when it throws.\<close>

definition sanitizeWebhookUrl :: "(string \<Rightarrow> (string \<times> string) option) \<Rightarrow> string option \<Rightarrow> string + string option" where
  "sanitizeWebhookUrl url raw =
     (let trimmed = js_trim (or_empty raw) in
      if trimmed = [] then Inr None
      else case url trimmed of
        None \<Rightarrow> Inl ''Webhook URL is not a valid URL.''
      | Some (protocol, href) \<Rightarrow>
          if protocol \<noteq> ''http:'' \<and> protocol \<noteq> ''https:'' then Inl ''Webhook URL must use http or https.'' else Inr (Some href))"

section \<open>The form\<close>

definition OPTION_TO_CHAIN :: "string \<Rightarrow> string option" where
  "OPTION_TO_CHAIN = map_of [(''base'', ''BASE''), (''starknet'', ''STARKNET'')]"

definition choose_target :: "string \<Rightarrow> string" where
  "choose_target choice = (case OPTION_TO_CHAIN choice of Some k \<Rightarrow> k | None \<Rightarrow> wire choice)"

record lane_page =
  sb_choice :: string
  sb_wallet :: string
  sb_webhook :: string
  sb_privacy :: bool

text \<open>What a submission comes to: nothing, a notice, a created lane with its backup and the link the page opens, or a failure.\<close>

datatype submitted = Ignored | Refused string string | Made json "json option" search | Failed js_error

text \<open>What is wrong with the form, in the order of the checks; otherwise what \<open>createLane\<close> is called with.\<close>

definition checked_form :: "(string \<Rightarrow> (string \<times> string) option) \<Rightarrow> lane_page \<Rightarrow> (string \<times> string) + lane_form" where
  "checked_form url pg =
     (let target = choose_target (sb_choice pg); wallet = js_trim (sb_wallet pg) in
      case chain_entry target of
        None \<Rightarrow> Inl (''Choose a settlement chain'', ''Base and Starknet are supported right now.'')
      | Some c \<Rightarrow>
          if \<not> sb_privacy pg \<and> canonicalAddress target wallet = None
          then Inl (''Check your wallet address'', ''Enter a valid '' @ chainLabel target @ '' address.'')
          else if sb_privacy pg \<and> \<not> stealthReady (Some c)
          then Inl (''Private lanes unavailable'', ''Privacy is not enabled on '' @ chainLabel target @ '' yet. Use a public lane.'')
          else (case sanitizeWebhookUrl url (Some (sb_webhook pg)) of
              Inl e \<Rightarrow> Inl (''Check your webhook URL'', e)
            | Inr hook \<Rightarrow> Inr \<lparr>lf_wallet = wallet, lf_target = target, lf_webhook = hook, lf_privacy = sb_privacy pg\<rparr>))"

definition handleSubmit :: "'w site \<Rightarrow> (string \<Rightarrow> (string \<times> string) option) \<Rightarrow> lane_page \<Rightarrow> bool \<Rightarrow> 'w sys \<Rightarrow> bool \<times> submitted \<times> 'w sys" where
  "handleSubmit site url pg busy s =
     (if busy then (busy, Ignored, s)
      else case checked_form url pg of
        Inl (title, detail) \<Rightarrow> (False, Refused title detail, s)
      | Inr form \<Rightarrow>
          (case seq (createLane site form) (\<lambda>(lane, warnings).
                  if js_truthy (opt_prop (Some lane) ''privacy'')
                  then seq (ask (e_now (s_env site))) (\<lambda>now. seq (look (exportBackup now)) (\<lambda>backup. ret (lane, Some backup)))
                  else ret (lane, None)) s of
             (Inl e, s') \<Rightarrow> (False, Failed e, s')
           | (Inr (lane, backup), s') \<Rightarrow> (True, Made lane backup (laneShareUrl lane), s')))"

section \<open>The history\<close>

definition history_rows :: "storage \<Rightarrow> string \<Rightarrow> json list" where
  "history_rows st chain = filter (\<lambda>r. chain = ''ALL'' \<or> opt_prop (Some r) ''chain'' = Some (JStr chain)) (getHistory st)"

definition history_total :: "json list \<Rightarrow> int result" where
  "history_total rows = foldl (\<lambda>total r. then_do total (\<lambda>t. then_do (BigInt_or (opt_prop (Some r) ''amount'') ''0'') (\<lambda>a. Inr (t + a)))) (Inr 0) rows"

text \<open>The time of the last look is a number the page wrote; a text it did not write is no number.\<close>

definition K_seen :: string where "K_seen = ''beanie.history.seen.v2''"

definition seenAt :: "storage \<Rightarrow> int option" where
  "seenAt st = (case st K_seen of None \<Rightarrow> Some 0 | Some v \<Rightarrow> (case v of JNum n \<Rightarrow> Some n | _ \<Rightarrow> None))"

definition markSeen :: "quota \<Rightarrow> int \<Rightarrow> storage \<Rightarrow> storage" where
  "markSeen quota now st = fst (write_item quota st K_seen (JNum now))"

definition unseenCount :: "storage \<Rightarrow> nat" where
  "unseenCount st = length (filter (\<lambda>h. num_less (seenAt st) (js_Number (opt_prop (Some h) ''time''))) (getHistory st))"

section \<open>The backup file\<close>

definition import_file :: "quota \<Rightarrow> int \<Rightarrow> nat \<Rightarrow> json option \<Rightarrow> storage \<Rightarrow> storage \<times> (nat \<times> nat) result" where
  "import_file quota now bytes parsed st =
     (if bytes > 2000000 then (st, Inl (Error ''That file is too large to be a Beanie backup.''))
      else importBackup quota now st parsed)"

section \<open>What the page does\<close>

text \<open>Only a web address becomes a webhook.\<close>

lemma webhook_protocol:
  "sanitizeWebhookUrl url raw = Inr (Some href) \<Longrightarrow>
    \<exists>protocol \<in> {''http:'', ''https:''}. url (js_trim (or_empty raw)) = Some (protocol, href)"
  by (cases "url (js_trim (or_empty raw))") (auto simp: sanitizeWebhookUrl_def Let_def split: if_splits)

text \<open>
  A submission that ends in a link has created a lane, which is stored; a public one pays the canonical form of the
  wallet that was typed. The page stays busy only then, and no stored lane is lost either way.
\<close>

lemma handleSubmit_made:
  assumes "handleSubmit site url pg busy (st, w) = (busy', out, (st', w'))" "site_shows site seen searched"
  shows "lanes_kept st st' \<and>
    (case out of
       Made lane backup link \<Rightarrow> \<not> busy \<and> busy' \<and> link = laneShareUrl lane \<and>
         (backup = None \<or> (\<exists>now. backup = Some (exportBackup now st'))) \<and>
         (\<exists>recipient rs. lane_stored (choose_target (sb_choice pg)) recipient rs lane st' \<and>
           (\<forall>r \<in> set rs. confirmed (sha_of site) seen searched (choose_target (sb_choice pg)) recipient r))
     | _ \<Rightarrow> busy' = busy)"
proof (cases "busy \<or> (\<exists>e. checked_form url pg = Inl e)")
  case True
  then have "st' = st \<and> busy' = busy \<and> (out = Ignored \<or> (\<exists>a b. out = Refused a b))"
    using assms(1) by (cases busy) (auto simp: handleSubmit_def)
  then show ?thesis using ln.R_refl by auto
next
  case False
  then obtain form where f: "checked_form url pg = Inr form" "\<not> busy" by (cases "checked_form url pg") auto
  have t: "lf_target form = choose_target (sb_choice pg)" "wire (lf_target form) = lf_target form"
  proof -
    show t: "lf_target form = choose_target (sb_choice pg)"
      using f(1) by (auto simp: checked_form_def Let_def split: option.splits if_splits sum.splits)
    have "chain_entry (lf_target form) \<noteq> None"
      using f(1) t by (auto simp: checked_form_def Let_def split: option.splits if_splits sum.splits)
    then show "wire (lf_target form) = lf_target form" using key_forms [of "lf_target form"] by (simp add: chain_entry_key del: not_None_eq)
  qed
  obtain r st1 w1 where run: "createLane site form (st, w) = (r, (st1, w1))" by (cases "createLane site form (st, w)") auto
  note kept = ensuresD [OF createLane_keeps [OF assms(2)] run]
  show ?thesis
  proof (cases r)
    case (Inl e)
    then show ?thesis using assms(1) f run kept by (auto simp: handleSubmit_def seq_def)
  next
    case (Inr x)
    obtain lane warnings where x: "x = (lane, warnings)" by (cases x)
    obtain recipient rs where c: "lanes_kept st st1" "lane_stored (choose_target (sb_choice pg)) recipient rs lane st1"
        "\<forall>r \<in> set rs. confirmed (sha_of site) seen searched (choose_target (sb_choice pg)) recipient r"
      using kept Inr x t by auto
    have "out = Made lane None (laneShareUrl lane) \<or> (\<exists>now. out = Made lane (Some (exportBackup now st1)) (laneShareUrl lane))"
        "busy'" "st' = st1"
      using assms(1) f run Inr x
      by (auto simp: handleSubmit_def seq_def ret_def ask_def look_def split: if_splits prod.splits) blast
    then show ?thesis using c f(2) by (auto; blast)
  qed
qed

text \<open>The total of two parts of a history is the sum of their totals, so new deposits add exactly their amounts.\<close>

lemma history_total_append:
  "history_total (xs @ ys) = then_do (history_total xs) (\<lambda>a. then_do (history_total ys) (\<lambda>b. Inr (a + b)))"
proof -
  let ?f = "\<lambda>total r. then_do total (\<lambda>t. then_do (BigInt_or (opt_prop (Some r) ''amount'') ''0'') (\<lambda>a. Inr (t + a)))"
  have l: "foldl ?f (Inl e) zs = Inl e" for e zs by (induction zs) auto
  have r: "foldl ?f (Inr a) zs = then_do (foldl ?f (Inr 0) zs) (\<lambda>b. Inr (a + b))" for a zs
  proof (induction zs arbitrary: a)
    case (Cons y ys)
    show ?case
    proof (cases "BigInt_or (opt_prop (Some y) ''amount'') ''0''")
      case (Inl e)
      then show ?thesis by (simp add: l)
    next
      case (Inr n)
      then have step: "foldl ?f (Inr b) (y # ys) = foldl ?f (Inr (b + n)) ys" for b by simp
      show ?thesis
        unfolding step Cons [of "a + n"] Cons [of "0 + n"] by (cases "foldl ?f (Inr 0) ys") (simp_all del: foldl_Cons)
    qed
  qed simp
  show ?thesis
  proof (cases "foldl ?f (Inr 0) xs")
    case (Inl e)
    show ?thesis unfolding history_total_def foldl_append Inl l then_do_simps by (rule refl)
  next
    case (Inr a)
    show ?thesis unfolding history_total_def foldl_append Inr then_do_simps by (rule r)
  qed
qed

text \<open>After a look, the badge counts exactly the deposits of later times, and a look changes no deposit.\<close>

lemma unseen_after_look:
  assumes "quota st K_seen (JNum now)"
  shows "unseenCount (markSeen quota now st) =
    length (filter (\<lambda>h. num_less (Some now) (js_Number (opt_prop (Some h) ''time''))) (getHistory st))"
proof -
  have "getHistory (markSeen quota now st) = getHistory st"
    by (simp add: getHistory_def markSeen_def write_item_def read_item_def K_seen_def K_history_def)
  then show ?thesis using assms by (simp add: unseenCount_def seenAt_def markSeen_def write_item_def)
qed

end
