(* ===== verification/Passkey_Calls.thy ===== *)
theory Passkey_Calls
  imports Passkey
begin

text \<open>
  Calls of \<open>scripts/passkey.js\<close> that overlap. A registration is a single flight: \<open>inflightRegistration\<close> is the promise of the one
  under way, every call that needs one awaits it, and each goes on by itself when it ends. \<open>Passkey\<close> has the operations
  one after the other; here a call is where it waits, and calls of one tab and of several tabs on the same storage
  interleave at their awaits.
\<close>

section \<open>A call and the registration under way\<close>

text \<open>\<open>PrfRoot\<close> is \<open>ensurePrfRoot\<close>, \<open>Auth\<close> is \<open>ensureAuthCredential\<close>, \<open>Renew\<close> the branch of \<open>getVerifiedToken\<close> after a conflict.\<close>

datatype need = PrfRoot | Auth | Renew

datatype place = Waiting | Woken "registered result" | Done "json option result"

record call =
  ca_tab :: nat
  ca_need :: need
  ca_place :: place

record calls =
  cs_store :: storage
  cs_flight :: "nat \<Rightarrow> bool"
  cs_calls :: "call list"

definition idle :: "storage \<Rightarrow> calls" where
  "idle st = \<lparr>cs_store = st, cs_flight = (\<lambda>t. False), cs_calls = []\<rparr>"

text \<open>The piece up to the first \<open>await\<close>: an identifier that is there is returned, otherwise a registration is joined or begun.\<close>

fun at_hand :: "need \<Rightarrow> storage \<Rightarrow> json option" where
  "at_hand PrfRoot st = getPrfRootId st"
| "at_hand Auth st = getAuthId st"
| "at_hand Renew st = None"

definition begin_call :: "nat \<Rightarrow> need \<Rightarrow> calls \<Rightarrow> calls" where
  "begin_call t n s =
     (let known = at_hand n (cs_store s) in
      if js_truthy known then s\<lparr>cs_calls := cs_calls s @ [\<lparr>ca_tab = t, ca_need = n, ca_place = Done (Inr known)\<rparr>]\<rparr>
      else s\<lparr>cs_flight := (cs_flight s)(t := True), cs_calls := cs_calls s @ [\<lparr>ca_tab = t, ca_need = n, ca_place = Waiting\<rparr>]\<rparr>)"

text \<open>
  The last piece of the registration: an error of the server or the authenticator, or the identifier, whether the passkey has PRF
  and the time; then the archive, and \<open>finally\<close> the flight is over and all that wait are woken.
\<close>

definition registration_result :: "quota \<Rightarrow> (json option \<times> bool \<times> int) result \<Rightarrow> storage \<Rightarrow> storage \<times> registered result" where
  "registration_result quota out st =
     (case out of
        Inl e \<Rightarrow> (st, Inl e)
      | Inr (i, prf, now) \<Rightarrow>
          (case archive quota i prf now st of
             (st', Inl e) \<Rightarrow> (st', Inl e)
           | (st', Inr u) \<Rightarrow> (st', Inr \<lparr>rg_id = i, rg_prf = prf\<rparr>)))"

definition woken_by :: "nat \<Rightarrow> registered result \<Rightarrow> call \<Rightarrow> call" where
  "woken_by t r c = (if ca_tab c = t \<and> ca_place c = Waiting then c\<lparr>ca_place := Woken r\<rparr> else c)"

definition end_registration :: "quota \<Rightarrow> nat \<Rightarrow> (json option \<times> bool \<times> int) result \<Rightarrow> calls \<Rightarrow> calls" where
  "end_registration quota t out s =
     (case registration_result quota out (cs_store s) of
        (st', r) \<Rightarrow> \<lparr>cs_store = st', cs_flight = (cs_flight s)(t := False), cs_calls = map (woken_by t r) (cs_calls s)\<rparr>)"

text \<open>A woken call adopts the passkey and returns, or throws.\<close>

fun go_on :: "quota \<Rightarrow> need \<Rightarrow> registered result \<Rightarrow> storage \<Rightarrow> storage \<times> json option result" where
  "go_on quota n (Inl e) st = (st, Inl e)"
| "go_on quota PrfRoot (Inr cred) st =
     (fst (adopt quota cred (\<not> js_truthy (getAuthId st)) st),
      if rg_prf cred then Inr (rg_id cred)
      else Inl (Error ''This passkey does not support the PRF extension. Try another device or turn privacy off.''))"
| "go_on quota n (Inr cred) st = (fst (adopt quota cred True st), Inr (rg_id cred))"

definition wake_call :: "quota \<Rightarrow> nat \<Rightarrow> registered result \<Rightarrow> calls \<Rightarrow> calls" where
  "wake_call quota i r s =
     (case go_on quota (ca_need (cs_calls s ! i)) r (cs_store s) of
        (st', d) \<Rightarrow> s\<lparr>cs_store := st', cs_calls := (cs_calls s)[i := (cs_calls s ! i)\<lparr>ca_place := Done d\<rparr>]\<rparr>)"

fun is_woken :: "place \<Rightarrow> bool" where
  "is_woken (Woken r) = True"
| "is_woken p = False"

text \<open>
  The browser. Calls begin in the open tabs; those woken in a tab go on before its next task can begin another, since the
  continuations of a promise run first. Other code writes its own items, and a tab may be closed at any moment.
\<close>

inductive passkey_step :: "(nat \<Rightarrow> bool) \<Rightarrow> quota \<Rightarrow> calls \<Rightarrow> calls \<Rightarrow> bool" for tabs quota where
  call_begins: "tabs t \<Longrightarrow> list_all (\<lambda>c. ca_tab c = t \<longrightarrow> \<not> is_woken (ca_place c)) (cs_calls s) \<Longrightarrow>
    passkey_step tabs quota s (begin_call t n s)"
| registration_ends: "cs_flight s t \<Longrightarrow> passkey_step tabs quota s (end_registration quota t out s)"
| call_goes_on: "i < length (cs_calls s) \<Longrightarrow> ca_place (cs_calls s ! i) = Woken r \<Longrightarrow> passkey_step tabs quota s (wake_call quota i r s)"
| item_written: "k \<notin> {ROOT_KEY, AUTH_KEY, ARCHIVE_KEY} \<Longrightarrow> passkey_step tabs quota s (s\<lparr>cs_store := put (cs_store s) k v\<rparr>)"
| tab_closed: "passkey_step tabs quota s (s\<lparr>cs_flight := (cs_flight s)(t := False), cs_calls := filter (\<lambda>c. ca_tab c \<noteq> t) (cs_calls s)\<rparr>)"

section \<open>Alone, a call does what the operation does\<close>

text \<open>A registration reads nothing of the storage before its last piece, and that piece is all it writes.\<close>

definition one_write :: "quota \<Rightarrow> storage \<Rightarrow> ('w, registered) act \<Rightarrow> bool" where
  "one_write quota st m \<longleftrightarrow> (\<forall>w. \<exists>out w'. m (st, w) = (snd (registration_result quota out st), (fst (registration_result quota out st), w')))"

lemma one_write_fails:
  assumes "\<And>w. \<exists>w'. m (st, w) = (Inl e, (st, w')) \<or> (\<exists>out. m (st, w) = (snd (registration_result quota out st), (fst (registration_result quota out st), w')))"
  shows "one_write quota st m"
proof -
  have "registration_result quota (Inl e) st = (st, Inl e)" for e by (simp add: registration_result_def)
  then show ?thesis unfolding one_write_def using assms by (metis fst_conv snd_conv)
qed

lemma one_write_throw: "one_write quota st (throw e)"
  by (rule one_write_fails [where e = e]) (auto simp: throw_def)

lemma one_write_of_result:
  assumes "\<And>x. one_write quota st (f x)"
  shows "one_write quota st (seq (of_result r) f)"
proof (cases r)
  case (Inl e)
  then show ?thesis by (intro one_write_fails [where e = e]) (auto simp: seq_def of_result_def)
next
  case (Inr x)
  then show ?thesis using assms by (simp add: one_write_def seq_def of_result_def)
qed

lemma one_write_ask: "(\<And>x. one_write quota st (f x)) \<Longrightarrow> one_write quota st (seq (ask q) f)"
  by (simp add: one_write_def seq_def ask_def split: prod.splits)

lemma one_write_ask_result:
  assumes "\<And>x. one_write quota st (f x)"
  shows "one_write quota st (seq (ask_result q) f)"
  unfolding one_write_def
proof
  fix w
  obtain r w' where q: "q w = (r, w')" by (cases "q w")
  have "seq (ask_result q) f (st, w) = seq (of_result r) f (st, w')" by (simp add: seq_def ask_result_def of_result_def q)
  then show "\<exists>out w'. seq (ask_result q) f (st, w) = (snd (registration_result quota out st), (fst (registration_result quota out st), w'))"
    using one_write_of_result [of quota st f r] assms by (simp add: one_write_def)
qed

lemmas one_write_skip = one_write_of_result one_write_ask one_write_ask_result

lemma one_write_archive:
  "one_write quota st (seq (store (archive quota i prf now)) (\<lambda>u. ret \<lparr>rg_id = i, rg_prf = prf\<rparr>))"
  unfolding one_write_def
proof
  fix w
  show "\<exists>out w'. seq (store (archive quota i prf now)) (\<lambda>u. ret \<lparr>rg_id = i, rg_prf = prf\<rparr>) (st, w) =
      (snd (registration_result quota out st), (fst (registration_result quota out st), w'))"
    by (rule exI [where x = "Inr (i, prf, now)"])
      (auto simp: registration_result_def seq_def store_def ret_def split: prod.splits sum.splits)
qed

lemma registerCredential_piece:
  assumes "registerCredential env (st, w) = (r, (st', w'))"
  obtains out where "registration_result (e_quota env) out st = (st', r)"
proof -
  have "one_write (e_quota env) st (registerCredential env)"
    unfolding registerCredential_def registerStart_def registerFinish_def request_def
    by (intro one_write_skip) (auto simp: Let_def intro!: one_write_skip one_write_archive one_write_throw split: option.splits)
  then show thesis using assms that unfolding one_write_def by (metis prod.collapse prod.inject)
qed

text \<open>The three pieces of a call that has the browser for itself.\<close>

definition alone :: "need \<Rightarrow> place \<Rightarrow> bool \<Rightarrow> storage \<Rightarrow> calls" where
  "alone n p b st = \<lparr>cs_store = st, cs_flight = (\<lambda>t. b \<and> t = 0), cs_calls = [\<lparr>ca_tab = 0, ca_need = n, ca_place = p\<rparr>]\<rparr>"

lemma alone_steps:
  assumes "registration_result quota out st = (st1, r)" "go_on quota n r st1 = (st2, d)"
    and "tabs 0" "\<not> js_truthy (at_hand n st)"
  shows "(passkey_step tabs quota)\<^sup>*\<^sup>* (idle st) (alone n (Done d) False st2)"
proof -
  have b: "begin_call 0 n (idle st) = alone n Waiting True st"
    using assms(4) by (auto simp: begin_call_def idle_def alone_def fun_eq_iff)
  have "passkey_step tabs quota (idle st) (alone n Waiting True st)"
    using passkey_step.call_begins [of tabs 0 "idle st" quota n] assms(3) b by (simp add: idle_def)
  moreover have "end_registration quota 0 out (alone n Waiting True st) = alone n (Woken r) False st1"
    using assms(1) by (auto simp: end_registration_def alone_def woken_by_def fun_eq_iff)
  then have "passkey_step tabs quota (alone n Waiting True st) (alone n (Woken r) False st1)"
    using passkey_step.registration_ends [of "alone n Waiting True st" 0 tabs quota out] by (simp add: alone_def)
  moreover have "passkey_step tabs quota (alone n (Woken r) False st1) (alone n (Done d) False st2)"
    using passkey_step.call_goes_on [of 0 "alone n (Woken r) False st1" r tabs quota] assms(2)
    by (simp add: wake_call_def alone_def)
  ultimately show ?thesis by (meson converse_rtranclp_into_rtranclp r_into_rtranclp)
qed

lemma alone_at_hand:
  assumes "tabs 0" "js_truthy (at_hand n st)"
  shows "(passkey_step tabs quota)\<^sup>*\<^sup>* (idle st) (alone n (Done (Inr (at_hand n st))) False st)"
proof -
  have "begin_call 0 n (idle st) = alone n (Done (Inr (at_hand n st))) False st"
    using assms(2) by (simp add: begin_call_def idle_def alone_def)
  then show ?thesis
    using passkey_step.call_begins [of tabs 0 "idle st" quota n] assms(1) by (simp add: idle_def r_into_rtranclp)
qed

lemma adopt_returns: "adopt quota cred b st = (fst (adopt quota cred b st), Inr ())"
  by (simp add: adopt_def Let_def)

text \<open>What the operations of \<open>Passkey\<close> do and return is what the call does and returns when no other is under way.\<close>

lemma ensurePrfRoot_alone:
  assumes "ensurePrfRoot env (st, w) = (d, (st', w'))" "tabs 0"
  shows "(passkey_step tabs (e_quota env))\<^sup>*\<^sup>* (idle st) (alone PrfRoot (Done d) False st')"
proof (cases "js_truthy (getPrfRootId st)")
  case True
  then show ?thesis
    using assms alone_at_hand [of tabs PrfRoot st "e_quota env"] by (auto simp: ensurePrfRoot_def seq_def look_def ret_def)
next
  case False
  obtain r st1 w1 where reg: "registerCredential env (st, w) = (r, (st1, w1))" by (metis prod.exhaust)
  obtain out where out: "registration_result (e_quota env) out st = (st1, r)" using reg by (rule registerCredential_piece)
  have "go_on (e_quota env) PrfRoot r st1 = (st', d)"
  proof (cases r)
    case (Inl e)
    then show ?thesis using assms(1) False reg by (simp add: ensurePrfRoot_def seq_def look_def)
  next
    case (Inr cred)
    then show ?thesis using assms(1) False reg adopt_returns [of "e_quota env" cred "\<not> js_truthy (getAuthId st1)" st1]
      by (auto simp: ensurePrfRoot_def seq_def look_def store_def ret_def throw_def split: prod.splits if_splits)
  qed
  then show ?thesis using alone_steps [OF out] assms(2) False by simp
qed

lemma ensureAuthCredential_alone:
  assumes "ensureAuthCredential env (st, w) = (d, (st', w'))" "tabs 0"
  shows "(passkey_step tabs (e_quota env))\<^sup>*\<^sup>* (idle st) (alone Auth (Done d) False st')"
proof (cases "js_truthy (getAuthId st)")
  case True
  then show ?thesis
    using assms alone_at_hand [of tabs Auth st "e_quota env"] by (auto simp: ensureAuthCredential_def seq_def look_def ret_def)
next
  case False
  obtain r st1 w1 where reg: "registerCredential env (st, w) = (r, (st1, w1))" by (metis prod.exhaust)
  obtain out where out: "registration_result (e_quota env) out st = (st1, r)" using reg by (rule registerCredential_piece)
  have "go_on (e_quota env) Auth r st1 = (st', d)"
  proof (cases r)
    case (Inl e)
    then show ?thesis using assms(1) False reg by (simp add: ensureAuthCredential_def seq_def look_def)
  next
    case (Inr cred)
    then show ?thesis using assms(1) False reg adopt_returns [of "e_quota env" cred True st1]
      by (auto simp: ensureAuthCredential_def seq_def look_def store_def ret_def split: prod.splits)
  qed
  then show ?thesis using alone_steps [OF out] assms(2) False by simp
qed

section \<open>However calls overlap\<close>

text \<open>What \<open>passkey_rel\<close> says of the passkey's own items.\<close>

definition passkey_kept :: "quota \<Rightarrow> storage \<Rightarrow> storage \<Rightarrow> bool" where
  "passkey_kept quota st st' \<longleftrightarrow>
     (js_truthy (getPrfRootId st) \<longrightarrow> getPrfRootId st' = getPrfRootId st) \<and>
     (\<exists>cs. listCredentials st' = listCredentials st @ cs) \<and>
     (accepts quota \<and> all_archived st \<longrightarrow> all_archived st')"

interpretation kept: guarantee "passkey_kept quota"
  by unfold_locales (auto simp: passkey_kept_def)

lemma passkey_rel_kept: "passkey_rel quota st st' \<Longrightarrow> passkey_kept quota st st'"
  by (simp add: passkey_rel_def passkey_kept_def)

lemma kept_known: "passkey_kept quota st st' \<Longrightarrow> known_ids st \<subseteq> known_ids st'"
  by (auto simp: passkey_kept_def known_ids_def)

lemma item_written_kept: "k \<notin> {ROOT_KEY, AUTH_KEY, ARCHIVE_KEY} \<Longrightarrow> passkey_kept quota st (put st k v)"
proof -
  assume k: "k \<notin> {ROOT_KEY, AUTH_KEY, ARCHIVE_KEY}"
  then have "stored_id key (put st k v) = stored_id key st" if "key \<in> {ROOT_KEY, AUTH_KEY}" for key using that by auto
  then show ?thesis using k by (auto simp: passkey_kept_def getPrfRootId_def all_archived_def)
qed

lemma registration_result_ok:
  assumes "registration_result quota out st = (st', r)"
  shows "passkey_kept quota st st'" "getPrfRootId st' = getPrfRootId st"
    "case r of Inl e \<Rightarrow> True | Inr cred \<Rightarrow> accepts quota \<longrightarrow> rg_id cred \<in> known_ids st'"
proof -
  consider e where "out = Inl e" "st' = st" "r = Inl e"
    | i b now a where "archive quota i b now st = (st', a)" "r = (case a of Inl e \<Rightarrow> Inl e | Inr u \<Rightarrow> Inr \<lparr>rg_id = i, rg_prf = b\<rparr>)"
    using assms by (auto simp: registration_result_def split: sum.splits prod.splits)
  then have "passkey_kept quota st st' \<and> getPrfRootId st' = getPrfRootId st \<and>
      (case r of Inl e \<Rightarrow> True | Inr cred \<Rightarrow> accepts quota \<longrightarrow> rg_id cred \<in> known_ids st')"
  proof cases
    case 1
    then show ?thesis by (simp add: kept.R_refl)
  next
    case (2 i b now a)
    show ?thesis
      using archive_ok [OF 2(1)] archive_root [OF 2(1)] 2(2) by (cases a) (auto intro: passkey_rel_kept)
  qed
  then show "passkey_kept quota st st'" "getPrfRootId st' = getPrfRootId st"
    "case r of Inl e \<Rightarrow> True | Inr cred \<Rightarrow> accepts quota \<longrightarrow> rg_id cred \<in> known_ids st'" by blast+
qed

text \<open>The identifier a call has or will return is archived.\<close>

fun place_known :: "quota \<Rightarrow> storage \<Rightarrow> place \<Rightarrow> bool" where
  "place_known quota st (Woken (Inr cred)) \<longleftrightarrow> accepts quota \<longrightarrow> rg_id cred \<in> known_ids st"
| "place_known quota st (Done (Inr i)) \<longleftrightarrow> accepts quota \<longrightarrow> i \<in> known_ids st"
| "place_known quota st p \<longleftrightarrow> True"

lemma place_known_mono: "place_known quota st p \<Longrightarrow> known_ids st \<subseteq> known_ids st' \<Longrightarrow> place_known quota st' p"
  by (cases "(quota, st, p)" rule: place_known.cases) auto

lemma go_on_ok:
  assumes "go_on quota n r st = (st', d)" "place_known quota st (Woken r)"
  shows "passkey_kept quota st st' \<and> place_known quota st' (Done d)"
proof (cases r)
  case (Inl e)
  then show ?thesis using assms(1) kept.R_refl [of quota st'] by auto
next
  case (Inr cred)
  obtain b where st': "st' = fst (adopt quota cred b st)" and d: "d = Inr (rg_id cred) \<or> (\<exists>e. d = Inl e)"
    using assms(1) Inr by (cases n) (auto split: if_splits)
  have "passkey_rel quota st st'"
    using adopt_ok [OF adopt_returns] assms(2) Inr st' by auto
  then have k: "passkey_kept quota st st'" by (rule passkey_rel_kept)
  then show ?thesis using d assms(2) Inr kept_known [OF k] by auto
qed

definition calls_ok :: "quota \<Rightarrow> storage \<Rightarrow> calls \<Rightarrow> bool" where
  "calls_ok quota st s \<longleftrightarrow> passkey_kept quota st (cs_store s) \<and> list_all (\<lambda>c. place_known quota (cs_store s) (ca_place c)) (cs_calls s)"

lemma calls_ok_mono:
  "calls_ok quota st s \<Longrightarrow> passkey_kept quota (cs_store s) st' \<Longrightarrow>
    passkey_kept quota st st' \<and> list_all (\<lambda>c. place_known quota st' (ca_place c)) (cs_calls s)"
  unfolding calls_ok_def by (auto simp: list_all_iff intro: kept.R_trans place_known_mono dest: kept_known)

lemma at_hand_known:
  "all_archived st \<Longrightarrow> js_truthy (at_hand n st) \<Longrightarrow> at_hand n st \<in> known_ids st"
  by (cases n) (auto simp: all_archived_def getPrfRootId_def getAuthId_def js_truthy_def)

lemma passkey_step_ok:
  assumes "passkey_step tabs quota s s'" "all_archived st" "calls_ok quota st s"
  shows "calls_ok quota st s'"
  using assms
proof cases
  case (call_begins t n)
  have "all_archived (cs_store s)" if "accepts quota" using that assms(2,3) by (simp add: calls_ok_def passkey_kept_def)
  then show ?thesis
    using assms(3) call_begins at_hand_known [of "cs_store s" n] by (auto simp: begin_call_def calls_ok_def Let_def)
next
  case (registration_ends t out)
  obtain st' r where r: "registration_result quota out (cs_store s) = (st', r)" by (cases "registration_result quota out (cs_store s)")
  note ok = registration_result_ok [OF r]
  have "place_known quota st' (Woken r)" using ok(3) by (cases r) auto
  then show ?thesis
    using calls_ok_mono [OF assms(3) ok(1)] registration_ends r
    by (auto simp: calls_ok_def end_registration_def woken_by_def list_all_iff)
next
  case (call_goes_on i r)
  obtain st' d where g: "go_on quota (ca_need (cs_calls s ! i)) r (cs_store s) = (st', d)" by (metis prod.exhaust)
  have "place_known quota (cs_store s) (Woken r)"
    using assms(3) call_goes_on by (auto simp: calls_ok_def list_all_length)
  note ok = go_on_ok [OF g this]
  show ?thesis
    using calls_ok_mono [OF assms(3)] ok call_goes_on g
    by (auto simp: calls_ok_def wake_call_def list_all_length nth_list_update)
next
  case (item_written k v)
  then show ?thesis using calls_ok_mono [OF assms(3) item_written_kept [of k quota "cs_store s" v]] by (simp add: calls_ok_def)
next
  case (tab_closed t)
  then show ?thesis using assms(3) by (auto simp: calls_ok_def list_all_iff)
qed

lemma passkey_steps_ok:
  assumes "(passkey_step tabs quota)\<^sup>*\<^sup>* (idle st) s" "all_archived st"
  shows "calls_ok quota st s"
  using assms
proof (induction rule: rtranclp_induct)
  case base
  show ?case by (simp add: calls_ok_def idle_def kept.R_refl)
qed (blast intro: passkey_step_ok)

text \<open>
  C19: overlapping passkey calls are safe. Whatever calls overlap, in one tab or in several, and however their registrations end, a
  pinned root stays, the archive only grows, the identifiers in use are archived, and so is every
  identifier a call returned, on a storage that accepts writes.
\<close>

theorem overlapping_calls_safe:
  assumes "(passkey_step tabs quota)\<^sup>*\<^sup>* (idle st) s" "all_archived st"
  shows "(js_truthy (getPrfRootId st) \<longrightarrow> getPrfRootId (cs_store s) = getPrfRootId st) \<and>
    (\<exists>cs. listCredentials (cs_store s) = listCredentials st @ cs) \<and>
    (accepts quota \<longrightarrow> all_archived (cs_store s) \<and>
      list_all (\<lambda>c. case ca_place c of Done (Inr i) \<Rightarrow> i \<in> known_ids (cs_store s) | _ \<Rightarrow> True) (cs_calls s))"
  using passkey_steps_ok [OF assms] assms(2)
  by (auto simp: calls_ok_def passkey_kept_def list_all_iff split: place.splits sum.splits)

section \<open>One tab\<close>

text \<open>
  In one tab the calls that wait together are woken by one registration, and only one of its passkeys can become the root while
  they wait.
\<close>

fun root_place :: "json option \<Rightarrow> place \<Rightarrow> bool" where
  "root_place root Waiting \<longleftrightarrow> \<not> js_truthy root"
| "root_place root (Woken (Inr cred)) \<longleftrightarrow> js_truthy root \<longrightarrow> rg_prf cred \<and> root = rg_id cred"
| "root_place root (Done (Inr i)) \<longleftrightarrow> js_truthy i \<longrightarrow> root = i"
| "root_place root p \<longleftrightarrow> True"

definition woken_together :: "call list \<Rightarrow> bool" where
  "woken_together cs \<longleftrightarrow> (\<forall>c \<in> set cs. \<forall>r. ca_place c = Woken r \<longrightarrow>
     (\<forall>c' \<in> set cs. ca_place c' \<noteq> Waiting \<and> (\<forall>r'. ca_place c' = Woken r' \<longrightarrow> r' = r)))"

definition one_root :: "calls \<Rightarrow> bool" where
  "one_root s \<longleftrightarrow> (\<forall>c \<in> set (cs_calls s). ca_tab c = 0 \<and>
       (ca_need c = PrfRoot \<longrightarrow> root_place (getPrfRootId (cs_store s)) (ca_place c))) \<and>
     woken_together (cs_calls s)"

lemma adopt_root:
  assumes "accepts quota"
  shows "getPrfRootId (fst (adopt quota cred b st)) =
    (if rg_prf cred \<and> \<not> js_truthy (getPrfRootId st) then stored_id ROOT_KEY (put st ROOT_KEY (id_object (rg_id cred))) else getPrfRootId st)"
  using assms by (auto simp: adopt_def Let_def writeJson_cases accepts_def getPrfRootId_def) (auto simp: stored_id_def)

lemma stored_id_written: "js_truthy i \<Longrightarrow> stored_id key (put st key (id_object i)) = i"
  by (auto simp: stored_id_def id_object_def opt_field_def nullish_def js_truthy_def split: option.splits)

lemma go_on_root:
  assumes "accepts quota" "go_on quota n (Inr cred) st = (st', d)"
  shows "js_truthy (getPrfRootId st) \<Longrightarrow> getPrfRootId st' = getPrfRootId st"
    "js_truthy (getPrfRootId st') \<Longrightarrow> getPrfRootId st' = getPrfRootId st \<or> rg_prf cred \<and> getPrfRootId st' = rg_id cred"
    "n = PrfRoot \<Longrightarrow> root_place (getPrfRootId st) (Woken (Inr cred)) \<Longrightarrow> root_place (getPrfRootId st') (Done d)"
proof -
  obtain b where st': "st' = fst (adopt quota cred b st)" using assms(2) by (cases n) (auto split: if_splits)
  note root = adopt_root [OF assms(1), of cred b st, folded st']
  show kept: "js_truthy (getPrfRootId st) \<Longrightarrow> getPrfRootId st' = getPrfRootId st" using root by simp
  show "js_truthy (getPrfRootId st') \<Longrightarrow> getPrfRootId st' = getPrfRootId st \<or> rg_prf cred \<and> getPrfRootId st' = rg_id cred"
    using root stored_id_object [of ROOT_KEY st "rg_id cred"] by (auto split: if_splits)
  assume n: "n = PrfRoot" and w: "root_place (getPrfRootId st) (Woken (Inr cred))"
  show "root_place (getPrfRootId st') (Done d)"
  proof (cases "rg_prf cred")
    case True
    then have "d = Inr (rg_id cred)" using assms(2) n by simp
    then show ?thesis using True w root kept stored_id_written [of "rg_id cred" ROOT_KEY st] by auto
  next
    case False
    then show ?thesis using assms(2) n by auto
  qed
qed

lemma is_woken_iff: "is_woken p \<longleftrightarrow> (\<exists>r. p = Woken r)"
  by (cases p) auto

lemma one_root_ends:
  assumes "one_root s" "registration_result quota out (cs_store s) = (st', r)"
  shows "one_root (end_registration quota t out s)"
proof -
  note root = registration_result_ok(2) [OF assms(2)]
  have s': "end_registration quota t out s =
      \<lparr>cs_store = st', cs_flight = (cs_flight s)(t := False), cs_calls = map (woken_by t r) (cs_calls s)\<rparr>"
    by (simp add: end_registration_def assms(2))
  show ?thesis
  proof (cases "\<exists>c \<in> set (cs_calls s). ca_tab c = t \<and> ca_place c = Waiting")
    case False
    then have "map (woken_by t r) (cs_calls s) = cs_calls s" by (intro map_idI) (auto simp: woken_by_def)
    then show ?thesis using assms(1) root s' by (simp add: one_root_def)
  next
    case True
    then have t: "t = 0" and none: "\<forall>c \<in> set (cs_calls s). \<not> is_woken (ca_place c)"
      using assms(1) by (auto simp: one_root_def woken_together_def is_woken_iff)
    have "ca_place (woken_by t r c) \<noteq> Waiting \<and> (\<forall>r'. ca_place (woken_by t r c) = Woken r' \<longrightarrow> r' = r)"
      if "c \<in> set (cs_calls s)" for c
      using that t none assms(1) by (auto simp: woken_by_def one_root_def)
    then have "woken_together (map (woken_by t r) (cs_calls s))" by (auto simp: woken_together_def)
    moreover have "root_place root Waiting \<Longrightarrow> root_place root (Woken r)" for root by (cases r) auto
    ultimately show ?thesis using assms(1) root s' by (auto simp: one_root_def woken_by_def)
  qed
qed

lemma one_root_goes_on:
  assumes "one_root s" "accepts quota" "i < length (cs_calls s)" "ca_place (cs_calls s ! i) = Woken r"
  shows "one_root (wake_call quota i r s)"
proof -
  let ?c = "cs_calls s ! i"
  obtain st' d where g: "go_on quota (ca_need ?c) r (cs_store s) = (st', d)" by (metis prod.exhaust)
  have i: "?c \<in> set (cs_calls s)" using assms(3) by simp
  have together: "ca_place c \<noteq> Waiting \<and> (\<forall>r'. ca_place c = Woken r' \<longrightarrow> r' = r)" if "c \<in> set (cs_calls s)" for c
    using that i assms(1,4) unfolding one_root_def woken_together_def by blast
  have place: "ca_need c = PrfRoot \<Longrightarrow> root_place (getPrfRootId (cs_store s)) (ca_place c)" if "c \<in> set (cs_calls s)" for c
    using that assms(1) by (simp add: one_root_def)
  have cs: "set ((cs_calls s)[i := ?c\<lparr>ca_place := Done d\<rparr>]) \<subseteq> insert (?c\<lparr>ca_place := Done d\<rparr>) (set (cs_calls s))"
    by (rule set_update_subset_insert)
  have "root_place (getPrfRootId st') (ca_place c)" if "c \<in> set (cs_calls s)" "ca_need c = PrfRoot" for c
  proof (cases r)
    case (Inl e)
    then show ?thesis using g place [OF that] by simp
  next
    case (Inr cred)
    note root = go_on_root [OF assms(2) g [unfolded Inr]]
    have "ca_place c = Woken (Inr cred) \<or> (\<exists>x. ca_place c = Done x)"
      using together [OF that(1)] Inr by (cases "ca_place c") auto
    then consider "ca_place c = Woken (Inr cred)" | x where "ca_place c = Done x" by blast
    then show ?thesis
    proof cases
      case 1
      then show ?thesis using place [OF that] root(1,2) by auto
    next
      case (2 x)
      then show ?thesis using place [OF that] root(1) by (cases x) auto
    qed
  qed
  moreover have "root_place (getPrfRootId st') (Done d)" if "ca_need ?c = PrfRoot"
  proof (cases r)
    case (Inl e)
    then show ?thesis using g by auto
  next
    case (Inr cred)
    then show ?thesis using go_on_root(3) [OF assms(2) g [unfolded Inr] that] place [OF i that] assms(4) by simp
  qed
  moreover have "woken_together ((cs_calls s)[i := ?c\<lparr>ca_place := Done d\<rparr>])"
  proof -
    have "ca_place c \<noteq> Waiting \<and> (\<forall>r'. ca_place c = Woken r' \<longrightarrow> r' = r)"
      if "c \<in> set ((cs_calls s)[i := ?c\<lparr>ca_place := Done d\<rparr>])" for c
      using subsetD [OF cs that] together [of c] by auto
    then show ?thesis unfolding woken_together_def by blast
  qed
  ultimately show ?thesis
    using assms(1) cs i by (fastforce simp: one_root_def wake_call_def g)
qed

lemma one_root_step:
  assumes "passkey_step (\<lambda>t. t = 0) quota s s'" "accepts quota" "one_root s"
  shows "one_root s'"
  using assms(1)
proof cases
  case (call_begins t n)
  then have "\<forall>c \<in> set (cs_calls s). \<not> is_woken (ca_place c)"
    using assms(3) by (auto simp: one_root_def list_all_iff)
  then show ?thesis
    using assms(3) call_begins by (auto simp: one_root_def begin_call_def Let_def woken_together_def is_woken_iff)
next
  case (registration_ends t out)
  show ?thesis unfolding registration_ends(1) by (rule one_root_ends [OF assms(3) surjective_pairing])
next
  case (call_goes_on i r)
  then show ?thesis using one_root_goes_on [OF assms(3,2)] by simp
next
  case (item_written k v)
  then have "getPrfRootId (cs_store s') = getPrfRootId (cs_store s)" by (auto simp: getPrfRootId_def intro!: stored_id_put(1))
  then show ?thesis using item_written assms(3) by (simp add: one_root_def)
next
  case (tab_closed t)
  then show ?thesis using assms(3) by (auto simp: one_root_def woken_together_def)
qed

text \<open>
  C20: one tab has one root. However the calls of one tab overlap, on a storage that accepts writes, every call of
  \<open>ensurePrfRoot\<close> that returned an identifier returned the one that is the pinned root.
\<close>

theorem one_tab_one_root:
  assumes "(passkey_step (\<lambda>t. t = 0) quota)\<^sup>*\<^sup>* (idle st) s" "accepts quota"
    and "\<lparr>ca_tab = 0, ca_need = PrfRoot, ca_place = Done (Inr i)\<rparr> \<in> set (cs_calls s)" "js_truthy i"
  shows "getPrfRootId (cs_store s) = i"
proof -
  have "one_root s"
    using assms(1)
  proof (induction rule: rtranclp_induct)
    case base
    show ?case by (simp add: idle_def one_root_def woken_together_def)
  qed (blast intro: one_root_step [OF _ assms(2)])
  then show ?thesis using assms(3,4) by (auto simp: one_root_def dest: bspec)
qed

section \<open>Examples\<close>

text \<open>A browser that stores whatever it is given, without passkeys, and two calls of \<open>ensurePrfRoot\<close> that begin before any registration ends.\<close>

abbreviation key_quota :: quota where
  "key_quota \<equiv> \<lambda>st k v. True"

definition key_made :: "string \<Rightarrow> (json option \<times> bool \<times> int) result" where
  "key_made i = Inr (Some (JStr i), True, 5)"

definition root_call :: "nat \<Rightarrow> place \<Rightarrow> call" where
  "root_call t p = \<lparr>ca_tab = t, ca_need = PrfRoot, ca_place = p\<rparr>"

definition woken_with :: "string \<Rightarrow> place" where
  "woken_with i = Woken (Inr \<lparr>rg_id = Some (JStr i), rg_prf = True\<rparr>)"

lemma empty_ids: "\<not> js_truthy (stored_id key Map.empty)" "listCredentials Map.empty = []" "all_archived Map.empty"
  by (simp_all add: stored_id_def readJson_def read_item_def opt_prop_def nullish_def js_truthy_def listCredentials_def as_array_def all_archived_def)

lemma two_calls_wait:
  assumes "tabs t1" "tabs t2"
  shows "\<exists>s. (passkey_step tabs quota)\<^sup>*\<^sup>* (idle Map.empty) s \<and> cs_store s = Map.empty \<and> cs_flight s t1 \<and> cs_flight s t2 \<and>
    cs_calls s = [root_call t1 Waiting, root_call t2 Waiting]"
proof -
  define s where "s = begin_call t1 PrfRoot (idle Map.empty)"
  have s: "s = \<lparr>cs_store = Map.empty, cs_flight = (\<lambda>t. False)(t1 := True), cs_calls = [root_call t1 Waiting]\<rparr>"
    by (simp add: s_def begin_call_def idle_def getPrfRootId_def empty_ids root_call_def)
  have "passkey_step tabs quota (idle Map.empty) s"
    unfolding s_def using assms(1) by (intro passkey_step.call_begins) (simp_all add: idle_def)
  moreover have "passkey_step tabs quota s (begin_call t2 PrfRoot s)"
    using assms(2) by (intro passkey_step.call_begins) (simp_all add: s root_call_def)
  ultimately have "(passkey_step tabs quota)\<^sup>*\<^sup>* (idle Map.empty) (begin_call t2 PrfRoot s)" by auto
  then show ?thesis
    by (intro exI [where x = "begin_call t2 PrfRoot s"]) (simp add: s begin_call_def getPrfRootId_def empty_ids root_call_def)
qed

lemma archive_first:
  "registration_result key_quota (key_made i) Map.empty = (put Map.empty ARCHIVE_KEY (JArr [archive_entry (Some (JStr i)) True 5]), Inr \<lparr>rg_id = Some (JStr i), rg_prf = True\<rparr>)"
  by (simp add: registration_result_def key_made_def archive_def empty_ids writeJson_cases)

lemma archive_second:
  assumes "listCredentials st = [archive_entry (Some (JStr ''A'')) True 5]"
  shows "registration_result key_quota (key_made ''B'') st =
    (put st ARCHIVE_KEY (JArr [archive_entry (Some (JStr ''A'')) True 5, archive_entry (Some (JStr ''B'')) True 5]), Inr \<lparr>rg_id = Some (JStr ''B''), rg_prf = True\<rparr>)"
  using assms by (simp add: registration_result_def key_made_def archive_def writeJson_cases get_prop_def archive_entry_def opt_field_def strict_eq_def)

lemma wake_root:
  assumes "getPrfRootId st = r"
  shows "\<exists>st'. go_on key_quota PrfRoot (Inr \<lparr>rg_id = Some (JStr (c # i)), rg_prf = True\<rparr>) st = (st', Inr (Some (JStr (c # i)))) \<and>
    getPrfRootId st' = (if js_truthy r then r else Some (JStr (c # i)))"
  using adopt_root [of key_quota "\<lparr>rg_id = Some (JStr (c # i)), rg_prf = True\<rparr>" _ st] assms
  by (simp add: accepts_def stored_id_written js_truthy_def)

text \<open>In one tab both wait for one registration, and both return its passkey, which is the root.\<close>

lemma one_tab_run:
  "\<exists>s. (passkey_step (\<lambda>t. t = 0) key_quota)\<^sup>*\<^sup>* (idle Map.empty) s \<and>
     cs_calls s = [root_call 0 (Done (Inr (Some (JStr ''A'')))), root_call 0 (Done (Inr (Some (JStr ''A''))))]"
proof -
  let ?step = "passkey_step (\<lambda>t. t = 0) key_quota"
  obtain s where s: "?step\<^sup>*\<^sup>* (idle Map.empty) s" "cs_store s = Map.empty" "cs_flight s 0" "cs_calls s = [root_call 0 Waiting, root_call 0 Waiting]"
    using two_calls_wait [of "\<lambda>t. t = 0" 0 0 key_quota] by auto
  let ?s1 = "end_registration key_quota 0 (key_made ''A'') s"
  have 1: "?step s ?s1" "cs_calls ?s1 = [root_call 0 (woken_with ''A''), root_call 0 (woken_with ''A'')]"
    using s passkey_step.registration_ends [of s 0 "\<lambda>t. t = 0" key_quota "key_made ''A''"]
    by (simp_all add: end_registration_def archive_first woken_by_def root_call_def woken_with_def)
  let ?r = "Inr \<lparr>rg_id = Some (JStr ''A''), rg_prf = True\<rparr>"
  let ?s2 = "wake_call key_quota 0 ?r ?s1"
  have 2: "?step ?s1 ?s2" "cs_calls ?s2 = [root_call 0 (Done (Inr (Some (JStr ''A'')))), root_call 0 (woken_with ''A'')]"
    using 1(2) passkey_step.call_goes_on [of 0 ?s1 ?r "\<lambda>t. t = 0" key_quota]
    by (simp_all add: wake_call_def root_call_def woken_with_def)
  have 3: "?step ?s2 (wake_call key_quota 1 ?r ?s2)"
    "cs_calls (wake_call key_quota 1 ?r ?s2) = [root_call 0 (Done (Inr (Some (JStr ''A'')))), root_call 0 (Done (Inr (Some (JStr ''A''))))]"
    using 2(2) passkey_step.call_goes_on [of 1 ?s2 ?r "\<lambda>t. t = 0" key_quota]
    by (simp_all add: wake_call_def root_call_def woken_with_def)
  show ?thesis using s(1) 1(1) 2(1) 3 by (meson rtranclp.rtrancl_into_rtrancl)
qed

theorem overlapping_calls_safe_witness:
  "\<exists>s. (passkey_step (\<lambda>t. t = 0) key_quota)\<^sup>*\<^sup>* (idle Map.empty) s \<and> Some (JStr ''A'') \<in> known_ids (cs_store s)"
proof -
  obtain s where s: "(passkey_step (\<lambda>t. t = 0) key_quota)\<^sup>*\<^sup>* (idle Map.empty) s"
      "cs_calls s = [root_call 0 (Done (Inr (Some (JStr ''A'')))), root_call 0 (Done (Inr (Some (JStr ''A''))))]"
    using one_tab_run by auto
  from overlapping_calls_safe [OF s(1) empty_ids(3)] s show ?thesis by (auto simp: accepts_def root_call_def)
qed

theorem one_tab_one_root_witness:
  "\<exists>s. (passkey_step (\<lambda>t. t = 0) key_quota)\<^sup>*\<^sup>* (idle Map.empty) s \<and> getPrfRootId (cs_store s) = Some (JStr ''A'')"
proof -
  obtain s where s: "(passkey_step (\<lambda>t. t = 0) key_quota)\<^sup>*\<^sup>* (idle Map.empty) s"
      "cs_calls s = [root_call 0 (Done (Inr (Some (JStr ''A'')))), root_call 0 (Done (Inr (Some (JStr ''A''))))]"
    using one_tab_run by auto
  have "getPrfRootId (cs_store s) = Some (JStr ''A'')"
    by (rule one_tab_one_root [OF s(1)]) (simp_all add: accepts_def s(2) root_call_def js_truthy_def)
  then show ?thesis using s(1) by blast
qed

text \<open>
  Two tabs do not share the flight. Both register, and the second call returns its own passkey though the other's is the root: a
  lane made with it keeps that identifier, and claims with it.
\<close>

lemma two_tabs_two_keys:
  "\<exists>s. (passkey_step (\<lambda>t. t < 2) key_quota)\<^sup>*\<^sup>* (idle Map.empty) s \<and> getPrfRootId (cs_store s) = Some (JStr ''A'') \<and>
     cs_calls s ! 1 = root_call 1 (Done (Inr (Some (JStr ''B''))))"
proof -
  let ?step = "passkey_step (\<lambda>t. t < 2) key_quota"
  let ?r = "\<lambda>i. Inr \<lparr>rg_id = Some (JStr i), rg_prf = True\<rparr>"
  obtain s where s: "?step\<^sup>*\<^sup>* (idle Map.empty) s" "cs_store s = Map.empty" "cs_flight s 0" "cs_flight s 1"
      "cs_calls s = [root_call 0 Waiting, root_call 1 Waiting]"
    using two_calls_wait [of "\<lambda>t. t < 2" 0 1 key_quota] by auto
  let ?A = "archive_entry (Some (JStr ''A'')) True 5" and ?B = "archive_entry (Some (JStr ''B'')) True 5"
  define s1 where "s1 = end_registration key_quota 0 (key_made ''A'') s"
  have 1: "?step s s1" "cs_calls s1 = [root_call 0 (woken_with ''A''), root_call 1 Waiting]" "cs_flight s1 1"
      "cs_store s1 = put Map.empty ARCHIVE_KEY (JArr [?A])"
    using s passkey_step.registration_ends [of s 0 "\<lambda>t. t < 2" key_quota "key_made ''A''"]
    by (simp_all add: s1_def end_registration_def archive_first woken_by_def root_call_def woken_with_def)
  define s2 where "s2 = end_registration key_quota 1 (key_made ''B'') s1"
  have 2: "?step s1 s2" "cs_calls s2 = [root_call 0 (woken_with ''A''), root_call 1 (woken_with ''B'')]"
      "cs_store s2 = put (cs_store s1) ARCHIVE_KEY (JArr [?A, ?B])"
    using 1 passkey_step.registration_ends [of s1 1 "\<lambda>t. t < 2" key_quota "key_made ''B''"] archive_second [of "cs_store s1"]
    by (simp_all add: s2_def end_registration_def woken_by_def root_call_def woken_with_def)
  have "\<not> js_truthy (getPrfRootId (cs_store s2))" using empty_ids(1) by (simp add: 1(4) 2(3) getPrfRootId_def)
  then obtain st3 where 3: "go_on key_quota PrfRoot (?r ''A'') (cs_store s2) = (st3, Inr (Some (JStr ''A'')))" "getPrfRootId st3 = Some (JStr ''A'')"
    using wake_root [OF refl, where st = "cs_store s2" and c = "CHR ''A''" and i = "[]"] by auto
  obtain st4 where 4: "go_on key_quota PrfRoot (?r ''B'') st3 = (st4, Inr (Some (JStr ''B'')))" "getPrfRootId st4 = Some (JStr ''A'')"
    using wake_root [OF 3(2), where c = "CHR ''B''" and i = "[]"] by (auto simp: js_truthy_def)
  define s3 where "s3 = wake_call key_quota 0 (?r ''A'') s2"
  have s3: "?step s2 s3" "cs_store s3 = st3" "cs_calls s3 = [root_call 0 (Done (Inr (Some (JStr ''A'')))), root_call 1 (woken_with ''B'')]"
    using 2(2) 3(1) passkey_step.call_goes_on [of 0 s2 "?r ''A''" "\<lambda>t. t < 2" key_quota]
    by (simp_all add: s3_def wake_call_def root_call_def woken_with_def del: go_on.simps)
  have "?step s3 (wake_call key_quota 1 (?r ''B'') s3)"
    using s3(3) by (intro passkey_step.call_goes_on) (simp_all add: root_call_def woken_with_def)
  moreover have "cs_store (wake_call key_quota 1 (?r ''B'') s3) = st4" "cs_calls (wake_call key_quota 1 (?r ''B'') s3) ! 1 = root_call 1 (Done (Inr (Some (JStr ''B''))))"
    using s3(2,3) 4(1) by (simp_all add: wake_call_def root_call_def woken_with_def del: go_on.simps)
  ultimately show ?thesis using s(1) 1(1) 2(1) s3(1) 4(2) by (meson rtranclp.rtrancl_into_rtrancl)
qed

end
