(* ===== verification/Html.thy ===== *)
theory Html
  imports Ui Json Store
begin

text \<open>
  The markup the pages write with \<open>innerHTML\<close>: a reader of HTML text, what it makes of markup whose data went through
  \<open>escapeHtml\<close>, and \<open>chainIcon\<close> of \<open>scripts/chains.js\<close>. A renderer of a page is a text, put together as its template
  literal is; the lemmas of the pages say which elements a browser finds in it. Characters outside ASCII stand for
  their UTF-8 bytes.
\<close>

section \<open>Reading markup\<close>

text \<open>A tag is kept as it is written between its brackets; a text is what its references stand for.\<close>

datatype node = Tag string | Text string

function (sequential) read_html :: "string \<Rightarrow> node list" where
  "read_html [] = []"
| "read_html (c # s) =
     (if c = CHR ''<'' then Tag (takeWhile (\<lambda>x. x \<noteq> CHR ''>'') s) # read_html (drop 1 (dropWhile (\<lambda>x. x \<noteq> CHR ''>'') s))
      else Text (unescape (c # takeWhile (\<lambda>x. x \<noteq> CHR ''<'') s)) # read_html (dropWhile (\<lambda>x. x \<noteq> CHR ''<'') s))"
  by pat_completeness auto
termination
  by (relation "measure length")
    (auto simp: less_Suc_eq_le length_dropWhile_le intro: le_trans [OF diff_le_self length_dropWhile_le])

fun write_node :: "node \<Rightarrow> string" where
  "write_node (Tag t) = ''<'' @ t @ ''>''"
| "write_node (Text s) = escapeHtml s"

definition write_html :: "node list \<Rightarrow> string" where
  "write_html ns = concat (map write_node ns)"

text \<open>Adjacent texts are one text to the reader, and an empty one is none.\<close>

definition add_text :: "string \<Rightarrow> node list \<Rightarrow> node list" where
  "add_text s ns = (case ns of Text s' # r \<Rightarrow> Text (s @ s') # r | _ \<Rightarrow> if s = [] then ns else Text s # ns)"

fun tidy :: "node list \<Rightarrow> node list" where
  "tidy [] = []"
| "tidy (Tag t # ns) = Tag t # tidy ns"
| "tidy (Text s # ns) = add_text s (tidy ns)"

fun tags_closed :: "node list \<Rightarrow> bool" where
  "tags_closed [] = True"
| "tags_closed (Tag t # ns) \<longleftrightarrow> CHR ''>'' \<notin> set t \<and> tags_closed ns"
| "tags_closed (Text s # ns) \<longleftrightarrow> tags_closed ns"

lemma escapeHtml_append [simp]: "escapeHtml (a @ b) = escapeHtml a @ escapeHtml b"
  by (simp add: escapeHtml_def)

lemma escapeHtml_Nil [simp]: "escapeHtml [] = []"
  by (simp add: escapeHtml_def)

lemma escapeHtml_Cons: "escapeHtml (c # s) = escape_char c @ escapeHtml s"
  by (simp add: escapeHtml_def)

lemma unescape_append: "unescape (escapeHtml s @ t) = s @ unescape t"
  by (induction s) (simp_all add: escapeHtml_Cons unescape_escape_char del: unescape.simps(2))

lemma escapeHtml_no_bracket: "CHR ''<'' \<notin> set (escapeHtml s)" "CHR ''>'' \<notin> set (escapeHtml s)"
  using escapeHtml_safe [of s] by blast+

lemma escapeHtml_eq_Nil [simp]: "escapeHtml s = [] \<longleftrightarrow> s = []"
  using escapeHtml_safe [of s "[]"] by simp

lemma read_html_text:
  assumes "CHR ''<'' \<notin> set s" "s \<noteq> []"
  shows "read_html (s @ w) = Text (unescape (s @ takeWhile (\<lambda>x. x \<noteq> CHR ''<'') w)) # read_html (dropWhile (\<lambda>x. x \<noteq> CHR ''<'') w)"
proof -
  obtain c r where s: "s = c # r" using assms(2) by (cases s) auto
  have "CHR ''<'' \<notin> set r" using assms(1) s by simp
  then have "takeWhile (\<lambda>x. x \<noteq> CHR ''<'') (r @ w) = r @ takeWhile (\<lambda>x. x \<noteq> CHR ''<'') w \<and>
    dropWhile (\<lambda>x. x \<noteq> CHR ''<'') (r @ w) = dropWhile (\<lambda>x. x \<noteq> CHR ''<'') w"
    by (induction r) auto
  moreover have "c \<noteq> CHR ''<''" using assms(1) s by auto
  ultimately show ?thesis using s by simp
qed

lemma read_html_first: "w = [] \<or> hd w = CHR ''<'' \<Longrightarrow> read_html w = [] \<or> (\<exists>t r. read_html w = Tag t # r)"
  by (cases w) auto

text \<open>The reader finds the elements that were written, and the texts unchanged.\<close>

lemma read_write: "tags_closed ns \<Longrightarrow> read_html (write_html ns) = tidy ns"
proof (induction ns rule: tidy.induct)
  case 1
  then show ?case by (simp add: write_html_def)
next
  case (2 t ns)
  have t: "takeWhile (\<lambda>x. x \<noteq> CHR ''>'') (t @ CHR ''>'' # w) = t" "dropWhile (\<lambda>x. x \<noteq> CHR ''>'') (t @ CHR ''>'' # w) = CHR ''>'' # w" for w
    using 2(2) by (induction t) auto
  then show ?case using 2 by (simp add: write_html_def)
next
  case (3 s ns)
  let ?w = "write_html ns"
  have IH: "read_html ?w = tidy ns" using 3 by simp
  have w: "write_html (Text s # ns) = escapeHtml s @ ?w" by (simp add: write_html_def)
  show ?case
  proof (cases "s = []")
    case True
    then show ?thesis using IH w by (auto simp: add_text_def split: list.splits node.splits)
  next
    case False
    note r = read_html_text [OF escapeHtml_no_bracket(1) , of s ?w]
    show ?thesis
    proof (cases "?w = [] \<or> hd ?w = CHR ''<''")
      case True
      then have tw: "takeWhile (\<lambda>x. x \<noteq> CHR ''<'') ?w = []" "dropWhile (\<lambda>x. x \<noteq> CHR ''<'') ?w = ?w" by (cases ?w; auto)+
      have "tidy ns = [] \<or> (\<exists>t r. tidy ns = Tag t # r)" using read_html_first [OF True] IH by simp
      then have "add_text s (tidy ns) = Text s # tidy ns" using False by (auto simp: add_text_def)
      then show ?thesis using w r False IH by (simp add: tw)
    next
      case other: False
      then obtain c w' where c: "?w = c # w'" "c \<noteq> CHR ''<''" by (cases ?w) auto
      have "CHR ''<'' \<notin> set [c]" using c(2) by simp
      from read_html_text [OF this, of w'] c have "tidy ns = Text (unescape (takeWhile (\<lambda>x. x \<noteq> CHR ''<'') ?w)) # read_html (dropWhile (\<lambda>x. x \<noteq> CHR ''<'') ?w)"
        using IH by simp
      then show ?thesis using w r False by (simp add: add_text_def unescape_append)
    qed
  qed
qed

lemma write_html_simps [simp]:
  "write_html [] = []" "write_html (n # ns) = write_node n @ write_html ns" "write_html (ms @ ns) = write_html ms @ write_html ns"
  by (simp_all add: write_html_def)

lemma write_html_concat: "write_html (concat nss) = concat (map write_html nss)"
  by (induction nss) simp_all

lemma tags_closed_append [simp]: "tags_closed (ms @ ns) \<longleftrightarrow> tags_closed ms \<and> tags_closed ns"
  by (induction ms rule: tags_closed.induct) auto

lemma tags_closed_concat: "tags_closed (concat nss) \<longleftrightarrow> (\<forall>ns \<in> set nss. tags_closed ns)"
  by (induction nss) simp_all

text \<open>The elements alone, without the texts: what data can never change.\<close>

fun tags_of :: "node list \<Rightarrow> string list" where
  "tags_of [] = []"
| "tags_of (Tag t # ns) = t # tags_of ns"
| "tags_of (Text s # ns) = tags_of ns"

lemma tags_of_append [simp]: "tags_of (ms @ ns) = tags_of ms @ tags_of ns"
  by (induction ms rule: tags_of.induct) auto

lemma tags_of_tidy [simp]: "tags_of (tidy ns) = tags_of ns"
  by (induction ns rule: tidy.induct) (auto simp: add_text_def split: list.splits node.splits)

section \<open>The interface of a template\<close>

text \<open>
  A template writes markup for a value, and its elements are known: \<open>nodes\<close> says which tags it has and where the data
  stands as text. Then a browser finds these elements, in one row and in a list of rows, whatever the data is.
\<close>

locale template =
  fixes html :: "'a \<Rightarrow> string" and nodes :: "'a \<Rightarrow> node list"
  assumes written: "html x = write_html (nodes x)"
    and closed: "tags_closed (nodes x)"
begin

lemma reads: "read_html (html x) = tidy (nodes x)"
  by (simp add: written closed read_write)

lemma rows_written: "concat (map html xs) = write_html (concat (map nodes xs))"
  by (induction xs) (simp_all add: written)

lemma rows_closed: "tags_closed (concat (map nodes xs))"
  by (auto simp: tags_closed_concat closed)

lemma rows_read: "read_html (concat (map html xs)) = tidy (concat (map nodes xs))"
  by (simp add: rows_written rows_closed read_write)

lemma elements: "tags_of (read_html (html x)) = tags_of (nodes x)"
  by (simp add: reads)

end

section \<open>Pieces of the templates\<close>

definition nl :: "nat \<Rightarrow> string" where
  "nl n = CHR 0x0A # replicate n CHR '' ''"

definition ELLIPSIS :: string where "ELLIPSIS = [CHR 0xE2, CHR 0x80, CHR 0xA6]"
definition MIDDOT :: string where "MIDDOT = [CHR 0xC2, CHR 0xB7]"
definition DASH :: string where "DASH = [CHR 0xE2, CHR 0x80, CHR 0x94]"
definition LINK_SIGN :: string where "LINK_SIGN = [CHR 0xF0, CHR 0x9F, CHR 0x94, CHR 0x97]"
definition CHECK_SIGN :: string where "CHECK_SIGN = [CHR 0xE2, CHR 0x9C, CHR 0x93]"
definition ARROW :: string where "ARROW = [CHR 0xE2, CHR 0x86, CHR 0x92]"
definition TIMES_SIGN :: string where "TIMES_SIGN = [CHR 0xC3, CHR 0x97]"

lemma escape_plain: "list_all (\<lambda>c. escape_char c = [c]) s \<Longrightarrow> escapeHtml s = s"
  by (induction s) (simp_all add: escapeHtml_Cons)

lemma escape_nl [simp]: "escapeHtml (nl n) = nl n"
  by (rule escape_plain) (simp add: nl_def list_all_iff escape_char_def)

lemma nat_string_plain: "escapeHtml (nat_string 10 n) = nat_string 10 n"
proof (rule escape_plain)
  have "escape_char c = [c]" if "is_digit c" for c
    using that unfolding escape_char_def by (auto simp: is_digit_def in_range_def code_def)
  then show "list_all (\<lambda>c. escape_char c = [c]) (nat_string 10 n)"
    using digits_nat_string10 [of n] by (auto simp: list_all_iff)
qed

lemma nat_string_no_bracket: "CHR ''>'' \<notin> set (nat_string 10 n)"
  using escapeHtml_no_bracket(2) [of "nat_string 10 n"] by (simp add: nat_string_plain)

lemma escape_signs [simp]:
  "escapeHtml ELLIPSIS = ELLIPSIS" "escapeHtml MIDDOT = MIDDOT" "escapeHtml DASH = DASH" "escapeHtml LINK_SIGN = LINK_SIGN"
  "escapeHtml CHECK_SIGN = CHECK_SIGN" "escapeHtml ARROW = ARROW" "escapeHtml TIMES_SIGN = TIMES_SIGN"
  by (simp_all add: escape_plain escape_char_def ELLIPSIS_def MIDDOT_def DASH_def LINK_SIGN_def CHECK_SIGN_def ARROW_def TIMES_SIGN_def)

definition short :: "string \<Rightarrow> string" where
  "short v = short_text ELLIPSIS v"

text \<open>\<open>formatUsdc\<close> of a value of the storage, which need not be a text.\<close>

definition usdc_json :: "json option \<Rightarrow> string" where
  "usdc_json v = (case v of
      None \<Rightarrow> formatUsdc ''0'' 2
    | Some JNull \<Rightarrow> formatUsdc ''0'' 2
    | Some (JBool b) \<Rightarrow> formatUsdc (if b then ''1'' else ''0'') 2
    | Some x \<Rightarrow> formatUsdc (js_String x) 2)"

definition label_json :: "json option \<Rightarrow> string" where
  "label_json v = (case chain_json v of Some c \<Rightarrow> ch_name c | None \<Rightarrow> coerce v)"

section \<open>The icon of a chain\<close>

definition svg_open :: "nat \<Rightarrow> string" where
  \<open>svg_open n = ''<svg viewBox="0 0 42 42" width="'' @ nat_string 10 n @ ''" height="'' @ nat_string 10 n @ ''" aria-hidden="true">''\<close>

definition icon_letter :: "string \<Rightarrow> string" where
  "icon_letter k = map (\<lambda>c. if is_upper c \<or> c = CHR ''?'' then c else CHR ''?'')
     (to_upper (case chainLabel k of [] \<Rightarrow> ''?'' | c # s \<Rightarrow> [c]))"

definition chainIcon :: "string \<Rightarrow> nat \<Rightarrow> string" where
  \<open>chainIcon key n =
     (let k = wire key in
      if k = ''BASE'' then svg_open n @ ''<circle cx="21" cy="21" r="21" fill="#0052ff"/>'' @
        ''<path d="M21 32.8c6.52 0 11.8-5.28 11.8-11.8S27.52 9.2 21 9.2c-5.82 0-10.66 4.21-11.62 9.75h15.2v4.1H9.38C10.34 28.59 15.18 32.8 21 32.8Z" fill="#fff"/></svg>''
      else if k = ''STARKNET'' then svg_open n @ ''<circle cx="21" cy="21" r="21" fill="#0c0c4d"/>'' @
        ''<path d="M21 8 32 21 21 34 10 21 21 8Z" fill="#ec796b"/></svg>''
      else if k = ''SOLANA'' then svg_open n @ ''<circle cx="21" cy="21" r="21" fill="#000"/>'' @
        ''<path d="M15 11h18l-3 5H12z" fill="#14f195"/><path d="M12 18h18l3 5H15z" fill="#00c2ff"/><path d="M15 25h18l-3 5H12z" fill="#9945ff"/></svg>''
      else svg_open n @ ''<circle cx="21" cy="21" r="21" fill="#64748b"/>'' @
        ''<text x="21" y="27" text-anchor="middle" font-size="18" fill="#fff" font-family="sans-serif">'' @ icon_letter k @ ''</text></svg>'')\<close>

definition icon_nodes :: "string \<Rightarrow> node list" where
  \<open>icon_nodes key =
     (let k = wire key in
      Tag ''svg viewBox="0 0 42 42" width="24" height="24" aria-hidden="true"'' #
      (if k = ''BASE'' then [Tag ''circle cx="21" cy="21" r="21" fill="#0052ff"/'',
        Tag ''path d="M21 32.8c6.52 0 11.8-5.28 11.8-11.8S27.52 9.2 21 9.2c-5.82 0-10.66 4.21-11.62 9.75h15.2v4.1H9.38C10.34 28.59 15.18 32.8 21 32.8Z" fill="#fff"/'']
      else if k = ''STARKNET'' then [Tag ''circle cx="21" cy="21" r="21" fill="#0c0c4d"/'',
        Tag ''path d="M21 8 32 21 21 34 10 21 21 8Z" fill="#ec796b"/'']
      else if k = ''SOLANA'' then [Tag ''circle cx="21" cy="21" r="21" fill="#000"/'', Tag ''path d="M15 11h18l-3 5H12z" fill="#14f195"/'',
        Tag ''path d="M12 18h18l3 5H15z" fill="#00c2ff"/'', Tag ''path d="M15 25h18l-3 5H12z" fill="#9945ff"/'']
      else [Tag ''circle cx="21" cy="21" r="21" fill="#64748b"/'',
        Tag ''text x="21" y="27" text-anchor="middle" font-size="18" fill="#fff" font-family="sans-serif"'', Text (icon_letter k), Tag ''/text''])
      @ [Tag ''/svg''])\<close>

lemma escape_icon_letter: "escapeHtml (icon_letter k) = icon_letter k"
proof (rule escape_plain)
  have u: "escape_char c = [c]" if "is_upper c \<or> c = CHR ''?''" for c
    using that unfolding escape_char_def by (auto simp: is_upper_def in_range_def code_def)
  have "is_upper c \<or> c = CHR ''?''" if "c \<in> set (icon_letter k)" for c
    using that by (auto simp: icon_letter_def split: if_splits)
  then show "list_all (\<lambda>c. escape_char c = [c]) (icon_letter k)"
    using u by (auto simp: list_all_iff)
qed

lemma nat_string_24: "nat_string 10 24 = ''24''"
  by code_simp

lemma chainIcon_nodes: "chainIcon key 24 = write_html (icon_nodes key)"
  by (simp add: chainIcon_def icon_nodes_def svg_open_def nat_string_24 escape_icon_letter Let_def)

interpretation icon: template "\<lambda>key. chainIcon key 24" icon_nodes
  by unfold_locales (simp_all add: chainIcon_nodes, simp add: icon_nodes_def Let_def)

declare icon.closed [simp]

end
