(* ===== verification/Merchant_View.thy ===== *)
theory Merchant_View
  imports Merchant_Page Stealth_Page Html
begin

text \<open>
  What the merchant's page draws: the lane list, the history with its panel and chain menu, the toasts of
  \<open>scripts/ui.js\<close> and the events of \<open>scripts/beanie.js\<close> that change them. Markup is text, as the page builds it;
  \<open>date\<close> is the browser's text of a time. The lemmas say what elements a browser finds in the markup.
\<close>

section \<open>Toasts\<close>

text \<open>Every text of a toast is set with \<open>textContent\<close>.\<close>

record toast =
  ts_class :: string
  ts_icon :: string
  ts_title :: string
  ts_body :: "string option"

definition notify :: "bool \<Rightarrow> string \<Rightarrow> string \<Rightarrow> string \<Rightarrow> toast list \<Rightarrow> toast list" where
  "notify stack title tone detail toasts =
     (if \<not> stack then toasts
      else toasts @ [\<lparr>ts_class = ''live-toast '' @ tone,
        ts_icon = (if tone = ''success'' then CHECK_SIGN else if tone = ''error'' then ''!'' else ''i''),
        ts_title = title, ts_body = (if detail = [] then None else Some detail)\<rparr>])"

definition copyText :: "bool \<Rightarrow> bool \<Rightarrow> string \<Rightarrow> toast list \<Rightarrow> bool \<times> toast list" where
  "copyText stack written okMessage toasts =
     (if written then (True, notify stack okMessage ''success'' [] toasts) else (False, notify stack ''Copy failed'' ''error'' [] toasts))"

text \<open>A file handed to the browser for download; \<open>day\<close> is the date of today.\<close>

record download =
  dl_name :: string
  dl_type :: string
  dl_content :: json

definition downloadText :: "string \<Rightarrow> json \<Rightarrow> download" where
  "downloadText filename content = \<lparr>dl_name = filename, dl_type = ''application/json'', dl_content = content\<rparr>"

definition export_click :: "string \<Rightarrow> int \<Rightarrow> storage \<Rightarrow> download" where
  "export_click day now st = downloadText (''beanie-backup-'' @ day @ ''.json'') (exportBackup now st)"

section \<open>The lane list\<close>

definition first_of :: "json option \<Rightarrow> json option \<Rightarrow> json option" where
  "first_of a b = (if js_truthy a then a else b)"

definition lane_label :: "json \<Rightarrow> string" where
  "lane_label lane =
     (if js_truthy (opt_prop (Some lane) ''privacy'') then ''Private lane''
      else short (coerce (first_of (opt_prop (Some lane) ''merchantAddress'') (opt_prop (Some lane) ''targetRecipient''))))"

definition lane_facts :: "json \<Rightarrow> string" where
  "lane_facts lane =
     (if js_truthy (opt_prop (Some lane) ''privacy'') then '' '' @ MIDDOT @ '' private'' else []) @ '' '' @ MIDDOT @ '' '' @
     nat_string 10 (length (lane_receivers lane)) @ '' networks'' @
     (if js_truthy (opt_prop (Some lane) ''needsVerify'') then '' '' @ MIDDOT @ '' unverified'' else [])"

definition lane_row_html :: "json \<Rightarrow> string" where
  \<open>lane_row_html lane =
     nl 6 @ ''<span class="mini-icon">'' @ chainIcon (wire_json (opt_prop (Some lane) ''targetChain'')) 24 @ ''</span>'' @
     nl 6 @ ''<span>'' @
     nl 8 @ ''<div>'' @ escapeHtml (lane_label lane) @ ''</div>'' @
     nl 8 @ ''<div class="mono">settles on '' @ escapeHtml (label_json (opt_prop (Some lane) ''targetChain'')) @ lane_facts lane @ ''</div>'' @
     nl 6 @ ''</span>''\<close>

text \<open>What follows a lane's markup in its row: a button that verifies it, or its link with a button that copies it.\<close>

datatype lane_action = VerifyButton | PayLink search

record lane_view =
  lv_html :: string
  lv_action :: lane_action

definition lane_row :: "json \<Rightarrow> lane_view" where
  "lane_row lane = \<lparr>lv_html = lane_row_html lane,
     lv_action = (if js_truthy (opt_prop (Some lane) ''needsVerify'') then VerifyButton else PayLink (laneShareUrl lane))\<rparr>"

record lane_list =
  ll_subtitle :: string
  ll_empty :: string
  ll_rows :: "lane_view list"

definition plural :: "nat \<Rightarrow> bool \<Rightarrow> string" where
  "plural n many = nat_string 10 n @ '' lane'' @ (if many then ''s'' else [])"

definition renderLanes :: "storage \<Rightarrow> lane_list" where
  \<open>renderLanes st =
     (let ls = getLanes st; n = length ls in
      \<lparr>ll_subtitle = (if n \<noteq> 0 then plural n (1 < n) else ''No lanes yet''),
       ll_empty = (if n \<noteq> 0 then [] else ''<p class="receiver-empty">No lanes yet '' @ DASH @ '' create a payment lane to see it here.</p>''),
       ll_rows = map lane_row ls\<rparr>)\<close>

text \<open>A click on \<open>Verify\<close>: the check, its toast, and the list drawn again.\<close>

definition verify_click :: "'w site \<Rightarrow> bool \<Rightarrow> json \<Rightarrow> toast list \<Rightarrow> 'w sys \<Rightarrow> toast list \<times> lane_list \<times> 'w sys" where
  "verify_click site stack lane toasts s =
     (case verifyLane site lane s of
        (Inl e, s') \<Rightarrow> (notify stack ''Verification failed'' ''error'' (describeError (caught_of e)) toasts, renderLanes (fst s'), s')
      | (Inr x, s') \<Rightarrow> (notify stack ''Lane verified'' ''success'' ''Addresses match the on-chain factory.'' toasts, renderLanes (fst s'), s'))"

section \<open>The history\<close>

definition chain_scope :: "string \<Rightarrow> string" where
  "chain_scope chain = (if chain = ''ALL'' then ''all chains'' else chainLabel chain)"

definition chain_name :: "string \<Rightarrow> string" where
  "chain_name chain = (if chain = ''ALL'' then ''All chains'' else chainLabel chain)"

definition chain_sign :: "string \<Rightarrow> string" where
  "chain_sign chain = (if chain = ''ALL'' then LINK_SIGN else chainIcon chain 24)"

definition menu_option :: "string \<Rightarrow> string \<Rightarrow> string" where
  \<open>menu_option chosen key =
     nl 4 @ ''<button class="history-chain-option" type="button" data-chain="'' @ escapeHtml key @ ''" aria-selected="'' @
       (if key = chosen then ''true'' else ''false'') @ ''">'' @
     nl 6 @ ''<span class="mini-icon">'' @ chain_sign key @ ''</span>'' @
     nl 6 @ ''<span>'' @ (if key = ''ALL'' then ''All chains'' else escapeHtml (chainLabel key)) @ ''</span>'' @
     nl 4 @ ''</button>''\<close>

definition renderChainMenu :: "string \<Rightarrow> string" where
  "renderChainMenu chosen = concat (map (menu_option chosen) (''ALL'' # CHAIN_KEYS))"

definition history_panel :: "string \<Rightarrow> int \<Rightarrow> string" where
  \<open>history_panel scope atoms =
     nl 6 @ ''<div class="balance-card"><div>'' @
     nl 8 @ ''<span class="balance-label">Total received on '' @ escapeHtml scope @ ''</span>'' @
     nl 8 @ ''<div class="balance-value">'' @ escapeHtml (formatUsdc (int_string 10 atoms) 2) @ '' USDC</div>'' @
     nl 6 @ ''</div></div>''\<close>

definition history_row :: "(json option \<Rightarrow> string) \<Rightarrow> json \<Rightarrow> string" where
  \<open>history_row date r =
     nl 8 @ ''<div class="history-row">'' @
     nl 10 @ ''<span class="mini-icon">'' @ chainIcon (wire_json (opt_prop (Some r) ''chain'')) 24 @ ''</span>'' @
     nl 10 @ ''<span class="mono">'' @ escapeHtml (short (coerce (opt_prop (Some r) ''address''))) @ ''</span>'' @
     nl 10 @ ''<strong>'' @ escapeHtml (usdc_json (opt_prop (Some r) ''amount'')) @ '' USDC</strong>'' @
     nl 10 @ ''<span>'' @ escapeHtml (date (opt_prop (Some r) ''time'')) @ ''</span>'' @
     nl 8 @ ''</div>''\<close>

definition history_empty :: "string \<Rightarrow> string" where
  \<open>history_empty scope = ''<p class="history-empty">History is empty '' @ DASH @ '' no deposits detected yet on '' @ escapeHtml scope @ ''.</p>''\<close>

record history_view =
  hv_panel :: string
  hv_list :: string
  hv_subtitle :: string

definition renderHistory :: "(json option \<Rightarrow> string) \<Rightarrow> storage \<Rightarrow> string \<Rightarrow> history_view result" where
  "renderHistory date st chosen =
     (let rows = history_rows st chosen; scope = chain_scope chosen; n = length rows in
      then_do (history_total rows) (\<lambda>atoms. Inr
        \<lparr>hv_panel = history_panel scope atoms,
         hv_list = (if n \<noteq> 0 then concat (map (history_row date) rows) else history_empty scope),
         hv_subtitle = (if n \<noteq> 0 then nat_string 10 n @ '' deposit'' @ (if n = 1 then [] else ''s'') @ '' received'' else ''Nothing yet'')\<rparr>))"

section \<open>What the browser finds\<close>

lemmas html_simps = escapeHtml_Cons escape_char_def chainIcon_nodes nat_string_plain

text \<open>A row of the lane list, a row of the history and its panel, as elements with their texts.\<close>

definition lane_nodes :: "json \<Rightarrow> node list" where
  \<open>lane_nodes lane =
     [Text (nl 6), Tag ''span class="mini-icon"''] @ icon_nodes (wire_json (opt_prop (Some lane) ''targetChain'')) @ [Tag ''/span'',
      Text (nl 6), Tag ''span'',
      Text (nl 8), Tag ''div'', Text (lane_label lane), Tag ''/div'',
      Text (nl 8), Tag ''div class="mono"'', Text (''settles on '' @ label_json (opt_prop (Some lane) ''targetChain'') @ lane_facts lane), Tag ''/div'',
      Text (nl 6), Tag ''/span'']\<close>

definition history_nodes :: "(json option \<Rightarrow> string) \<Rightarrow> json \<Rightarrow> node list" where
  \<open>history_nodes date r =
     [Text (nl 8), Tag ''div class="history-row"'',
      Text (nl 10), Tag ''span class="mini-icon"''] @ icon_nodes (wire_json (opt_prop (Some r) ''chain'')) @ [Tag ''/span'',
      Text (nl 10), Tag ''span class="mono"'', Text (short (coerce (opt_prop (Some r) ''address''))), Tag ''/span'',
      Text (nl 10), Tag ''strong'', Text (usdc_json (opt_prop (Some r) ''amount'') @ '' USDC''), Tag ''/strong'',
      Text (nl 10), Tag ''span'', Text (date (opt_prop (Some r) ''time'')), Tag ''/span'',
      Text (nl 8), Tag ''/div'']\<close>

definition panel_nodes :: "string \<Rightarrow> int \<Rightarrow> node list" where
  \<open>panel_nodes scope atoms =
     [Text (nl 6), Tag ''div class="balance-card"'', Tag ''div'',
      Text (nl 8), Tag ''span class="balance-label"'', Text (''Total received on '' @ scope), Tag ''/span'',
      Text (nl 8), Tag ''div class="balance-value"'', Text (formatUsdc (int_string 10 atoms) 2 @ '' USDC''), Tag ''/div'',
      Text (nl 6), Tag ''/div'', Tag ''/div'']\<close>

definition empty_nodes :: "string \<Rightarrow> node list" where
  \<open>empty_nodes scope = [Tag ''p class="history-empty"'',
     Text (''History is empty '' @ DASH @ '' no deposits detected yet on '' @ scope @ ''.''), Tag ''/p'']\<close>

text \<open>An option of the chain menu; its key stands in an attribute, where the escaped text has no bracket or quote.\<close>

definition menu_nodes :: "string \<Rightarrow> string \<Rightarrow> node list" where
  \<open>menu_nodes chosen key =
     [Text (nl 4), Tag (''button class="history-chain-option" type="button" data-chain="'' @ escapeHtml key @ ''" aria-selected="'' @
        (if key = chosen then ''true'' else ''false'') @ ''"''),
      Text (nl 6), Tag ''span class="mini-icon"''] @ (if key = ''ALL'' then [Text LINK_SIGN] else icon_nodes key) @ [Tag ''/span'',
      Text (nl 6), Tag ''span'', Text (chain_name key), Tag ''/span'',
      Text (nl 4), Tag ''/button'']\<close>

interpretation menu: template "menu_option chosen" "menu_nodes chosen" for chosen
  using escapeHtml_no_bracket(2)
  by unfold_locales (auto simp: menu_option_def menu_nodes_def chain_sign_def chain_name_def html_simps)

lemma chain_menu_shows:
  "read_html (renderChainMenu chosen) = tidy (concat (map (menu_nodes chosen) (''ALL'' # CHAIN_KEYS)))"
  unfolding renderChainMenu_def by (rule menu.rows_read)

interpretation lane_row: template lane_row_html lane_nodes
  by unfold_locales (simp add: lane_row_html_def lane_nodes_def lane_facts_def html_simps, simp add: lane_nodes_def)

interpretation deposit_row: template "history_row date" "history_nodes date" for date
  by unfold_locales (simp_all add: history_row_def history_nodes_def html_simps)

interpretation panel: template "\<lambda>(scope, atoms). history_panel scope atoms" "\<lambda>(scope, atoms). panel_nodes scope atoms"
  by unfold_locales (auto simp: history_panel_def panel_nodes_def html_simps)

interpretation nothing_yet: template history_empty empty_nodes
  by unfold_locales (simp_all add: history_empty_def empty_nodes_def html_simps)

definition amount_of :: "json \<Rightarrow> int result" where
  "amount_of r = BigInt_or (opt_prop (Some r) ''amount'') ''0''"

definition amount_value :: "json \<Rightarrow> int" where
  "amount_value r = (case amount_of r of Inl e \<Rightarrow> 0 | Inr n \<Rightarrow> n)"

definition readable :: "json \<Rightarrow> bool" where
  "readable r = (case amount_of r of Inl e \<Rightarrow> False | Inr n \<Rightarrow> True)"

text \<open>The total is the sum of the amounts, when every amount is a number.\<close>

lemma history_total_sum:
  "history_total rows = Inr n \<longleftrightarrow> list_all readable rows \<and> n = sum_list (map amount_value rows)"
proof (induction rows arbitrary: n)
  case Nil
  then show ?case by (auto simp: history_total_def)
next
  case (Cons r rows)
  have one: "history_total [r] = amount_of r"
    by (cases "BigInt_or (opt_prop (Some r) ''amount'') ''0''") (simp_all add: history_total_def amount_of_def)
  have "history_total (r # rows) = then_do (amount_of r) (\<lambda>a. then_do (history_total rows) (\<lambda>b. Inr (a + b)))"
    using history_total_append [of "[r]" rows] by (simp add: one)
  then show ?case
    using Cons [of "projr (history_total rows)"] Cons [of "sum_list (map amount_value rows)"]
    by (cases "amount_of r"; cases "history_total rows") (auto simp: readable_def [of r] amount_value_def [of r])
qed

definition list_nodes :: "(json option \<Rightarrow> string) \<Rightarrow> string \<Rightarrow> json list \<Rightarrow> node list" where
  "list_nodes date scope rows = (if rows = [] then empty_nodes scope else concat (map (history_nodes date) rows))"

interpretation history_list: template "\<lambda>(scope, rows). if rows = [] then history_empty scope else concat (map (history_row date) rows)"
  "\<lambda>(scope, rows). list_nodes date scope rows" for date
  by unfold_locales
    (auto simp: list_nodes_def nothing_yet.written nothing_yet.closed deposit_row.rows_written deposit_row.rows_closed)

lemmas panel_closed = panel.closed [where x = "(scope, atoms)" for scope atoms, simplified]
lemmas list_closed = history_list.closed [where x = "(scope, rows)" for scope rows, simplified]

lemma renderHistory_cases:
  "renderHistory date st chosen = Inr v \<longleftrightarrow> list_all readable (history_rows st chosen) \<and>
     v = \<lparr>hv_panel = write_html (panel_nodes (chain_scope chosen) (sum_list (map amount_value (history_rows st chosen)))),
       hv_list = write_html (list_nodes date (chain_scope chosen) (history_rows st chosen)),
       hv_subtitle = (let n = length (history_rows st chosen) in
         if n \<noteq> 0 then nat_string 10 n @ '' deposit'' @ (if n = 1 then [] else ''s'') @ '' received'' else ''Nothing yet'')\<rparr>"
proof -
  have "renderHistory date st chosen = Inr v \<longleftrightarrow> (\<exists>n. history_total (history_rows st chosen) = Inr n \<and>
     v = \<lparr>hv_panel = write_html (panel_nodes (chain_scope chosen) n),
       hv_list = write_html (list_nodes date (chain_scope chosen) (history_rows st chosen)),
       hv_subtitle = (let n = length (history_rows st chosen) in
         if n \<noteq> 0 then nat_string 10 n @ '' deposit'' @ (if n = 1 then [] else ''s'') @ '' received'' else ''Nothing yet'')\<rparr>)"
    by (cases "history_total (history_rows st chosen)")
      (auto simp: renderHistory_def Let_def list_nodes_def nothing_yet.written deposit_row.rows_written
        panel.written [where x = "(scope, atoms)" for scope atoms, simplified])
  then show ?thesis unfolding history_total_sum by auto
qed


text \<open>
  What the lane list shows. There is one row for each stored lane, in order; the browser finds in it the fixed elements with the lane's
  label, settlement chain and facts as text. A lane that needs verification has a button to verify it and no
  link; every other one links to its own payment page.
\<close>

lemma lane_list_shows:
  "length (ll_rows (renderLanes st)) = length (getLanes st) \<and>
   list_all2 (\<lambda>row lane. read_html (lv_html row) = tidy (lane_nodes lane) \<and>
     lv_action row = (if js_truthy (opt_prop (Some lane) ''needsVerify'') then VerifyButton else PayLink (laneShareUrl lane)))
     (ll_rows (renderLanes st)) (getLanes st)"
  by (simp add: renderLanes_def Let_def list_all2_conv_all_nth lane_row_def lane_row.reads)

section \<open>The events of the page\<close>

record merchant_page =
  mp_chosen :: string
  mp_control :: "string \<times> string"
  mp_menu :: string
  mp_menu_open :: bool
  mp_modal_open :: bool
  mp_view :: "history_view option"
  mp_dot_hidden :: bool
  mp_toasts :: "toast list"
  mp_lanes :: lane_list
  mp_share_hidden :: bool

definition updateChainControl :: "merchant_page \<Rightarrow> merchant_page" where
  "updateChainControl pg = pg\<lparr>mp_control := (chain_sign (mp_chosen pg), chain_name (mp_chosen pg))\<rparr>"

definition draw_menu :: "merchant_page \<Rightarrow> merchant_page" where
  "draw_menu pg = pg\<lparr>mp_menu := renderChainMenu (mp_chosen pg)\<rparr>"

definition draw_history :: "(json option \<Rightarrow> string) \<Rightarrow> storage \<Rightarrow> merchant_page \<Rightarrow> merchant_page \<times> unit result" where
  "draw_history date st pg =
     (case renderHistory date st (mp_chosen pg) of
        Inl e \<Rightarrow> (pg, Inl e)
      | Inr v \<Rightarrow> (pg\<lparr>mp_view := Some v\<rparr>, Inr ()))"

definition notifyDot :: "storage \<Rightarrow> merchant_page \<Rightarrow> merchant_page" where
  "notifyDot st pg = pg\<lparr>mp_dot_hidden := (unseenCount st = 0)\<rparr>"

definition openHistory :: "quota \<Rightarrow> (json option \<Rightarrow> string) \<Rightarrow> int \<Rightarrow> merchant_page \<times> storage \<Rightarrow> merchant_page \<times> storage" where
  "openHistory quota date now s =
     (case draw_history date (snd s) (draw_menu (updateChainControl (fst s))) of
        (pg, Inl e) \<Rightarrow> (pg, snd s)
      | (pg, Inr u) \<Rightarrow>
          let st = markSeen quota now (snd s) in (notifyDot st (pg\<lparr>mp_modal_open := True\<rparr>), st))"

definition choose_chain :: "(json option \<Rightarrow> string) \<Rightarrow> storage \<Rightarrow> string \<Rightarrow> merchant_page \<Rightarrow> merchant_page" where
  "choose_chain date st key pg =
     fst (draw_history date st ((draw_menu (updateChainControl (pg\<lparr>mp_chosen := key\<rparr>)))\<lparr>mp_menu_open := False\<rparr>))"

definition toggle_menu :: "merchant_page \<Rightarrow> merchant_page" where
  "toggle_menu pg = (draw_menu pg)\<lparr>mp_menu_open := \<not> mp_menu_open pg\<rparr>"

definition click_outside :: "bool \<Rightarrow> merchant_page \<Rightarrow> merchant_page" where
  "click_outside in_menu pg = (if in_menu then pg else pg\<lparr>mp_menu_open := False\<rparr>)"

definition close_history :: "merchant_page \<Rightarrow> merchant_page" where
  "close_history pg = pg\<lparr>mp_modal_open := False\<rparr>"

definition deposit_found :: "(json option \<Rightarrow> string) \<Rightarrow> bool \<Rightarrow> storage \<Rightarrow> json \<Rightarrow> merchant_page \<Rightarrow> merchant_page" where
  "deposit_found date stack st d pg =
     (let detail = usdc_json (opt_prop (Some d) ''amount'') @ '' USDC on '' @ label_json (opt_prop (Some d) ''chain'');
          pg1 = notifyDot st (pg\<lparr>mp_toasts := notify stack ''Deposit detected'' ''success'' detail (mp_toasts pg)\<rparr>) in
      if mp_modal_open pg1 then fst (draw_history date st pg1) else pg1)"

definition first_page :: "storage \<Rightarrow> merchant_page" where
  "first_page st = notifyDot st \<lparr>mp_chosen = ''ALL'', mp_control = ([], []), mp_menu = [], mp_menu_open = False, mp_modal_open = False,
     mp_view = None, mp_dot_hidden = True, mp_toasts = [], mp_lanes = renderLanes st, mp_share_hidden = (getLanes st = [])\<rparr>"

definition import_change :: "quota \<Rightarrow> int \<Rightarrow> bool \<Rightarrow> nat \<Rightarrow> json option \<Rightarrow> merchant_page \<times> storage \<Rightarrow> merchant_page \<times> storage" where
  "import_change quota now stack bytes parsed s =
     (case import_file quota now bytes parsed (snd s) of
        (st, Inl e) \<Rightarrow> ((fst s)\<lparr>mp_toasts := notify stack ''Import failed'' ''error'' (describeError (caught_of e)) (mp_toasts (fst s))\<rparr>, st)
      | (st, Inr (added, skipped)) \<Rightarrow>
          let detail = nat_string 10 added @ '' lane(s) added, '' @ nat_string 10 skipped @ '' skipped. Verify them before sharing.'' in
          ((fst s)\<lparr>mp_toasts := notify stack ''Backup imported'' ''success'' detail (mp_toasts (fst s)), mp_lanes := renderLanes st\<rparr>, st))"

text \<open>The controls of the form: the privacy switch, and the settlement chain with the check of the wallet typed so far.\<close>

record privacy_control =
  pc_open :: bool
  pc_stealth :: bool
  pc_checked :: bool

definition press_open :: "privacy_control \<Rightarrow> privacy_control" where
  "press_open pc = \<lparr>pc_open = True, pc_stealth = False, pc_checked = False\<rparr>"

definition press_stealth :: "privacy_control \<Rightarrow> privacy_control" where
  "press_stealth pc = \<lparr>pc_open = False, pc_stealth = True, pc_checked = True\<rparr>"

definition select_change :: "string \<Rightarrow> string \<Rightarrow> bool \<Rightarrow> string \<times> bool" where
  "select_change choice wallet invalid =
     (let target = choose_target choice; known = chain_entry target \<noteq> None; w = js_trim wallet in
      (if known then ''USDC lands on '' @ chainLabel target else ''USDC lands on xxxxx'',
       if w \<noteq> [] \<and> known then canonicalAddress target w = None else invalid))"

section \<open>The page stays true to the chosen chain\<close>

text \<open>
  The states of the page with the storage beside it: its own events, and any change of the storage by the watcher or
  another tab that leaves the amounts readable.
\<close>

definition history_readable :: "storage \<Rightarrow> bool" where
  "history_readable st \<longleftrightarrow> list_all readable (getHistory st)"

inductive page_reached :: "quota \<Rightarrow> (json option \<Rightarrow> string) \<Rightarrow> merchant_page \<times> storage \<Rightarrow> bool" for quota date where
  loaded: "history_readable st \<Longrightarrow> page_reached quota date (first_page st, st)"
| opened: "page_reached quota date s \<Longrightarrow> page_reached quota date (openHistory quota date now s)"
| chosen: "page_reached quota date (pg, st) \<Longrightarrow> key \<in> set (''ALL'' # CHAIN_KEYS) \<Longrightarrow> page_reached quota date (choose_chain date st key pg, st)"
| toggled: "page_reached quota date (pg, st) \<Longrightarrow> page_reached quota date (toggle_menu pg, st)"
| clicked: "page_reached quota date (pg, st) \<Longrightarrow> page_reached quota date (click_outside b pg, st)"
| closed: "page_reached quota date (pg, st) \<Longrightarrow> page_reached quota date (close_history pg, st)"
| deposit: "page_reached quota date (pg, st) \<Longrightarrow> page_reached quota date (deposit_found date stack st d pg, st)"
| stored: "page_reached quota date (pg, st) \<Longrightarrow> history_readable st' \<Longrightarrow> page_reached quota date (pg, st')"

definition view_of :: "(json option \<Rightarrow> string) \<Rightarrow> string \<Rightarrow> history_view \<Rightarrow> bool" where
  "view_of date c v \<longleftrightarrow> (\<exists>st. history_readable st \<and> renderHistory date st c = Inr v)"

definition page_ok :: "(json option \<Rightarrow> string) \<Rightarrow> merchant_page \<Rightarrow> bool" where
  "page_ok date pg \<longleftrightarrow> mp_chosen pg \<in> set (''ALL'' # CHAIN_KEYS) \<and>
     (mp_view pg = None \<or> mp_control pg = (chain_sign (mp_chosen pg), chain_name (mp_chosen pg)) \<and> view_of date (mp_chosen pg) (the (mp_view pg))) \<and>
     (mp_modal_open pg \<longrightarrow> mp_view pg \<noteq> None) \<and>
     (mp_menu_open pg \<longrightarrow> mp_menu pg = renderChainMenu (mp_chosen pg))"

lemma renderHistory_readable:
  assumes "history_readable st"
  shows "\<exists>v. renderHistory date st chosen = Inr v \<and> view_of date chosen v"
proof -
  have "list_all readable (history_rows st chosen)" using assms by (auto simp: history_readable_def history_rows_def list_all_iff)
  then obtain v where "renderHistory date st chosen = Inr v" using renderHistory_cases [of date st chosen] by blast
  then show ?thesis using assms by (auto simp: view_of_def)
qed

lemma draw_history_readable:
  assumes "history_readable st"
  shows "\<exists>v. draw_history date st pg = (pg\<lparr>mp_view := Some v\<rparr>, Inr ()) \<and> view_of date (mp_chosen pg) v"
  using renderHistory_readable [OF assms, of date "mp_chosen pg"] by (auto simp: draw_history_def)

lemma markSeen_readable: "history_readable (markSeen quota now st) = history_readable st"
  by (simp add: history_readable_def getHistory_def markSeen_def write_item_def read_item_def K_seen_def K_history_def)

lemmas page_defs = openHistory_def choose_chain_def toggle_menu_def click_outside_def close_history_def deposit_found_def
  notifyDot_def updateChainControl_def draw_menu_def first_page_def

lemma page_reached_ok:
  assumes "page_reached quota date s"
  shows "page_ok date (fst s) \<and> history_readable (snd s)"
  using assms
proof induction
  case (loaded st)
  then show ?case by (simp add: page_ok_def page_defs)
next
  case (opened s now)
  let ?pg = "draw_menu (updateChainControl (fst s))"
  obtain v where v: "draw_history date (snd s) ?pg = (?pg\<lparr>mp_view := Some v\<rparr>, Inr ())" "view_of date (mp_chosen ?pg) v"
    using draw_history_readable [of "snd s" date ?pg] opened by blast
  have e: "openHistory quota date now s = (notifyDot (markSeen quota now (snd s)) (?pg\<lparr>mp_view := Some v, mp_modal_open := True\<rparr>), markSeen quota now (snd s))"
    by (simp add: openHistory_def v(1) Let_def)
  have c: "mp_chosen (fst s) \<in> set (''ALL'' # CHAIN_KEYS)" using opened unfolding page_ok_def by blast
  have h: "history_readable (snd s)" using opened by blast
  have d: "mp_chosen ?pg = mp_chosen (fst s)" "mp_control ?pg = (chain_sign (mp_chosen (fst s)), chain_name (mp_chosen (fst s)))"
    "mp_menu ?pg = renderChainMenu (mp_chosen (fst s))"
    by (simp_all add: updateChainControl_def draw_menu_def)
  show ?case unfolding e fst_conv snd_conv markSeen_readable page_ok_def notifyDot_def
    using c h v(2) d by (simp del: list.set)
next
  case (chosen pg st key)
  let ?pg = "(draw_menu (updateChainControl (pg\<lparr>mp_chosen := key\<rparr>)))\<lparr>mp_menu_open := False\<rparr>"
  obtain v where v: "draw_history date st ?pg = (?pg\<lparr>mp_view := Some v\<rparr>, Inr ())" "view_of date (mp_chosen ?pg) v"
    using draw_history_readable [of st date ?pg] chosen by auto
  have e: "choose_chain date st key pg = ?pg\<lparr>mp_view := Some v\<rparr>" by (simp add: choose_chain_def v(1))
  have h: "history_readable st" using chosen by simp
  show ?case unfolding e fst_conv snd_conv page_ok_def updateChainControl_def draw_menu_def
    using chosen(2) h v(2) by (simp add: updateChainControl_def draw_menu_def del: list.set)
next
  case (deposit pg st stack d)
  then show ?case
    using draw_history_readable [of st date "notifyDot st (pg\<lparr>mp_toasts := notify stack ''Deposit detected'' ''success''
      (usdc_json (opt_prop (Some d) ''amount'') @ '' USDC on '' @ label_json (opt_prop (Some d) ''chain'')) (mp_toasts pg)\<rparr>)"]
    by (auto simp: page_ok_def page_defs Let_def)
qed (auto simp: page_ok_def page_defs)



end
