(* ===== verification/Pay_View.thy ===== *)
theory Pay_View
  imports Pay_Page Html
begin

text \<open>
  What the payer's page, \<open>scripts/pay.js\<close>, draws: the card with the payment networks, the address with its QR code or the
  gasless form, the overlay with the widget's snippet, and the page that a bad link gets. The lemmas say what elements a browser finds in
  the card.
\<close>

section \<open>Fixed parts\<close>

definition poweredTag :: "bool \<Rightarrow> string" where
  \<open>poweredTag withEmbed =
     nl 2 @ ''<footer class="powered-tag-wrapper">'' @
     nl 4 @ (if withEmbed then
       ''<button type="button" class="embed-tag-btn" aria-label="Copy as widget" title="Copy as widget">'' @
       nl 13 @ ''<svg viewBox="0 0 24 24" width="14" height="14" fill="none" stroke="currentColor" stroke-width="2" stroke-linecap="round" stroke-linejoin="round" aria-hidden="true">'' @
       ''<polyline points="8 6 2 12 8 18"></polyline><polyline points="16 6 22 12 16 18"></polyline></svg>'' @
       nl 11 @ ''</button>'' else []) @
     nl 4 @ ''<div class="powered-tag" aria-label="Powered by Beanie">'' @
     nl 6 @ ''<span class="powered-tag__label">powered by</span>'' @
     nl 6 @ ''<span class="powered-tag__mark">bean<span class="powered-tag__dot">:</span>ie</span>'' @
     nl 4 @ ''</div>'' @
     nl 2 @ ''</footer>''\<close>

definition powered_nodes :: "bool \<Rightarrow> node list" where
  \<open>powered_nodes withEmbed =
     [Text (nl 2), Tag ''footer class="powered-tag-wrapper"'', Text (nl 4)] @
     (if withEmbed then
       [Tag ''button type="button" class="embed-tag-btn" aria-label="Copy as widget" title="Copy as widget"'', Text (nl 13),
        Tag ''svg viewBox="0 0 24 24" width="14" height="14" fill="none" stroke="currentColor" stroke-width="2" stroke-linecap="round" stroke-linejoin="round" aria-hidden="true"'',
        Tag ''polyline points="8 6 2 12 8 18"'', Tag ''/polyline'', Tag ''polyline points="16 6 22 12 16 18"'', Tag ''/polyline'', Tag ''/svg'',
        Text (nl 11), Tag ''/button''] else []) @
     [Text (nl 4), Tag ''div class="powered-tag" aria-label="Powered by Beanie"'',
      Text (nl 6), Tag ''span class="powered-tag__label"'', Text ''powered by'', Tag ''/span'',
      Text (nl 6), Tag ''span class="powered-tag__mark"'', Text ''bean'', Tag ''span class="powered-tag__dot"'', Text '':'', Tag ''/span'', Text ''ie'', Tag ''/span'',
      Text (nl 4), Tag ''/div'', Text (nl 2), Tag ''/footer'']\<close>

section \<open>The card\<close>

text \<open>\<open>activeIndex\<close> (\<open>None\<close> is -1) and \<open>gasless\<close>.\<close>

record pay_card =
  cd_active :: "nat option"
  cd_gasless :: bool

definition route_tab :: "nat option \<Rightarrow> nat \<Rightarrow> pay_route \<Rightarrow> string result" where
  \<open>route_tab active i r =
     (case chain_entry (rt_chain r) of
        None \<Rightarrow> Inl TypeError
      | Some c \<Rightarrow> Inr (
          nl 8 @ ''<button class="pay-route '' @ (if active = Some i then ''active'' else []) @ ''" type="button" data-index="'' @ nat_string 10 i @ ''">'' @
          nl 10 @ ''<span class="pay-route-icon">'' @ chainIcon (rt_chain r) 24 @ ''</span>'' @
          nl 10 @ ''<span class="pay-route-meta"><strong>Send via '' @ escapeHtml (ch_name c) @ ''</strong><span>Pay in USDC</span></span>'' @
          nl 10 @ ''<span class="pay-route-arrow">'' @ (if active = Some i then CHECK_SIGN else ARROW) @ ''</span>'' @
          nl 8 @ ''</button>''))\<close>

fun route_tabs :: "nat option \<Rightarrow> nat \<Rightarrow> pay_route list \<Rightarrow> string result" where
  "route_tabs active i [] = Inr []"
| "route_tabs active i (r # rs) =
     then_do (route_tab active i r) (\<lambda>t. then_do (route_tabs active (i + 1) rs) (\<lambda>ts. Inr (t @ ts)))"

definition tabs :: "pay_link \<Rightarrow> nat option \<Rightarrow> string result" where
  \<open>tabs link active =
     then_do (route_tabs active 0 (lk_routes link)) (\<lambda>ts. Inr (
       nl 4 @ ''<div class="pay-routes" role="tablist">'' @ nl 6 @ ts @ nl 4 @ ''</div>''))\<close>

definition gasless_switch :: "bool \<Rightarrow> string" where
  \<open>gasless_switch ok =
     (if ok then ''<div style="margin-top:.25rem;display:flex;justify-content:flex-end;">'' @
        nl 17 @ ''<label style="font-size:.8rem;cursor:pointer;opacity:.8;display:inline-flex;align-items:center;gap:6px;">'' @
        nl 19 @ ''<input type="checkbox" id="modeToggle" style="margin:0;cursor:pointer;"><span>Gasless Transfer</span>'' @
        nl 17 @ ''</label></div>'' else [])\<close>

definition address_card :: "string \<Rightarrow> pay_route \<Rightarrow> chain \<Rightarrow> bool \<Rightarrow> string" where
  \<open>address_card ts r c ok =
     nl 8 @ ts @
     nl 8 @ ''<div class="address-display-card">'' @
     nl 10 @ ''<div class="address-val" id="depositAddr">'' @ escapeHtml (rt_address r) @ ''</div>'' @
     nl 10 @ ''<button class="copy-btn" id="copyBtn" type="button">Copy Address</button>'' @
     nl 8 @ ''</div>'' @
     nl 8 @ gasless_switch ok @
     nl 8 @ ''<div class="qr-container"><div id="qrBox" style="width:240px;height:240px;margin:0 auto;"></div>'' @
     nl 10 @ ''<p style="font-size:.82rem;margin-top:.5rem;opacity:.8;">Scan and pay USDC on '' @ escapeHtml (ch_name c) @ ''</p></div>'' @
     nl 8 @ poweredTag True\<close>

definition gasless_card :: "string \<Rightarrow> string" where
  \<open>gasless_card ts =
     nl 6 @ ts @
     nl 6 @ ''<div class="address-display-card">'' @
     nl 8 @ ''<label class="amount-label" style="display:block;text-align:left;font-size:.85rem;opacity:.85;">Amount (USDC)'' @
     nl 10 @ ''<input type="text" inputmode="decimal" id="amountInput" placeholder="0.00" autocomplete="off"'' @
     nl 12 @ ''style="display:block;width:100%;margin-top:4px;padding:8px 10px;border-radius:6px;border:1px solid rgba(255,255,255,.25);background:transparent;color:inherit;font-size:.95rem;box-sizing:border-box;" />'' @
     nl 8 @ ''</label>'' @
     nl 8 @ ''<button class="copy-btn" id="actionBtn" type="button" style="margin-top:.5rem;">Pay with Beanie</button>'' @
     nl 8 @ ''<p id="payHint" role="status" style="font-size:.8rem;opacity:.75;margin-top:0;"></p>'' @
     nl 6 @ ''</div>'' @
     nl 6 @ ''<div style="margin-top:.25rem;display:flex;justify-content:flex-end;">'' @
     nl 8 @ ''<label style="font-size:.8rem;cursor:pointer;opacity:.8;display:inline-flex;align-items:center;gap:6px;">'' @
     nl 10 @ ''<input type="checkbox" id="modeToggle" checked style="margin:0;cursor:pointer;"><span>Gasless Transfer</span>'' @
     nl 8 @ ''</label></div>'' @
     nl 6 @ ''<div class="qr-container"><div id="qrBox" style="width:240px;height:240px;margin:0 auto;"></div>'' @
     nl 8 @ ''<p style="font-size:.82rem;margin-top:.5rem;opacity:.8;">Scan to open this page in your wallet browser</p></div>'' @
     nl 6 @ poweredTag True\<close>

text \<open>What a drawing leaves: the markup, the text of the QR code if there is one, and whether the pay button is there.\<close>

record card_view =
  cv_html :: string
  cv_qr :: "string option"
  cv_form :: bool

definition PICK_HINT :: string where
  \<open>PICK_HINT = ''<p class="status-hint">Select a payment network above to continue.</p>''\<close>

definition draw :: "string \<Rightarrow> pay_link \<Rightarrow> pay_card \<Rightarrow> card_view result" where
  \<open>draw href link cd =
     (case cd_active cd of
        None \<Rightarrow> then_do (tabs link None) (\<lambda>ts. Inr \<lparr>cv_html = ts @ PICK_HINT @ poweredTag True,
            cv_qr = None, cv_form = False\<rparr>)
      | Some i \<Rightarrow>
          if length (lk_routes link) \<le> i then Inl TypeError
          else (let r = lk_routes link ! i in
            case chain_entry (rt_chain r) of
              None \<Rightarrow> Inl TypeError
            | Some c \<Rightarrow>
                if \<not> cd_gasless cd \<or> \<not> gasless_ok link c
                then then_do (tabs link (Some i)) (\<lambda>ts. then_do (addressQrText r) (\<lambda>q.
                  Inr \<lparr>cv_html = address_card ts r c (gasless_ok link c), cv_qr = Some q, cv_form = False\<rparr>))
                else then_do (tabs link (Some i)) (\<lambda>ts. Inr \<lparr>cv_html = gasless_card ts, cv_qr = Some href, cv_form = True\<rparr>)))\<close>

text \<open>A click on a network, and the switch of the gasless form; each draws the card again.\<close>

definition pick_route :: "nat \<Rightarrow> pay_card \<Rightarrow> pay_card" where
  "pick_route i cd = cd\<lparr>cd_active := Some i\<rparr>"

definition switch_gasless :: "bool \<Rightarrow> pay_card \<Rightarrow> pay_card" where
  "switch_gasless checked cd = cd\<lparr>cd_gasless := checked\<rparr>"

definition bad_link :: "string \<Rightarrow> string" where
  \<open>bad_link msg = ''<div class="error">'' @ msg @ ''</div>'' @ poweredTag False\<close>

text \<open>The page when it loads: what is shown, and the card when there is one.\<close>

definition open_card :: "string \<Rightarrow> pay_link \<Rightarrow> string \<times> pay_card option" where
  "open_card href link =
     (if lk_routes link = [] then (bad_link ''This payment link is missing a destination address.'', None)
      else case draw href link \<lparr>cd_active = None, cd_gasless = False\<rparr> of
        Inl e \<Rightarrow> (bad_link ''Something went wrong loading this payment link. Please refresh.'', None)
      | Inr v \<Rightarrow> (cv_html v, Some \<lparr>cd_active = None, cd_gasless = False\<rparr>))"

text \<open>The QR library is loaded from outside; without it the box stays empty.\<close>

definition renderQr :: "(string \<Rightarrow> string option) \<Rightarrow> string \<Rightarrow> string" where
  "renderQr svg t = (case svg t of None \<Rightarrow> [] | Some s \<Rightarrow> s)"

text \<open>
  The amount field after an edit, with the place of the caret when the text was changed: as far from the end as it
  was.
\<close>

definition amount_edit :: "string \<Rightarrow> nat \<Rightarrow> string \<times> nat option" where
  "amount_edit value caret =
     (let fromEnd = length value - caret; v = clean_amount value in
      (v, if v \<noteq> value then Some (length v - fromEnd) else None))"

section \<open>The overlay\<close>

record overlay =
  ov_hidden :: bool
  ov_snippet :: string
  ov_copy :: string

definition OVERLAY_HTML :: string where
  \<open>OVERLAY_HTML =
     nl 6 @ ''<div class="embed-modal" role="dialog" aria-modal="true" aria-label="Copy as widget">'' @
     nl 8 @ ''<div class="embed-modal-head"><strong>Copy as widget</strong>'' @
     nl 10 @ ''<button type="button" class="embed-close" aria-label="Close">'' @ TIMES_SIGN @ ''</button></div>'' @
     nl 8 @ ''<pre class="embed-snippet" id="embedSnippetText"></pre>'' @
     nl 8 @ ''<button type="button" class="copy-btn" id="embedCopyBtn">Copy</button>'' @
     nl 8 @ ''<p class="status-hint">Uses the routing and colors you'' @ [CHR 0x27] @ ''re viewing right now.</p>'' @
     nl 6 @ ''</div>''\<close>

definition openEmbedOverlay :: "string \<Rightarrow> pay_link \<Rightarrow> string \<Rightarrow> string \<Rightarrow> overlay" where
  "openEmbedOverlay origin link primary secondary =
     \<lparr>ov_hidden = False, ov_snippet = buildEmbedSnippet origin link primary secondary, ov_copy = ''Copy''\<rparr>"

definition close_overlay :: "overlay \<Rightarrow> overlay" where
  "close_overlay ov = ov\<lparr>ov_hidden := True\<rparr>"

definition press_escape :: "string \<Rightarrow> overlay \<Rightarrow> overlay" where
  "press_escape key ov = (if key = ''Escape'' \<and> \<not> ov_hidden ov then close_overlay ov else ov)"

text \<open>A click on \<open>Copy\<close>, when the clipboard took the snippet or refused it.\<close>

definition copy_snippet :: "bool \<Rightarrow> overlay \<Rightarrow> overlay" where
  "copy_snippet written ov = (if written then (close_overlay ov)\<lparr>ov_copy := ''Copied''\<rparr> else ov)"

section \<open>The widgets of an embedding page\<close>

text \<open>
  \<open>embed.js\<close> mounts every element of the page that is marked as a checkout, and again those below an element that is
  added later, unless the added element is one itself.
\<close>

fun mountAll :: "widget list \<Rightarrow> checkout_frame list \<times> widget list" where
  "mountAll [] = ([], [])"
| "mountAll (w # ws) =
     (case (mount w, mountAll ws) of
        ((None, w'), (fs, ws')) \<Rightarrow> (fs, w' # ws')
      | ((Some f, w'), (fs, ws')) \<Rightarrow> (f # fs, w' # ws'))"

definition node_added :: "widget option \<times> widget list \<Rightarrow> checkout_frame list \<times> (widget option \<times> widget list)" where
  "node_added added =
     (case added of
        (Some w, below) \<Rightarrow> (case mountAll [w] of (fs, ws) \<Rightarrow> (fs, Some (hd ws), below))
      | (None, below) \<Rightarrow> (case mountAll below of (fs, ws) \<Rightarrow> (fs, None, ws)))"

text \<open>However often an element is met, it gets one frame.\<close>

lemma mount_twice: "mount (snd (mount d)) = (None, snd (mount d))"
  by (simp add: mount_def Let_def truthy_def)

lemma mountAll_twice: "mountAll (snd (mountAll ws)) = ([], snd (mountAll ws))"
proof (induction ws)
  case (Cons w ws)
  show ?case using Cons mount_twice [of w] by (cases "mount w"; cases "mountAll ws"; cases "fst (mount w)") auto
qed simp

section \<open>What the browser finds\<close>

definition tab_nodes :: "nat option \<Rightarrow> nat \<times> pay_route \<Rightarrow> node list" where
  \<open>tab_nodes active t =
     (case t of (i, r) \<Rightarrow>
       [Text (nl 8), Tag (''button class="pay-route '' @ (if active = Some i then ''active'' else []) @ ''" type="button" data-index="'' @ nat_string 10 i @ ''"''),
        Text (nl 10), Tag ''span class="pay-route-icon"''] @ icon_nodes (rt_chain r) @ [Tag ''/span'',
        Text (nl 10), Tag ''span class="pay-route-meta"'', Tag ''strong'', Text (''Send via '' @ ch_name (the (chain_entry (rt_chain r)))), Tag ''/strong'',
        Tag ''span'', Text ''Pay in USDC'', Tag ''/span'', Tag ''/span'',
        Text (nl 10), Tag ''span class="pay-route-arrow"'', Text (if active = Some i then CHECK_SIGN else ARROW), Tag ''/span'',
        Text (nl 8), Tag ''/button''])\<close>

definition tabs_nodes :: "pay_link \<Rightarrow> nat option \<Rightarrow> node list" where
  \<open>tabs_nodes link active =
     [Text (nl 4), Tag ''div class="pay-routes" role="tablist"'', Text (nl 6)] @ concat (map (tab_nodes active) (enumerate 0 (lk_routes link))) @
     [Text (nl 4), Tag ''/div'']\<close>

definition switch_nodes :: "bool \<Rightarrow> node list" where
  \<open>switch_nodes ok =
     (if ok then [Tag ''div style="margin-top:.25rem;display:flex;justify-content:flex-end;"'', Text (nl 17),
        Tag ''label style="font-size:.8rem;cursor:pointer;opacity:.8;display:inline-flex;align-items:center;gap:6px;"'', Text (nl 19),
        Tag ''input type="checkbox" id="modeToggle" style="margin:0;cursor:pointer;"'', Tag ''span'', Text ''Gasless Transfer'', Tag ''/span'', Text (nl 17),
        Tag ''/label'', Tag ''/div''] else [])\<close>

definition address_tail :: "pay_link \<Rightarrow> chain \<Rightarrow> node list" where
  \<open>address_tail link c =
      [Text (nl 10), Tag ''button class="copy-btn" id="copyBtn" type="button"'', Text ''Copy Address'', Tag ''/button'', Text (nl 8), Tag ''/div'',
       Text (nl 8)] @ switch_nodes (gasless_ok link c) @
      [Text (nl 8), Tag ''div class="qr-container"'', Tag ''div id="qrBox" style="width:240px;height:240px;margin:0 auto;"'', Tag ''/div'', Text (nl 10),
       Tag ''p style="font-size:.82rem;margin-top:.5rem;opacity:.8;"'', Text (''Scan and pay USDC on '' @ ch_name c), Tag ''/p'', Tag ''/div'',
       Text (nl 8)] @ powered_nodes True\<close>

definition address_nodes :: "pay_link \<Rightarrow> nat \<Rightarrow> node list" where
  \<open>address_nodes link i =
     (let r = lk_routes link ! i in
      ([Text (nl 8)] @ tabs_nodes link (Some i) @ [Text (nl 8), Tag ''div class="address-display-card"'', Text (nl 10)]) @
      Tag ''div class="address-val" id="depositAddr"'' # Text (rt_address r) # Tag ''/div'' # address_tail link (the (chain_entry (rt_chain r))))\<close>

definition gasless_nodes :: "pay_link \<Rightarrow> nat \<Rightarrow> node list" where
  \<open>gasless_nodes link i =
      [Text (nl 6)] @ tabs_nodes link (Some i) @
      [Text (nl 6), Tag ''div class="address-display-card"'', Text (nl 8),
       Tag ''label class="amount-label" style="display:block;text-align:left;font-size:.85rem;opacity:.85;"'', Text (''Amount (USDC)'' @ nl 10),
       Tag (''input type="text" inputmode="decimal" id="amountInput" placeholder="0.00" autocomplete="off"'' @ nl 12 @
         ''style="display:block;width:100%;margin-top:4px;padding:8px 10px;border-radius:6px;border:1px solid rgba(255,255,255,.25);background:transparent;color:inherit;font-size:.95rem;box-sizing:border-box;" /''),
       Text (nl 8), Tag ''/label'', Text (nl 8),
       Tag ''button class="copy-btn" id="actionBtn" type="button" style="margin-top:.5rem;"'', Text ''Pay with Beanie'', Tag ''/button'', Text (nl 8),
       Tag ''p id="payHint" role="status" style="font-size:.8rem;opacity:.75;margin-top:0;"'', Tag ''/p'', Text (nl 6), Tag ''/div'', Text (nl 6),
       Tag ''div style="margin-top:.25rem;display:flex;justify-content:flex-end;"'', Text (nl 8),
       Tag ''label style="font-size:.8rem;cursor:pointer;opacity:.8;display:inline-flex;align-items:center;gap:6px;"'', Text (nl 10),
       Tag ''input type="checkbox" id="modeToggle" checked style="margin:0;cursor:pointer;"'', Tag ''span'', Text ''Gasless Transfer'', Tag ''/span'', Text (nl 8),
       Tag ''/label'', Tag ''/div'', Text (nl 6),
       Tag ''div class="qr-container"'', Tag ''div id="qrBox" style="width:240px;height:240px;margin:0 auto;"'', Tag ''/div'', Text (nl 8),
       Tag ''p style="font-size:.82rem;margin-top:.5rem;opacity:.8;"'', Text ''Scan to open this page in your wallet browser'', Tag ''/p'', Tag ''/div'',
       Text (nl 6)] @ powered_nodes True\<close>

definition choose_nodes :: "pay_link \<Rightarrow> node list" where
  \<open>choose_nodes link = tabs_nodes link None @
     [Tag ''p class="status-hint"'', Text ''Select a payment network above to continue.'', Tag ''/p''] @ powered_nodes True\<close>

interpretation powered: template poweredTag powered_nodes
  by unfold_locales (simp_all add: poweredTag_def powered_nodes_def escapeHtml_Cons escape_char_def)

interpretation gasless_tab: template gasless_switch switch_nodes
  by unfold_locales (simp_all add: gasless_switch_def switch_nodes_def escapeHtml_Cons escape_char_def)

declare powered.closed [simp] gasless_tab.closed [simp]

lemma tab_html: "chain_entry (rt_chain r) = Some c \<Longrightarrow> route_tab active i r = Inr (write_html (tab_nodes active (i, r)))"
  by (simp add: route_tab_def tab_nodes_def chainIcon_nodes escapeHtml_Cons escape_char_def)

lemma tab_closed: "tags_closed (tab_nodes active (i, r))"
  using nat_string_no_bracket [of i] by (simp add: tab_nodes_def)

definition routes_known :: "pay_link \<Rightarrow> bool" where
  "routes_known link \<longleftrightarrow> list_all (\<lambda>r. chain_entry (rt_chain r) \<noteq> None) (lk_routes link)"

lemma route_tabs_html:
  "(case route_tabs active i rs of
      Inl e \<Rightarrow> \<not> list_all (\<lambda>r. chain_entry (rt_chain r) \<noteq> None) rs
    | Inr ts \<Rightarrow> list_all (\<lambda>r. chain_entry (rt_chain r) \<noteq> None) rs \<and> ts = write_html (concat (map (tab_nodes active) (enumerate i rs))))"
proof (induction rs arbitrary: i)
  case (Cons r rs)
  show ?case
  proof (cases "chain_entry (rt_chain r)")
    case None
    then show ?thesis by (simp add: route_tab_def)
  next
    case (Some c)
    then show ?thesis using Cons [of "i + 1"] by (cases "route_tabs active (i + 1) rs") (simp_all add: tab_html)
  qed
qed simp

lemma tabs_html:
  "tabs link active = Inr ts \<longleftrightarrow> routes_known link \<and> ts = write_html (tabs_nodes link active)"
  using route_tabs_html [where active = active and i = 0 and rs = "lk_routes link"]
  by (cases "route_tabs active 0 (lk_routes link)") (auto simp: tabs_def routes_known_def tabs_nodes_def)

lemma tabs_closed [simp]: "tags_closed (tabs_nodes link active)"
  using tab_closed by (auto simp: tabs_nodes_def tags_closed_concat)

lemma card_closed [simp]: "tags_closed (address_nodes link i)" "tags_closed (gasless_nodes link i)" "tags_closed (choose_nodes link)"
  by (simp_all add: address_nodes_def address_tail_def gasless_nodes_def choose_nodes_def Let_def nl_def)

lemma address_html:
  assumes "chain_entry (rt_chain (lk_routes link ! i)) = Some c"
  shows "address_card (write_html (tabs_nodes link (Some i))) (lk_routes link ! i) c (gasless_ok link c) = write_html (address_nodes link i)"
  using assms by (simp add: address_card_def address_nodes_def address_tail_def powered.written gasless_tab.written Let_def escapeHtml_Cons escape_char_def)

lemma gasless_html: "gasless_card (write_html (tabs_nodes link (Some i))) = write_html (gasless_nodes link i)"
  by (simp add: gasless_card_def gasless_nodes_def powered.written escapeHtml_Cons escape_char_def)

lemma choose_html: "write_html (tabs_nodes link None) @ PICK_HINT @ poweredTag True = write_html (choose_nodes link)"
  by (simp add: choose_nodes_def PICK_HINT_def powered.written escapeHtml_Cons escape_char_def)

text \<open>What the card must show in a state: the elements, the QR text and whether the gasless form is there.\<close>

definition card_shows :: "string \<Rightarrow> pay_link \<Rightarrow> pay_card \<Rightarrow> card_view \<Rightarrow> bool" where
  "card_shows href link cd v \<longleftrightarrow>
     (case cd_active cd of
        None \<Rightarrow> read_html (cv_html v) = tidy (choose_nodes link) \<and> cv_qr v = None \<and> \<not> cv_form v
      | Some i \<Rightarrow>
          if cd_gasless cd \<and> gasless_ok link (the (chain_entry (rt_chain (lk_routes link ! i))))
          then read_html (cv_html v) = tidy (gasless_nodes link i) \<and> cv_qr v = Some href \<and> cv_form v
          else read_html (cv_html v) = tidy (address_nodes link i) \<and> \<not> cv_form v \<and>
            (case cv_qr v of None \<Rightarrow> False | Some q \<Rightarrow> addressQrText (lk_routes link ! i) = Inr q))"

lemma addressQrText_known: "chain_entry (rt_chain r) \<noteq> None \<Longrightarrow> \<exists>q. addressQrText r = Inr q"
  by (auto simp: addressQrText_def)

lemma draw_shows:
  assumes "routes_known link" "case cd_active cd of None \<Rightarrow> True | Some i \<Rightarrow> i < length (lk_routes link)"
  shows "\<exists>v. draw href link cd = Inr v \<and> card_shows href link cd v"
proof -
  have t: "tabs link a = Inr (write_html (tabs_nodes link a))" for a using assms(1) by (simp add: tabs_html)
  show ?thesis
  proof (cases "cd_active cd")
    case None
    then show ?thesis by (simp add: draw_def t card_shows_def choose_html read_write)
  next
    case (Some i)
    let ?r = "lk_routes link ! i"
    have i: "i < length (lk_routes link)" using assms(2) Some by simp
    then obtain c where c: "chain_entry (rt_chain ?r) = Some c"
      using assms(1) by (auto simp: routes_known_def list_all_length)
    then obtain q where q: "addressQrText ?r = Inr q" using addressQrText_known [of ?r] by auto
    show ?thesis
    proof (cases "cd_gasless cd \<and> gasless_ok link c")
      case True
      then show ?thesis using Some i c by (simp add: draw_def t card_shows_def gasless_html read_write)
    next
      case False
      then show ?thesis using Some i c q by (auto simp: draw_def t card_shows_def address_html read_write)
    qed
  qed
qed

text \<open>
  The states of the card after the page has loaded: a click on one of the networks it shows, and the switch. Each of
  them draws the card again.
\<close>

inductive card_reached :: "string \<Rightarrow> pay_link \<Rightarrow> pay_card \<Rightarrow> bool" for href link where
  card_opens: "open_card href link = (html, Some cd) \<Longrightarrow> card_reached href link cd"
| route_picked: "card_reached href link cd \<Longrightarrow> i < length (lk_routes link) \<Longrightarrow> card_reached href link (pick_route i cd)"
| mode_switched: "card_reached href link cd \<Longrightarrow> card_reached href link (switch_gasless b cd)"

lemma draw_first: "draw href link \<lparr>cd_active = None, cd_gasless = g\<rparr> = Inr v \<Longrightarrow> routes_known link"
  by (cases "tabs link None") (auto simp: draw_def tabs_html)

lemma card_reached_ok:
  assumes "card_reached href link cd"
  shows "routes_known link \<and> (case cd_active cd of None \<Rightarrow> True | Some i \<Rightarrow> i < length (lk_routes link))"
  using assms
proof induction
  case (card_opens html cd)
  then show ?case using draw_first by (auto simp: open_card_def split: if_splits sum.splits)
qed (auto simp: pick_route_def switch_gasless_def)

text \<open>
  C13: the payer's card. In every state of the card the drawing succeeds, and the browser finds exactly the fixed elements, with the names of
  the networks and the address as text. Without the gasless form, the address shown is that of the network that was
  picked, and the QR code is the payment request for that same address; with it, the QR code is the page itself.
\<close>

theorem pay_card_faithful:
  assumes "card_reached href link cd"
  shows "\<exists>v. draw href link cd = Inr v \<and> card_shows href link cd v"
  using card_reached_ok [OF assms] draw_shows by blast

text \<open>A page whose link has a network that the script does not know shows no card, and neither does one without routes.\<close>

lemma open_card_cases:
  "snd (open_card href link) = (if lk_routes link \<noteq> [] \<and> routes_known link then Some \<lparr>cd_active = None, cd_gasless = False\<rparr> else None)"
proof (cases "lk_routes link \<noteq> [] \<and> routes_known link")
  case True
  then show ?thesis using draw_shows [of link "\<lparr>cd_active = None, cd_gasless = False\<rparr>" href] by (auto simp: open_card_def)
next
  case False
  then show ?thesis
    using draw_first [of href link False] by (auto simp: open_card_def split: sum.splits)
qed

text \<open>The caret stays inside the field.\<close>

lemma amount_edit_caret: "caret \<le> length value \<Longrightarrow> snd (amount_edit value caret) = Some p \<Longrightarrow> p \<le> length (fst (amount_edit value caret))"
  by (auto simp: amount_edit_def Let_def split: if_splits)

lemma tidy_tag: "tidy (ms @ Tag a # ns) = tidy ms @ Tag a # tidy ns"
  by (induction ms rule: tidy.induct) (auto simp: add_text_def split: list.splits node.splits)

lemma address_shown:
  "rt_address (lk_routes link ! i) \<noteq> [] \<Longrightarrow> Text (rt_address (lk_routes link ! i)) \<in> set (tidy (address_nodes link i))"
  unfolding address_nodes_def Let_def tidy_tag by (simp add: add_text_def)

definition toy_link :: pay_link where
  "toy_link = \<lparr>lk_params = [], lk_laneId = [], lk_routes = [\<lparr>rt_chain = ''BASE'', rt_address = ''0x<b>''\<rparr>], lk_target = [], lk_merchant = []\<rparr>"

text \<open>An address with markup in it is shown as text.\<close>

theorem pay_card_faithful_witness:
  "\<exists>v. draw ''u'' toy_link \<lparr>cd_active = Some 0, cd_gasless = False\<rparr> = Inr v \<and> Text ''0x<b>'' \<in> set (read_html (cv_html v))"
proof -
  have k: "chain_entry ''BASE'' \<noteq> None" unfolding chain_entry_key chain_keys by simp
  then have "snd (open_card ''u'' toy_link) = Some \<lparr>cd_active = None, cd_gasless = False\<rparr>"
    by (simp add: open_card_cases routes_known_def toy_link_def del: not_None_eq)
  then have "card_reached ''u'' toy_link \<lparr>cd_active = None, cd_gasless = False\<rparr>"
    by (metis card_opens prod.collapse)
  then have "card_reached ''u'' toy_link (pick_route 0 \<lparr>cd_active = None, cd_gasless = False\<rparr>)"
    by (rule route_picked) (simp add: toy_link_def)
  then have r: "card_reached ''u'' toy_link \<lparr>cd_active = Some 0, cd_gasless = False\<rparr>" by (simp add: pick_route_def)
  obtain v where v: "draw ''u'' toy_link \<lparr>cd_active = Some 0, cd_gasless = False\<rparr> = Inr v"
      "card_shows ''u'' toy_link \<lparr>cd_active = Some 0, cd_gasless = False\<rparr> v"
    using pay_card_faithful [OF r] by blast
  have "Text ''0x<b>'' \<in> set (tidy (address_nodes toy_link 0))" using address_shown [of toy_link 0] by (simp add: toy_link_def)
  then show ?thesis using v by (auto simp: card_shows_def)
qed

end
