(* ===== verification/Stealth_View.thy ===== *)
theory Stealth_View
  imports Stealth_Page Merchant_View
begin

text \<open>
  What the private-lane page, \<open>scripts/stealth.js\<close>, draws, and the events around the claim: choosing a row, a chain, a
  verification, the import of a backup. The lemmas say what elements a browser finds in a row and when the claim button can
  be pressed.
\<close>

section \<open>The rows\<close>

definition balance_text :: "int option \<Rightarrow> string" where
  "balance_text b = (case b of None \<Rightarrow> DASH | Some n \<Rightarrow> escapeHtml (formatUsdc (int_string 10 n) 2) @ '' USDC'')"

definition private_row_html :: "json \<Rightarrow> int option \<Rightarrow> string" where
  \<open>private_row_html lane balance =
     nl 8 @ ''<span class="mini-icon">'' @ chainIcon (wire_json (lane_prop lane ''targetChain'')) 24 @ ''</span>'' @
     nl 8 @ ''<span class="mono">'' @ escapeHtml (short (coerce (lane_prop lane ''targetRecipient''))) @
       (if js_truthy (lane_prop lane ''needsVerify'') then '' '' @ MIDDOT @ '' unverified'' else []) @ ''</span>'' @
     nl 8 @ ''<strong>'' @ balance_text balance @ ''</strong>''\<close>

record row_view =
  pr_class :: string
  pr_html :: string

record private_view =
  pv_total :: string
  pv_empty :: string
  pv_rows :: "row_view list"
  pv_disabled :: bool

definition private_row :: "page \<Rightarrow> json \<times> int option \<Rightarrow> row_view" where
  "private_row pg r = \<lparr>pr_class = ''history-row'' @ (if is_selected pg (fst r) then '' selected'' else []),
     pr_html = private_row_html (fst r) (snd r)\<rparr>"

definition render :: "page \<Rightarrow> private_view" where
  \<open>render pg =
     (let shown = visibleRows pg in
      \<lparr>pv_total = formatUsdc (int_string 10 (shown_total pg)) 2 @ '' USDC'',
       pv_empty = (if shown = [] then ''<div class="history-empty">No private lanes on '' @ escapeHtml (chain_scope (pg_filter pg)) @
         ''. Create one, or import a backup.</div>'' else []),
       pv_rows = map (private_row pg) shown,
       pv_disabled = (\<not> can_claim pg)\<rparr>)\<close>

section \<open>The events\<close>

definition select_row :: "json \<times> int option \<Rightarrow> page \<Rightarrow> page" where
  "select_row r pg = pg\<lparr>pg_selected := Some r\<rparr>"

definition verify_selected :: "'w site \<Rightarrow> page \<Rightarrow> 'w sys \<Rightarrow> page \<times> 'w sys" where
  "verify_selected site pg s =
     (case pg_selected pg of
        None \<Rightarrow> (pg\<lparr>pg_status := ''Select a lane first.''\<rparr>, s)
      | Some (lane, b) \<Rightarrow>
          (case verifyLane site lane s of
             (Inl e, s') \<Rightarrow> (pg\<lparr>pg_status := ''Verification failed: '' @ describeError (caught_of e)\<rparr>, s')
           | (Inr x, s') \<Rightarrow> (pg\<lparr>pg_status := ''Lane verified.''\<rparr>, s')))"

text \<open>A chosen chain: the filter, the options marked as selected, the control and the closed menu.\<close>

record chain_menu =
  cm_options :: "(string \<times> bool) list"
  cm_control :: "string \<times> string"
  cm_open :: bool

definition filter_of :: "string \<Rightarrow> string" where
  "filter_of option = (if option = ''all'' then ''ALL'' else wire option)"

definition pick_chain :: "string \<Rightarrow> page \<times> chain_menu \<Rightarrow> page \<times> chain_menu" where
  "pick_chain option s =
     (let f = filter_of option in
      ((fst s)\<lparr>pg_filter := f\<rparr>,
       \<lparr>cm_options = map (\<lambda>(k, b). (k, k = option)) (cm_options (snd s)), cm_control = (chain_sign f, chain_name f), cm_open = False\<rparr>))"

text \<open>The import of a backup, then the balances read anew.\<close>

definition import_private :: "(bytes \<Rightarrow> bytes) \<Rightarrow> net \<Rightarrow> quota \<Rightarrow> int \<Rightarrow> nat \<Rightarrow> json option \<Rightarrow> page \<times> storage \<Rightarrow> page \<times> storage" where
  "import_private sha net quota now bytes parsed s =
     (case import_file quota now bytes parsed (snd s) of
        (st, Inl e) \<Rightarrow> ((fst s)\<lparr>pg_status := ''Import failed: '' @ describeError (caught_of e)\<rparr>, st)
      | (st, Inr (added, skipped)) \<Rightarrow>
          (refresh sha net st ((fst s)\<lparr>pg_status := ''Imported '' @ nat_string 10 added @ '' lane(s), skipped '' @ nat_string 10 skipped @
             ''. Select each one and press Verify.''\<rparr>), st))"

section \<open>What the browser finds\<close>

definition private_nodes :: "json \<Rightarrow> int option \<Rightarrow> node list" where
  \<open>private_nodes lane balance =
     [Text (nl 8), Tag ''span class="mini-icon"''] @ icon_nodes (wire_json (lane_prop lane ''targetChain'')) @ [Tag ''/span'',
      Text (nl 8), Tag ''span class="mono"'', Text (short (coerce (lane_prop lane ''targetRecipient'')) @
        (if js_truthy (lane_prop lane ''needsVerify'') then '' '' @ MIDDOT @ '' unverified'' else [])), Tag ''/span'',
      Text (nl 8), Tag ''strong'', Text (case balance of None \<Rightarrow> DASH | Some n \<Rightarrow> formatUsdc (int_string 10 n) 2 @ '' USDC''), Tag ''/strong'']\<close>

interpretation private_row: template "\<lambda>(lane, balance). private_row_html lane balance" "\<lambda>(lane, balance). private_nodes lane balance"
  by unfold_locales (auto simp: private_row_html_def private_nodes_def balance_text_def html_simps split: option.splits)

lemmas private_row_reads = private_row.reads [where x = "(lane, balance)" for lane balance, simplified]

text \<open>
  The private lanes shown. There is one row for each lane of the chosen chain; the browser finds in it the fixed elements with the
  lane's account and balance as text. The total is the sum of the balances that could be read, and the claim button can be
  pressed only when no claim is under way and the selected lane has a positive balance.
\<close>

lemma private_list_shows:
  "list_all2 (\<lambda>row r. read_html (pr_html row) = tidy (private_nodes (fst r) (snd r)) \<and>
       (pr_class row = ''history-row selected'' \<longleftrightarrow> is_selected pg (fst r)))
     (pv_rows (render pg)) (visibleRows pg) \<and>
   pv_total (render pg) = formatUsdc (int_string 10 (sum_list (map (\<lambda>r. case snd r of None \<Rightarrow> 0 | Some b \<Rightarrow> b) (visibleRows pg)))) 2 @ '' USDC'' \<and>
   (\<not> pv_disabled (render pg) \<longleftrightarrow> \<not> pg_busy pg \<and> (case pg_selected pg of Some (lane, Some b) \<Rightarrow> 0 < b | _ \<Rightarrow> False))"
  by (simp add: render_def Let_def list_all2_conv_all_nth private_row_def private_row_reads
      shown_total_def case_prod_unfold can_claim_def)

text \<open>The filter is always \<open>ALL\<close> or a chain's name as the lanes have it, and the menu marks the option that was pressed.\<close>

lemma pick_chain_menu:
  "pg_filter (fst (pick_chain option s)) = filter_of option \<and> \<not> cm_open (snd (pick_chain option s)) \<and>
   (\<forall>(k, b) \<in> set (cm_options (snd (pick_chain option s))). b \<longleftrightarrow> k = option)"
  by (auto simp: pick_chain_def Let_def)

text \<open>A failed verification or import leaves the selection and the rows as they are.\<close>

lemma verify_selected_keeps: "fst (verify_selected site pg s) = pg\<lparr>pg_status := pg_status (fst (verify_selected site pg s))\<rparr>"
  by (auto simp: verify_selected_def split: option.splits sum.splits prod.splits)

text \<open>
  A verification is not shown. Whatever comes of it, the page is drawn exactly as before: the row of the selected lane still calls it
  unverified when it did, although the stored lane has lost the mark, until the balances are read anew.
\<close>

lemma verification_not_shown:
  "render (fst (verify_selected site pg s)) = render pg \<and>
   pg_rows (fst (verify_selected site pg s)) = pg_rows pg \<and> pg_selected (fst (verify_selected site pg s)) = pg_selected pg"
proof -
  have e: "fst (verify_selected site pg s) = pg\<lparr>pg_status := pg_status (fst (verify_selected site pg s))\<rparr>"
    by (rule verify_selected_keeps)
  have "render (pg\<lparr>pg_status := x\<rparr>) = render pg" for x
    by (simp add: render_def Let_def visibleRows_def shown_total_def can_claim_def private_row_def is_selected_def)
  then show ?thesis by (subst (1 2 3) e) simp
qed

text \<open>What an import says is lost at once: reading the balances anew writes its own status.\<close>

lemma import_message_lost:
  "import_file quota now bytes parsed st = (st', Inr r) \<Longrightarrow> fst (import_private sha net quota now bytes parsed (pg, st)) = refresh sha net st' pg"
  by (cases r) (simp add: import_private_def refresh_def Let_def)

end
