(* ===== verification/Solana_Program.thy ===== *)
theory Solana_Program
  imports Solana_Pda
begin

text \<open>
  The factory program on Solana that the scripts talk to, \<open>programs/solana_beanie/src/lib.rs\<close>: its accounts, the instructions
  \<open>initialize_factory\<close>, \<open>announce_merchant\<close>, \<open>register_merchant\<close> and \<open>sweep\<close> with the constraints on their accounts, and what
  they ask of the token program and of CCTP. An instruction is a function from the accounts of the chain; a failed one
  changes nothing. The derivation of addresses and the hash are the Solana SDK's, the parameter \<open>sdk\<close>.
\<close>

section \<open>Errors\<close>

datatype deposit_error =
    ArithmeticOverflow | WrongReceiver | WrongMerchant | WrongTreasury | WrongMint | InvalidDomain | CrossChainRequiresRecipient
  | SameChainRecipientMustBeZero | DuplicateDomains | MaxReceiversExceeded | WrongCctpProgram | WrongCaller | MissingMerchantAccount
  | MissingCctpAccounts | WrongStagingAccount | NonCanonicalReceiverAta | EmptyRegTx | RegTxTooLarge

text \<open>Errors of the program, and those of the framework that checks the accounts.\<close>

datatype program_error =
    Deposit deposit_error
  | NotASigner | NotInitialized | AlreadyInUse | SeedsMismatch | NoProgramAddress

definition try_do :: "'e + 'a \<Rightarrow> ('a \<Rightarrow> 'e + 'b) \<Rightarrow> 'e + 'b" where
  "try_do r f = (case r of Inl e \<Rightarrow> Inl e | Inr x \<Rightarrow> f x)"

definition check :: "bool \<Rightarrow> 'e \<Rightarrow> 'e + unit" where
  "check b e = (if b then Inr () else Inl e)"

definition given :: "'a option \<Rightarrow> 'e \<Rightarrow> 'e + 'a" where
  "given x e = (case x of None \<Rightarrow> Inl e | Some y \<Rightarrow> Inr y)"

lemma try_do_Inr: "try_do r f = Inr y \<longleftrightarrow> (\<exists>x. r = Inr x \<and> f x = Inr y)"
  by (auto simp: try_do_def split: sum.splits)

lemma try_doE: "try_do r f = Inr y \<Longrightarrow> (\<And>x. r = Inr x \<Longrightarrow> f x = Inr y \<Longrightarrow> Q) \<Longrightarrow> Q"
  by (auto simp: try_do_Inr)

lemma try_do_pairE: "try_do r (\<lambda>(a, b). g a b) = Inr y \<Longrightarrow> (\<And>a b. r = Inr (a, b) \<Longrightarrow> g a b = Inr y \<Longrightarrow> Q) \<Longrightarrow> Q"
  by (auto simp: try_do_Inr)

lemma check_Inr: "check b e = Inr u \<longleftrightarrow> b"
  by (simp add: check_def)

lemma given_Inr: "given x e = Inr y \<longleftrightarrow> x = Some y"
  by (simp add: given_def split: option.splits)

lemmas program_Inr = try_do_Inr check_Inr given_Inr

section \<open>Constants\<close>

definition FEE_BPS :: "64 word" where "FEE_BPS = 50"
definition BPS_DENOM :: "64 word" where "BPS_DENOM = 10000"
definition CALLER_SHARE_BPS :: "64 word" where "CALLER_SHARE_BPS = 1000"
definition MAX_RECEIVERS_PER_MERCHANT :: nat where "MAX_RECEIVERS_PER_MERCHANT = 32"
definition CCTP_MAX_FEE_BPS :: "64 word" where "CCTP_MAX_FEE_BPS = 3"
definition CCTP_MIN_FINALITY_THRESHOLD :: "32 word" where "CCTP_MIN_FINALITY_THRESHOLD = 1000"
definition MAX_REG_TX_BYTES :: nat where "MAX_REG_TX_BYTES = 1024"

definition FACTORY_SEED :: bytes where "FACTORY_SEED = utf8 ''factory''"
definition CONFIG_SEED :: bytes where "CONFIG_SEED = utf8 ''config''"
definition PENDING_SEED :: bytes where "PENDING_SEED = utf8 ''pending''"
definition REGISTRY_SEED :: bytes where "REGISTRY_SEED = utf8 ''registry''"

definition CCTP_TOKEN_MESSENGER_MINTER_V2 :: string where
  "CCTP_TOKEN_MESSENGER_MINTER_V2 = ''CCTPV2vPZJS2u2BBsUoscuikbYjnpFmbFsvVuJdgUMQe''"

definition CCTP_MESSAGE_TRANSMITTER_V2 :: string where
  "CCTP_MESSAGE_TRANSMITTER_V2 = ''CCTPV2Sm4AdWt5296sk4P66VBZ7bEhcARwFaaS9YPbeC''"

definition SAME_CHAIN_DOMAIN_SENTINEL :: "32 word" where
  "SAME_CHAIN_DOMAIN_SENTINEL = - 1"

section \<open>Accounts\<close>

record factory_config =
  fc_mint :: bytes
  fc_treasury :: bytes
  fc_starknet :: "32 word"
  fc_base :: "32 word"
  fc_ethereum :: "32 word"
  fc_monad :: "32 word"
  fc_arbitrum :: "32 word"
  fc_bump :: byte

record receiver_config =
  cf_receiver :: bytes
  cf_merchant :: bytes
  cf_mint :: bytes
  cf_merchant_token_account :: bytes
  cf_chain :: bytes
  cf_recipient :: bytes
  cf_domain :: "32 word"
  cf_bump :: byte

record pending_registration =
  pn_bump :: byte
  pn_reg_tx :: bytes

record merchant_registry =
  mr_merchant :: bytes
  mr_count :: "16 word"
  mr_receivers :: "bytes list"

record token_account =
  tk_mint :: bytes
  tk_owner :: bytes
  tk_amount :: "64 word"

datatype stored =
    Factory factory_config
  | Config receiver_config
  | Pending pending_registration
  | Registry merchant_registry
  | TokenAccount token_account
  | Mint

type_synonym chain_state_map = "bytes \<rightharpoonup> stored"

text \<open>
  The SDK: the address of a program and its bump for a list of seeds, the address for a given bump, the associated token account
  of an owner and a mint, and SHA-256. An address is \<open>None\<close> when there is none.
\<close>

record sdk =
  find_address :: "bytes list \<Rightarrow> (bytes \<times> byte) option"
  address_at :: "bytes list \<Rightarrow> byte \<Rightarrow> bytes option"
  token_address :: "bytes \<Rightarrow> bytes \<Rightarrow> bytes option"
  sdk_hash :: "bytes \<Rightarrow> bytes"

section \<open>Routes\<close>

definition ZERO_BYTES :: bytes where
  "ZERO_BYTES = replicate 32 0"

definition chain_name_seed :: "bytes \<Rightarrow> bytes" where
  "chain_name_seed name = (let len = min (length name) 32 in take len name @ replicate (32 - len) 0)"

definition resolve_domain :: "factory_config \<Rightarrow> bytes \<Rightarrow> 32 word option" where
  "resolve_domain factory chain =
     (if chain = chain_name_seed (utf8 ''STARKNET'') then Some (fc_starknet factory)
      else if chain = chain_name_seed (utf8 ''BASE'') then Some (fc_base factory)
      else if chain = chain_name_seed (utf8 ''ETHEREUM'') then Some (fc_ethereum factory)
      else if chain = chain_name_seed (utf8 ''MONAD'') then Some (fc_monad factory)
      else if chain = chain_name_seed (utf8 ''ARBITRUM'') then Some (fc_arbitrum factory)
      else None)"

definition validate_route :: "factory_config \<Rightarrow> bytes \<Rightarrow> bytes \<Rightarrow> program_error + 32 word" where
  "validate_route factory chain recipient =
     (if chain \<noteq> ZERO_BYTES then
        try_do (check (recipient \<noteq> ZERO_BYTES) (Deposit CrossChainRequiresRecipient)) (\<lambda>u.
          given (resolve_domain factory chain) (Deposit InvalidDomain))
      else
        try_do (check (recipient = ZERO_BYTES) (Deposit SameChainRecipientMustBeZero)) (\<lambda>u. Inr SAME_CHAIN_DOMAIN_SENTINEL))"

section \<open>Checks of the framework\<close>

text \<open>
  An account that is loaded has the type it is declared with. One that is created must be at the address of its seeds and not yet
  exist; a stored bump must give the account's own address.
\<close>

definition load_token :: "chain_state_map \<Rightarrow> bytes \<Rightarrow> program_error + token_account" where
  "load_token led k = (case led k of Some (TokenAccount t) \<Rightarrow> Inr t | _ \<Rightarrow> Inl NotInitialized)"

definition load_factory :: "sdk \<Rightarrow> chain_state_map \<Rightarrow> bytes \<Rightarrow> program_error + factory_config" where
  "load_factory sdk led k =
     (case led k of
        Some (Factory fc) \<Rightarrow> try_do (check (address_at sdk [FACTORY_SEED] (fc_bump fc) = Some k) SeedsMismatch) (\<lambda>u. Inr fc)
      | _ \<Rightarrow> Inl NotInitialized)"

definition create_at :: "sdk \<Rightarrow> chain_state_map \<Rightarrow> bytes list \<Rightarrow> bytes \<Rightarrow> program_error + byte" where
  "create_at sdk led seeds k =
     try_do (given (find_address sdk seeds) NoProgramAddress) (\<lambda>(a, bump).
     try_do (check (k = a) SeedsMismatch) (\<lambda>u.
     try_do (check (led k = None) AlreadyInUse) (\<lambda>u. Inr bump)))"

definition ata :: "sdk \<Rightarrow> bytes \<Rightarrow> bytes \<Rightarrow> program_error + bytes" where
  "ata sdk owner mint = given (token_address sdk owner mint) NoProgramAddress"

section \<open>What an instruction does\<close>

record announced =
  an_merchant :: bytes
  an_receiver :: bytes
  an_receiver_token_account :: bytes
  an_receiver_config :: bytes
  an_staging :: bytes
  an_pending :: bytes
  an_chain :: bytes
  an_recipient :: bytes

text \<open>The events, less the slot of the clock that a sweep adds. No result depends on the order in which the framework checks the accounts.\<close>

datatype program_event =
    FactoryInitialized bytes bytes "32 word list"
  | ReceiverAnnounced announced
  | ReceiverRegistered bytes bytes bytes bytes bytes bytes
  | Swept bytes bytes "64 word list"
  | SweptCrossChain bytes bytes "64 word list" "32 word" "64 word"

text \<open>Calls of other programs: of the token program, and any other with the accounts (writable, signer) and the data.\<close>

datatype cpi =
    Approve bytes bytes bytes "64 word"
  | SetCloseAuthority bytes bytes bytes
  | Transfer bytes bytes bytes "64 word"
  | Invoke bytes "(bytes \<times> bool \<times> bool) list" bytes

record outcome_of =
  oc_accounts :: chain_state_map
  oc_calls :: "cpi list"
  oc_event :: "program_event option"

section \<open>initialize_factory\<close>

record init_accounts =
  in_payer :: bytes
  in_mint :: bytes
  in_treasury :: bytes
  in_factory :: bytes

definition initialize_factory :: "sdk \<Rightarrow> bytes set \<Rightarrow> init_accounts \<Rightarrow> 32 word \<Rightarrow> 32 word \<Rightarrow> 32 word \<Rightarrow> 32 word \<Rightarrow> 32 word \<Rightarrow>
    chain_state_map \<Rightarrow> program_error + outcome_of" where
  "initialize_factory sdk signers accs starknet base ethereum monad arbitrum led =
     try_do (check (in_payer accs \<in> signers) NotASigner) (\<lambda>u.
     try_do (check (led (in_mint accs) = Some Mint) NotInitialized) (\<lambda>u.
     try_do (load_token led (in_treasury accs)) (\<lambda>treasury.
     try_do (create_at sdk led [FACTORY_SEED] (in_factory accs)) (\<lambda>bump.
     try_do (check (tk_mint treasury = in_mint accs) (Deposit WrongMint)) (\<lambda>u.
     let domains = [starknet, base, ethereum, monad, arbitrum] in
     try_do (check (distinct domains) (Deposit DuplicateDomains)) (\<lambda>u.
       Inr \<lparr>oc_accounts = led(in_factory accs \<mapsto> Factory \<lparr>fc_mint = in_mint accs, fc_treasury = in_treasury accs, fc_starknet = starknet,
              fc_base = base, fc_ethereum = ethereum, fc_monad = monad, fc_arbitrum = arbitrum, fc_bump = bump\<rparr>),
            oc_calls = [], oc_event = Some (FactoryInitialized (in_mint accs) (in_treasury accs) domains)\<rparr>))))))"

section \<open>announce_merchant\<close>

text \<open>The seeds of an account that belongs to a receiver and its route.\<close>

definition route_seeds :: "bytes \<Rightarrow> bytes \<Rightarrow> bytes \<Rightarrow> bytes \<Rightarrow> bytes \<Rightarrow> bytes list" where
  "route_seeds seed merchant receiver chain recipient = [seed, merchant, receiver, chain, recipient]"

record announce_accounts =
  aa_payer :: bytes
  aa_factory :: bytes
  aa_pending :: bytes

definition announce_merchant :: "sdk \<Rightarrow> bytes set \<Rightarrow> announce_accounts \<Rightarrow> bytes \<Rightarrow> bytes \<Rightarrow> bytes \<Rightarrow> bytes \<Rightarrow> bytes \<Rightarrow>
    chain_state_map \<Rightarrow> program_error + outcome_of" where
  "announce_merchant sdk signers accs merchant chain recipient receiver reg_tx led =
     try_do (check (aa_payer accs \<in> signers) NotASigner) (\<lambda>u.
     try_do (load_factory sdk led (aa_factory accs)) (\<lambda>factory.
     try_do (create_at sdk led (route_seeds PENDING_SEED merchant receiver chain recipient) (aa_pending accs)) (\<lambda>bump.
     try_do (check (reg_tx \<noteq> []) (Deposit EmptyRegTx)) (\<lambda>u.
     try_do (check (length reg_tx \<le> MAX_REG_TX_BYTES) (Deposit RegTxTooLarge)) (\<lambda>u.
     try_do (validate_route factory chain recipient) (\<lambda>domain.
     try_do (ata sdk receiver (fc_mint factory)) (\<lambda>receiver_token_account.
     try_do (given (find_address sdk (route_seeds CONFIG_SEED merchant receiver chain recipient)) NoProgramAddress) (\<lambda>(config, b).
     try_do (ata sdk config (fc_mint factory)) (\<lambda>staging.
       Inr \<lparr>oc_accounts = led(aa_pending accs \<mapsto> Pending \<lparr>pn_bump = bump, pn_reg_tx = reg_tx\<rparr>),
            oc_calls = [],
            oc_event = Some (ReceiverAnnounced \<lparr>an_merchant = merchant, an_receiver = receiver,
              an_receiver_token_account = receiver_token_account, an_receiver_config = config, an_staging = staging,
              an_pending = aa_pending accs, an_chain = chain, an_recipient = recipient\<rparr>)\<rparr>)))))))))"

section \<open>register_merchant\<close>

record register_accounts =
  ra_payer :: bytes
  ra_receiver :: bytes
  ra_factory :: bytes
  ra_receiver_token :: bytes
  ra_merchant_token :: bytes
  ra_config :: bytes
  ra_staging :: bytes
  ra_registry :: bytes
  ra_pending :: bytes

definition zero_config :: receiver_config where
  "zero_config = \<lparr>cf_receiver = ZERO_BYTES, cf_merchant = ZERO_BYTES, cf_mint = ZERO_BYTES, cf_merchant_token_account = ZERO_BYTES,
     cf_chain = ZERO_BYTES, cf_recipient = ZERO_BYTES, cf_domain = 0, cf_bump = 0\<rparr>"

definition zero_registry :: merchant_registry where
  "zero_registry = \<lparr>mr_merchant = ZERO_BYTES, mr_count = 0, mr_receivers = replicate MAX_RECEIVERS_PER_MERCHANT ZERO_BYTES\<rparr>"

text \<open>\<open>init_if_needed\<close>: a registry that does not exist is created empty.\<close>

definition load_registry :: "sdk \<Rightarrow> chain_state_map \<Rightarrow> bytes \<Rightarrow> bytes \<Rightarrow> program_error + merchant_registry" where
  "load_registry sdk led merchant k =
     try_do (given (find_address sdk [REGISTRY_SEED, merchant]) NoProgramAddress) (\<lambda>(a, bump).
     try_do (check (k = a) SeedsMismatch) (\<lambda>u.
       case led k of None \<Rightarrow> Inr zero_registry | Some (Registry r) \<Rightarrow> Inr r | _ \<Rightarrow> Inl NotInitialized))"

definition load_pending :: "sdk \<Rightarrow> chain_state_map \<Rightarrow> bytes list \<Rightarrow> bytes \<Rightarrow> program_error + pending_registration" where
  "load_pending sdk led seeds k =
     (case led k of
        Some (Pending p) \<Rightarrow> try_do (check (address_at sdk seeds (pn_bump p) = Some k) SeedsMismatch) (\<lambda>u. Inr p)
      | _ \<Rightarrow> Inl NotInitialized)"

definition register_entry :: "bytes \<Rightarrow> bytes \<Rightarrow> merchant_registry \<Rightarrow> merchant_registry" where
  "register_entry merchant config r =
     r\<lparr>mr_merchant := (if mr_merchant r = ZERO_BYTES then merchant else mr_merchant r),
       mr_receivers := (mr_receivers r)[unat (mr_count r) := config], mr_count := mr_count r + 1\<rparr>"

definition register_merchant :: "sdk \<Rightarrow> bytes set \<Rightarrow> register_accounts \<Rightarrow> bytes \<Rightarrow> bytes \<Rightarrow> bytes \<Rightarrow>
    chain_state_map \<Rightarrow> program_error + outcome_of" where
  "register_merchant sdk signers accs merchant chain recipient led =
     (let receiver = ra_receiver accs; seeds = \<lambda>seed. route_seeds seed merchant receiver chain recipient in
     try_do (check (ra_payer accs \<in> signers \<and> receiver \<in> signers) NotASigner) (\<lambda>u.
     try_do (load_factory sdk led (ra_factory accs)) (\<lambda>factory.
     try_do (load_token led (ra_receiver_token accs)) (\<lambda>receiver_token.
     try_do (load_token led (ra_merchant_token accs)) (\<lambda>merchant_token.
     try_do (create_at sdk led (seeds CONFIG_SEED) (ra_config accs)) (\<lambda>bump.
     let led1 = led(ra_config accs \<mapsto> Config zero_config) in
     try_do (load_token led1 (ra_staging accs)) (\<lambda>staging.
     try_do (load_registry sdk led1 merchant (ra_registry accs)) (\<lambda>registry.
     try_do (load_pending sdk led1 (seeds PENDING_SEED) (ra_pending accs)) (\<lambda>pending.
     try_do (check (tk_mint receiver_token = fc_mint factory) (Deposit WrongMint)) (\<lambda>u.
     try_do (check (tk_owner receiver_token = receiver) (Deposit WrongReceiver)) (\<lambda>u.
     try_do (ata sdk receiver (fc_mint factory)) (\<lambda>receiver_ata.
     try_do (check (ra_receiver_token accs = receiver_ata) (Deposit NonCanonicalReceiverAta)) (\<lambda>u.
     try_do (check (tk_mint merchant_token = fc_mint factory) (Deposit WrongMint)) (\<lambda>u.
     try_do (check (tk_mint staging = fc_mint factory) (Deposit WrongMint)) (\<lambda>u.
     try_do (ata sdk (ra_config accs) (fc_mint factory)) (\<lambda>staging_ata.
     try_do (check (ra_staging accs = staging_ata) (Deposit WrongStagingAccount)) (\<lambda>u.
     try_do (check (unat (mr_count registry) < MAX_RECEIVERS_PER_MERCHANT) (Deposit MaxReceiversExceeded)) (\<lambda>u.
     try_do (validate_route factory chain recipient) (\<lambda>domain.
       Inr \<lparr>oc_accounts = (led1(ra_config accs \<mapsto> Config \<lparr>cf_receiver = receiver, cf_merchant = merchant, cf_mint = fc_mint factory,
                cf_merchant_token_account = ra_merchant_token accs, cf_chain = chain, cf_recipient = recipient,
                cf_domain = domain, cf_bump = bump\<rparr>,
              ra_registry accs \<mapsto> Registry (register_entry merchant (ra_config accs) registry)))(ra_pending accs := None),
            oc_calls = [Approve (ra_receiver_token accs) (ra_config accs) receiver (- 1),
              SetCloseAuthority (ra_receiver_token accs) receiver (ra_config accs)],
            oc_event = Some (ReceiverRegistered merchant receiver (ra_config accs) (ra_receiver_token accs) chain recipient)\<rparr>)))))))))))))))))))"

section \<open>sweep\<close>

definition checked_mul :: "64 word \<Rightarrow> 64 word \<Rightarrow> 64 word option" where
  "checked_mul a b = (if unat a * unat b < 2 ^ 64 then Some (a * b) else None)"

definition checked_div :: "64 word \<Rightarrow> 64 word \<Rightarrow> 64 word option" where
  "checked_div a b = (if b = 0 then None else Some (a div b))"

definition checked_sub :: "64 word \<Rightarrow> 64 word \<Rightarrow> 64 word option" where
  "checked_sub a b = (if b \<le> a then Some (a - b) else None)"

text \<open>A share of an amount in basis points.\<close>

definition bps :: "64 word \<Rightarrow> 64 word \<Rightarrow> program_error + 64 word" where
  "bps amount rate =
     try_do (given (checked_mul amount rate) (Deposit ArithmeticOverflow)) (\<lambda>p.
       given (checked_div p BPS_DENOM) (Deposit ArithmeticOverflow))"

record fee_split =
  sp_fee :: "64 word"
  sp_net :: "64 word"
  sp_caller :: "64 word"
  sp_treasury :: "64 word"

definition split_fee :: "64 word \<Rightarrow> program_error + fee_split" where
  "split_fee balance =
     try_do (bps balance FEE_BPS) (\<lambda>fee.
     try_do (given (checked_sub balance fee) (Deposit ArithmeticOverflow)) (\<lambda>net.
     try_do (bps fee CALLER_SHARE_BPS) (\<lambda>caller.
     try_do (given (checked_sub fee caller) (Deposit ArithmeticOverflow)) (\<lambda>treasury.
       Inr \<lparr>sp_fee = fee, sp_net = net, sp_caller = caller, sp_treasury = treasury\<rparr>))))"

text \<open>The optional accounts of a transfer through CCTP.\<close>

datatype cctp_role =
    BurnStaging | EventRentPayer | EventData | BurnMint | SenderAuthority | Denylist | MessageTransmitter | TokenMessenger
  | RemoteTokenMessenger | TokenMinter | LocalToken | EventAuthority | TransmitterProgram | MessengerMinterProgram

definition CCTP_ROLES :: "cctp_role list" where
  "CCTP_ROLES = [BurnStaging, EventRentPayer, EventData, BurnMint, SenderAuthority, Denylist, MessageTransmitter, TokenMessenger,
     RemoteTokenMessenger, TokenMinter, LocalToken, EventAuthority, TransmitterProgram, MessengerMinterProgram]"

record sweep_accounts =
  sw_caller :: bytes
  sw_caller_token :: bytes
  sw_receiver_token :: bytes
  sw_factory :: bytes
  sw_treasury :: bytes
  sw_config :: bytes
  sw_merchant_token :: "bytes option"
  sw_cctp :: "cctp_role \<Rightarrow> bytes option"

definition key_of :: "string \<Rightarrow> bytes" where
  "key_of s = (case base58Decode s of None \<Rightarrow> [] | Some b \<Rightarrow> b)"

definition SYSTEM_PROGRAM :: bytes where
  "SYSTEM_PROGRAM = ZERO_BYTES"

definition u64_bytes :: "64 word \<Rightarrow> bytes" where
  "u64_bytes w = u64_loop 8 (uint w)"

definition u32_bytes :: "32 word \<Rightarrow> bytes" where
  "u32_bytes w = u64_loop 4 (uint w)"

text \<open>The data of \<open>deposit_for_burn\<close>: the discriminator and the parameters in order.\<close>

definition burn_data :: "sdk \<Rightarrow> 64 word \<Rightarrow> 32 word \<Rightarrow> bytes \<Rightarrow> 64 word \<Rightarrow> bytes" where
  "burn_data sdk amount domain recipient max_fee =
     take 8 (sdk_hash sdk (utf8 ''global:deposit_for_burn'')) @ u64_bytes amount @ u32_bytes domain @ recipient @ ZERO_BYTES @
     u64_bytes max_fee @ u32_bytes CCTP_MIN_FINALITY_THRESHOLD"

definition burn_accounts :: "bytes \<Rightarrow> (cctp_role \<Rightarrow> bytes) \<Rightarrow> (bytes \<times> bool \<times> bool) list" where
  "burn_accounts config role =
     [(config, False, True), (role EventRentPayer, True, True), (role SenderAuthority, False, False), (role BurnStaging, True, False),
      (role Denylist, False, False), (role MessageTransmitter, True, False), (role TokenMessenger, False, False),
      (role RemoteTokenMessenger, False, False), (role TokenMinter, False, False), (role LocalToken, True, False),
      (role BurnMint, True, False), (role EventData, True, True), (role TransmitterProgram, False, False),
      (role MessengerMinterProgram, False, False), (key_of TOKEN_PROGRAM, False, False), (SYSTEM_PROGRAM, False, False),
      (role EventAuthority, False, False), (role MessengerMinterProgram, False, False)]"

definition load_config :: "sdk \<Rightarrow> chain_state_map \<Rightarrow> bytes \<Rightarrow> program_error + receiver_config" where
  "load_config sdk led k =
     (case led k of
        Some (Config c) \<Rightarrow>
          try_do (check (address_at sdk (route_seeds CONFIG_SEED (cf_merchant c) (cf_receiver c) (cf_chain c) (cf_recipient c)) (cf_bump c) = Some k)
            SeedsMismatch) (\<lambda>u. Inr c)
      | _ \<Rightarrow> Inl NotInitialized)"

text \<open>The types of the optional accounts that are given.\<close>

definition cctp_typed :: "bytes set \<Rightarrow> chain_state_map \<Rightarrow> (cctp_role \<Rightarrow> bytes option) \<Rightarrow> program_error + unit" where
  "cctp_typed signers led role =
     try_do (check (case role BurnStaging of None \<Rightarrow> True | Some k \<Rightarrow> (case led k of Some (TokenAccount t) \<Rightarrow> True | _ \<Rightarrow> False)) NotInitialized) (\<lambda>u.
     try_do (check (case role EventRentPayer of None \<Rightarrow> True | Some k \<Rightarrow> k \<in> signers) NotASigner) (\<lambda>u.
     try_do (check (case role EventData of None \<Rightarrow> True | Some k \<Rightarrow> k \<in> signers) NotASigner) (\<lambda>u.
       check (case role BurnMint of None \<Rightarrow> True | Some k \<Rightarrow> led k = Some Mint) NotInitialized)))"

text \<open>The two transfers of the fee; a share of zero is not transferred.\<close>

definition fee_transfers :: "sweep_accounts \<Rightarrow> fee_split \<Rightarrow> cpi list" where
  "fee_transfers accs sp =
     (if sp_caller sp > 0 then [Transfer (sw_receiver_token accs) (sw_caller_token accs) (sw_config accs) (sp_caller sp)] else []) @
     (if sp_treasury sp > 0 then [Transfer (sw_receiver_token accs) (sw_treasury accs) (sw_config accs) (sp_treasury sp)] else [])"

definition sweep_local :: "sweep_accounts \<Rightarrow> receiver_config \<Rightarrow> 64 word \<Rightarrow> fee_split \<Rightarrow> chain_state_map \<Rightarrow> program_error + outcome_of" where
  "sweep_local accs c balance sp led =
     try_do (given (sw_merchant_token accs) (Deposit MissingMerchantAccount)) (\<lambda>merchant_token.
     try_do (check (merchant_token = cf_merchant_token_account c) (Deposit WrongMerchant)) (\<lambda>u.
       Inr \<lparr>oc_accounts = led,
            oc_calls = fee_transfers accs sp @ [Transfer (sw_receiver_token accs) merchant_token (sw_config accs) (sp_net sp)],
            oc_event = Some (Swept (sw_config accs) (cf_receiver c) [balance, sp_net sp, sp_fee sp, sp_caller sp, sp_treasury sp])\<rparr>))"

definition sweep_remote :: "sdk \<Rightarrow> sweep_accounts \<Rightarrow> factory_config \<Rightarrow> receiver_config \<Rightarrow> 64 word \<Rightarrow> fee_split \<Rightarrow> chain_state_map \<Rightarrow>
    program_error + outcome_of" where
  "sweep_remote sdk accs factory c balance sp led =
     try_do (check (list_all (\<lambda>r. sw_cctp accs r \<noteq> None) CCTP_ROLES) (Deposit MissingCctpAccounts)) (\<lambda>u.
     let role = \<lambda>r. the (sw_cctp accs r) in
     try_do (check (role MessengerMinterProgram = key_of CCTP_TOKEN_MESSENGER_MINTER_V2) (Deposit WrongCctpProgram)) (\<lambda>u.
     try_do (check (role TransmitterProgram = key_of CCTP_MESSAGE_TRANSMITTER_V2) (Deposit WrongCctpProgram)) (\<lambda>u.
     try_do (ata sdk (sw_config accs) (fc_mint factory)) (\<lambda>expected_staging.
     try_do (check (role BurnStaging = expected_staging) (Deposit WrongStagingAccount)) (\<lambda>u.
     try_do (bps balance CCTP_MAX_FEE_BPS) (\<lambda>max_fee.
       Inr \<lparr>oc_accounts = led,
            oc_calls = fee_transfers accs sp @
              [Transfer (sw_receiver_token accs) (role BurnStaging) (sw_config accs) (sp_net sp),
               Invoke (role MessengerMinterProgram) (burn_accounts (sw_config accs) role)
                 (burn_data sdk (sp_net sp) (cf_domain c) (cf_recipient c) max_fee)],
            oc_event = Some (SweptCrossChain (sw_config accs) (cf_receiver c)
              [balance, sp_net sp, sp_fee sp, sp_caller sp, sp_treasury sp] (cf_domain c) max_fee)\<rparr>))))))"

definition sweep :: "sdk \<Rightarrow> bytes set \<Rightarrow> sweep_accounts \<Rightarrow> chain_state_map \<Rightarrow> program_error + outcome_of" where
  "sweep sdk signers accs led =
     try_do (check (sw_caller accs \<in> signers) NotASigner) (\<lambda>u.
     try_do (load_token led (sw_caller_token accs)) (\<lambda>caller_token.
     try_do (load_token led (sw_receiver_token accs)) (\<lambda>receiver_token.
     try_do (load_factory sdk led (sw_factory accs)) (\<lambda>factory.
     try_do (load_token led (sw_treasury accs)) (\<lambda>treasury_token.
     try_do (load_config sdk led (sw_config accs)) (\<lambda>c.
     try_do (case sw_merchant_token accs of None \<Rightarrow> Inr () | Some k \<Rightarrow> try_do (load_token led k) (\<lambda>t. Inr ())) (\<lambda>u.
     try_do (cctp_typed signers led (sw_cctp accs)) (\<lambda>u.
     try_do (check (tk_owner caller_token = sw_caller accs) (Deposit WrongCaller)) (\<lambda>u.
     try_do (check (tk_mint caller_token = fc_mint factory) (Deposit WrongMint)) (\<lambda>u.
     try_do (ata sdk (cf_receiver c) (fc_mint factory)) (\<lambda>receiver_ata.
     try_do (check (sw_receiver_token accs = receiver_ata) (Deposit WrongReceiver)) (\<lambda>u.
     try_do (check (sw_treasury accs = fc_treasury factory) (Deposit WrongTreasury)) (\<lambda>u.
     let balance = tk_amount receiver_token in
     if balance = 0 then Inr \<lparr>oc_accounts = led, oc_calls = [], oc_event = None\<rparr>
     else try_do (split_fee balance) (\<lambda>sp.
       if cf_chain c = ZERO_BYTES then sweep_local accs c balance sp led
       else sweep_remote sdk accs factory c balance sp led))))))))))))))"

end
