(* ===== verification/Program_Sound.thy ===== *)
theory Program_Sound
  imports Solana_Program
begin

text \<open>
  What the factory program of \<open>lib.rs\<close> guarantees: a sweep moves out exactly the balance, the accounts keep their invariant under
  every sequence of instructions, and what was registered is final.
\<close>

section \<open>Amounts\<close>

lemma unat_fits: "unat a * unat b < 2 ^ 64 \<Longrightarrow> unat (a * b :: 64 word) = unat a * unat b"
  using unat_mult_lem [of a b] by simp

lemma bps_eq: "bps a r = (if unat a * unat r < 2 ^ 64 then Inr (a * r div BPS_DENOM) else Inl (Deposit ArithmeticOverflow))"
  by (simp add: bps_def try_do_def given_def checked_mul_def checked_div_def BPS_DENOM_def)

lemma bps_amount: "unat a * unat r < 2 ^ 64 \<Longrightarrow> unat (a * r div BPS_DENOM) = unat a * unat r div 10000"
  by (simp add: unat_div unat_fits BPS_DENOM_def)

text \<open>
  The split of a balance: half a percent, rounded down, is the fee; a tenth of that, rounded down, is the caller's; everything else is
  accounted for. It fails only when 50 times the balance does not fit 64 bits.
\<close>

lemma split_fee_exact:
  "(case split_fee balance of
      Inl e \<Rightarrow> 2 ^ 64 \<le> unat balance * 50 \<and> e = Deposit ArithmeticOverflow
    | Inr sp \<Rightarrow> unat balance * 50 < 2 ^ 64 \<and>
        unat (sp_fee sp) = unat balance * 50 div 10000 \<and>
        unat (sp_net sp) + unat (sp_fee sp) = unat balance \<and>
        unat (sp_caller sp) = unat (sp_fee sp) div 10 \<and>
        unat (sp_caller sp) + unat (sp_treasury sp) = unat (sp_fee sp))"
proof (cases "unat balance * 50 < 2 ^ 64")
  case False
  then have "bps balance FEE_BPS = Inl (Deposit ArithmeticOverflow)" by (simp add: bps_eq FEE_BPS_def)
  then show ?thesis using False by (simp add: split_fee_def try_do_def)
next
  case True
  define fee where "fee = balance * FEE_BPS div BPS_DENOM"
  have 1: "bps balance FEE_BPS = Inr fee" "unat fee = unat balance * 50 div 10000"
    using True bps_amount [of balance FEE_BPS] by (simp_all add: bps_eq fee_def FEE_BPS_def)
  then have le: "unat fee \<le> unat balance" and small: "unat fee * 1000 < 2 ^ 64" using True by simp_all
  define caller where "caller = fee * CALLER_SHARE_BPS div BPS_DENOM"
  have 2: "bps fee CALLER_SHARE_BPS = Inr caller" "unat caller = unat fee * 1000 div 10000"
    using small bps_amount [of fee CALLER_SHARE_BPS] by (simp_all add: bps_eq caller_def CALLER_SHARE_BPS_def)
  have "split_fee balance = Inr \<lparr>sp_fee = fee, sp_net = balance - fee, sp_caller = caller, sp_treasury = fee - caller\<rparr>"
    using 1(1) 2 le by (simp add: split_fee_def try_do_def given_def checked_sub_def word_le_nat_alt)
  moreover have "unat caller = unat fee div 10" using 2(2) by simp
  ultimately show ?thesis using True 1(2) le by (simp add: unat_sub word_le_nat_alt)
qed

section \<open>A sweep\<close>

fun sent_by :: "bytes \<Rightarrow> cpi \<Rightarrow> nat" where
  "sent_by k (Transfer src dst authority n) = (if src = k then unat n else 0)"
| "sent_by k c = 0"

definition sent :: "bytes \<Rightarrow> cpi list \<Rightarrow> nat" where
  "sent k calls = sum_list (map (sent_by k) calls)"

lemma sent_simps [simp]: "sent k [] = 0" "sent k (c # cs) = sent_by k c + sent k cs" "sent k (cs @ cs') = sent k cs + sent k cs'"
  by (simp_all add: sent_def)

lemma sent_fees: "sent (sw_receiver_token accs) (fee_transfers accs sp) = unat (sp_caller sp) + unat (sp_treasury sp)"
  by (auto simp: fee_transfers_def word_gt_0)

text \<open>What is left after the fee goes where the receiver was registered for.\<close>

definition pays_merchant :: "sdk \<Rightarrow> sweep_accounts \<Rightarrow> factory_config \<Rightarrow> receiver_config \<Rightarrow> 64 word \<Rightarrow> 64 word \<Rightarrow> cpi list \<Rightarrow> bool" where
  "pays_merchant sdk accs fc c balance n calls \<longleftrightarrow>
     (if cf_chain c = ZERO_BYTES then Transfer (sw_receiver_token accs) (cf_merchant_token_account c) (sw_config accs) n \<in> set calls
      else \<exists>staging metas max_fee. token_address sdk (sw_config accs) (fc_mint fc) = Some staging \<and>
        Transfer (sw_receiver_token accs) staging (sw_config accs) n \<in> set calls \<and>
        Invoke (key_of CCTP_TOKEN_MESSENGER_MINTER_V2) metas (burn_data sdk n (cf_domain c) (cf_recipient c) max_fee) \<in> set calls \<and>
        unat max_fee = unat balance * 3 div 10000)"

lemma sweep_local_Inr:
  assumes "sweep_local accs c balance sp led = Inr out" "cf_chain c = ZERO_BYTES"
  shows "oc_accounts out = led \<and> sent (sw_receiver_token accs) (oc_calls out) = unat (sp_caller sp) + unat (sp_treasury sp) + unat (sp_net sp) \<and>
    pays_merchant sdk accs fc c balance (sp_net sp) (oc_calls out)"
  using assms by (auto simp: sweep_local_def program_Inr sent_fees pays_merchant_def)

lemma sweep_remote_Inr:
  assumes "sweep_remote sdk accs fc c balance sp led = Inr out" "cf_chain c \<noteq> ZERO_BYTES"
  shows "oc_accounts out = led \<and> sent (sw_receiver_token accs) (oc_calls out) = unat (sp_caller sp) + unat (sp_treasury sp) + unat (sp_net sp) \<and>
    pays_merchant sdk accs fc c balance (sp_net sp) (oc_calls out)"
proof -
  obtain staging max_fee where st: "token_address sdk (sw_config accs) (fc_mint fc) = Some staging"
      "the (sw_cctp accs BurnStaging) = staging" "the (sw_cctp accs MessengerMinterProgram) = key_of CCTP_TOKEN_MESSENGER_MINTER_V2"
      "bps balance CCTP_MAX_FEE_BPS = Inr max_fee" and o: "oc_accounts out = led"
      "oc_calls out = fee_transfers accs sp @ [Transfer (sw_receiver_token accs) staging (sw_config accs) (sp_net sp),
         Invoke (key_of CCTP_TOKEN_MESSENGER_MINTER_V2) (burn_accounts (sw_config accs) (\<lambda>r. the (sw_cctp accs r)))
           (burn_data sdk (sp_net sp) (cf_domain c) (cf_recipient c) max_fee)]"
    using assms(1) by (auto simp: sweep_remote_def program_Inr ata_def Let_def)
  have "unat max_fee = unat balance * 3 div 10000"
    using st(4) bps_amount [of balance CCTP_MAX_FEE_BPS] by (auto simp: bps_eq CCTP_MAX_FEE_BPS_def split: if_splits)
  then show ?thesis using st(1) o assms(2) by (auto simp: sent_fees pays_merchant_def)
qed

lemma sweep_exact:
  assumes "sweep sdk signers accs led = Inr out"
  obtains t fc c where "load_token led (sw_receiver_token accs) = Inr t" "load_factory sdk led (sw_factory accs) = Inr fc"
    "load_config sdk led (sw_config accs) = Inr c" "oc_accounts out = led"
    "token_address sdk (cf_receiver c) (fc_mint fc) = Some (sw_receiver_token accs)"
    "sent (sw_receiver_token accs) (oc_calls out) = unat (tk_amount t)"
    "tk_amount t \<noteq> 0 \<longrightarrow> (\<exists>n. unat n = unat (tk_amount t) - unat (tk_amount t) * 50 div 10000 \<and>
       pays_merchant sdk accs fc c (tk_amount t) n (oc_calls out))"
proof -
  obtain t fc c where l: "load_token led (sw_receiver_token accs) = Inr t" "load_factory sdk led (sw_factory accs) = Inr fc"
      "load_config sdk led (sw_config accs) = Inr c" "token_address sdk (cf_receiver c) (fc_mint fc) = Some (sw_receiver_token accs)"
    and b: "tk_amount t = 0 \<and> out = \<lparr>oc_accounts = led, oc_calls = [], oc_event = None\<rparr> \<or>
      tk_amount t \<noteq> 0 \<and> (\<exists>sp. split_fee (tk_amount t) = Inr sp \<and>
        (if cf_chain c = ZERO_BYTES then sweep_local accs c (tk_amount t) sp led else sweep_remote sdk accs fc c (tk_amount t) sp led) = Inr out)"
    using assms by (auto simp: sweep_def program_Inr ata_def Let_def split: if_splits)
  have "oc_accounts out = led \<and> sent (sw_receiver_token accs) (oc_calls out) = unat (tk_amount t) \<and>
    (tk_amount t \<noteq> 0 \<longrightarrow> (\<exists>n. unat n = unat (tk_amount t) - unat (tk_amount t) * 50 div 10000 \<and>
       pays_merchant sdk accs fc c (tk_amount t) n (oc_calls out)))"
  proof (cases "tk_amount t = 0")
    case True
    then show ?thesis using b by auto
  next
    case False
    then obtain sp where sp: "split_fee (tk_amount t) = Inr sp"
        "(if cf_chain c = ZERO_BYTES then sweep_local accs c (tk_amount t) sp led else sweep_remote sdk accs fc c (tk_amount t) sp led) = Inr out"
      using b by auto
    note x = split_fee_exact [of "tk_amount t", unfolded sp(1) sum.case]
    have "oc_accounts out = led \<and> sent (sw_receiver_token accs) (oc_calls out) = unat (sp_caller sp) + unat (sp_treasury sp) + unat (sp_net sp) \<and>
        pays_merchant sdk accs fc c (tk_amount t) (sp_net sp) (oc_calls out)"
      using sp(2) sweep_local_Inr sweep_remote_Inr by (auto split: if_splits)
    moreover have "unat (sp_net sp) = unat (tk_amount t) - unat (tk_amount t) * 50 div 10000" using x by linarith
    moreover have "unat (sp_caller sp) + unat (sp_treasury sp) + unat (sp_net sp) = unat (tk_amount t)" using x by linarith
    ultimately show ?thesis by auto
  qed
  then show thesis using l that by blast
qed

section \<open>Every sequence of instructions\<close>

text \<open>
  The accounts of the chain change by the program's instructions, and by the token program, which makes, changes and closes token
  accounts and mints; the accounts of the program are its own.
\<close>

fun foreign :: "stored option \<Rightarrow> bool" where
  "foreign None = True"
| "foreign (Some (TokenAccount t)) = True"
| "foreign (Some Mint) = True"
| "foreign a = False"

inductive program_step :: "sdk \<Rightarrow> chain_state_map \<Rightarrow> chain_state_map \<Rightarrow> bool" for sdk where
  initialized: "initialize_factory sdk S i s b e m r led = Inr out \<Longrightarrow> program_step sdk led (oc_accounts out)"
| announced: "announce_merchant sdk S a m c rp rc tx led = Inr out \<Longrightarrow> program_step sdk led (oc_accounts out)"
| registered: "register_merchant sdk S g m c rp led = Inr out \<Longrightarrow> program_step sdk led (oc_accounts out)"
| swept: "sweep sdk S w led = Inr out \<Longrightarrow> program_step sdk led (oc_accounts out)"
| tokens_change: "foreign (led k) \<Longrightarrow> foreign v \<Longrightarrow> program_step sdk led (led(k := v))"

inductive_cases program_stepE: "program_step sdk led led'"

text \<open>What a successful instruction wrote.\<close>

lemma create_at_Inr: "create_at sdk led seeds k = Inr b \<longleftrightarrow> find_address sdk seeds = Some (k, b) \<and> led k = None"
  by (auto simp: create_at_def program_Inr)

lemma load_factory_Inr: "load_factory sdk led k = Inr fc \<longleftrightarrow> led k = Some (Factory fc) \<and> address_at sdk [FACTORY_SEED] (fc_bump fc) = Some k"
  by (auto simp: load_factory_def program_Inr split: option.splits stored.splits)

lemma load_token_Inr: "load_token led k = Inr t \<longleftrightarrow> led k = Some (TokenAccount t)"
  by (auto simp: load_token_def split: option.splits stored.splits)

lemma load_pending_Inr: "load_pending sdk led seeds k = Inr p \<longleftrightarrow> led k = Some (Pending p) \<and> address_at sdk seeds (pn_bump p) = Some k"
  by (auto simp: load_pending_def program_Inr split: option.splits stored.splits)

lemma load_config_Inr: "load_config sdk led k = Inr c \<longleftrightarrow> led k = Some (Config c) \<and>
    address_at sdk (route_seeds CONFIG_SEED (cf_merchant c) (cf_receiver c) (cf_chain c) (cf_recipient c)) (cf_bump c) = Some k"
  by (auto simp: load_config_def program_Inr split: option.splits stored.splits)

lemma load_registry_Inr: "load_registry sdk led merchant k = Inr r \<longleftrightarrow> (\<exists>b. find_address sdk [REGISTRY_SEED, merchant] = Some (k, b)) \<and>
    (led k = None \<and> r = zero_registry \<or> led k = Some (Registry r))"
  by (auto simp: load_registry_def program_Inr split: option.splits stored.splits)

lemmas load_Inr = create_at_Inr load_factory_Inr load_token_Inr load_pending_Inr load_config_Inr load_registry_Inr

lemma initialize_Inr:
  assumes "initialize_factory sdk S accs s b e m r led = Inr out"
  obtains fc where "led (in_factory accs) = None" "oc_accounts out = led(in_factory accs \<mapsto> Factory fc)"
    "find_address sdk [FACTORY_SEED] = Some (in_factory accs, fc_bump fc)"
    "fc_mint fc = in_mint accs" "fc_treasury fc = in_treasury accs"
    "distinct [s, b, e, m, r]" "[fc_starknet fc, fc_base fc, fc_ethereum fc, fc_monad fc, fc_arbitrum fc] = [s, b, e, m, r]"
    "\<exists>t. led (in_treasury accs) = Some (TokenAccount t) \<and> tk_mint t = in_mint accs"
proof -
  from assms obtain bump where o: "oc_accounts out = led(in_factory accs \<mapsto> Factory \<lparr>fc_mint = in_mint accs, fc_treasury = in_treasury accs,
        fc_starknet = s, fc_base = b, fc_ethereum = e, fc_monad = m, fc_arbitrum = r, fc_bump = bump\<rparr>)"
      "find_address sdk [FACTORY_SEED] = Some (in_factory accs, bump)" "led (in_factory accs) = None" "distinct [s, b, e, m, r]"
      "\<exists>t. led (in_treasury accs) = Some (TokenAccount t) \<and> tk_mint t = in_mint accs"
    unfolding initialize_factory_def Let_def program_Inr load_Inr by auto
  show thesis by (rule that [OF o(3,1)]) (use o in simp_all)
qed

lemma announce_Inr:
  assumes "announce_merchant sdk S accs m c rp rc tx led = Inr out"
  obtains fc p d an where "led (aa_factory accs) = Some (Factory fc)" "led (aa_pending accs) = None"
    "oc_accounts out = led(aa_pending accs \<mapsto> Pending p)" "pn_reg_tx p = tx"
    "find_address sdk (route_seeds PENDING_SEED m rc c rp) = Some (aa_pending accs, pn_bump p)"
    "validate_route fc c rp = Inr d" "oc_event out = Some (ReceiverAnnounced an)"
    "an_merchant an = m" "an_receiver an = rc" "an_chain an = c" "an_recipient an = rp" "an_pending an = aa_pending accs"
    "token_address sdk rc (fc_mint fc) = Some (an_receiver_token_account an)"
    "\<exists>b. find_address sdk (route_seeds CONFIG_SEED m rc c rp) = Some (an_receiver_config an, b)"
    "token_address sdk (an_receiver_config an) (fc_mint fc) = Some (an_staging an)"
proof -
  from assms obtain fc bump d rta cf b sta where o: "led (aa_factory accs) = Some (Factory fc)" "led (aa_pending accs) = None"
      "find_address sdk (route_seeds PENDING_SEED m rc c rp) = Some (aa_pending accs, bump)" "validate_route fc c rp = Inr d"
      "token_address sdk rc (fc_mint fc) = Some rta" "find_address sdk (route_seeds CONFIG_SEED m rc c rp) = Some (cf, b)"
      "token_address sdk cf (fc_mint fc) = Some sta"
      "oc_accounts out = led(aa_pending accs \<mapsto> Pending \<lparr>pn_bump = bump, pn_reg_tx = tx\<rparr>)"
      "oc_event out = Some (ReceiverAnnounced \<lparr>an_merchant = m, an_receiver = rc, an_receiver_token_account = rta, an_receiver_config = cf,
        an_staging = sta, an_pending = aa_pending accs, an_chain = c, an_recipient = rp\<rparr>)"
    unfolding announce_merchant_def ata_def
    by (elim try_do_pairE try_doE, simp only: load_Inr check_Inr given_Inr sum.inject, elim conjE, hypsubst) (rule that; (assumption | simp))
  show thesis by (rule that [OF o(1,2,8) _ _ o(4,9)]) (use o in auto)
qed

lemma register_Inr:
  assumes "register_merchant sdk S accs m c rp led = Inr out"
  obtains fc cf reg where "led (ra_factory accs) = Some (Factory fc)" "led (ra_config accs) = None"
    "address_at sdk [FACTORY_SEED] (fc_bump fc) = Some (ra_factory accs)"
    "find_address sdk (route_seeds CONFIG_SEED m (ra_receiver accs) c rp) = Some (ra_config accs, cf_bump cf)"
    "cf_receiver cf = ra_receiver accs" "cf_merchant cf = m" "cf_chain cf = c" "cf_recipient cf = rp" "cf_mint cf = fc_mint fc"
    "validate_route fc c rp = Inr (cf_domain cf)" "unat (mr_count reg) < MAX_RECEIVERS_PER_MERCHANT"
    "\<exists>b. find_address sdk [REGISTRY_SEED, m] = Some (ra_registry accs, b)"
    "led (ra_registry accs) = None \<and> reg = zero_registry \<or> led (ra_registry accs) = Some (Registry reg)"
    "ra_registry accs \<noteq> ra_config accs" "ra_receiver accs \<in> S"
    "\<exists>p. led (ra_pending accs) = Some (Pending p)"
    "oc_accounts out = (led(ra_config accs \<mapsto> Config cf, ra_registry accs \<mapsto> Registry (register_entry m (ra_config accs) reg)))(ra_pending accs := None)"
proof -
  let ?cf = "\<lambda>fc d b. \<lparr>cf_receiver = ra_receiver accs, cf_merchant = m, cf_mint = fc_mint fc,
        cf_merchant_token_account = ra_merchant_token accs, cf_chain = c, cf_recipient = rp, cf_domain = d, cf_bump = b\<rparr>"
  let ?led1 = "led(ra_config accs \<mapsto> Config zero_config)"
  from assms obtain fc bump reg p d where o: "led (ra_factory accs) = Some (Factory fc)" "led (ra_config accs) = None"
      "address_at sdk [FACTORY_SEED] (fc_bump fc) = Some (ra_factory accs)"
      "find_address sdk (route_seeds CONFIG_SEED m (ra_receiver accs) c rp) = Some (ra_config accs, bump)"
      "\<exists>b. find_address sdk [REGISTRY_SEED, m] = Some (ra_registry accs, b)"
      "?led1 (ra_registry accs) = None \<and> reg = zero_registry \<or> ?led1 (ra_registry accs) = Some (Registry reg)"
      "?led1 (ra_pending accs) = Some (Pending p)" "ra_receiver accs \<in> S"
      "unat (mr_count reg) < MAX_RECEIVERS_PER_MERCHANT" "validate_route fc c rp = Inr d"
      "oc_accounts out = (?led1(ra_config accs \<mapsto> Config (?cf fc d bump),
         ra_registry accs \<mapsto> Registry (register_entry m (ra_config accs) reg)))(ra_pending accs := None)"
    unfolding register_merchant_def Let_def
    by (elim try_doE, simp only: load_Inr check_Inr given_Inr sum.inject, elim conjE, hypsubst) (rule that; (assumption | simp))
  have "ra_registry accs \<noteq> ra_config accs" "ra_pending accs \<noteq> ra_config accs" using o(6,7) by auto
  then show thesis using o by (intro that [of fc "?cf fc d bump" reg]) (auto split: if_splits)
qed

text \<open>
  The invariant. The factory is at its address with distinct domains; a registered receiver is at the address of its own route,
  which the factory accepts; a registry lists at most 32 different receivers, each registered for a merchant of that registry.
\<close>

definition factory_ok :: "sdk \<Rightarrow> bytes \<Rightarrow> factory_config \<Rightarrow> bool" where
  "factory_ok sdk k fc \<longleftrightarrow> find_address sdk [FACTORY_SEED] = Some (k, fc_bump fc) \<and>
     distinct [fc_starknet fc, fc_base fc, fc_ethereum fc, fc_monad fc, fc_arbitrum fc]"

definition config_ok :: "sdk \<Rightarrow> chain_state_map \<Rightarrow> bytes \<Rightarrow> receiver_config \<Rightarrow> bool" where
  "config_ok sdk led k c \<longleftrightarrow>
     find_address sdk (route_seeds CONFIG_SEED (cf_merchant c) (cf_receiver c) (cf_chain c) (cf_recipient c)) = Some (k, cf_bump c) \<and>
     (\<exists>f fc. led f = Some (Factory fc) \<and> validate_route fc (cf_chain c) (cf_recipient c) = Inr (cf_domain c) \<and> cf_mint c = fc_mint fc)"

definition listed :: "merchant_registry \<Rightarrow> bytes list" where
  "listed r = take (unat (mr_count r)) (mr_receivers r)"

definition registry_ok :: "sdk \<Rightarrow> chain_state_map \<Rightarrow> bytes \<Rightarrow> merchant_registry \<Rightarrow> bool" where
  "registry_ok sdk led k r \<longleftrightarrow> length (mr_receivers r) = MAX_RECEIVERS_PER_MERCHANT \<and>
     unat (mr_count r) \<le> MAX_RECEIVERS_PER_MERCHANT \<and> distinct (listed r) \<and>
     (\<forall>x \<in> set (listed r). \<exists>c b. led x = Some (Config c) \<and> find_address sdk [REGISTRY_SEED, cf_merchant c] = Some (k, b))"

fun account_ok :: "sdk \<Rightarrow> chain_state_map \<Rightarrow> bytes \<Rightarrow> stored \<Rightarrow> bool" where
  "account_ok sdk led k (Factory fc) = factory_ok sdk k fc"
| "account_ok sdk led k (Config c) = config_ok sdk led k c"
| "account_ok sdk led k (Registry r) = registry_ok sdk led k r"
| "account_ok sdk led k a = True"

definition program_ok :: "sdk \<Rightarrow> chain_state_map \<Rightarrow> bool" where
  "program_ok sdk led \<longleftrightarrow> (\<forall>k a. led k = Some a \<longrightarrow> account_ok sdk led k a)"

text \<open>The factory and the registered receivers are never changed; a registry keeps its list and adds at its end.\<close>

fun kept_as :: "stored \<Rightarrow> stored option \<Rightarrow> bool" where
  "kept_as (Factory fc) a \<longleftrightarrow> a = Some (Factory fc)"
| "kept_as (Config c) a \<longleftrightarrow> a = Some (Config c)"
| "kept_as (Registry r) a \<longleftrightarrow> (case a of Some (Registry r') \<Rightarrow> (\<exists>xs. listed r' = listed r @ xs) | _ \<Rightarrow> False)"
| "kept_as b a \<longleftrightarrow> True"

definition program_kept :: "chain_state_map \<Rightarrow> chain_state_map \<Rightarrow> bool" where
  "program_kept led led' \<longleftrightarrow> (\<forall>k a. led k = Some a \<longrightarrow> kept_as a (led' k))"

lemma kept_as_refl [simp]: "kept_as a (Some a)"
  by (cases a) auto

lemma kept_as_trans: "kept_as a (Some b) \<Longrightarrow> kept_as b c \<Longrightarrow> kept_as a c"
  by (cases a; cases b; cases c) (auto split: stored.splits)

lemma kept_as_None: "kept_as a None \<Longrightarrow> kept_as a c"
  by (cases a) auto

lemma program_kept_refl [simp]: "program_kept led led"
  by (simp add: program_kept_def)

lemma program_kept_trans: "program_kept led led1 \<Longrightarrow> program_kept led1 led2 \<Longrightarrow> program_kept led led2"
  unfolding program_kept_def by (metis kept_as_None kept_as_trans option.exhaust)

lemma program_keptD:
  assumes "program_kept led led'"
  shows "led k = Some (Factory fc) \<Longrightarrow> led' k = Some (Factory fc)" "led k = Some (Config c) \<Longrightarrow> led' k = Some (Config c)"
  using assms unfolding program_kept_def by (metis kept_as.simps(1), metis kept_as.simps(2))

text \<open>What is kept is still there, so what was right stays right.\<close>

lemma account_ok_mono:
  assumes "program_kept led led'" "account_ok sdk led k a"
  shows "account_ok sdk led' k a"
proof -
  note f = program_keptD(1) [OF assms(1)] and c = program_keptD(2) [OF assms(1)]
  show ?thesis
  proof (cases a)
    case (Config cf)
    then show ?thesis using assms(2) f by (simp add: config_ok_def) blast
  next
    case (Registry r)
    then show ?thesis using assms(2) c by (simp add: registry_ok_def) blast
  qed (use assms(2) in simp_all)
qed

lemma program_ok_kept:
  assumes "program_ok sdk led" "program_kept led led'" "\<And>k a. led' k = Some a \<Longrightarrow> led' k \<noteq> led k \<Longrightarrow> account_ok sdk led' k a"
  shows "program_ok sdk led'"
  unfolding program_ok_def using assms account_ok_mono unfolding program_ok_def by metis

text \<open>Writing at a free place, or over an account that nothing relies on, keeps the rest.\<close>

lemma program_kept_put: "led k = None \<or> (\<exists>a. led k = Some a \<and> kept_as a v) \<Longrightarrow> program_kept led (led(k := v))"
  by (auto simp: program_kept_def)

lemma foreign_kept: "foreign (led k) \<Longrightarrow> program_kept led (led(k := v))"
  by (rule program_kept_put) (cases "led k"; auto elim: foreign.elims)

lemma register_entry_listed:
  assumes "registry_ok sdk led k r \<or> r = zero_registry" "unat (mr_count r) < MAX_RECEIVERS_PER_MERCHANT"
  shows "listed (register_entry m x r) = listed r @ [x]" "unat (mr_count (register_entry m x r)) = unat (mr_count r) + 1"
    "length (mr_receivers (register_entry m x r)) = MAX_RECEIVERS_PER_MERCHANT"
proof -
  have l: "length (mr_receivers r) = MAX_RECEIVERS_PER_MERCHANT" using assms(1) by (auto simp: registry_ok_def zero_registry_def)
  then show "length (mr_receivers (register_entry m x r)) = MAX_RECEIVERS_PER_MERCHANT" by (simp add: register_entry_def)
  have "unat (mr_count r + 1) = unat (mr_count r) + 1"
    using assms(2) by (subst unat_add_lem [THEN iffD1]) (simp_all add: MAX_RECEIVERS_PER_MERCHANT_def)
  then show c: "unat (mr_count (register_entry m x r)) = unat (mr_count r) + 1" by (simp add: register_entry_def)
  show "listed (register_entry m x r) = listed r @ [x]"
    unfolding listed_def c using assms(2) l by (simp add: register_entry_def take_Suc_conv_app_nth)
qed

lemma registered_ok:
  assumes ok: "program_ok sdk led" and reg: "register_merchant sdk S accs m c rp led = Inr out"
  shows "program_kept led (oc_accounts out) \<and> program_ok sdk (oc_accounts out)"
  using reg
proof (rule register_Inr)
  fix fc cf r
  let ?x = "ra_config accs" and ?k = "ra_registry accs"
  let ?led = "(led(?x \<mapsto> Config cf, ?k \<mapsto> Registry (register_entry m ?x r)))(ra_pending accs := None)"
  assume a: "led (ra_factory accs) = Some (Factory fc)" "led ?x = None"
    "find_address sdk (route_seeds CONFIG_SEED m (ra_receiver accs) c rp) = Some (?x, cf_bump cf)"
    "cf_receiver cf = ra_receiver accs" "cf_merchant cf = m" "cf_chain cf = c" "cf_recipient cf = rp" "cf_mint cf = fc_mint fc"
    "validate_route fc c rp = Inr (cf_domain cf)" "unat (mr_count r) < MAX_RECEIVERS_PER_MERCHANT"
    "\<exists>b. find_address sdk [REGISTRY_SEED, m] = Some (?k, b)"
    "led ?k = None \<and> r = zero_registry \<or> led ?k = Some (Registry r)" "?k \<noteq> ?x"
    "\<exists>p. led (ra_pending accs) = Some (Pending p)" "oc_accounts out = ?led"
  have r: "registry_ok sdk led ?k r \<or> r = zero_registry" using ok a(12) unfolding program_ok_def by fastforce
  note entry = register_entry_listed [OF r a(10), of m ?x]
  have ne: "ra_pending accs \<noteq> ?x" "ra_pending accs \<noteq> ?k" "ra_factory accs \<noteq> ?x" "ra_factory accs \<noteq> ?k" "ra_factory accs \<noteq> ra_pending accs"
    using a(1,2,12,14) by auto
  have kept: "program_kept led ?led"
    unfolding program_kept_def using a(2,12,13,14) entry(1) by auto
  have old: "set (listed r) \<subseteq> dom led" "distinct (listed r)"
    using r by (auto simp: registry_ok_def listed_def zero_registry_def)
  have "registry_ok sdk ?led ?k (register_entry m ?x r)"
  proof -
    have "\<exists>c b. ?led x = Some (Config c) \<and> find_address sdk [REGISTRY_SEED, cf_merchant c] = Some (?k, b)" if "x \<in> set (listed r)" for x
    proof -
      have "account_ok sdk led ?k (Registry r)" using r that by (auto simp: listed_def zero_registry_def)
      then have "account_ok sdk ?led ?k (Registry r)" by (rule account_ok_mono [OF kept])
      then show ?thesis using that by (auto simp: registry_ok_def)
    qed
    moreover have "?x \<notin> set (listed r)" using old(1) a(2) by auto
    ultimately show ?thesis
      using entry a(5,10,11,13) ne old(2) unfolding registry_ok_def by (auto simp: entry)
  qed
  moreover have "config_ok sdk ?led ?x cf"
    using a ne unfolding config_ok_def by (intro conjI exI [of _ "ra_factory accs"] exI [of _ fc]) simp_all
  ultimately have "program_ok sdk ?led"
    using a(13) ne by (intro program_ok_kept [OF ok kept]) (auto split: if_splits)
  then show ?thesis using kept a(15) by simp
qed

lemma program_step_ok:
  assumes "program_step sdk led led'" "program_ok sdk led"
  shows "program_kept led led' \<and> program_ok sdk led'"
  using assms(1)
proof (rule program_stepE)
  fix S i s b e m r out assume i: "led' = oc_accounts out" "initialize_factory sdk S i s b e m r led = Inr out"
  from i(2) show ?thesis
  proof (rule initialize_Inr)
    fix fc assume a: "led (in_factory i) = None" "oc_accounts out = led(in_factory i \<mapsto> Factory fc)"
      "find_address sdk [FACTORY_SEED] = Some (in_factory i, fc_bump fc)" "distinct [s, b, e, m, r]"
      "[fc_starknet fc, fc_base fc, fc_ethereum fc, fc_monad fc, fc_arbitrum fc] = [s, b, e, m, r]"
    have kept: "program_kept led led'" unfolding i(1) a(2) by (rule program_kept_put) (simp add: a(1))
    have "factory_ok sdk (in_factory i) fc" unfolding factory_ok_def a(5) using a(3,4) by simp
    then have "program_ok sdk led'"
      by (intro program_ok_kept [OF assms(2) kept]) (auto simp: i(1) a(2) split: if_splits)
    then show ?thesis using kept by simp
  qed
next
  fix S a m c rp rc tx out assume i: "led' = oc_accounts out" "announce_merchant sdk S a m c rp rc tx led = Inr out"
  from i(2) show ?thesis
  proof (rule announce_Inr)
    fix p assume a: "led (aa_pending a) = None" "oc_accounts out = led(aa_pending a \<mapsto> Pending p)"
    have kept: "program_kept led led'" unfolding i(1) a(2) by (rule program_kept_put) (simp add: a(1))
    then have "program_ok sdk led'"
      by (intro program_ok_kept [OF assms(2) kept]) (auto simp: i(1) a(2) split: if_splits)
    then show ?thesis using kept by simp
  qed
next
  fix S g m c rp out assume "led' = oc_accounts out" "register_merchant sdk S g m c rp led = Inr out"
  then show ?thesis using registered_ok [OF assms(2)] by simp
next
  fix S w out assume "led' = oc_accounts out" "sweep sdk S w led = Inr out"
  then show ?thesis using assms(2) by (auto elim: sweep_exact)
next
  fix k v assume i: "led' = led(k := v)" "foreign (led k)" "foreign v"
  have kept: "program_kept led led'" unfolding i(1) by (rule foreign_kept) (rule i(2))
  have "program_ok sdk led'"
    using i(3) by (intro program_ok_kept [OF assms(2) kept]) (auto simp: i(1) split: if_splits elim: foreign.elims)
  then show ?thesis using kept by simp
qed

lemma program_steps_ok:
  assumes "(program_step sdk)\<^sup>*\<^sup>* led led'" "program_ok sdk led"
  shows "program_kept led led' \<and> program_ok sdk led'"
  using assms(1)
proof (induction rule: rtranclp_induct)
  case base
  show ?case using assms(2) by simp
next
  case (step led1 led2)
  then show ?case using program_step_ok program_kept_trans by metis
qed

text \<open>
  C8: a registration is final. Whatever instructions follow, of anyone, the factory and every registered receiver stay as they are, so
  the route and the merchant's account of a receiver never change, and no second registration for the same account succeeds;
  the invariant of the accounts holds throughout.
\<close>

theorem registration_final:
  assumes "(program_step sdk)\<^sup>*\<^sup>* led led'" "program_ok sdk led"
  shows "program_ok sdk led' \<and>
    (case led k of
       Some (Factory fc) \<Rightarrow> led' k = Some (Factory fc)
     | Some (Config c) \<Rightarrow> led' k = Some (Config c) \<and>
         (\<forall>S accs m ch rp out. ra_config accs = k \<longrightarrow> register_merchant sdk S accs m ch rp led' \<noteq> Inr out)
     | _ \<Rightarrow> True)"
proof -
  have ok: "program_kept led led'" "program_ok sdk led'" using program_steps_ok [OF assms] by simp_all
  have "register_merchant sdk S accs m ch rp led' \<noteq> Inr out" if "led' (ra_config accs) \<noteq> None" for S accs m ch rp out
    using that by (auto elim: register_Inr)
  then show ?thesis
    using ok program_keptD [OF ok(1)] by (auto split: option.split stored.split)
qed

text \<open>
  C5: a sweep pays the merchant. A successful sweep moves exactly the balance out of the receiver's token account. Half a percent, rounded
  down, is the fee; the rest goes to the token account the receiver was registered with, or is burned through CCTP for the
  registered domain and recipient.
\<close>

theorem sweep_pays_merchant:
  assumes "sweep sdk signers accs led = Inr out"
  shows "\<exists>t fc c. led (sw_receiver_token accs) = Some (TokenAccount t) \<and> led (sw_factory accs) = Some (Factory fc) \<and>
    led (sw_config accs) = Some (Config c) \<and> token_address sdk (cf_receiver c) (fc_mint fc) = Some (sw_receiver_token accs) \<and>
    sent (sw_receiver_token accs) (oc_calls out) = unat (tk_amount t) \<and> oc_accounts out = led \<and>
    (tk_amount t = 0 \<or> (\<exists>n. unat n = unat (tk_amount t) - unat (tk_amount t) * 50 div 10000 \<and>
       pays_merchant sdk accs fc c (tk_amount t) n (oc_calls out)))"
  using assms by (rule sweep_exact) (auto simp: load_Inr)

section \<open>The addresses of the SDK\<close>

text \<open>The law the program relies on: the bump that is found for seeds gives the address that was found.\<close>

locale program_addresses =
  fixes sdk :: sdk
  assumes at_found: "find_address sdk seeds = Some (a, b) \<Longrightarrow> address_at sdk seeds b = Some a"
begin

lemma factory_loads: "factory_ok sdk k fc \<Longrightarrow> led k = Some (Factory fc) \<Longrightarrow> load_factory sdk led k = Inr fc"
  by (simp add: factory_ok_def load_Inr at_found)

lemma config_loads: "config_ok sdk led k c \<Longrightarrow> led k = Some (Config c) \<Longrightarrow> load_config sdk led k = Inr c"
  by (simp add: config_ok_def load_Inr at_found)

text \<open>What was announced can be registered from: its pending account loads.\<close>

lemma pending_loads:
  assumes "announce_merchant sdk S accs m c rp rc tx led = Inr out"
  shows "\<exists>p. load_pending sdk (oc_accounts out) (route_seeds PENDING_SEED m rc c rp) (aa_pending accs) = Inr p \<and> pn_reg_tx p = tx"
  using assms by (rule announce_Inr) (auto simp: load_Inr at_found)

text \<open>Nothing but the listed conditions stands in the way of an announcement.\<close>

lemma announce_accepts:
  assumes "aa_payer accs \<in> S" "factory_ok sdk (aa_factory accs) fc" "led (aa_factory accs) = Some (Factory fc)"
    and "find_address sdk (route_seeds PENDING_SEED m rc c rp) = Some (aa_pending accs, b)" "led (aa_pending accs) = None"
    and "tx \<noteq> []" "length tx \<le> MAX_REG_TX_BYTES" "validate_route fc c rp = Inr d"
    and "token_address sdk rc (fc_mint fc) = Some rta" "find_address sdk (route_seeds CONFIG_SEED m rc c rp) = Some (cf, b')"
    and "token_address sdk cf (fc_mint fc) = Some sta"
  shows "\<exists>out. announce_merchant sdk S accs m c rp rc tx led = Inr out"
  using assms by (simp add: announce_merchant_def try_do_def check_def factory_loads create_at_def given_def ata_def)

end

section \<open>Examples\<close>

text \<open>An SDK with short addresses: how many seeds there are, and where the first one begins.\<close>

definition plain_sdk :: sdk where
  "plain_sdk = \<lparr>find_address = (\<lambda>seeds. Some ([word_of_nat (length seeds), hd (hd seeds)], 0)),
     address_at = (\<lambda>seeds b. Some [word_of_nat (length seeds), hd (hd seeds)]), token_address = (\<lambda>ow m. Some (ow @ m)), sdk_hash = (\<lambda>x. x)\<rparr>"

lemma seed_heads: "hd FACTORY_SEED = 102" "hd CONFIG_SEED = 99" "hd PENDING_SEED = 112" "hd REGISTRY_SEED = 114"
  by (simp_all add: FACTORY_SEED_def CONFIG_SEED_def PENDING_SEED_def REGISTRY_SEED_def utf8_def utf8_char_def code_def)

definition token_of :: "bytes \<Rightarrow> 64 word \<Rightarrow> stored" where
  "token_of ow n = TokenAccount \<lparr>tk_mint = [1], tk_owner = ow, tk_amount = n\<rparr>"

text \<open>The mint, and the token accounts of the treasury, the merchant, the caller, the receiver with 1000 units, and the staging account.\<close>

definition small_chain :: chain_state_map where
  "small_chain = [[1] \<mapsto> Mint, [2] \<mapsto> token_of [9] 0, [6] \<mapsto> token_of [7] 0, [8] \<mapsto> token_of [3] 0, [5, 1] \<mapsto> token_of [5] 1000,
     [5, 99, 1] \<mapsto> token_of [5, 99] 0]"

definition small_factory :: factory_config where
  "small_factory = \<lparr>fc_mint = [1], fc_treasury = [2], fc_starknet = 25, fc_base = 6, fc_ethereum = 0, fc_monad = 15, fc_arbitrum = 3, fc_bump = 0\<rparr>"

definition small_config :: receiver_config where
  "small_config = \<lparr>cf_receiver = [5], cf_merchant = [7], cf_mint = [1], cf_merchant_token_account = [6], cf_chain = ZERO_BYTES,
     cf_recipient = ZERO_BYTES, cf_domain = SAME_CHAIN_DOMAIN_SENTINEL, cf_bump = 0\<rparr>"

lemmas run_defs = try_do_def check_def given_def plain_sdk_def create_at_def load_token_def load_factory_def load_pending_def
  load_registry_def load_config_def ata_def route_seeds_def seed_heads token_of_def validate_route_def Let_def

lemma small_initialize:
  "\<exists>out. initialize_factory plain_sdk {[9]} \<lparr>in_payer = [9], in_mint = [1], in_treasury = [2], in_factory = [1, 102]\<rparr> 25 6 0 15 3 small_chain = Inr out \<and>
     oc_accounts out = small_chain([1, 102] \<mapsto> Factory small_factory)"
  by (simp add: initialize_factory_def run_defs small_chain_def small_factory_def)

lemma small_announce:
  "\<exists>out. announce_merchant plain_sdk {[9]} \<lparr>aa_payer = [9], aa_factory = [1, 102], aa_pending = [5, 112]\<rparr> [7] ZERO_BYTES ZERO_BYTES [5] [1]
       (small_chain([1, 102] \<mapsto> Factory small_factory)) = Inr out \<and>
     oc_accounts out = small_chain([1, 102] \<mapsto> Factory small_factory, [5, 112] \<mapsto> Pending \<lparr>pn_bump = 0, pn_reg_tx = [1]\<rparr>)"
  by (simp add: announce_merchant_def run_defs small_chain_def small_factory_def MAX_REG_TX_BYTES_def)

definition small_register :: register_accounts where
  "small_register = \<lparr>ra_payer = [9], ra_receiver = [5], ra_factory = [1, 102], ra_receiver_token = [5, 1], ra_merchant_token = [6],
     ra_config = [5, 99], ra_staging = [5, 99, 1], ra_registry = [2, 114], ra_pending = [5, 112]\<rparr>"

lemma small_register_runs:
  "\<exists>out r. register_merchant plain_sdk {[9], [5]} small_register [7] ZERO_BYTES ZERO_BYTES
       (small_chain([1, 102] \<mapsto> Factory small_factory, [5, 112] \<mapsto> Pending \<lparr>pn_bump = 0, pn_reg_tx = [1]\<rparr>)) = Inr out \<and>
     oc_accounts out = (small_chain([1, 102] \<mapsto> Factory small_factory, [5, 99] \<mapsto> Config small_config, [2, 114] \<mapsto> Registry r))"
  by (simp add: register_merchant_def run_defs small_chain_def small_factory_def small_config_def small_register_def
      zero_registry_def MAX_RECEIVERS_PER_MERCHANT_def fun_eq_iff)

definition small_sweep :: sweep_accounts where
  "small_sweep = \<lparr>sw_caller = [3], sw_caller_token = [8], sw_receiver_token = [5, 1], sw_factory = [1, 102], sw_treasury = [2],
     sw_config = [5, 99], sw_merchant_token = Some [6], sw_cctp = (\<lambda>r. None)\<rparr>"

lemma small_sweep_runs:
  "\<exists>out. sweep plain_sdk {[3]} small_sweep (small_chain([1, 102] \<mapsto> Factory small_factory, [5, 99] \<mapsto> Config small_config)) = Inr out \<and>
     Transfer [5, 1] [6] [5, 99] 995 \<in> set (oc_calls out)"
  by (simp add: sweep_def run_defs small_chain_def small_factory_def small_config_def small_sweep_def cctp_typed_def split_fee_def
      bps_eq FEE_BPS_def BPS_DENOM_def CALLER_SHARE_BPS_def checked_sub_def sweep_local_def)

lemma small_chain_ok: "program_ok plain_sdk small_chain"
  by (simp add: program_ok_def small_chain_def token_of_def)

lemma registered_run:
  "\<exists>r. (program_step plain_sdk)\<^sup>*\<^sup>* small_chain (small_chain([1, 102] \<mapsto> Factory small_factory, [5, 99] \<mapsto> Config small_config, [2, 114] \<mapsto> Registry r))"
proof -
  obtain o1 where 1: "initialize_factory plain_sdk {[9]} \<lparr>in_payer = [9], in_mint = [1], in_treasury = [2], in_factory = [1, 102]\<rparr> 25 6 0 15 3 small_chain = Inr o1"
      "oc_accounts o1 = small_chain([1, 102] \<mapsto> Factory small_factory)"
    using small_initialize by blast
  obtain o2 where 2: "announce_merchant plain_sdk {[9]} \<lparr>aa_payer = [9], aa_factory = [1, 102], aa_pending = [5, 112]\<rparr> [7] ZERO_BYTES ZERO_BYTES [5] [1]
       (oc_accounts o1) = Inr o2"
      "oc_accounts o2 = small_chain([1, 102] \<mapsto> Factory small_factory, [5, 112] \<mapsto> Pending \<lparr>pn_bump = 0, pn_reg_tx = [1]\<rparr>)"
    using small_announce 1(2) by auto
  obtain o3 r where 3: "register_merchant plain_sdk {[9], [5]} small_register [7] ZERO_BYTES ZERO_BYTES (oc_accounts o2) = Inr o3"
      "oc_accounts o3 = small_chain([1, 102] \<mapsto> Factory small_factory, [5, 99] \<mapsto> Config small_config, [2, 114] \<mapsto> Registry r)"
    using small_register_runs 2(2) by auto
  have "program_step plain_sdk small_chain (oc_accounts o1)" using 1(1) by (rule program_step.initialized)
  moreover have "program_step plain_sdk (oc_accounts o1) (oc_accounts o2)" using 2(1) by (rule program_step.announced)
  moreover have "program_step plain_sdk (oc_accounts o2) (oc_accounts o3)" using 3(1) by (rule program_step.registered)
  ultimately show ?thesis unfolding 3(2) by (meson converse_rtranclp_into_rtranclp r_into_rtranclp)
qed

theorem registration_final_witness:
  "\<exists>led. (program_step plain_sdk)\<^sup>*\<^sup>* small_chain led \<and> program_ok plain_sdk led \<and> led [5, 99] = Some (Config small_config)"
proof -
  obtain r where r: "(program_step plain_sdk)\<^sup>*\<^sup>* small_chain
      (small_chain([1, 102] \<mapsto> Factory small_factory, [5, 99] \<mapsto> Config small_config, [2, 114] \<mapsto> Registry r))"
    using registered_run by blast
  let ?led = "small_chain([1, 102] \<mapsto> Factory small_factory, [5, 99] \<mapsto> Config small_config, [2, 114] \<mapsto> Registry r)"
  have "program_ok plain_sdk ?led"
    using registration_final [OF r small_chain_ok] by blast
  then have "(program_step plain_sdk)\<^sup>*\<^sup>* small_chain ?led \<and> program_ok plain_sdk ?led \<and> ?led [5, 99] = Some (Config small_config)"
    using r by simp
  then show ?thesis by blast
qed

theorem sweep_pays_merchant_witness:
  "\<exists>out. sweep plain_sdk {[3]} small_sweep (small_chain([1, 102] \<mapsto> Factory small_factory, [5, 99] \<mapsto> Config small_config)) = Inr out \<and>
     sent [5, 1] (oc_calls out) = 1000"
proof -
  obtain out where out: "sweep plain_sdk {[3]} small_sweep (small_chain([1, 102] \<mapsto> Factory small_factory, [5, 99] \<mapsto> Config small_config)) = Inr out"
    using small_sweep_runs by blast
  from sweep_pays_merchant [OF out] show ?thesis
    using out by (auto simp: small_sweep_def small_chain_def token_of_def)
qed

end
