(* ===== verification/Solana_Lane.thy ===== *)
theory Solana_Lane
  imports Program_Sound Route Discovery
begin

text \<open>
  The scripts and the factory program of \<open>lib.rs\<close> together. The SDK derives addresses as \<open>scripts/solana.js\<close> does, so it is
  instantiated with the script's functions; then the routes of \<open>identity.js\<close> are those the program accepts, and what the program
  announces is what \<open>onchain.js\<close> finds and verifies.
\<close>

section \<open>The SDK, as the script derives addresses\<close>

definition DECLARED_ID :: string where
  "DECLARED_ID = ''BsiBBPjkAiLJgQDNmjfajHeJjpFMzJqCNz2FtzZa2Hpg''"

definition script_address :: "(bytes \<Rightarrow> bytes) \<Rightarrow> bytes \<Rightarrow> bytes list \<Rightarrow> (bytes \<times> byte) option" where
  "script_address sha pid seeds = (case find_bump sha seeds pid 256 of Inl e \<Rightarrow> None | Inr (a, b) \<Rightarrow> Some (a, word_of_nat b))"

definition script_sdk :: "(bytes \<Rightarrow> bytes) \<Rightarrow> bytes \<Rightarrow> sdk" where
  "script_sdk sha pid =
     \<lparr>find_address = script_address sha pid,
      address_at = (\<lambda>seeds b. let h = sha (pda_seed seeds pid (unat b)) in if isOnCurve h then None else Some h),
      token_address = (\<lambda>ow mint. map_option fst (script_address sha (key_of ATA_PROGRAM) [ow, key_of TOKEN_PROGRAM, mint])),
      sdk_hash = sha\<rparr>"

lemma script_address_Some:
  "script_address sha pid seeds = Some (a, b) \<longleftrightarrow> find_bump sha seeds pid 256 = Inr (a, unat b)"
proof (cases "find_bump sha seeds pid 256")
  case (Inl e)
  then show ?thesis by (simp add: script_address_def del: find_bump.simps)
next
  case (Inr hb)
  obtain h n where hn: "hb = (h, n)" by (cases hb)
  then have "n < 256" using Inr by (simp add: find_bump_Inr del: find_bump.simps)
  then have "unat (word_of_nat n :: byte) = n" by (simp add: unat_of_nat)
  then show ?thesis using Inr hn by (auto simp: script_address_def simp del: find_bump.simps)
qed

interpretation script: program_addresses "script_sdk sha pid" for sha pid
  by unfold_locales (auto simp: script_sdk_def script_address_Some find_bump_Inr Let_def simp del: find_bump.simps)

section \<open>The routes of the scripts\<close>

lemma hex_zeros: "hex_of_bytes (replicate n 0) = replicate (2 * n) CHR ''0''"
  by (induction n) (simp_all add: hex_byte_digits digit_char_def)

lemma pad_name:
  assumes "length bs \<le> 32"
  shows "hexToBytes (''0x'' @ pad_end 64 CHR ''0'' (hex_of_bytes bs)) = Inr (chain_name_seed bs)"
proof -
  have hex_append: "hex_of_bytes (xs @ ys) = hex_of_bytes xs @ hex_of_bytes ys" for xs ys by (simp add: hex_of_bytes_def)
  have "pad_end 64 CHR ''0'' (hex_of_bytes bs) = hex_of_bytes (chain_name_seed bs)"
    using assms by (simp add: pad_end_def chain_name_seed_def Let_def hex_append hex_zeros right_diff_distrib')
  then show ?thesis using hexToBytes_hex_of_bytes by (simp only:)
qed

text \<open>The domain of a chain of the scripts in the factory's configuration.\<close>

definition domain_for :: "factory_config \<Rightarrow> string \<Rightarrow> 32 word" where
  "domain_for fc k = (if k = ''STARKNET'' then fc_starknet fc else if k = ''BASE'' then fc_base fc
     else if k = ''ETHEREUM'' then fc_ethereum fc else if k = ''MONAD'' then fc_monad fc else fc_arbitrum fc)"

lemma chain_names:
  "utf8 ''STARKNET'' = [83, 84, 65, 82, 75, 78, 69, 84]" "utf8 ''BASE'' = [66, 65, 83, 69]"
  "utf8 ''ETHEREUM'' = [69, 84, 72, 69, 82, 69, 85, 77]" "utf8 ''MONAD'' = [77, 79, 78, 65, 68]"
  "utf8 ''ARBITRUM'' = [65, 82, 66, 73, 84, 82, 85, 77]"
  by (simp_all add: utf8_def utf8_char_def code_def)

text \<open>The padding takes nothing of a name away.\<close>

lemma chain_name_seed_inject:
  assumes "length m \<le> 32" "length n \<le> 32" "0 \<notin> set m" "0 \<notin> set n"
  shows "chain_name_seed m = chain_name_seed n \<longleftrightarrow> m = n"
proof -
  have "takeWhile (\<lambda>x. x \<noteq> 0) (chain_name_seed n) = n" if "length n \<le> 32" "0 \<notin> set n" for n
  proof -
    have "takeWhile (\<lambda>x. x \<noteq> 0) (n @ replicate k 0) = n" for k
      using that(2) by (subst takeWhile_append2) auto
    then show ?thesis using that(1) by (simp add: chain_name_seed_def Let_def)
  qed
  then show ?thesis using assms by metis
qed

lemma ZERO_BYTES_seed: "ZERO_BYTES = chain_name_seed []"
  by (simp add: ZERO_BYTES_def chain_name_seed_def)

lemma chain_name_known:
  assumes "k \<in> set CHAIN_KEYS" "k \<noteq> ''SOLANA''"
  shows "length (utf8 k) \<le> 32" "chain_name_seed (utf8 k) \<noteq> ZERO_BYTES" "resolve_domain fc (chain_name_seed (utf8 k)) = Some (domain_for fc k)"
proof -
  have "k \<in> {''BASE'', ''ETHEREUM'', ''ARBITRUM'', ''MONAD'', ''STARKNET''}" using assms by (simp add: chain_keys)
  then consider "k = ''BASE''" | "k = ''ETHEREUM''" | "k = ''ARBITRUM''" | "k = ''MONAD''" | "k = ''STARKNET''" by blast
  then have "length (utf8 k) \<le> 32 \<and> chain_name_seed (utf8 k) \<noteq> ZERO_BYTES \<and> resolve_domain fc (chain_name_seed (utf8 k)) = Some (domain_for fc k)"
    by cases (simp_all add: chain_names chain_name_seed_inject ZERO_BYTES_seed resolve_domain_def domain_for_def)
  then show "length (utf8 k) \<le> 32" "chain_name_seed (utf8 k) \<noteq> ZERO_BYTES" "resolve_domain fc (chain_name_seed (utf8 k)) = Some (domain_for fc k)"
    by simp_all
qed

text \<open>
  C12: the program takes the routes of the scripts. Whatever settlement chain and recipient a route from Solana is made for, its two
  values are 32 bytes, and the program resolves it to the same-chain mark exactly when it settles on Solana, and otherwise to
  the domain of that very chain. The one route it refuses has the recipient zero.
\<close>

theorem script_route_accepted:
  assumes "cctpRoute sha s t r = Inr x" "wire s = ''SOLANA''"
  shows "\<exists>c rp. hexToBytes (chain32 x) = Inr c \<and> hexToBytes (recipient32 x) = Inr rp \<and> length c = 32 \<and> length rp = 32 \<and>
    validate_route fc c rp =
      (if wire t = ''SOLANA'' then Inr SAME_CHAIN_DOMAIN_SENTINEL
       else if rp = ZERO_BYTES then Inl (Deposit CrossChainRequiresRecipient) else Inr (domain_for fc (wire t)))"
  using assms(1)
proof (cases rule: cctpRoute_cases)
  case same
  have "ZERO32 = ''0x'' @ hex_of_bytes ZERO_BYTES" by (simp add: ZERO32_def ZERO_BYTES_def hex_zeros)
  then have "hexToBytes ZERO32 = Inr ZERO_BYTES" by (metis hexToBytes_hex_of_bytes)
  then show ?thesis using same assms(2) by (simp add: zero_route_def validate_route_def try_do_def check_def) (simp add: ZERO_BYTES_def)
next
  case (other c a h)
  have k: "wire t \<in> set CHAIN_KEYS" "wire t \<noteq> ''SOLANA''" using chain_key_in [OF other(2)] other(1) assms(2) by auto
  note name = chain_name_known [OF k]
  have "hexToBytes (''0x'' @ h) = Inr (hex_pairs h)" "length (hex_pairs h) = 32"
    using other(5) by (simp_all add: hexToBytes_def word64_def length_hex_pairs)
  moreover have "hexToBytes (chain32 x) = Inr (chain_name_seed (utf8 (wire t)))"
    using pad_name [OF name(1)] by (simp add: other(6) remote_route_def Let_def)
  moreover have "length (chain_name_seed (utf8 (wire t))) = 32" using name(1) by (simp add: chain_name_seed_def Let_def)
  ultimately show ?thesis
    using k(2) name(2,3) by (simp add: other(6) remote_route_def Let_def validate_route_def try_do_def check_def given_def)
qed

text \<open>A route from Solana to a Monad account: the values of the script are accepted and resolve to Monad's domain.\<close>

theorem script_route_accepted_witness:
  "\<exists>x c rp. cctpRoute keccak256 ''SOLANA'' ''MONAD'' (''0x'' @ replicate 40 CHR ''1'') = Inr x \<and>
     hexToBytes (chain32 x) = Inr c \<and> hexToBytes (recipient32 x) = Inr rp \<and>
     validate_route small_factory c rp \<in> {Inl (Deposit CrossChainRequiresRecipient), Inr 15}"
proof -
  obtain c where c: "chainByKey ''MONAD'' = Some c" "ch_kind c = ''evm''" using chain_MONAD by auto
  have w: "wire ''SOLANA'' = ''SOLANA''" "wire ''MONAD'' = ''MONAD''" by (simp_all add: wire_def char_eval)
  have "canonicalAddress ''MONAD'' (''0x'' @ replicate 40 CHR ''1'') = Some (''0x'' @ replicate 40 CHR ''1'')"
    unfolding canonicalAddress_evm [OF c] by (subst canonicalEvm_form; simp add: list_all_iff char_eval)
  then obtain x where x: "cctpRoute keccak256 ''SOLANA'' ''MONAD'' (''0x'' @ replicate 40 CHR ''1'') = Inr x"
    using cctpRoute_total [of "''SOLANA''" "''MONAD''" c] c(1) w by auto
  show ?thesis
    using script_route_accepted [OF x w(1), of small_factory] x w(2) by (auto simp: domain_for_def small_factory_def)
qed

section \<open>The announcement\<close>

text \<open>The bytes of the event: the discriminator and the eight fields in order, as \<open>emit!\<close> logs them.\<close>

definition announced_fields :: "announced \<Rightarrow> bytes list" where
  "announced_fields e = [an_merchant e, an_receiver e, an_receiver_token_account e, an_receiver_config e, an_staging e, an_pending e,
     an_chain e, an_recipient e]"

definition announced_data :: "(bytes \<Rightarrow> bytes) \<Rightarrow> announced \<Rightarrow> bytes" where
  "announced_data sha e = take 8 (sha (utf8 ''event:ReceiverAnnounced'')) @ concat (announced_fields e)"

lemma slots_of_concat: "list_all (\<lambda>b. length b = 32) bs \<Longrightarrow> slots_of (length bs) (concat bs) = map base58Encode bs"
  by (induction bs) simp_all

lemma length_concat_32: "list_all (\<lambda>b. length b = 32) bs \<Longrightarrow> length (concat bs) = 32 * length bs"
  by (induction bs) simp_all

text \<open>The program of the chain table is the program of \<open>lib.rs\<close>, with its seeds.\<close>

definition table_program :: program where
  "table_program = \<lparr>program_id = DECLARED_ID, config_seed = ''config'', pending_seed = ''pending''\<rparr>"

lemma solanaProgram_declared: "solanaProgram = Inr table_program"
  by (simp add: solanaProgram_def requireChain_def chainByKey_def CHAINS_def wire_def char_eval table_program_def DECLARED_ID_def)

lemma table_seeds: "utf8 (config_seed table_program) = CONFIG_SEED" "utf8 (pending_seed table_program) = PENDING_SEED"
  by (simp_all add: table_program_def CONFIG_SEED_def PENDING_SEED_def)

text \<open>The declared address is a key: 32 bytes of base58.\<close>

lemma key_of_digits:
  assumes "s = map ((!) ALPHABET) (d # ds)" "list_all (\<lambda>x. x < 58) (d # ds)" "d \<noteq> 0"
    and "256 ^ 31 \<le> of_digits 58 (d # ds)" "of_digits 58 (d # ds) < 256 ^ 32"
  shows "length (key_of s) = 32" "pubkeyBytes s l = Inr (key_of s)"
proof -
  have nums: "map index_num s = d # ds" "\<forall>c \<in> set s. INDEX c \<noteq> None"
    using assms(2) by (auto simp: assms(1) list_all_iff intro!: map_idI)
  have "length (digits_of 256 (of_digits 58 (d # ds))) = 32"
    using digits_of_length_gt [of 256 31 "of_digits 58 (d # ds)"] digits_of_length_le [of 256 "of_digits 58 (d # ds)" 32] assms(4,5) by simp
  moreover have "takeWhile ((=) CHR ''1'') s = []" "s \<noteq> []" using assms(2,3) ALPHABET_eq_1 [of d] by (auto simp: assms(1))
  ultimately have "\<exists>b. base58Decode s = Some b \<and> length b = 32"
    using nums by (simp add: base58Decode_eq)
  then show "length (key_of s) = 32" "pubkeyBytes s l = Inr (key_of s)"
    by (auto simp: key_of_def pubkeyBytes_def)
qed

lemma declared_key: "length (key_of DECLARED_ID) = 32" "pubkeyBytes DECLARED_ID l = Inr (key_of DECLARED_ID)"
proof -
  define ds :: "nat list" where "ds = [50, 41, 10, 10, 22, 42, 43, 9, 41, 19, 17, 39, 23, 12, 21, 44, 42, 38, 33, 42, 16, 37, 17, 42, 47, 14, 20, 57,
    17, 48, 11, 21, 57, 1, 14, 51, 57, 32, 33, 1, 16, 47, 39]"
  have "DECLARED_ID = map ((!) ALPHABET) (10 # ds)" by (simp add: DECLARED_ID_def ds_def ALPHABET_def)
  moreover have "list_all (\<lambda>x. x < 58) (10 # ds)" by (simp add: ds_def)
  moreover have "of_digits 58 (10 # ds) = 73081153423168791900906333338626026581682371548698450905341505991587558382085"
    by (simp add: of_digits_def ds_def)
  ultimately show "length (key_of DECLARED_ID) = 32" "pubkeyBytes DECLARED_ID l = Inr (key_of DECLARED_ID)"
    using key_of_digits [of DECLARED_ID 10 ds] by simp_all
qed

section \<open>What is announced is found\<close>

text \<open>The two accounts of a receiver, as the SDK of the program derives them.\<close>

definition sdk_pdas :: "sdk \<Rightarrow> bytes \<Rightarrow> bytes \<Rightarrow> bytes \<Rightarrow> string \<Rightarrow> (string \<times> string) result" where
  "sdk_pdas sdk m c rp receiver =
     then_do (pubkeyBytes receiver ''receiver'') (\<lambda>rc.
       case (find_address sdk (route_seeds CONFIG_SEED m rc c rp), find_address sdk (route_seeds PENDING_SEED m rc c rp)) of
         (Some (config, b), Some (pending, b')) \<Rightarrow> Inr (base58Encode config, base58Encode pending)
       | _ \<Rightarrow> Inl (Error ''No viable program address.''))"

text \<open>With the SDK of the script they are those of \<open>receiverPdas\<close>.\<close>

lemma script_pdas:
  assumes "pubkeyBytes (rmerchant r) ''merchant'' = Inr m" "hexToBytes (rchain32 r) = Inr c" "hexToBytes (rrecipient32 r) = Inr rp"
  shows "receiverPdas sha table_program r = sdk_pdas (script_sdk sha (key_of DECLARED_ID)) m c rp"
proof
  fix receiver
  have found: "findProgramAddress sha seeds (program_id table_program) = find_bump sha seeds (key_of DECLARED_ID) 256" for seeds
    by (simp add: findProgramAddress_def table_program_def declared_key del: find_bump.simps)
  have none: "find_bump sha seeds (key_of DECLARED_ID) 256 = Inl e \<Longrightarrow> e = Error ''No viable program address.''" for seeds e
    by (simp add: find_bump_Inl del: find_bump.simps)
  show "receiverPdas sha table_program r receiver = sdk_pdas (script_sdk sha (key_of DECLARED_ID)) m c rp receiver"
    unfolding receiverPdas_def assms found table_seeds sdk_pdas_def route_seeds_def
    by (auto simp: script_sdk_def script_address_def then_do_def none split: sum.splits simp del: find_bump.simps)
qed

text \<open>The fields of an announcement, all 32 bytes long, are the slots of the event.\<close>

lemma announced_in_fields:
  assumes "list_all (\<lambda>b. length b = 32) (announced_fields an)" "8 \<le> length (sha (utf8 ''event:ReceiverAnnounced''))"
    and "rmerchant r = base58Encode (an_merchant an)" "hexToBytes (rchain32 r) = Inr (an_chain an)" "hexToBytes (rrecipient32 r) = Inr (an_recipient an)"
  defines "slots \<equiv> map base58Encode (announced_fields an)"
  shows "announced_in pdas sha (announced_data sha an) r = Inr (find (owns_slots pdas slots) (js_set slots))"
proof -
  have len: "length (concat (announced_fields an)) = 256" "length (announced_fields an) = 8"
    using length_concat_32 [OF assms(1)] by (simp_all add: announced_fields_def)
  have disc: "length (announced_data sha an) = 264" "take 8 (announced_data sha an) = take 8 (sha (utf8 ''event:ReceiverAnnounced''))"
      "drop 8 (announced_data sha an) = concat (announced_fields an)"
    using assms(2) len by (simp_all add: announced_data_def)
  have "slots_of 8 (concat (announced_fields an)) = slots"
    using slots_of_concat [OF assms(1)] len(2) by (simp add: slots_def)
  moreover have "length (an_merchant an) = 32" using assms(1) by (simp add: announced_fields_def)
  moreover have "base58Encode (an_merchant an) \<in> set slots" "base58Encode (an_chain an) \<in> set slots" "base58Encode (an_recipient an) \<in> set slots"
    by (simp_all add: slots_def announced_fields_def)
  ultimately show ?thesis
    by (simp add: announced_in_def disc assms(3-5) first_owner_eq)
qed

lemma js_set_Cons: "js_set (x # xs) = x # filter (\<lambda>y. y \<noteq> x) (js_set xs)"
proof -
  have "remdups (ys @ [x]) = filter (\<lambda>y. y \<noteq> x) (remdups ys) @ [x]" for ys by (induction ys) auto
  then show ?thesis by (simp add: js_set_def rev_filter)
qed

lemma find_js_set_two: "Q b \<Longrightarrow> find Q (js_set (a # b # xs)) = Some (if Q a then a else b)"
  by (auto simp: js_set_Cons)

lemma find_bump_length: "(\<And>x. length (sha x) = 32) \<Longrightarrow> find_bump sha seeds pid k = Inr (a, b) \<Longrightarrow> length a = 32"
  by (simp add: find_bump_Inr del: find_bump.simps)

lemma announced_in_found:
  assumes "announce_merchant sdk S accs m c rp rc tx led = Inr out"
    and "list_all (\<lambda>b. length b = 32) [m, c, rp, rc]" "8 \<le> length (sha (utf8 ''event:ReceiverAnnounced''))"
    and "\<And>seeds a b. find_address sdk seeds = Some (a, b) \<Longrightarrow> length a = 32"
    and "\<And>ow mint a. token_address sdk ow mint = Some a \<Longrightarrow> length a = 32"
    and "rmerchant r = base58Encode m" "hexToBytes (rchain32 r) = Inr c" "hexToBytes (rrecipient32 r) = Inr rp"
  obtains an where "oc_event out = Some (ReceiverAnnounced an)"
    "announced_in (sdk_pdas sdk m c rp) sha (announced_data sha an) r =
       Inr (Some (if owns_slots (sdk_pdas sdk m c rp) (map base58Encode (announced_fields an)) (base58Encode m)
                  then base58Encode m else base58Encode rc))"
  using assms(1)
proof (rule announce_Inr)
  fix fc p d an
  assume o: "oc_event out = Some (ReceiverAnnounced an)" "an_merchant an = m" "an_receiver an = rc" "an_chain an = c" "an_recipient an = rp"
      "an_pending an = aa_pending accs" "find_address sdk (route_seeds PENDING_SEED m rc c rp) = Some (aa_pending accs, pn_bump p)"
      "token_address sdk rc (fc_mint fc) = Some (an_receiver_token_account an)"
      "\<exists>b. find_address sdk (route_seeds CONFIG_SEED m rc c rp) = Some (an_receiver_config an, b)"
      "token_address sdk (an_receiver_config an) (fc_mint fc) = Some (an_staging an)"
  define slots where "slots = map base58Encode (announced_fields an)"
  define pdas where "pdas = sdk_pdas sdk m c rp"
  have fields: "list_all (\<lambda>b. length b = 32) (announced_fields an)"
    using o(2-10) assms(2,4,5) by (auto simp: announced_fields_def)
  have "announced_in pdas sha (announced_data sha an) r = Inr (find (owns_slots pdas slots) (js_set slots))"
    unfolding slots_def by (rule announced_in_fields [where sha = sha and an = an, OF fields assms(3)]) (use o assms(6-8) in simp_all)
  moreover have "owns_slots pdas slots (base58Encode rc)"
    using o(3,6,7,9) assms(2) by (auto simp: owns_slots_def pdas_def sdk_pdas_def slots_def announced_fields_def)
  moreover have "slots = base58Encode m # base58Encode rc # map base58Encode (drop 2 (announced_fields an))"
    using o(2,3) by (simp add: slots_def announced_fields_def)
  ultimately have "announced_in pdas sha (announced_data sha an) r =
      Inr (Some (if owns_slots pdas slots (base58Encode m) then base58Encode m else base58Encode rc))"
    using find_js_set_two [of "owns_slots pdas slots" "base58Encode rc" "base58Encode m"] by simp
  then show thesis using o(1) that unfolding slots_def pdas_def by blast
qed


text \<open>
  A chain with an SDK of 32-byte addresses; the merchant's key is 7, the receiver's 5. The event of the announcement gives the receiver.
\<close>

definition wide :: "byte list \<Rightarrow> bytes" where
  "wide bs = bs @ replicate (32 - length bs) 0"

definition wide_sdk :: sdk where
  "wide_sdk =
     \<lparr>find_address = (\<lambda>seeds. Some (wide [word_of_nat (length seeds), hd (hd seeds), hd (last (take 3 seeds))], 0)),
      address_at = (\<lambda>seeds b. Some (wide [word_of_nat (length seeds), hd (hd seeds), hd (last (take 3 seeds))])),
      token_address = (\<lambda>ow m. Some (wide [9, hd ow])), sdk_hash = (\<lambda>x. x)\<rparr>"

definition wide_chain :: chain_state_map where
  "wide_chain = [wide [1, 102, 102] \<mapsto> Factory small_factory]"

lemma wide_announce:
  "\<exists>out an. announce_merchant wide_sdk {[9]} \<lparr>aa_payer = [9], aa_factory = wide [1, 102, 102], aa_pending = wide [5, 112, 5]\<rparr>
      (wide [7]) ZERO_BYTES ZERO_BYTES (wide [5]) [1] wide_chain = Inr out \<and> oc_event out = Some (ReceiverAnnounced an) \<and>
    announced_fields an = [wide [7], wide [5], wide [9, 5], wide [5, 99, 5], wide [9, 5], wide [5, 112, 5], ZERO_BYTES, ZERO_BYTES]"
  by (simp add: announce_merchant_def run_defs wide_sdk_def wide_chain_def small_factory_def MAX_REG_TX_BYTES_def announced_fields_def)
    (simp add: wide_def)

lemma base58Encode_inject: "length a = 32 \<Longrightarrow> length b = 32 \<Longrightarrow> base58Encode a = base58Encode b \<longleftrightarrow> a = b"
  using pubkeyBytes_inject [of "base58Encode a" "[]" a "base58Encode b" "[]" b] by simp


section \<open>The script and the chain\<close>

text \<open>What a node of the chain says of its accounts: the owner of each of them.\<close>

definition owner_of :: "stored \<Rightarrow> string" where
  "owner_of a = (case a of TokenAccount t \<Rightarrow> TOKEN_PROGRAM | Mint \<Rightarrow> TOKEN_PROGRAM | _ \<Rightarrow> DECLARED_ID)"

definition account_json :: "chain_state_map \<Rightarrow> string \<Rightarrow> json" where
  "account_json led k =
     (case base58Decode k of
        None \<Rightarrow> JNull
      | Some a \<Rightarrow> (case led a of None \<Rightarrow> JNull | Some x \<Rightarrow> JObj [(''owner'', JStr (owner_of x))]))"

definition node_of :: "net \<Rightarrow> chain_state_map \<Rightarrow> bool" where
  "node_of net led \<longleftrightarrow> (\<forall>ks opts. rpc net ''SOLANA'' ''getMultipleAccounts'' [JArr (map JStr ks), opts] Default =
     Inr (Some (JObj [(''value'', JArr (map (account_json led) ks))])))"

text \<open>The receiver of an announcement passes the check of the script against the chain after it.\<close>

lemma announcement_verified:
  assumes "announce_merchant (script_sdk sha (key_of DECLARED_ID)) S accs m c rp rc tx led = Inr out" "node_of net (oc_accounts out)"
    and "length m = 32" "length rc = 32" "\<And>x. length (sha x) = 32"
    and "hexToBytes (chain32 x) = Inr c" "hexToBytes (recipient32 x) = Inr rp"
  shows "verifySolanaReceiver sha net (base58Encode m) (base58Encode rc) x = Inr True"
  using assms(1)
proof (rule announce_Inr)
  fix fc p d an
  assume o: "oc_accounts out = led(aa_pending accs \<mapsto> Pending p)"
      "find_address (script_sdk sha (key_of DECLARED_ID)) (route_seeds PENDING_SEED m rc c rp) = Some (aa_pending accs, pn_bump p)"
      "\<exists>b. find_address (script_sdk sha (key_of DECLARED_ID)) (route_seeds CONFIG_SEED m rc c rp) = Some (an_receiver_config an, b)"
  have "receiverPdas sha table_program (route_of (base58Encode m) x) (base58Encode rc) =
      Inr (base58Encode (an_receiver_config an), base58Encode (aa_pending accs))"
    using o(2,3) assms(3-7) by (subst script_pdas) (auto simp: route_of_def sdk_pdas_def)
  moreover have "find_bump sha (route_seeds PENDING_SEED m rc c rp) (key_of DECLARED_ID) 256 = Inr (aa_pending accs, unat (pn_bump p))"
    using o(2) by (simp add: script_sdk_def script_address_Some del: find_bump.simps)
  then have "length (aa_pending accs) = 32" by (rule find_bump_length [OF assms(5)])
  then have "base58Decode (base58Encode (aa_pending accs)) = Some (aa_pending accs)"
    by (intro base58Decode_Encode) auto
  then have "account_json (oc_accounts out) (base58Encode (aa_pending accs)) = JObj [(''owner'', JStr DECLARED_ID)]"
    by (simp add: account_json_def o(1) owner_of_def)
  moreover have "rpc net ''SOLANA'' ''getMultipleAccounts'' [JArr (map JStr ks), opts] Default =
      Inr (Some (JObj [(''value'', JArr (map (account_json (oc_accounts out)) ks))]))" for ks opts
    using assms(2) by (simp add: node_of_def)
  note node = this [of "[base58Encode (an_receiver_config an), base58Encode (aa_pending accs)]"]
  ultimately show ?thesis
    unfolding verifySolanaReceiver_def solanaProgram_declared
    by (simp add: node [simplified] hasProgramAccount_def table_program_def opt_prop_def js_truthy_def nullish_def as_array_def)
qed

text \<open>From the log of that transaction the search returns the receiver, when the merchant's own key does not fit as well.\<close>

lemma announcement_discovered:
  assumes "announce_merchant (script_sdk sha (key_of DECLARED_ID)) S accs m c rp rc tx led = Inr out" "node_of net (oc_accounts out)"
    and "list_all (\<lambda>b. length b = 32) [m, c, rp, rc]" "\<And>x. length (sha x) = 32"
    and "hexToBytes (chain32 x) = Inr c" "hexToBytes (recipient32 x) = Inr rp"
    and "oc_event out = Some (ReceiverAnnounced an)"
    and "m = rc \<or> \<not> owns_slots (receiverPdas sha table_program (route_of (base58Encode m) x)) (map base58Encode (announced_fields an)) (base58Encode m)"
  shows "disc_lines sha net table_program (base58Encode m) x [JStr (PROGRAM_DATA @ toBase64 (announced_data sha an))] = Inr (Some (base58Encode rc))"
proof -
  have seeds: "receiverPdas sha table_program (route_of (base58Encode m) x) = sdk_pdas (script_sdk sha (key_of DECLARED_ID)) m c rp"
    using assms(3,5,6) by (intro script_pdas) (simp_all add: route_of_def)
  have find_32: "find_address (script_sdk sha (key_of DECLARED_ID)) sd = Some (a, b) \<Longrightarrow> length a = 32" for sd a b
    using find_bump_length [OF assms(4)] by (auto simp: script_sdk_def script_address_Some simp del: find_bump.simps)
  have ata_32: "token_address (script_sdk sha (key_of DECLARED_ID)) ow mint = Some a \<Longrightarrow> length a = 32" for ow mint a
    using find_bump_length [OF assms(4)] by (auto simp: script_sdk_def script_address_Some simp del: find_bump.simps)
  have "announced_in (receiverPdas sha table_program (route_of (base58Encode m) x)) sha (announced_data sha an) (route_of (base58Encode m) x) =
      Inr (Some (base58Encode rc))"
  proof -
    obtain an' where an': "oc_event out = Some (ReceiverAnnounced an')"
      "announced_in (sdk_pdas (script_sdk sha (key_of DECLARED_ID)) m c rp) sha (announced_data sha an') (route_of (base58Encode m) x) =
         Inr (Some (if owns_slots (sdk_pdas (script_sdk sha (key_of DECLARED_ID)) m c rp) (map base58Encode (announced_fields an')) (base58Encode m)
                    then base58Encode m else base58Encode rc))"
      by (rule announced_in_found [where sha = sha and r = "route_of (base58Encode m) x", OF assms(1,3) _ find_32 ata_32])
        (use assms(4-6) in \<open>simp_all add: route_of_def\<close>)
    then have "an' = an" using assms(7) by simp
    then show ?thesis using an'(2) assms(8) unfolding seeds by auto
  qed
  then have "receiverFromAnnouncedEvent sha (announced_data sha an) table_program (route_of (base58Encode m) x) = Inr (Some (base58Encode rc))"
    by (simp add: receiverFromAnnouncedEvent_def)
  moreover have "verifySolanaReceiver sha net (base58Encode m) (base58Encode rc) x = Inr True"
    by (rule announcement_verified [OF assms(1,2)]) (use assms(3-6) in auto)
  moreover have "base58Encode rc \<noteq> []"
  proof -
    have "base58Decode (base58Encode rc) = Some rc" using assms(3) by (intro base58Decode_Encode) auto
    then show ?thesis by (auto simp: base58Decode_def)
  qed
  moreover have "starts_with p (p @ s)" for p s by (induction p) simp_all
  ultimately show ?thesis by (simp add: fromBase64_toBase64)
qed

end
