(* ===== verification/Deploy.thy ===== *)
theory Deploy
  imports Solana_Lane
begin

text \<open>
  The deployment script of the Solana program, \<open>migrations/deploy.ts\<close>. Anchor, web3.js and the token library are the record
  \<open>deploy_env\<close>: what they read is a function of the chain's state \<open>'s\<close>, and sending a transaction changes it. On a chain that runs the
  program of \<open>lib.rs\<close>, the script initializes the factory once, with the domains the routes of the scripts settle on.
\<close>

section \<open>The script\<close>

definition MINT_PUBKEY :: bytes where
  "MINT_PUBKEY = key_of ''4zMMC9srt5Ri5X14GAgXhaHii3GnPAEERYPJgZJDncDU''"

record cctp_domains =
  cd_starknet :: "32 word"
  cd_base :: "32 word"
  cd_ethereum :: "32 word"
  cd_monad :: "32 word"
  cd_arbitrum :: "32 word"

definition CCTP_DOMAINS :: cctp_domains where
  "CCTP_DOMAINS = \<lparr>cd_starknet = 25, cd_base = 6, cd_ethereum = 0, cd_monad = 15, cd_arbitrum = 3\<rparr>"

definition DEPLOY_FACTORY_SEED :: bytes where
  "DEPLOY_FACTORY_SEED = utf8 ''factory''"

text \<open>The instructions of the transaction: create the token account of an owner and a mint, and initialize the factory.\<close>

datatype deploy_ix =
    CreateTokenAccount bytes bytes bytes bytes
  | InitializeFactory init_accounts "32 word" "32 word" "32 word" "32 word" "32 word"

text \<open>
  The wallet, the program \<open>Sol\<close> of the workspace, \<open>findProgramAddressSync\<close>, \<open>getAssociatedTokenAddress\<close>, \<open>getAccountInfo\<close>
  (whether there is an account), \<open>getAccount\<close> and \<open>sendAndConfirm\<close>.
\<close>

record 's deploy_env =
  pv_wallet :: bytes
  pv_program :: "bytes option"
  pv_find :: "bytes list \<Rightarrow> bytes \<Rightarrow> bytes result"
  pv_ata :: "bytes \<Rightarrow> bytes \<Rightarrow> bytes result"
  pv_info :: "bytes \<Rightarrow> 's \<Rightarrow> bool result"
  pv_account :: "bytes \<Rightarrow> 's \<Rightarrow> token_account result"
  pv_send :: "deploy_ix list \<Rightarrow> 's \<Rightarrow> string result \<times> 's"

datatype deployed = Already_initialized | Initialized string

definition deploy_ixs :: "bytes \<Rightarrow> bytes \<Rightarrow> bytes \<Rightarrow> bool \<Rightarrow> deploy_ix list" where
  "deploy_ixs payer factory treasury exists =
     (if exists then [] else [CreateTokenAccount payer treasury payer MINT_PUBKEY]) @
     [InitializeFactory \<lparr>in_payer = payer, in_mint = MINT_PUBKEY, in_treasury = treasury, in_factory = factory\<rparr>
        (cd_starknet CCTP_DOMAINS) (cd_base CCTP_DOMAINS) (cd_ethereum CCTP_DOMAINS) (cd_monad CCTP_DOMAINS) (cd_arbitrum CCTP_DOMAINS)]"

definition deploy :: "'s deploy_env \<Rightarrow> 's \<Rightarrow> deployed result \<times> 's" where
  "deploy pv s =
     (case pv_program pv of
        None \<Rightarrow> (Inl (Error (''Program 'Sol' not found in anchor.workspace. '' @ ''Ensure your Anchor.toml matches the program name.'')), s)
      | Some pid \<Rightarrow>
         let payer = pv_wallet pv in
         (case pv_find pv [DEPLOY_FACTORY_SEED] pid of
            Inl e \<Rightarrow> (Inl e, s)
          | Inr factory \<Rightarrow>
             (case pv_info pv factory s of
                Inl e \<Rightarrow> (Inl e, s)
              | Inr True \<Rightarrow> (Inr Already_initialized, s)
              | Inr False \<Rightarrow>
                 (case pv_ata pv MINT_PUBKEY payer of
                    Inl e \<Rightarrow> (Inl e, s)
                  | Inr treasury \<Rightarrow>
                     (let exists = (case pv_account pv treasury s of Inl e \<Rightarrow> False | Inr t \<Rightarrow> True);
                          (r, s') = pv_send pv (deploy_ixs payer factory treasury exists) s
                      in (map_sum id Initialized r, s'))))))"

section \<open>On a chain that runs the program\<close>

text \<open>
  The instructions of a transaction in order; when one fails, none has happened. \<open>create\<close> is the associated token program: given the payer,
  the address, the owner and the mint. The wallet is the only signer.
\<close>

definition run_ix :: "sdk \<Rightarrow> (bytes \<Rightarrow> bytes \<Rightarrow> bytes \<Rightarrow> bytes \<Rightarrow> chain_state_map \<Rightarrow> program_error + chain_state_map) \<Rightarrow> bytes set \<Rightarrow>
    deploy_ix \<Rightarrow> chain_state_map \<Rightarrow> program_error + chain_state_map" where
  "run_ix sdk create signers ix led =
     (case ix of
        CreateTokenAccount payer k owner mint \<Rightarrow> create payer k owner mint led
      | InitializeFactory accs s b e m r \<Rightarrow> map_sum id oc_accounts (initialize_factory sdk signers accs s b e m r led))"

fun run_ixs :: "sdk \<Rightarrow> (bytes \<Rightarrow> bytes \<Rightarrow> bytes \<Rightarrow> bytes \<Rightarrow> chain_state_map \<Rightarrow> program_error + chain_state_map) \<Rightarrow> bytes set \<Rightarrow>
    deploy_ix list \<Rightarrow> chain_state_map \<Rightarrow> program_error + chain_state_map" where
  "run_ixs sdk create signers [] led = Inr led"
| "run_ixs sdk create signers (ix # ixs) led = try_do (run_ix sdk create signers ix led) (run_ixs sdk create signers ixs)"

definition chain_provider :: "sdk \<Rightarrow> (bytes \<Rightarrow> bytes \<Rightarrow> bytes \<Rightarrow> bytes \<Rightarrow> chain_state_map \<Rightarrow> program_error + chain_state_map) \<Rightarrow>
    bytes \<Rightarrow> bytes \<Rightarrow> chain_state_map deploy_env" where
  "chain_provider sdk create wallet pid =
     \<lparr>pv_wallet = wallet, pv_program = Some pid,
      pv_find = (\<lambda>seeds p. case find_address sdk seeds of None \<Rightarrow> Inl (Error ''Unable to find a viable program address nonce'') | Some (a, b) \<Rightarrow> Inr a),
      pv_ata = (\<lambda>mint owner. case token_address sdk owner mint of None \<Rightarrow> Inl (Error ''TokenOwnerOffCurveError'') | Some a \<Rightarrow> Inr a),
      pv_info = (\<lambda>k led. Inr (led k \<noteq> None)),
      pv_account = (\<lambda>k led. case led k of Some (TokenAccount t) \<Rightarrow> Inr t | _ \<Rightarrow> Inl (Error ''TokenAccountNotFoundError'')),
      pv_send = (\<lambda>ixs led. case run_ixs sdk create {wallet} ixs led of
         Inl e \<Rightarrow> (Inl (Error ''Transaction failed''), led) | Inr led' \<Rightarrow> (Inr ''signature'', led'))\<rparr>"

text \<open>The associated token program makes an empty account at the address of an owner and a mint that has none yet.\<close>

definition creates_tokens :: "sdk \<Rightarrow> (bytes \<Rightarrow> bytes \<Rightarrow> bytes \<Rightarrow> bytes \<Rightarrow> chain_state_map \<Rightarrow> program_error + chain_state_map) \<Rightarrow> bool" where
  "creates_tokens sdk create \<longleftrightarrow> (\<forall>p k ow mint led. led k = None \<longrightarrow> token_address sdk ow mint = Some k \<longrightarrow> led mint = Some Mint \<longrightarrow>
     create p k ow mint led = Inr (led(k \<mapsto> TokenAccount \<lparr>tk_mint = mint, tk_owner = ow, tk_amount = 0\<rparr>)))"

lemma factory_seed: "DEPLOY_FACTORY_SEED = FACTORY_SEED"
  by (simp add: DEPLOY_FACTORY_SEED_def FACTORY_SEED_def)

text \<open>The mint is a key: 32 bytes of base58.\<close>

lemma mint_key: "length MINT_PUBKEY = 32"
proof -
  define ds :: "nat list" where "ds = [57, 20, 20, 11, 8, 50, 49, 51, 4, 24, 41, 4, 30, 0, 3, 15, 9, 39, 30, 40, 33, 16, 41, 41, 2, 15, 45, 22, 9,
    13, 13, 24, 31, 22, 17, 39, 32, 17, 12, 45, 35, 12, 27]"
  define s :: string where "s = ''4zMMC9srt5Ri5X14GAgXhaHii3GnPAEERYPJgZJDncDU''"
  have "s = map ((!) ALPHABET) (3 # ds)" by (simp add: s_def ds_def ALPHABET_def)
  moreover have "list_all (\<lambda>x. x < 58) (3 # ds)" by (simp add: ds_def)
  moreover have "of_digits 58 (3 # ds) = 26806912184771358275575279326589213114959716706948233601505532916092626808487"
    by (simp add: of_digits_def ds_def)
  ultimately have "length (key_of s) = 32" using key_of_digits(1) [of s 3 ds] by simp
  then show ?thesis by (simp add: MINT_PUBKEY_def s_def)
qed

text \<open>The factory the script asks for.\<close>

definition deployed_factory :: "bytes \<Rightarrow> byte \<Rightarrow> factory_config" where
  "deployed_factory treasury bump = \<lparr>fc_mint = MINT_PUBKEY, fc_treasury = treasury, fc_starknet = 25, fc_base = 6, fc_ethereum = 0,
     fc_monad = 15, fc_arbitrum = 3, fc_bump = bump\<rparr>"

lemma initialize_deployed:
  assumes "find_address sdk [FACTORY_SEED] = Some (f, bump)" "led f = None" "led MINT_PUBKEY = Some Mint"
    and "led t = Some (TokenAccount ta)" "tk_mint ta = MINT_PUBKEY"
  shows "map_sum id oc_accounts (initialize_factory sdk {w} \<lparr>in_payer = w, in_mint = MINT_PUBKEY, in_treasury = t, in_factory = f\<rparr> 25 6 0 15 3 led) =
    Inr (led(f \<mapsto> Factory (deployed_factory t bump)))"
  using assms by (simp add: initialize_factory_def try_do_def check_def given_def load_token_def create_at_def deployed_factory_def Let_def)

text \<open>What the transaction makes of the chain.\<close>

lemma deploy_runs:
  assumes "creates_tokens sdk create" "find_address sdk [FACTORY_SEED] = Some (f, bump)" "token_address sdk w MINT_PUBKEY = Some t"
    and "led f = None" "led MINT_PUBKEY = Some Mint" "t \<noteq> f" "led t = None \<or> (\<exists>ta. led t = Some (TokenAccount ta) \<and> tk_mint ta = MINT_PUBKEY)"
  obtains led1 where "led1 = led \<or> led t = None \<and> led1 = led(t \<mapsto> TokenAccount \<lparr>tk_mint = MINT_PUBKEY, tk_owner = w, tk_amount = 0\<rparr>)"
    "deploy (chain_provider sdk create w pid) led = (Inr (Initialized ''signature''), led1(f \<mapsto> Factory (deployed_factory t bump)))"
    "\<exists>out. initialize_factory sdk {w} \<lparr>in_payer = w, in_mint = MINT_PUBKEY, in_treasury = t, in_factory = f\<rparr> 25 6 0 15 3 led1 = Inr out \<and>
       oc_accounts out = led1(f \<mapsto> Factory (deployed_factory t bump))"
proof -
  define led1 where "led1 = (if led t = None then led(t \<mapsto> TokenAccount \<lparr>tk_mint = MINT_PUBKEY, tk_owner = w, tk_amount = 0\<rparr>) else led)"
  have mint: "t \<noteq> MINT_PUBKEY" "f \<noteq> MINT_PUBKEY" using assms(4,5,7) by auto
  have "\<exists>ta. led1 t = Some (TokenAccount ta) \<and> tk_mint ta = MINT_PUBKEY" using assms(7) by (auto simp: led1_def)
  then have init: "map_sum id oc_accounts (initialize_factory sdk {w} \<lparr>in_payer = w, in_mint = MINT_PUBKEY, in_treasury = t, in_factory = f\<rparr> 25 6 0 15 3 led1) =
      Inr (led1(f \<mapsto> Factory (deployed_factory t bump)))"
    using initialize_deployed [OF assms(2), of led1 t _ w] assms(4-6) mint by (auto simp: led1_def split: if_splits)
  have create: "led t = None \<Longrightarrow> create w t w MINT_PUBKEY led = Inr led1"
    using assms(1,3,5) by (simp add: creates_tokens_def led1_def)
  have "deploy (chain_provider sdk create w pid) led = (Inr (Initialized ''signature''), led1(f \<mapsto> Factory (deployed_factory t bump)))"
    using assms(2-4,7) init create
    by (auto simp: deploy_def chain_provider_def factory_seed deploy_ixs_def CCTP_DOMAINS_def run_ix_def try_do_def led1_def Let_def)
  moreover have "led1 = led \<or> led t = None \<and> led1 = led(t \<mapsto> TokenAccount \<lparr>tk_mint = MINT_PUBKEY, tk_owner = w, tk_amount = 0\<rparr>)"
    by (simp add: led1_def)
  moreover have "\<exists>out. initialize_factory sdk {w} \<lparr>in_payer = w, in_mint = MINT_PUBKEY, in_treasury = t, in_factory = f\<rparr> 25 6 0 15 3 led1 = Inr out \<and>
       oc_accounts out = led1(f \<mapsto> Factory (deployed_factory t bump))"
    using init by (cases "initialize_factory sdk {w} \<lparr>in_payer = w, in_mint = MINT_PUBKEY, in_treasury = t, in_factory = f\<rparr> 25 6 0 15 3 led1") simp_all
  ultimately show thesis using that by blast
qed

text \<open>The domains of the chains the scripts name.\<close>

lemma deployed_domains:
  "map (\<lambda>k. resolve_domain (deployed_factory t bump) (chain_name_seed (utf8 k))) [''STARKNET'', ''BASE'', ''ETHEREUM'', ''MONAD'', ''ARBITRUM''] =
   map Some [25, 6, 0, 15, 3]"
  by (simp add: resolve_domain_def chain_names chain_name_seed_inject deployed_factory_def)

text \<open>
  C32: the deployment happens once. On a chain that has the mint and no factory, the script initializes the factory for its mint and the
  wallet's own token account, which it makes when there is none; the program then knows each chain a route names by its CCTP domain. The
  change is made of steps of the program and of the token program, so what was registered stays. Run again, the script changes nothing.
\<close>

theorem deploy_once:
  assumes "creates_tokens sdk create" "find_address sdk [FACTORY_SEED] = Some (f, bump)" "token_address sdk w MINT_PUBKEY = Some t"
    and "led f = None" "led MINT_PUBKEY = Some Mint" "t \<noteq> f" "led t = None \<or> (\<exists>ta. led t = Some (TokenAccount ta) \<and> tk_mint ta = MINT_PUBKEY)"
  shows "\<exists>led' fc. deploy (chain_provider sdk create w pid) led = (Inr (Initialized ''signature''), led') \<and> led' f = Some (Factory fc) \<and>
    fc_mint fc = MINT_PUBKEY \<and> fc_treasury fc = t \<and>
    map (\<lambda>k. resolve_domain fc (chain_name_seed (utf8 k))) [''STARKNET'', ''BASE'', ''ETHEREUM'', ''MONAD'', ''ARBITRUM''] = map Some [25, 6, 0, 15, 3] \<and>
    (program_step sdk)\<^sup>*\<^sup>* led led' \<and>
    deploy (chain_provider sdk create w pid) led' = (Inr Already_initialized, led')"
proof -
  obtain led1 out where led1: "led1 = led \<or> led t = None \<and> led1 = led(t \<mapsto> TokenAccount \<lparr>tk_mint = MINT_PUBKEY, tk_owner = w, tk_amount = 0\<rparr>)"
    and run: "deploy (chain_provider sdk create w pid) led = (Inr (Initialized ''signature''), led1(f \<mapsto> Factory (deployed_factory t bump)))"
    and init: "initialize_factory sdk {w} \<lparr>in_payer = w, in_mint = MINT_PUBKEY, in_treasury = t, in_factory = f\<rparr> 25 6 0 15 3 led1 = Inr out"
    and out: "oc_accounts out = led1(f \<mapsto> Factory (deployed_factory t bump))"
    using deploy_runs [OF assms] by blast
  have "(program_step sdk)\<^sup>*\<^sup>* led led1"
    using led1 program_step.tokens_change [of led t "Some (TokenAccount \<lparr>tk_mint = MINT_PUBKEY, tk_owner = w, tk_amount = 0\<rparr>)" sdk] by auto
  moreover have "program_step sdk led1 (oc_accounts out)" using init by (rule program_step.initialized)
  ultimately have "(program_step sdk)\<^sup>*\<^sup>* led (oc_accounts out)" by (meson rtranclp.rtrancl_into_rtrancl)
  moreover have "deploy (chain_provider sdk create w pid) (oc_accounts out) = (Inr Already_initialized, oc_accounts out)"
    using assms(2) by (simp add: deploy_def chain_provider_def factory_seed out Let_def)
  moreover have "fc_mint (deployed_factory t bump) = MINT_PUBKEY" "fc_treasury (deployed_factory t bump) = t"
    by (simp_all add: deployed_factory_def)
  moreover have "oc_accounts out f = Some (Factory (deployed_factory t bump))" by (simp add: out)
  ultimately show ?thesis using run deployed_domains unfolding out by blast
qed

text \<open>A wallet without a token account deploys on a chain that has the mint.\<close>

theorem deploy_once_witness:
  "\<exists>led'. deploy (chain_provider plain_sdk (\<lambda>p k ow mint led. Inr (led(k \<mapsto> TokenAccount \<lparr>tk_mint = mint, tk_owner = ow, tk_amount = 0\<rparr>))) [9] [8])
     [MINT_PUBKEY \<mapsto> Mint] = (Inr (Initialized ''signature''), led') \<and> led' [1, 102] \<noteq> None"
proof -
  let ?create = "\<lambda>p k ow mint (led :: chain_state_map). (Inr (led(k \<mapsto> TokenAccount \<lparr>tk_mint = mint, tk_owner = ow, tk_amount = 0\<rparr>)) :: program_error + chain_state_map)"
  have "MINT_PUBKEY \<noteq> [1, 102]" "[9] @ MINT_PUBKEY \<noteq> MINT_PUBKEY" "[9] @ MINT_PUBKEY \<noteq> [1, 102]"
    using mint_key by (auto dest: arg_cong [of _ _ length])
  then show ?thesis
    using deploy_once [of plain_sdk ?create "[1, 102]" 0 "[9]" "[9] @ MINT_PUBKEY" "[MINT_PUBKEY \<mapsto> Mint]" "[8]"]
    by (auto simp: creates_tokens_def plain_sdk_def seed_heads)
qed

end
