(* ===== verification/Keccak_Eval.thy ===== *)
theory Keccak_Eval
  imports Keccak
begin

text \<open>
  Rules that let the simplifier run the keccak256 of \<open>scripts/identity.js\<close> on a given input: each step of a round on a list of 25 lanes,
  every lane a numeral before the next step looks at it.
\<close>

section \<open>The steps on a list of lanes\<close>

lemma xor_at_eval:
  "xor_at (x # xs) 0 t = (x XOR t) # xs" "xor_at (x # xs) (Suc n) t = x # xor_at xs n t"
  "xor_at (x # xs) (numeral k) t = x # xor_at xs (pred_numeral k) t"
  by (simp_all add: xor_at_def numeral_eq_Suc)

text \<open>The five parities, then the five corrections, then the lanes.\<close>

definition theta_add :: "int \<Rightarrow> int \<Rightarrow> int \<Rightarrow> int \<Rightarrow> int \<Rightarrow> int list \<Rightarrow> int list" where
  "theta_add d0 d1 d2 d3 d4 st = map2 (XOR) st
     [d0, d1, d2, d3, d4, d0, d1, d2, d3, d4, d0, d1, d2, d3, d4, d0, d1, d2, d3, d4, d0, d1, d2, d3, d4]"

definition theta_mix :: "int \<Rightarrow> int \<Rightarrow> int \<Rightarrow> int \<Rightarrow> int \<Rightarrow> int list \<Rightarrow> int list" where
  "theta_mix c0 c1 c2 c3 c4 st =
     theta_add (c4 XOR rotl c1 1) (c0 XOR rotl c2 1) (c1 XOR rotl c3 1) (c2 XOR rotl c4 1) (c3 XOR rotl c0 1) st"

lemma theta_eval:
  "theta_step [a0, a1, a2, a3, a4, a5, a6, a7, a8, a9, a10, a11, a12, a13, a14, a15, a16, a17, a18, a19, a20, a21, a22, a23, a24] =
   theta_mix (a0 XOR a5 XOR a10 XOR a15 XOR a20) (a1 XOR a6 XOR a11 XOR a16 XOR a21) (a2 XOR a7 XOR a12 XOR a17 XOR a22)
     (a3 XOR a8 XOR a13 XOR a18 XOR a23) (a4 XOR a9 XOR a14 XOR a19 XOR a24)
   [a0, a1, a2, a3, a4, a5, a6, a7, a8, a9, a10, a11, a12, a13, a14, a15, a16, a17, a18, a19, a20, a21, a22, a23, a24]"
  by (simp add: theta_step_def xor_at_eval Let_def theta_mix_def theta_add_def)

lemma theta_add_eval:
  "theta_add d0 d1 d2 d3 d4
   [a0, a1, a2, a3, a4, a5, a6, a7, a8, a9, a10, a11, a12, a13, a14, a15, a16, a17, a18, a19, a20, a21, a22, a23, a24] =
   [a0 XOR d0, a1 XOR d1, a2 XOR d2, a3 XOR d3, a4 XOR d4, a5 XOR d0, a6 XOR d1, a7 XOR d2, a8 XOR d3, a9 XOR d4, a10 XOR d0, a11 XOR d1,
    a12 XOR d2, a13 XOR d3, a14 XOR d4, a15 XOR d0, a16 XOR d1, a17 XOR d2, a18 XOR d3, a19 XOR d4, a20 XOR d0, a21 XOR d1, a22 XOR d2,
    a23 XOR d3, a24 XOR d4]"
  by (simp add: theta_add_def)

lemma rho_pi_eval:
  "rho_pi_step [a0, a1, a2, a3, a4, a5, a6, a7, a8, a9, a10, a11, a12, a13, a14, a15, a16, a17, a18, a19, a20, a21, a22, a23, a24] =
   [a0, rotl a6 44, rotl a12 43, rotl a18 21, rotl a24 14, rotl a3 28, rotl a9 20, rotl a10 3, rotl a16 45, rotl a22 61, rotl a1 1, rotl a7 6,
    rotl a13 25, rotl a19 8, rotl a20 18, rotl a4 27, rotl a5 36, rotl a11 10, rotl a17 15, rotl a23 56, rotl a2 62, rotl a8 55, rotl a14 39,
    rotl a15 41, rotl a21 2]"
  by (simp add: rho_pi_step_def PILN_def ROTC_def)

text \<open>One row of the last step.\<close>

definition chi_row :: "int list \<Rightarrow> nat \<Rightarrow> int list" where
  "chi_row st j =
     (let bc = map (\<lambda>i. st ! (j + i)) [0, 1, 2, 3, 4]
      in foldl (\<lambda>st i. xor_at st (j + i) ((bc ! ((i + 1) mod 5) XOR M64) AND bc ! ((i + 2) mod 5))) st [0, 1, 2, 3, 4])"

lemma chi_rows: "chi_step st = chi_row (chi_row (chi_row (chi_row (chi_row st 0) 5) 10) 15) 20"
  unfolding chi_step_def chi_row_def foldl.simps ..

lemma chi_row_eq:
  "chi_row st j =
     xor_at (xor_at (xor_at (xor_at (xor_at st j ((st ! (j + 1) XOR M64) AND st ! (j + 2))) (j + 1) ((st ! (j + 2) XOR M64) AND st ! (j + 3)))
       (j + 2) ((st ! (j + 3) XOR M64) AND st ! (j + 4))) (j + 3) ((st ! (j + 4) XOR M64) AND st ! j)) (j + 4) ((st ! j XOR M64) AND st ! (j + 1))"
proof -
  have "Let (x # xs) f = f (x # xs)" for x :: int and xs and f :: "int list \<Rightarrow> int list" by simp
  then show ?thesis by (simp add: chi_row_def)
qed

definition row5 :: "int \<Rightarrow> int \<Rightarrow> int \<Rightarrow> int \<Rightarrow> int \<Rightarrow> int list" where
  "row5 a b c d e = [a XOR ((b XOR M64) AND c), b XOR ((c XOR M64) AND d), c XOR ((d XOR M64) AND e), d XOR ((e XOR M64) AND a),
     e XOR ((a XOR M64) AND b)]"

lemma chi_eval:
  "chi_row
    [a0, a1, a2, a3, a4, a5, a6, a7, a8, a9, a10, a11, a12, a13, a14, a15, a16, a17, a18, a19, a20, a21, a22, a23, a24] 0 =
    row5 a0 a1 a2 a3 a4 @ [a5, a6, a7, a8, a9, a10, a11, a12, a13, a14, a15, a16, a17, a18, a19, a20, a21, a22, a23, a24]"
  "chi_row
    [a0, a1, a2, a3, a4, a5, a6, a7, a8, a9, a10, a11, a12, a13, a14, a15, a16, a17, a18, a19, a20, a21, a22, a23, a24] 5 =
    [a0, a1, a2, a3, a4] @ row5 a5 a6 a7 a8 a9 @ [a10, a11, a12, a13, a14, a15, a16, a17, a18, a19, a20, a21, a22, a23, a24]"
  "chi_row
    [a0, a1, a2, a3, a4, a5, a6, a7, a8, a9, a10, a11, a12, a13, a14, a15, a16, a17, a18, a19, a20, a21, a22, a23, a24] 10 =
    [a0, a1, a2, a3, a4, a5, a6, a7, a8, a9] @ row5 a10 a11 a12 a13 a14 @ [a15, a16, a17, a18, a19, a20, a21, a22, a23, a24]"
  "chi_row
    [a0, a1, a2, a3, a4, a5, a6, a7, a8, a9, a10, a11, a12, a13, a14, a15, a16, a17, a18, a19, a20, a21, a22, a23, a24] 15 =
    [a0, a1, a2, a3, a4, a5, a6, a7, a8, a9, a10, a11, a12, a13, a14] @ row5 a15 a16 a17 a18 a19 @ [a20, a21, a22, a23, a24]"
  "chi_row
    [a0, a1, a2, a3, a4, a5, a6, a7, a8, a9, a10, a11, a12, a13, a14, a15, a16, a17, a18, a19, a20, a21, a22, a23, a24] 20 =
    [a0, a1, a2, a3, a4, a5, a6, a7, a8, a9, a10, a11, a12, a13, a14, a15, a16, a17, a18, a19] @ row5 a20 a21 a22 a23 a24"
  by (simp_all add: chi_row_eq row5_def xor_at_eval)

lemma M64_value: "M64 = 0xFFFFFFFFFFFFFFFF"
  by (simp add: M64_def)

section \<open>Bits of numerals\<close>

text \<open>Bits of a numeral, the lowest first: \<open>dbl\<close> and \<open>dbl1\<close> put a bit in front.\<close>

definition dbl :: "int \<Rightarrow> int" where "dbl x = 2 * x"
definition dbl1 :: "int \<Rightarrow> int" where "dbl1 x = 2 * x + 1"

lemma dbl_eval: "dbl 0 = 0" "dbl 1 = numeral (num.Bit0 num.One)" "dbl (numeral x) = numeral (num.Bit0 x)"
  "dbl1 0 = 1" "dbl1 1 = numeral (num.Bit1 num.One)" "dbl1 (numeral x) = numeral (num.Bit1 x)"
  by (simp_all add: dbl_def dbl1_def)

lemma xor_eval:
  "numeral (num.Bit0 x) XOR numeral (num.Bit0 y) = dbl (numeral x XOR numeral y)"
  "numeral (num.Bit0 x) XOR numeral (num.Bit1 y) = dbl1 (numeral x XOR numeral y)"
  "numeral (num.Bit1 x) XOR numeral (num.Bit0 y) = dbl1 (numeral x XOR numeral y)"
  "numeral (num.Bit1 x) XOR numeral (num.Bit1 y) = dbl (numeral x XOR numeral y)"
  "numeral (num.Bit0 x) XOR (1 :: int) = numeral (num.Bit1 x)"
  "numeral (num.Bit1 x) XOR (1 :: int) = numeral (num.Bit0 x)"
  "(1 :: int) XOR numeral (num.Bit0 x) = numeral (num.Bit1 x)"
  "(1 :: int) XOR numeral (num.Bit1 x) = numeral (num.Bit0 x)"
  "(1 :: int) XOR 1 = 0" "(0 :: int) XOR i = i" "i XOR (0 :: int) = i"
  by (simp_all add: dbl_def dbl1_def)

lemma and_eval:
  "numeral (num.Bit0 x) AND numeral (num.Bit0 y) = dbl (numeral x AND numeral y)"
  "numeral (num.Bit0 x) AND numeral (num.Bit1 y) = dbl (numeral x AND numeral y)"
  "numeral (num.Bit1 x) AND numeral (num.Bit0 y) = dbl (numeral x AND numeral y)"
  "numeral (num.Bit1 x) AND numeral (num.Bit1 y) = dbl1 (numeral x AND numeral y)"
  "numeral (num.Bit0 x) AND (1 :: int) = 0"
  "numeral (num.Bit1 x) AND (1 :: int) = 1"
  "(1 :: int) AND numeral (num.Bit0 x) = 0"
  "(1 :: int) AND numeral (num.Bit1 x) = 1"
  "(1 :: int) AND 1 = 1" "(0 :: int) AND i = 0" "i AND (0 :: int) = 0"
  by (simp_all add: dbl_def dbl1_def)

text \<open>The bits above the lowest \<open>n\<close>, the lowest \<open>n\<close>, and \<open>n\<close> bits put below others.\<close>

definition high_bits :: "nat \<Rightarrow> int \<Rightarrow> int" where "high_bits n x = x div 2 ^ n"
definition low_bits :: "nat \<Rightarrow> int \<Rightarrow> int" where "low_bits n x = x mod 2 ^ n"
definition put_bits :: "nat \<Rightarrow> int \<Rightarrow> int \<Rightarrow> int" where "put_bits n h l = h + 2 ^ n * l"

lemma bits_Suc:
  "high_bits 0 x = x" "high_bits (Suc n) x = high_bits n (x div 2)"
  "low_bits 0 x = 0" "low_bits (Suc n) x = x mod 2 + 2 * low_bits n (x div 2)"
  "put_bits 0 0 l = l" "put_bits (Suc n) h l = h mod 2 + 2 * put_bits n (h div 2) l"
proof -
  show "high_bits (Suc n) x = high_bits n (x div 2)" by (simp add: high_bits_def zdiv_zmult2_eq)
  show "low_bits (Suc n) x = x mod 2 + 2 * low_bits n (x div 2)" using mod_mult2_eq' [of x 2 "2 ^ n"] by (simp add: low_bits_def mult.commute)
  show "put_bits (Suc n) h l = h mod 2 + 2 * put_bits n (h div 2) l"
    using mult_div_mod_eq [of 2 h] by (simp add: put_bits_def algebra_simps)
qed (simp_all add: high_bits_def low_bits_def put_bits_def)

lemma high_eval:
  "high_bits 0 i = i" "high_bits n 0 = 0"
  "high_bits (numeral k) 1 = 0"
  "high_bits (numeral k) (numeral (num.Bit0 x)) = high_bits (pred_numeral k) (numeral x)"
  "high_bits (numeral k) (numeral (num.Bit1 x)) = high_bits (pred_numeral k) (numeral x)"
  by (simp_all add: numeral_eq_Suc bits_Suc high_bits_def [of _ 0])

lemma low_eval:
  "low_bits 0 i = 0" "low_bits n 0 = 0"
  "low_bits (numeral k) 1 = 1"
  "low_bits (numeral k) (numeral (num.Bit0 x)) = dbl (low_bits (pred_numeral k) (numeral x))"
  "low_bits (numeral k) (numeral (num.Bit1 x)) = dbl1 (low_bits (pred_numeral k) (numeral x))"
  by (simp_all add: numeral_eq_Suc bits_Suc low_bits_def [of _ 0] dbl_def dbl1_def)

lemma put_eval:
  "put_bits 0 0 l = l"
  "put_bits (numeral k) 0 l = dbl (put_bits (pred_numeral k) 0 l)"
  "put_bits (numeral k) 1 l = dbl1 (put_bits (pred_numeral k) 0 l)"
  "put_bits (numeral k) (numeral (num.Bit0 x)) l = dbl (put_bits (pred_numeral k) (numeral x) l)"
  "put_bits (numeral k) (numeral (num.Bit1 x)) l = dbl1 (put_bits (pred_numeral k) (numeral x) l)"
  "put_bits 1 0 l = dbl l"
  "put_bits 1 1 l = dbl1 l"
  by (simp_all add: numeral_eq_Suc bits_Suc dbl_def dbl1_def)

lemma rotl_bits:
  assumes "0 \<le> i" "i < 18446744073709551616" "n \<le> 64"
  shows "rotl i n = put_bits n (high_bits (64 - n) i) (low_bits (64 - n) i)"
proof -
  have i: "take_bit k i = i" if "64 \<le> k" for k
    using assms(1,2) order_less_le_trans [OF _ power_increasing [of 64 k "2 :: int"]] that by (simp add: take_bit_int_eq_self_iff)
  have h: "take_bit n (drop_bit (64 - n) i) = drop_bit (64 - n) i" "take_bit 64 (drop_bit (64 - n) i) = drop_bit (64 - n) i"
    using assms(3) by (simp_all add: take_bit_drop_bit i)
  have "rotl i n = take_bit 64 (push_bit n i OR drop_bit (64 - n) i)"
    by (simp add: rotl_def M64_mask take_bit_eq_mask)
  also have "\<dots> = push_bit n (take_bit (64 - n) i) OR take_bit n (drop_bit (64 - n) i)"
    using h by (simp add: take_bit_push_bit)
  also have "\<dots> = push_bit n (take_bit (64 - n) i) + take_bit n (drop_bit (64 - n) i)"
    by (rule disjunctive_add [symmetric]) (simp add: bit_push_bit_iff bit_take_bit_iff)
  finally show ?thesis using h by (simp add: put_bits_def high_bits_def low_bits_def push_bit_eq_mult drop_bit_eq_div take_bit_eq_mod mult.commute)
qed

lemma rotl_eval:
  assumes "0 \<le> i" "i < 18446744073709551616"
  shows "rotl i 1 = put_bits 1 (high_bits 63 i) (low_bits 63 i)"
    "rotl i 2 = put_bits 2 (high_bits 62 i) (low_bits 62 i)"
    "rotl i 3 = put_bits 3 (high_bits 61 i) (low_bits 61 i)"
    "rotl i 6 = put_bits 6 (high_bits 58 i) (low_bits 58 i)"
    "rotl i 8 = put_bits 8 (high_bits 56 i) (low_bits 56 i)"
    "rotl i 10 = put_bits 10 (high_bits 54 i) (low_bits 54 i)"
    "rotl i 14 = put_bits 14 (high_bits 50 i) (low_bits 50 i)"
    "rotl i 15 = put_bits 15 (high_bits 49 i) (low_bits 49 i)"
    "rotl i 18 = put_bits 18 (high_bits 46 i) (low_bits 46 i)"
    "rotl i 20 = put_bits 20 (high_bits 44 i) (low_bits 44 i)"
    "rotl i 21 = put_bits 21 (high_bits 43 i) (low_bits 43 i)"
    "rotl i 25 = put_bits 25 (high_bits 39 i) (low_bits 39 i)"
    "rotl i 27 = put_bits 27 (high_bits 37 i) (low_bits 37 i)"
    "rotl i 28 = put_bits 28 (high_bits 36 i) (low_bits 36 i)"
    "rotl i 36 = put_bits 36 (high_bits 28 i) (low_bits 28 i)"
    "rotl i 39 = put_bits 39 (high_bits 25 i) (low_bits 25 i)"
    "rotl i 41 = put_bits 41 (high_bits 23 i) (low_bits 23 i)"
    "rotl i 43 = put_bits 43 (high_bits 21 i) (low_bits 21 i)"
    "rotl i 44 = put_bits 44 (high_bits 20 i) (low_bits 20 i)"
    "rotl i 45 = put_bits 45 (high_bits 19 i) (low_bits 19 i)"
    "rotl i 55 = put_bits 55 (high_bits 9 i) (low_bits 9 i)"
    "rotl i 56 = put_bits 56 (high_bits 8 i) (low_bits 8 i)"
    "rotl i 61 = put_bits 61 (high_bits 3 i) (low_bits 3 i)"
    "rotl i 62 = put_bits 62 (high_bits 2 i) (low_bits 2 i)"
  using rotl_bits [OF assms] by simp_all

lemmas round_eval = foldl.simps RC_def theta_eval theta_mix_def theta_add_eval rho_pi_eval chi_rows chi_eval row5_def append.simps
  xor_at_eval(1) M64_value

lemmas bits_eval = rotl_eval put_eval high_eval low_eval xor_eval and_eval dbl_eval pred_numeral_simps Num.BitM.simps
  numeral_One [where 'a = int] zero_le_numeral less_numeral_simps less_num_simps le_num_simps zero_le_one order_refl
  one_less_numeral_iff zero_less_numeral if_True

section \<open>An input of one block\<close>

definition first_lanes :: "bytes \<Rightarrow> int list" where
  "first_lanes m = map (\<lambda>i. int (le_nat (take 8 (drop (8 * i) (m @ 1 # replicate (134 - length m) 0 @ [0x80]))))) [0..<17]"

lemma replicate_eval: "replicate (numeral k) x = x # replicate (pred_numeral k) x"
  by (simp add: numeral_eq_Suc)

lemma keccak256_block:
  assumes "length m < 135"
  shows "keccak256 m = squeeze_int (keccakF (first_lanes m @ replicate 8 0))"
proof -
  define p where "p = m @ 1 # replicate (134 - length m) 0 @ [0x80]"
  have len: "length p = 136" using assms by (simp add: p_def)
  have pad: "padded m = p" using assms by (simp add: padded_pad pad_def p_def Let_def)
  have lane: "read_lane p (i * 8) = int (le_nat (take 8 (drop (8 * i) p)))" if "i < 17" for i
    using that len by (simp add: read_lane_le mult.commute)
  have "absorb p (replicate 25 0) 0 = keccakF (map (\<lambda>i. if i < 17 then read_lane p (i * 8) else 0) [0..<25])"
    unfolding absorb_def rate_def by (subst foldl_xor_at) (auto intro!: arg_cong [of _ _ keccakF])
  also have "map (\<lambda>i. if i < 17 then read_lane p (i * 8) else 0) [0..<25] = first_lanes m @ replicate 8 0"
  proof -
    have "[0..<25] = [0..<17] @ [17..<25::nat]" using upt_add_eq_append [of 0 17 8] by simp
    moreover have "map (\<lambda>i. if i < 17 then read_lane p (i * 8) else 0) [17..<25] = replicate 8 0" by (simp add: upt_rec replicate_eval)
    moreover have "map (\<lambda>i. if i < 17 then read_lane p (i * 8) else 0) [0..<17] = first_lanes m"
      unfolding first_lanes_def p_def [symmetric] by (intro map_cong refl) (simp add: lane)
    ultimately show ?thesis by simp
  qed
  finally show ?thesis
    using len by (simp add: keccak256_def pad rate_def squeeze_int_def)
qed

text \<open>The first lanes of an explicit input.\<close>

lemma le_nat_Nil: "le_nat [] = 0"
  by (simp add: le_nat_def be_nat_def)

lemmas lanes_eval = first_lanes_def upt_rec replicate_eval le_nat_Nil le_nat_Cons

end
