(* ===== verification/Selectors.thy ===== *)
theory Selectors
  imports Keccak_Eval Stealth_Page
begin

text \<open>
  The function and event selectors that the scripts write down as constants, against the hashes of the names they stand for, computed with the
  script's own keccak256; and what follows from the one that is wrong.
\<close>

section \<open>Selectors\<close>

text \<open>The selector of a Solidity function, the topic of an event, and the selector of a Starknet name.\<close>

definition evm_selector :: "string \<Rightarrow> string" where
  "evm_selector signature = ''0x'' @ hex_of_bytes (take 4 (keccak256 (utf8 signature)))"

definition evm_topic :: "string \<Rightarrow> string" where
  "evm_topic signature = ''0x'' @ hex_of_bytes (keccak256 (utf8 signature))"

definition starknet_selector :: "string \<Rightarrow> string" where
  "starknet_selector name = ''0x'' @ nat_string 16 (be_nat (keccak256 (utf8 name)) mod 2 ^ 250)"

section \<open>The hashes\<close>

lemma hash_predict_evm: "keccak256 (utf8 ''predictReceiverAddress(address,bytes32,bytes32)'') =
  [0xf0, 0x5b, 0x69, 0xdd, 0xec, 0x24, 0xb2, 0xf7, 0x2d, 0xb2, 0x10, 0x62, 0xf4, 0xc7, 0xd6, 0xd1,
   0xf, 0x6b, 0x78, 0x88, 0x3, 0xc3, 0x60, 0x9f, 0xb, 0xa5, 0x3e, 0xac, 0xa5, 0x54, 0x2f, 0x63]"
proof -
  have short: "length (utf8 ''predictReceiverAddress(address,bytes32,bytes32)'') < 135" by (simp add: utf8_ascii code_def)
  have lanes: "first_lanes (utf8 ''predictReceiverAddress(address,bytes32,bytes32)'') @ replicate 8 0 =
    [0x5274636964657270, 0x4172657669656365, 0x6128737365726464, 0x622c737365726464, 0x622c323373657479, 0x129323373657479, 0, 0, 0, 0, 0, 0,
     0, 0, 0, 0, 0x8000000000000000, 0, 0, 0, 0, 0, 0, 0, 0]"
    by (simp add: utf8_ascii code_def lanes_eval)
  have perm: "keccakF
    [0x5274636964657270, 0x4172657669656365, 0x6128737365726464, 0x622c737365726464, 0x622c323373657479, 0x129323373657479, 0, 0, 0, 0, 0, 0,
     0, 0, 0, 0, 0x8000000000000000, 0, 0, 0, 0, 0, 0, 0, 0] =
    [0xf7b224ecdd695bf0, 0xd1d6c7f46210b22d, 0x9f60c30388786b0f, 0x632f54a5ac3ea50b, 0xee976df2ef7c0702, 0x180f190090da1363,
     0x55acd70bafbbe784, 0xa9113ef39f5b78a1, 0x49907b51b5f5888e, 0xe41d500aacac37ff, 0x2815b7f888348e0d, 0x4a4dc424e959b374,
     0x520fff7aba583286, 0xc8c6490b935c659f, 0x53cd34015babb62a, 0x678ec89a4b5d1959, 0x3cd70216988e4abc, 0xf90535a16ccedc64,
     0x455e7aa974a81cb5, 0xd9e251690520d5a2, 0xb81a926a327a18d1, 0x3e7a66d4cc60acc1, 0xec1c1d1eccbef17c, 0xaad136d99331672e, 0x995e8f494cc7b12c]"
    by (simp only: keccakF_def round_eval bits_eval)
  show ?thesis unfolding keccak256_block [OF short] lanes perm by (simp add: squeeze_int_def upt_rec)
qed

lemma hash_transfer_evm: "keccak256 (utf8 ''Transfer(address,address,uint256)'') =
  [0xdd, 0xf2, 0x52, 0xad, 0x1b, 0xe2, 0xc8, 0x9b, 0x69, 0xc2, 0xb0, 0x68, 0xfc, 0x37, 0x8d, 0xaa,
   0x95, 0x2b, 0xa7, 0xf1, 0x63, 0xc4, 0xa1, 0x16, 0x28, 0xf5, 0x5a, 0x4d, 0xf5, 0x23, 0xb3, 0xef]"
proof -
  have short: "length (utf8 ''Transfer(address,address,uint256)'') < 135" by (simp add: utf8_ascii code_def)
  have lanes: "first_lanes (utf8 ''Transfer(address,address,uint256)'') @ replicate 8 0 =
    [0x726566736e617254, 0x7373657264646128, 0x737365726464612c, 0x363532746e69752c, 0x129, 0, 0, 0, 0, 0, 0, 0, 0, 0, 0, 0,
     0x8000000000000000, 0, 0, 0, 0, 0, 0, 0, 0]"
    by (simp add: utf8_ascii code_def lanes_eval)
  have perm: "keccakF
    [0x726566736e617254, 0x7373657264646128, 0x737365726464612c, 0x363532746e69752c, 0x129, 0, 0, 0, 0, 0, 0, 0, 0, 0, 0, 0,
     0x8000000000000000, 0, 0, 0, 0, 0, 0, 0, 0] =
    [0x9bc8e21bad52f2dd, 0xaa8d37fc68b0c269, 0x16a1c463f1a72b95, 0xefb323f54d5af528, 0x1a88b3e6fa3edc1a, 0xd6bbd3bd706e6dd0,
     0x7946adec56675a7f, 0x8bc6c22f0703ef67, 0x8b9c0079859330a9, 0x1ccf7f4297ffa26d, 0x3ff6636b81054d08, 0x7eab37d3660b8ffd,
     0x2342743cb6f2f0b5, 0xceef587aa3191764, 0xf6c3593c99b35c10, 0x284bcb67dc669ab3, 0x41628e5b7add245c, 0xa9dee90a34f2e9bc,
     0xdcd837aaa09535ac, 0x4e01a992ca43c673, 0x5f3082f92e7ef74a, 0x35701567e1f4a783, 0x3bdcbbaa4a1aa80a, 0xd3ce1fe7d413abe8, 0xc3894c045dfc639f]"
    by (simp only: keccakF_def round_eval bits_eval)
  show ?thesis unfolding keccak256_block [OF short] lanes perm by (simp add: squeeze_int_def upt_rec)
qed

lemma hash_balance_evm: "keccak256 (utf8 ''balanceOf(address)'') =
  [0x70, 0xa0, 0x82, 0x31, 0xb9, 0x8e, 0xf4, 0xca, 0x26, 0x8c, 0x9c, 0xc3, 0xf6, 0xb4, 0x59, 0xe,
   0x4b, 0xfe, 0xc2, 0x82, 0x80, 0xdb, 0x6, 0xbb, 0x5d, 0x45, 0xe6, 0x89, 0xf2, 0xa3, 0x60, 0xbe]"
proof -
  have short: "length (utf8 ''balanceOf(address)'') < 135" by (simp add: utf8_ascii code_def)
  have lanes: "first_lanes (utf8 ''balanceOf(address)'') @ replicate 8 0 =
    [0x4f65636e616c6162, 0x7365726464612866, 0x12973, 0, 0, 0, 0, 0, 0, 0, 0, 0, 0, 0, 0, 0, 0x8000000000000000, 0, 0, 0, 0, 0, 0, 0, 0]"
    by (simp add: utf8_ascii code_def lanes_eval)
  have perm: "keccakF
    [0x4f65636e616c6162, 0x7365726464612866, 0x12973, 0, 0, 0, 0, 0, 0, 0, 0, 0, 0, 0, 0, 0, 0x8000000000000000, 0, 0, 0, 0, 0, 0, 0, 0] =
    [0xcaf48eb93182a070, 0xe59b4f6c39c8c26, 0xbb06db8082c2fe4b, 0xbe60a3f289e6455d, 0xefb96bf0ea899e2d, 0x431d68bb7ca5fb4b,
     0xf24a19009017b799, 0xfa62e72131e92ca, 0x5f8bf2d0be344b1f, 0x33bf3209c8809d3c, 0xa2b1a57d2143994d, 0xd8abc3fc5675ef93, 0x309f58857cc4666,
     0x79d52ea0f27a2dbb, 0xab4a46ec69f7dc01, 0x47b1df0cdf8102a, 0xfbad818e944e31d8, 0x16894cfb5b1ba85b, 0x693d4763b2178e9b,
     0xf878ba219fb65b2d, 0x26d866cc59728c89, 0x3f472b578e46bc7d, 0x5b731f63c0224c96, 0x12c681ba0ba6e48d, 0x75fb02de8d96fd84]"
    by (simp only: keccakF_def round_eval bits_eval)
  show ?thesis unfolding keccak256_block [OF short] lanes perm by (simp add: squeeze_int_def upt_rec)
qed

lemma hash_predict_starknet: "keccak256 (utf8 ''predict_receiver_address'') =
  [0xa, 0x8d, 0x4d, 0xf, 0xe0, 0x94, 0xb4, 0x56, 0xba, 0xe5, 0xb, 0x2d, 0x87, 0x19, 0x3, 0xc9,
   0x93, 0xba, 0x15, 0x3e, 0xc5, 0x19, 0xb7, 0xf4, 0xf1, 0xc7, 0x12, 0x52, 0xfa, 0x43, 0x4, 0xcf]"
proof -
  have short: "length (utf8 ''predict_receiver_address'') < 135" by (simp add: utf8_ascii code_def)
  have lanes: "first_lanes (utf8 ''predict_receiver_address'') @ replicate 8 0 =
    [0x5f74636964657270, 0x7265766965636572, 0x737365726464615f, 1, 0, 0, 0, 0, 0, 0, 0, 0, 0, 0, 0, 0, 0x8000000000000000, 0, 0, 0, 0, 0, 0,
     0, 0]"
    by (simp add: utf8_ascii code_def lanes_eval)
  have perm: "keccakF
    [0x5f74636964657270, 0x7265766965636572, 0x737365726464615f, 1, 0, 0, 0, 0, 0, 0, 0, 0, 0, 0, 0, 0, 0x8000000000000000, 0, 0, 0, 0, 0, 0,
     0, 0] =
    [0x56b494e00f4d8d0a, 0xc90319872d0be5ba, 0xf4b719c53e15ba93, 0xcf0443fa5212c7f1, 0xd4a4270653bb4a6d, 0x613c964bf66bdccb,
     0x70a0607c83bc8195, 0x41035c181a758bf4, 0x62fd2c021c8e7e65, 0xf3cdc49506dfcce5, 0x701447f6616a7fa7, 0x7f368572969b96c9,
     0xce5cd792d0105dcd, 0xd910ae73406605fb, 0xfa5cef9ddabee38d, 0xdc939d6a23573d8d, 0x7f274bedbbf6f1a3, 0x1f2895cba5696aef,
     0xe0d5817143e62cc1, 0x2371fe220da60a90, 0x9d746277a06d1727, 0x3423cb51671f08a3, 0x84dc245936286c05, 0x1d3ec17e3e2b2a7e, 0xd42c7e62e53a7c4a]"
    by (simp only: keccakF_def round_eval bits_eval)
  show ?thesis unfolding keccak256_block [OF short] lanes perm by (simp add: squeeze_int_def upt_rec)
qed

lemma hash_transfer_starknet: "keccak256 (utf8 ''Transfer'') =
  [0xf0, 0x99, 0xcd, 0x8b, 0xde, 0x55, 0x78, 0x14, 0x84, 0x2a, 0x31, 0x21, 0xe8, 0xdd, 0xfd, 0x43,
   0x3a, 0x53, 0x9b, 0x8c, 0x9f, 0x14, 0xbf, 0x31, 0xeb, 0xf1, 0x8, 0xd1, 0x2e, 0x61, 0x96, 0xe9]"
proof -
  have short: "length (utf8 ''Transfer'') < 135" by (simp add: utf8_ascii code_def)
  have lanes: "first_lanes (utf8 ''Transfer'') @ replicate 8 0 =
    [0x726566736e617254, 1, 0, 0, 0, 0, 0, 0, 0, 0, 0, 0, 0, 0, 0, 0, 0x8000000000000000, 0, 0, 0, 0, 0, 0, 0, 0]"
    by (simp add: utf8_ascii code_def lanes_eval)
  have perm: "keccakF
    [0x726566736e617254, 1, 0, 0, 0, 0, 0, 0, 0, 0, 0, 0, 0, 0, 0, 0, 0x8000000000000000, 0, 0, 0, 0, 0, 0, 0, 0] =
    [0x147855de8bcd99f0, 0x43fddde821312a84, 0x31bf149f8c9b533a, 0xe996612ed108f1eb, 0xf94c0ee9a68c5e48, 0xaa6575739f52ddaf,
     0x9fd6106696528f4c, 0xb34d9c81d7fb32a1, 0xdf33f0558ca07a65, 0x9cb51b1a310267d6, 0xe9e710d72dd8174, 0x63650b8ed4c419d0,
     0x6e75a118f4cee193, 0xd9fbb03a811dc1b, 0x85579ebeff17c73a, 0xf28f579384abdc8b, 0xd169d59af108a36d, 0x5d70d2b727f6f8d8,
     0x178eed1bc747c49c, 0xddc03607f0e61882, 0xc1cd216d91fa383e, 0x5e4adc3f351eec17, 0x7c2f38a6ab7b9923, 0xe573d5ded91b5b96, 0xba94efb1cc50d29d]"
    by (simp only: keccakF_def round_eval bits_eval)
  show ?thesis unfolding keccak256_block [OF short] lanes perm by (simp add: squeeze_int_def upt_rec)
qed

lemma hash_balance_starknet: "keccak256 (utf8 ''balanceOf'') =
  [0xe2, 0xe4, 0x26, 0x3a, 0xfa, 0xd3, 0x9, 0x23, 0xc8, 0x91, 0x51, 0x83, 0x14, 0xc3, 0xc9, 0x5d,
   0xbe, 0x83, 0xa, 0x16, 0x87, 0x4e, 0x8a, 0xbc, 0x57, 0x77, 0xa9, 0xa2, 0xb, 0x54, 0xc7, 0x6e]"
proof -
  have short: "length (utf8 ''balanceOf'') < 135" by (simp add: utf8_ascii code_def)
  have lanes: "first_lanes (utf8 ''balanceOf'') @ replicate 8 0 =
    [0x4f65636e616c6162, 0x166, 0, 0, 0, 0, 0, 0, 0, 0, 0, 0, 0, 0, 0, 0, 0x8000000000000000, 0, 0, 0, 0, 0, 0, 0, 0]"
    by (simp add: utf8_ascii code_def lanes_eval)
  have perm: "keccakF
    [0x4f65636e616c6162, 0x166, 0, 0, 0, 0, 0, 0, 0, 0, 0, 0, 0, 0, 0, 0, 0x8000000000000000, 0, 0, 0, 0, 0, 0, 0, 0] =
    [0x2309d3fa3a26e4e2, 0x5dc9c314835191c8, 0xbc8a4e87160a83be, 0x6ec7540ba2a97757, 0x4588b768b5b7ff3f, 0x29b08c86154be3c4,
     0xa1cd8e9f8b0def01, 0xf0dcda041d637e90, 0x4b9778910aa8064, 0xcfba13222cec6dc4, 0x5894dd272008352a, 0x5bc9e615ed63e30b,
     0x38e1d5f8fb4b66fe, 0x27fdfcbd93c8139f, 0x320d1f1fdd97b97d, 0x976799590f3077b1, 0x8a8e54ef435418c7, 0xa972afcf16ff789f,
     0x1b848260388ac111, 0xb0e900bcf65bc050, 0x5e8ff0445f47caff, 0x464a3912cd5d5242, 0x619ad61945230be8, 0x32b498ddbfa18de9, 0x5a098b828206b939]"
    by (simp only: keccakF_def round_eval bits_eval)
  show ?thesis unfolding keccak256_block [OF short] lanes perm by (simp add: squeeze_int_def upt_rec)
qed


section \<open>The constants\<close>

lemma starknet_value:
  assumes "be_nat (keccak256 (utf8 name)) mod 2 ^ 250 = of_digits 16 (d # ds)" "list_all (\<lambda>x. x < 16) (d # ds)" "d \<noteq> 0"
  shows "starknet_selector name = ''0x'' @ map digit_char (d # ds)"
proof -
  have "digits_of 16 (of_digits 16 (d # ds)) = d # ds" using assms(2,3) by (intro digits_of_of_digits_pos) (auto simp: list_all_iff)
  moreover from this have "of_digits 16 (d # ds) \<noteq> 0" by (metis digits_of_0 list.distinct(1))
  ultimately show ?thesis unfolding starknet_selector_def assms(1) by (simp add: nat_string_def)
qed

lemma starknet_predict: "starknet_selector ''predict_receiver_address'' = STARKNET_PREDICT_SELECTOR"
proof -
  define ds :: "nat list" where "ds = [8, 13, 4, 13, 0, 15, 14, 0, 9, 4, 11, 4, 5, 6, 11, 10, 14, 5, 0, 11, 2, 13, 8, 7, 1, 9, 0, 3, 12, 9, 9, 3, 11, 10, 1, 5, 3, 14, 12, 5, 1,
    9, 11, 7, 15, 4, 15, 1, 12, 7, 1, 2, 5, 2, 15, 10, 4, 3, 0, 4, 12, 15]"
  have "be_nat (keccak256 (utf8 ''predict_receiver_address'')) mod 2 ^ 250 = 1154282995819314643528177723762247014135057874459347762631827654985637889231"
    unfolding hash_predict_starknet by (simp add: be_nat_def of_digits_def)
  moreover have "of_digits 16 (2 # ds) = 1154282995819314643528177723762247014135057874459347762631827654985637889231" by (simp add: of_digits_def ds_def)
  ultimately have "starknet_selector ''predict_receiver_address'' = ''0x'' @ map digit_char (2 # ds)"
    by (intro starknet_value) (simp_all add: ds_def)
  then show ?thesis by (simp add: STARKNET_PREDICT_SELECTOR_def ds_def digit_char_def)
qed

lemma starknet_transfer: "starknet_selector ''Transfer'' = STARKNET_TRANSFER_SELECTOR"
proof -
  define ds :: "nat list" where "ds = [9, 12, 13, 8, 11, 13, 14, 5, 5, 7, 8, 1, 4, 8, 4, 2, 10, 3, 1, 2, 1, 14, 8, 13, 13, 15, 13, 4, 3, 3, 10, 5, 3, 9, 11, 8, 12, 9, 15, 1, 4,
    11, 15, 3, 1, 14, 11, 15, 1, 0, 8, 13, 1, 2, 14, 6, 1, 9, 6, 14, 9]"
  have "be_nat (keccak256 (utf8 ''Transfer'')) mod 2 ^ 250 = 271746229759260285552388728919865295615886751538523744128730118297934206697"
    unfolding hash_transfer_starknet by (simp add: be_nat_def of_digits_def)
  moreover have "of_digits 16 (9 # ds) = 271746229759260285552388728919865295615886751538523744128730118297934206697" by (simp add: of_digits_def ds_def)
  ultimately have "starknet_selector ''Transfer'' = ''0x'' @ map digit_char (9 # ds)"
    by (intro starknet_value) (simp_all add: ds_def)
  then show ?thesis by (simp add: STARKNET_TRANSFER_SELECTOR_def ds_def digit_char_def)
qed

lemma starknet_balance: "starknet_selector ''balanceOf'' = STARKNET_BALANCEOF_SELECTOR @ ''e''"
proof -
  define ds :: "nat list" where "ds = [14, 4, 2, 6, 3, 10, 15, 10, 13, 3, 0, 9, 2, 3, 12, 8, 9, 1, 5, 1, 8, 3, 1, 4, 12, 3, 12, 9, 5, 13, 11, 14, 8, 3, 0, 10, 1, 6, 8, 7, 4,
    14, 8, 10, 11, 12, 5, 7, 7, 7, 10, 9, 10, 2, 0, 11, 5, 4, 12, 7, 6, 14]"
  have "be_nat (keccak256 (utf8 ''balanceOf'')) mod 2 ^ 250 = 1307730684388977109649524593492043083703013045633289330664425380824804018030"
    unfolding hash_balance_starknet by (simp add: be_nat_def of_digits_def)
  moreover have "of_digits 16 (2 # ds) = 1307730684388977109649524593492043083703013045633289330664425380824804018030" by (simp add: of_digits_def ds_def)
  ultimately have "starknet_selector ''balanceOf'' = ''0x'' @ map digit_char (2 # ds)"
    by (intro starknet_value) (simp_all add: ds_def)
  then show ?thesis by (simp add: STARKNET_BALANCEOF_SELECTOR_def ds_def digit_char_def)
qed

text \<open>
  C36: the constants are the hashes of their names. The selectors the scripts call and the topics they filter by are those of the functions and events
  of the contracts, for the receiver factories and the token, on the EVM chains and on Starknet. The one exception is the selector of
  \<open>balanceOf\<close> on Starknet, which lacks the last digit of the hash.
\<close>

theorem selectors_are_hashes:
  "EVM_PREDICT_SELECTOR = evm_selector ''predictReceiverAddress(address,bytes32,bytes32)'' \<and>
   EVM_TRANSFER_TOPIC = evm_topic ''Transfer(address,address,uint256)'' \<and>
   ''0x70a08231'' = evm_selector ''balanceOf(address)'' \<and>
   STARKNET_PREDICT_SELECTOR = starknet_selector ''predict_receiver_address'' \<and>
   STARKNET_TRANSFER_SELECTOR = starknet_selector ''Transfer'' \<and>
   STARKNET_BALANCEOF_SELECTOR @ ''e'' = starknet_selector ''balanceOf''"
  by (simp add: starknet_predict starknet_transfer starknet_balance)
    (simp add: evm_selector_def evm_topic_def hash_predict_evm hash_transfer_evm hash_balance_evm EVM_PREDICT_SELECTOR_def
      EVM_TRANSFER_TOPIC_def hex_byte_digits digit_char_def)

section \<open>What the wrong selector does\<close>

text \<open>
  A contract has the entry points of its functions' names only: a node answers a call of any other selector with an error. That is what the
  specification of Starknet's nodes says.
\<close>

definition entry_points :: "net \<Rightarrow> string set \<Rightarrow> bool" where
  "entry_points net selectors \<longleftrightarrow> (\<forall>contract sel args tag. sel \<notin> selectors \<longrightarrow>
     (\<exists>m code. rpc net ''STARKNET'' ''starknet_call''
        [JObj [(''contract_address'', contract), (''entry_point_selector'', JStr sel), (''calldata'', args)], tag] Default = Inl (RpcError m code)))"

lemma starknet_chain: "wire k = ''STARKNET'' \<Longrightarrow> \<exists>c. requireChain k = Inr c \<and> ch_kind c = ''starknet'' \<and> ch_key c = ''STARKNET''"
  by (simp add: requireChain_def chainByKey_def CHAINS_def)

lemma starknet_balance_fails:
  assumes "entry_points net selectors" "STARKNET_BALANCEOF_SELECTOR \<notin> selectors" "wire k = ''STARKNET''"
  shows "\<exists>m code. tokenBalance sha net k a = Inl (RpcError m code)"
proof -
  obtain c where c: "requireChain k = Inr c" "ch_kind c = ''starknet''" "ch_key c = ''STARKNET''"
    using starknet_chain [OF assms(3)] by blast
  obtain m code where "rpc net ''STARKNET'' ''starknet_call'' [JObj [(''contract_address'', opt_string (ch_usdc c)),
      (''entry_point_selector'', JStr STARKNET_BALANCEOF_SELECTOR), (''calldata'', JArr [JStr a])], JStr ''latest''] Default = Inl (RpcError m code)"
    using assms(1,2) unfolding entry_points_def by blast
  then show ?thesis by (simp add: tokenBalance_def c)
qed

text \<open>
  C37: private lanes on Starknet cannot be claimed. When no function of the token has the selector that the script calls, the page shows no balance for any
  private lane that settles on Starknet, and refuses a claim of it, whatever the account holds.
\<close>

theorem starknet_lanes_unclaimable:
  assumes "entry_points net (starknet_selector ` set functions)" "STARKNET_BALANCEOF_SELECTOR \<notin> starknet_selector ` set functions"
    and "(lane, balance) \<in> set (pg_rows (refresh sha net st pg))" "wire (lane_chain lane) = ''STARKNET''"
  shows "balance = None \<and> (\<exists>e. claim_plan (pg'\<lparr>pg_selected := Some (lane, balance)\<rparr>) destination = Inl e)"
proof -
  have "\<exists>m code. lane_balance sha net lane = Inl (RpcError m code)"
    using starknet_balance_fails [OF assms(1,2)] assms(4) by (simp add: lane_balance_def lane_chain_def)
  then have "balance = None"
    using assms(3) by (auto simp: refresh_def Let_def)
  then show ?thesis by (auto simp: claim_plan_def split: option.splits)
qed

text \<open>One private lane on Starknet, and a token that answers \<open>balanceOf\<close> with a balance of 100 for every account.\<close>

definition stark_lane :: json where
  "stark_lane = JObj [(''id'', JStr ''a''), (''targetChain'', JStr ''STARKNET''), (''targetRecipient'', JStr ''0x1''), (''privacy'', JBool True),
     (''receivers'', JArr [])]"

definition stark_store :: storage where
  "stark_store = (\<lambda>k. if k = K_lanes then Some (JArr [stark_lane]) else None)"

definition opened_page :: page where
  "opened_page = \<lparr>pg_rows = [], pg_selected = None, pg_filter = ''ALL'', pg_busy = False, pg_status = []\<rparr>"

definition rich_net :: net where
  "rich_net = (\<lambda>url m p. case p of
     [JObj [c, (n, JStr sel), a], tag] \<Rightarrow>
       if sel = starknet_selector ''balanceOf'' then Response 200 (Some (JObj [(''result'', JArr [JStr ''0x64'', JStr ''0x0''])]))
       else Response 200 (Some (JObj [(''error'', JObj [(''code'', JNum 21), (''message'', JStr ''Requested entrypoint does not exist in the contract'')])]))
   | _ \<Rightarrow> Fetch_failed ''failed'')"

theorem starknet_lanes_unclaimable_witness:
  "\<exists>balance e. (stark_lane, balance) \<in> set (pg_rows (refresh keccak256 rich_net stark_store opened_page)) \<and>
     claim_plan (opened_page\<lparr>pg_selected := Some (stark_lane, balance)\<rparr>) ''0x1'' = Inl e"
proof -
  let ?functions = "[''balanceOf'']"
  have cut: "STARKNET_BALANCEOF_SELECTOR \<notin> starknet_selector ` set ?functions" by (simp add: starknet_balance)
  have rejects: "entry_points rich_net (starknet_selector ` set ?functions)"
    using starknet_chain [of "''STARKNET''"]
    by (auto simp: entry_points_def rpc_def requireChain_def RPC_PROXY_ENABLED_def proxyCall_def rich_net_def unwrap_def opt_prop_def is_obj_or_array_def
        js_truthy_def wire_def char_eval)
  have "chain_json (Some (JStr ''STARKNET'')) \<noteq> None"
    by (simp add: chain_json_def wire_json_def coerce_def js_truthy_def chainByKey_def CHAINS_def wire_def char_eval)
  then have "getLanes stark_store = [stark_lane]"
    by (simp add: getLanes_def stark_store_def read_item_def as_array_def isLane_def stark_lane_def opt_prop_def as_string_def js_truthy_def)
  then have row: "(stark_lane, ok_part (lane_balance keccak256 rich_net stark_lane)) \<in> set (pg_rows (refresh keccak256 rich_net stark_store opened_page))"
    by (simp add: refresh_def privateLanes_def lane_prop_def stark_lane_def opt_prop_def js_truthy_def)
  have "wire (lane_chain stark_lane) = ''STARKNET''"
    by (simp add: lane_chain_def lane_prop_def stark_lane_def opt_prop_def coerce_def wire_def char_eval)
  then show ?thesis using starknet_lanes_unclaimable [OF rejects cut row] row by blast
qed

end
