(* ===== verification/Evm_Receiver.thy ===== *)
theory Evm_Receiver
  imports Keccak
begin

text \<open>
  The factory and the receivers on the EVM chains, \<open>src/evm_beanie/src/ReceiverFactory.sol\<close> and \<open>ChainXReceiver.sol\<close>: the storage of the two
  contracts and their functions, a revert being an error that changes nothing. An address is its 20 bytes, a \<open>bytes32\<close> its 32.
  The address of a clone, from OpenZeppelin's \<open>Clones\<close>, is the parameter \<open>clone_address\<close>: the implementation, the salt, the deployer. What
  \<open>sweep\<close> asks of the token and of CCTP is recorded in order, taken to succeed (a call that reverts makes the whole sweep revert). The events of
  \<open>initialize\<close> and \<open>registerMerchant\<close>, which repeat what is stored, are left out.
\<close>

type_synonym addr = bytes

datatype evm_error =
    MaximumReceiversExceeded | InvalidDomain_evm | IndexOutOfBounds
  | AlreadyInitialized | NotInitialized_evm | ZeroAddress
  | Require string | Overflow | CloneFailed

definition ADDRESS_0 :: addr where
  "ADDRESS_0 = replicate 20 0"

definition BYTES32_0 :: bytes where
  "BYTES32_0 = replicate 32 0"

text \<open>A string literal as \<open>bytes32\<close>: zeros on the right.\<close>

definition literal32 :: "string \<Rightarrow> bytes" where
  "literal32 s = utf8 s @ replicate (32 - length (utf8 s)) 0"

definition ensure :: "bool \<Rightarrow> evm_error \<Rightarrow> (unit \<Rightarrow> evm_error + 'a) \<Rightarrow> evm_error + 'a" where
  "ensure b e k = (if b then k () else Inl e)"

definition bind_evm :: "evm_error + 'a \<Rightarrow> ('a \<Rightarrow> evm_error + 'b) \<Rightarrow> evm_error + 'b" where
  "bind_evm r k = (case r of Inl e \<Rightarrow> Inl e | Inr x \<Rightarrow> k x)"

lemma ensure_Inr: "ensure b e k = Inr y \<longleftrightarrow> b \<and> k () = Inr y"
  by (simp add: ensure_def)

lemma bind_evm_Inr: "bind_evm r k = Inr y \<longleftrightarrow> (\<exists>x. r = Inr x \<and> k x = Inr y)"
  by (cases r) (simp_all add: bind_evm_def)

lemmas evm_Inr = ensure_Inr bind_evm_Inr

section \<open>ChainXReceiver\<close>

record chainx_receiver =
  rx_initialized :: bool
  rx_token :: addr
  rx_treasury :: addr
  rx_tokenMessenger :: addr
  rx_domain :: "32 word"
  rx_recipient :: bytes
  rx_merchant :: addr

definition blank_receiver :: chainx_receiver where
  "blank_receiver = \<lparr>rx_initialized = False, rx_token = ADDRESS_0, rx_treasury = ADDRESS_0, rx_tokenMessenger = ADDRESS_0, rx_domain = 0,
     rx_recipient = BYTES32_0, rx_merchant = ADDRESS_0\<rparr>"

definition initialize_receiver :: "addr \<Rightarrow> addr \<Rightarrow> addr \<Rightarrow> 32 word \<Rightarrow> bytes \<Rightarrow> addr \<Rightarrow> chainx_receiver \<Rightarrow> evm_error + chainx_receiver" where
  "initialize_receiver token treasury tokenMessenger domain recipient merchant rx =
     ensure (\<not> rx_initialized rx) AlreadyInitialized (\<lambda>u.
     ensure (token \<noteq> ADDRESS_0 \<and> treasury \<noteq> ADDRESS_0 \<and> tokenMessenger \<noteq> ADDRESS_0) ZeroAddress (\<lambda>u.
     ensure (merchant \<noteq> ADDRESS_0) ZeroAddress (\<lambda>u.
       Inr \<lparr>rx_initialized = True, rx_token = token, rx_treasury = treasury, rx_tokenMessenger = tokenMessenger, rx_domain = domain,
            rx_recipient = recipient, rx_merchant = merchant\<rparr>)))"

definition EVM_FEE_BPS :: "256 word" where "EVM_FEE_BPS = 50"
definition EVM_BPS_DENOM :: "256 word" where "EVM_BPS_DENOM = 10000"
definition EVM_CALLER_SHARE_BPS :: "256 word" where "EVM_CALLER_SHARE_BPS = 1000"

text \<open>Calls of the token (the token first) and of the token messenger with its seven arguments.\<close>

datatype evm_call =
    SafeTransfer addr addr "256 word"
  | ApproveCall addr addr "256 word"
  | DepositForBurn addr "256 word" "32 word" bytes addr bytes "256 word" "32 word"

definition mul_256 :: "256 word \<Rightarrow> 256 word \<Rightarrow> evm_error + 256 word" where
  "mul_256 a b = (if unat a * unat b < 2 ^ 256 then Inr (a * b) else Inl Overflow)"

definition sub_256 :: "256 word \<Rightarrow> 256 word \<Rightarrow> evm_error + 256 word" where
  "sub_256 a b = (if b \<le> a then Inr (a - b) else Inl Overflow)"

text \<open>The settlement of the net amount: a burn for another chain, or a transfer to the merchant.\<close>

definition settle_net :: "chainx_receiver \<Rightarrow> 256 word \<Rightarrow> 256 word \<Rightarrow> evm_error + evm_call list" where
  "settle_net rx balance net =
     (if net > 0 \<and> rx_recipient rx \<noteq> BYTES32_0 then
        bind_evm (mul_256 balance 2) (\<lambda>p.
          Inr [ApproveCall (rx_token rx) (rx_tokenMessenger rx) net,
               DepositForBurn (rx_tokenMessenger rx) net (rx_domain rx) (rx_recipient rx) (rx_token rx) BYTES32_0 (p div 10000) 1000])
      else Inr [SafeTransfer (rx_token rx) (rx_merchant rx) net])"

text \<open>
  \<open>sweep\<close>, for the balance the token reports and the \<open>tx.origin\<close>: the calls it makes, and the amounts of the event (gross, net, fee, the caller's
  and the treasury's part), none for a balance of zero.
\<close>

definition sweep_receiver :: "addr \<Rightarrow> 256 word \<Rightarrow> chainx_receiver \<Rightarrow> evm_error + evm_call list \<times> 256 word list" where
  "sweep_receiver origin balance rx =
     ensure (rx_initialized rx) NotInitialized_evm (\<lambda>u.
     if balance = 0 then Inr ([], [])
     else
       bind_evm (mul_256 balance EVM_FEE_BPS) (\<lambda>p. let fee = p div EVM_BPS_DENOM in
       bind_evm (sub_256 balance fee) (\<lambda>net.
       bind_evm (mul_256 fee EVM_CALLER_SHARE_BPS) (\<lambda>q. let feeToCaller = q div EVM_BPS_DENOM in
       bind_evm (sub_256 fee feeToCaller) (\<lambda>feeToTreasury.
       bind_evm (settle_net rx balance net) (\<lambda>settlement.
         Inr ((if feeToCaller > 0 then [SafeTransfer (rx_token rx) origin feeToCaller] else []) @
              (if feeToTreasury > 0 then [SafeTransfer (rx_token rx) (rx_treasury rx) feeToTreasury] else []) @ settlement,
              [balance, net, fee, feeToCaller, feeToTreasury])))))))"

section \<open>ReceiverFactory\<close>

definition EVM_MAX_RECEIVERS :: nat where "EVM_MAX_RECEIVERS = 32"

record receiver_factory =
  rf_implementation :: addr
  rf_token :: addr
  rf_treasury :: addr
  rf_tokenMessenger :: addr
  rf_receivers :: "addr \<Rightarrow> addr list"
  rf_validDomains :: "bytes \<Rightarrow> bool"
  rf_destinationDomain :: "bytes \<Rightarrow> 32 word"

definition new_factory :: "addr \<Rightarrow> addr \<Rightarrow> addr \<Rightarrow> addr \<Rightarrow> 32 word \<Rightarrow> 32 word \<Rightarrow> 32 word \<Rightarrow> 32 word \<Rightarrow> 32 word \<Rightarrow> 32 word \<Rightarrow>
    evm_error + receiver_factory" where
  "new_factory impl token treasury messenger starknet base solana eth arb monad =
     ensure (impl \<noteq> ADDRESS_0) (Require ''zero impl'') (\<lambda>u.
     ensure (distinct [base, solana, starknet, eth, arb, monad]) (Require ''provide unique cctp domains'') (\<lambda>u.
       Inr \<lparr>rf_implementation = impl, rf_token = token, rf_treasury = treasury, rf_tokenMessenger = messenger, rf_receivers = (\<lambda>m. []),
            rf_validDomains = (\<lambda>c. c \<in> set (map literal32 [''STARKNET'', ''BASE'', ''SOLANA'', ''ETHEREUM'', ''ARBITRUM'', ''MONAD''])),
            rf_destinationDomain = (\<lambda>c. 0)(literal32 ''STARKNET'' := starknet, literal32 ''BASE'' := base, literal32 ''SOLANA'' := solana,
              literal32 ''ETHEREUM'' := eth, literal32 ''ARBITRUM'' := arb, literal32 ''MONAD'' := monad)\<rparr>))"

definition check_route :: "receiver_factory \<Rightarrow> bytes \<Rightarrow> bytes \<Rightarrow> (unit \<Rightarrow> evm_error + 'a) \<Rightarrow> evm_error + 'a" where
  "check_route f chain recipient k =
     (if chain \<noteq> BYTES32_0 then
        ensure (rf_validDomains f chain) InvalidDomain_evm (\<lambda>u.
        ensure (recipient \<noteq> BYTES32_0) (Require ''Cross-chain requires destination recipient'') k)
      else ensure (recipient = BYTES32_0) (Require ''Same-chain recipient must be zero'') k)"

definition route_salt :: "addr \<Rightarrow> bytes \<Rightarrow> bytes \<Rightarrow> bytes" where
  "route_salt merchant chain recipient = keccak256 (merchant @ chain @ recipient)"

text \<open>The chain: the factory at its address \<open>self\<close>, and the receivers by address.\<close>

record evm_chain =
  ec_factory :: receiver_factory
  ec_receivers :: "addr \<rightharpoonup> chainx_receiver"

definition predict_receiver :: "(addr \<Rightarrow> bytes \<Rightarrow> addr \<Rightarrow> addr) \<Rightarrow> addr \<Rightarrow> receiver_factory \<Rightarrow> addr \<Rightarrow> bytes \<Rightarrow> bytes \<Rightarrow> addr" where
  "predict_receiver clone_address self f merchant chain recipient =
     clone_address (rf_implementation f) (route_salt merchant chain recipient) self"

definition registerMerchant_evm :: "(addr \<Rightarrow> bytes \<Rightarrow> addr \<Rightarrow> addr) \<Rightarrow> addr \<Rightarrow> addr \<Rightarrow> bytes \<Rightarrow> bytes \<Rightarrow> evm_chain \<Rightarrow> evm_error + addr \<times> evm_chain" where
  "registerMerchant_evm clone_address self merchant chain recipient ec =
     (let f = ec_factory ec in
      ensure (length (rf_receivers f merchant) < EVM_MAX_RECEIVERS) MaximumReceiversExceeded (\<lambda>u.
      check_route f chain recipient (\<lambda>u.
      let clone = predict_receiver clone_address self f merchant chain recipient in
      ensure (ec_receivers ec clone = None) CloneFailed (\<lambda>u.
      bind_evm (initialize_receiver (rf_token f) (rf_treasury f) (rf_tokenMessenger f) (rf_destinationDomain f chain) recipient merchant blank_receiver) (\<lambda>rx.
        Inr (clone, \<lparr>ec_factory = f\<lparr>rf_receivers := (rf_receivers f)(merchant := rf_receivers f merchant @ [clone])\<rparr>,
                     ec_receivers = (ec_receivers ec)(clone \<mapsto> rx)\<rparr>))))))"

definition announceReceiver :: "(addr \<Rightarrow> bytes \<Rightarrow> addr \<Rightarrow> addr) \<Rightarrow> addr \<Rightarrow> addr \<Rightarrow> bytes \<Rightarrow> bytes \<Rightarrow> receiver_factory \<Rightarrow> evm_error + (addr \<times> addr \<times> bytes \<times> bytes)" where
  "announceReceiver clone_address self merchant chain recipient f =
     check_route f chain recipient (\<lambda>u. Inr (merchant, predict_receiver clone_address self f merchant chain recipient, chain, recipient))"

definition getMerchantReceiverAt :: "addr \<Rightarrow> nat \<Rightarrow> receiver_factory \<Rightarrow> evm_error + addr" where
  "getMerchantReceiverAt merchant i f =
     ensure (i < length (rf_receivers f merchant)) IndexOutOfBounds (\<lambda>u. Inr (rf_receivers f merchant ! i))"

section \<open>Any transactions\<close>

text \<open>Anyone registers, and anyone calls \<open>initialize\<close> on any receiver with any arguments; the other functions leave both storages as they are.\<close>

inductive evm_step :: "(addr \<Rightarrow> bytes \<Rightarrow> addr \<Rightarrow> addr) \<Rightarrow> addr \<Rightarrow> evm_chain \<Rightarrow> evm_chain \<Rightarrow> bool" for clone_address self where
  registered: "registerMerchant_evm clone_address self m c rp ec = Inr (k, ec') \<Longrightarrow> evm_step clone_address self ec ec'"
| reinitialized: "ec_receivers ec k = Some rx \<Longrightarrow> initialize_receiver t tr tm d rp m rx = Inr rx' \<Longrightarrow>
    evm_step clone_address self ec (ec\<lparr>ec_receivers := (ec_receivers ec)(k \<mapsto> rx')\<rparr>)"

inductive_cases evm_stepE: "evm_step clone_address self ec ec'"

end
