(* ===== verification/Evm_Sound.thy ===== *)
theory Evm_Sound
  imports Evm_Receiver
begin

text \<open>
  What the contracts of \<open>ReceiverFactory.sol\<close> and \<open>ChainXReceiver.sol\<close> guarantee: under any transactions a registered receiver keeps its terms and the
  lists of the factory stay true, and a sweep moves out exactly the balance.
\<close>

section \<open>When a function succeeds\<close>

lemma initialize_receiver_Inr:
  "initialize_receiver t tr tm d rp m rx = Inr rx' \<longleftrightarrow>
     \<not> rx_initialized rx \<and> t \<noteq> ADDRESS_0 \<and> tr \<noteq> ADDRESS_0 \<and> tm \<noteq> ADDRESS_0 \<and> m \<noteq> ADDRESS_0 \<and>
     rx' = \<lparr>rx_initialized = True, rx_token = t, rx_treasury = tr, rx_tokenMessenger = tm, rx_domain = d, rx_recipient = rp, rx_merchant = m\<rparr>"
  by (auto simp: initialize_receiver_def evm_Inr)

definition route_ok :: "receiver_factory \<Rightarrow> bytes \<Rightarrow> bytes \<Rightarrow> bool" where
  "route_ok f c rp \<longleftrightarrow> (if c = BYTES32_0 then rp = BYTES32_0 else rf_validDomains f c \<and> rp \<noteq> BYTES32_0)"

lemma check_route_Inr: "check_route f c rp k = Inr y \<longleftrightarrow> route_ok f c rp \<and> k () = Inr y"
  by (auto simp: check_route_def route_ok_def evm_Inr)

text \<open>The terms a receiver has for a merchant and a route.\<close>

definition terms :: "receiver_factory \<Rightarrow> addr \<Rightarrow> bytes \<Rightarrow> bytes \<Rightarrow> chainx_receiver" where
  "terms f m c rp = \<lparr>rx_initialized = True, rx_token = rf_token f, rx_treasury = rf_treasury f, rx_tokenMessenger = rf_tokenMessenger f,
     rx_domain = rf_destinationDomain f c, rx_recipient = rp, rx_merchant = m\<rparr>"

lemma terms_simps [simp]:
  "rx_initialized (terms f m c rp)" "rx_token (terms f m c rp) = rf_token f" "rx_treasury (terms f m c rp) = rf_treasury f"
  "rx_tokenMessenger (terms f m c rp) = rf_tokenMessenger f" "rx_domain (terms f m c rp) = rf_destinationDomain f c"
  "rx_recipient (terms f m c rp) = rp" "rx_merchant (terms f m c rp) = m"
  by (simp_all add: terms_def)

lemma register_evm_Inr:
  "registerMerchant_evm clone_address self m c rp ec = Inr (k, ec') \<longleftrightarrow>
     (let f = ec_factory ec in
      length (rf_receivers f m) < EVM_MAX_RECEIVERS \<and> route_ok f c rp \<and> k = predict_receiver clone_address self f m c rp \<and>
      ec_receivers ec k = None \<and> rf_token f \<noteq> ADDRESS_0 \<and> rf_treasury f \<noteq> ADDRESS_0 \<and> rf_tokenMessenger f \<noteq> ADDRESS_0 \<and> m \<noteq> ADDRESS_0 \<and>
      ec' = \<lparr>ec_factory = f\<lparr>rf_receivers := (rf_receivers f)(m := rf_receivers f m @ [k])\<rparr>,
             ec_receivers = (ec_receivers ec)(k \<mapsto> terms f m c rp)\<rparr>)"
  by (auto simp: registerMerchant_evm_def Let_def evm_Inr check_route_Inr initialize_receiver_Inr blank_receiver_def terms_def)

section \<open>A registration is final\<close>

definition same_terms :: "receiver_factory \<Rightarrow> receiver_factory \<Rightarrow> bool" where
  "same_terms f f' \<longleftrightarrow> f' = f\<lparr>rf_receivers := rf_receivers f'\<rparr>"

lemma same_termsD:
  assumes "same_terms f f'"
  shows "rf_implementation f' = rf_implementation f" "rf_token f' = rf_token f" "rf_treasury f' = rf_treasury f"
    "rf_tokenMessenger f' = rf_tokenMessenger f" "rf_validDomains f' = rf_validDomains f" "rf_destinationDomain f' = rf_destinationDomain f"
  by (subst assms [unfolded same_terms_def], simp)+

lemma same_terms_uses:
  assumes "same_terms f f'"
  shows "route_ok f' = route_ok f" "terms f' = terms f" "predict_receiver clone_address self f' = predict_receiver clone_address self f"
  by (simp_all add: fun_eq_iff route_ok_def terms_def predict_receiver_def same_termsD [OF assms])

lemma same_terms_trans: "same_terms f f1 \<Longrightarrow> same_terms f1 f2 \<Longrightarrow> same_terms f f2"
  by (cases f; cases f1; cases f2) (simp add: same_terms_def)

definition evm_kept :: "evm_chain \<Rightarrow> evm_chain \<Rightarrow> bool" where
  "evm_kept ec ec' \<longleftrightarrow> same_terms (ec_factory ec) (ec_factory ec') \<and>
     (\<forall>k rx. ec_receivers ec k = Some rx \<longrightarrow> rx_initialized rx \<longrightarrow> ec_receivers ec' k = Some rx)"

lemma evm_kept_refl [simp]: "evm_kept ec ec"
  by (simp add: evm_kept_def same_terms_def)

lemma evm_kept_trans: "evm_kept ec ec1 \<Longrightarrow> evm_kept ec1 ec2 \<Longrightarrow> evm_kept ec ec2"
  unfolding evm_kept_def by (auto intro: same_terms_trans)

lemma evm_step_kept: "evm_step clone_address self ec ec' \<Longrightarrow> evm_kept ec ec'"
  by (elim evm_stepE) (auto simp: register_evm_Inr Let_def initialize_receiver_Inr evm_kept_def same_terms_def)

lemma evm_steps_kept: "(evm_step clone_address self)\<^sup>*\<^sup>* ec ec' \<Longrightarrow> evm_kept ec ec'"
  by (induction rule: rtranclp_induct) (auto intro: evm_kept_trans evm_step_kept)

section \<open>The lists of the factory\<close>

text \<open>
  Every receiver has the terms of a merchant and a valid route, at the address of both, and is in the merchant's list; every list has receivers of
  that merchant only, each once, and at most 32.
\<close>

definition registered_terms :: "(addr \<Rightarrow> bytes \<Rightarrow> addr \<Rightarrow> addr) \<Rightarrow> addr \<Rightarrow> receiver_factory \<Rightarrow> addr \<Rightarrow> chainx_receiver \<Rightarrow> bool" where
  "registered_terms clone_address self f k rx \<longleftrightarrow> (\<exists>m c rp. route_ok f c rp \<and> m \<noteq> ADDRESS_0 \<and> rx = terms f m c rp \<and>
     k = predict_receiver clone_address self f m c rp)"

definition evm_ok :: "(addr \<Rightarrow> bytes \<Rightarrow> addr \<Rightarrow> addr) \<Rightarrow> addr \<Rightarrow> evm_chain \<Rightarrow> bool" where
  "evm_ok clone_address self ec \<longleftrightarrow>
     (\<forall>k rx. ec_receivers ec k = Some rx \<longrightarrow> registered_terms clone_address self (ec_factory ec) k rx \<and>
        k \<in> set (rf_receivers (ec_factory ec) (rx_merchant rx))) \<and>
     (\<forall>m. length (rf_receivers (ec_factory ec) m) \<le> EVM_MAX_RECEIVERS \<and> distinct (rf_receivers (ec_factory ec) m) \<and>
        (\<forall>k \<in> set (rf_receivers (ec_factory ec) m). \<exists>rx. ec_receivers ec k = Some rx \<and> rx_merchant rx = m))"

lemma registered_terms_same: "same_terms f f' \<Longrightarrow> registered_terms clone_address self f' = registered_terms clone_address self f"
  by (simp add: fun_eq_iff registered_terms_def same_terms_uses)

lemma evm_step_ok:
  assumes "evm_ok clone_address self ec" "evm_step clone_address self ec ec'"
  shows "evm_ok clone_address self ec'"
  using assms(2)
proof (cases rule: evm_step.cases)
  case (registered m c rp k)
  let ?f = "ec_factory ec" and ?f' = "(ec_factory ec)\<lparr>rf_receivers := (rf_receivers (ec_factory ec))(m := rf_receivers (ec_factory ec) m @ [k])\<rparr>"
  have ec': "ec' = \<lparr>ec_factory = ?f', ec_receivers = (ec_receivers ec)(k \<mapsto> terms ?f m c rp)\<rparr>" and new: "ec_receivers ec k = None"
    and few: "length (rf_receivers ?f m) < EVM_MAX_RECEIVERS" and k: "registered_terms clone_address self ?f k (terms ?f m c rp)"
    using registered by (auto simp: register_evm_Inr Let_def registered_terms_def)
  have same: "same_terms ?f ?f'" by (simp add: same_terms_def)
  have "k \<notin> set (rf_receivers ?f n)" for n using assms(1) new by (fastforce simp: evm_ok_def)
  then show ?thesis
    using assms(1) few k by (auto simp: evm_ok_def ec' registered_terms_same [OF same])
next
  case (reinitialized k rx t tr tm d rp m rx')
  then have "registered_terms clone_address self (ec_factory ec) k rx" "\<not> rx_initialized rx"
    using assms(1) by (simp_all add: evm_ok_def initialize_receiver_Inr)
  then show ?thesis by (auto simp: registered_terms_def)
qed

lemma evm_steps_ok: "(evm_step clone_address self)\<^sup>*\<^sup>* ec ec' \<Longrightarrow> evm_ok clone_address self ec \<Longrightarrow> evm_ok clone_address self ec'"
  by (induction rule: rtranclp_induct) (auto intro: evm_step_ok)

lemma new_factory_Inr:
  assumes "new_factory i t tr tm starknet base solana eth arb monad = Inr f"
  shows "rf_implementation f = i" "rf_token f = t" "rf_treasury f = tr" "rf_tokenMessenger f = tm" "rf_receivers f = (\<lambda>m. [])"
    "rf_validDomains f = (\<lambda>c. c \<in> set (map literal32 [''STARKNET'', ''BASE'', ''SOLANA'', ''ETHEREUM'', ''ARBITRUM'', ''MONAD'']))"
    "rf_destinationDomain f = (\<lambda>c. 0)(literal32 ''STARKNET'' := starknet, literal32 ''BASE'' := base, literal32 ''SOLANA'' := solana,
       literal32 ''ETHEREUM'' := eth, literal32 ''ARBITRUM'' := arb, literal32 ''MONAD'' := monad)"
  by (insert assms [unfolded new_factory_def ensure_Inr sum.inject], (elim conjE, hypsubst, rule receiver_factory.select_convs)+)

lemma new_factory_succeeds:
  assumes "i \<noteq> ADDRESS_0" "distinct [base, solana, starknet, eth, arb, monad]"
  shows "\<exists>f. new_factory i t tr tm starknet base solana eth arb monad = Inr f"
  unfolding new_factory_def ensure_def if_P [OF assms(1)] if_P [OF assms(2)] by blast

lemma new_factory_ok: "new_factory i t tr tm s b so e a mo = Inr f \<Longrightarrow> evm_ok clone_address self \<lparr>ec_factory = f, ec_receivers = (\<lambda>k. None)\<rparr>"
  by (simp add: evm_ok_def new_factory_Inr)

section \<open>A sweep\<close>

lemma mul_256_eq: "unat a * unat b < 2 ^ 256 \<Longrightarrow> mul_256 a b = Inr (a * b)"
  by (simp add: mul_256_def)

lemma unat_mul_256: "unat a * unat b < 2 ^ 256 \<Longrightarrow> unat (a * b :: 256 word) = unat a * unat b"
  using unat_mult_lem [of a b] by simp

text \<open>What leaves the receiver's account, by transfer or burn, of a token.\<close>

fun evm_sent_by :: "addr \<Rightarrow> evm_call \<Rightarrow> nat" where
  "evm_sent_by t (SafeTransfer token dst n) = (if token = t then unat n else 0)"
| "evm_sent_by t (ApproveCall token spender n) = 0"
| "evm_sent_by t (DepositForBurn messenger n d rp token caller fee finality) = (if token = t then unat n else 0)"

definition evm_sent :: "addr \<Rightarrow> evm_call list \<Rightarrow> nat" where
  "evm_sent t calls = sum_list (map (evm_sent_by t) calls)"

lemma evm_sent_simps [simp]: "evm_sent t [] = 0" "evm_sent t (c # cs) = evm_sent_by t c + evm_sent t cs"
  "evm_sent t (cs @ cs') = evm_sent t cs + evm_sent t cs'"
  by (simp_all add: evm_sent_def)

text \<open>The call that settles the net amount of a receiver.\<close>

definition settling_call :: "chainx_receiver \<Rightarrow> 256 word \<Rightarrow> 256 word \<Rightarrow> evm_call" where
  "settling_call rx balance net =
     (if rx_recipient rx = BYTES32_0 then SafeTransfer (rx_token rx) (rx_merchant rx) net
      else DepositForBurn (rx_tokenMessenger rx) net (rx_domain rx) (rx_recipient rx) (rx_token rx) BYTES32_0 (balance * 2 div 10000) 1000)"

text \<open>
  A sweep of a balance whose fifty-fold fits 256 bits succeeds: the fee is half a percent, rounded down, the caller gets a tenth of it, rounded down, the
  treasury the rest, everything else is settled by the last call, and together that is the balance.
\<close>

lemma sweep_receiver_exact:
  assumes "rx_initialized rx" "0 < balance" "unat balance * 50 < 2 ^ 256"
  shows "\<exists>calls ev net. sweep_receiver origin balance rx = Inr (calls, ev) \<and> unat net = unat balance - unat balance * 50 div 10000 \<and>
    evm_sent (rx_token rx) calls = unat balance \<and> calls \<noteq> [] \<and> last calls = settling_call rx balance net"
proof -
  define fee where "fee = balance * EVM_FEE_BPS div EVM_BPS_DENOM"
  have 1: "mul_256 balance EVM_FEE_BPS = Inr (balance * EVM_FEE_BPS)" "unat fee = unat balance * 50 div 10000"
    using assms(3) by (simp_all add: mul_256_eq fee_def EVM_FEE_BPS_def EVM_BPS_DENOM_def unat_div unat_mul_256)
  have pos: "0 < unat balance" using assms(2) by (simp add: unat_gt_0 word_neq_0_conv)
  then have less: "unat fee < unat balance" and small: "unat fee * 1000 < 2 ^ 256" using assms(3) 1(2) by simp_all
  define caller where "caller = fee * EVM_CALLER_SHARE_BPS div EVM_BPS_DENOM"
  have 2: "mul_256 fee EVM_CALLER_SHARE_BPS = Inr (fee * EVM_CALLER_SHARE_BPS)" "unat caller = unat fee * 1000 div 10000"
    using small by (simp_all add: mul_256_eq caller_def EVM_CALLER_SHARE_BPS_def EVM_BPS_DENOM_def unat_div unat_mul_256)
  then have le: "caller \<le> fee" by (simp add: word_le_nat_alt)
  have net: "unat (balance - fee) = unat balance - unat fee" "fee \<le> balance" using less by (simp_all add: unat_sub word_le_nat_alt)
  have "0 < balance - fee" using net(1) less by (metis unat_gt_0 word_neq_0_conv zero_less_diff)
  moreover have "mul_256 balance 2 = Inr (balance * 2)" using assms(3) by (intro mul_256_eq) simp
  ultimately obtain before where settle: "settle_net rx balance (balance - fee) = Inr (before @ [settling_call rx balance (balance - fee)])"
      "evm_sent (rx_token rx) before = 0"
    by (cases "rx_recipient rx = BYTES32_0") (auto simp: settle_net_def bind_evm_def settling_call_def)
  let ?calls = "(if caller > 0 then [SafeTransfer (rx_token rx) origin caller] else []) @
      (if fee - caller > 0 then [SafeTransfer (rx_token rx) (rx_treasury rx) (fee - caller)] else []) @ before @ [settling_call rx balance (balance - fee)]"
  have run: "sweep_receiver origin balance rx = Inr (?calls, [balance, balance - fee, fee, caller, fee - caller])"
    using assms(1,2) 1(1) 2(1) le net(2) settle(1)
    by (simp add: sweep_receiver_def ensure_def bind_evm_def sub_256_def Let_def fee_def [symmetric] caller_def [symmetric])
  have "evm_sent_by (rx_token rx) (settling_call rx balance (balance - fee)) = unat (balance - fee)" by (simp add: settling_call_def)
  moreover have "unat (fee - caller) = unat fee - unat caller" using le by (simp add: unat_sub)
  moreover have "unat caller \<le> unat fee" using le by (simp add: word_le_nat_alt)
  ultimately have "evm_sent (rx_token rx) ?calls = unat balance"
    using net(1) less settle(2) by (auto simp: word_neq_0_conv [symmetric] unat_sub)
  then show ?thesis using run net(1) 1(2) by (intro exI [of _ ?calls]) auto
qed

end
