(* ===== verification/Evm_Lane.thy ===== *)
theory Evm_Lane
  imports Evm_Sound Solana_Lane Selectors
begin

text \<open>
  The scripts and the contracts on an EVM chain together: the call that \<open>onchain.js\<close> makes of the factory is the call of \<open>predictReceiverAddress\<close>, and
  what is paid to the predicted address ends where the route of \<open>identity.js\<close> says.
\<close>

section \<open>A call of the factory\<close>

text \<open>
  The factory called with the data of a transaction, by the ABI of the language: the selector, then one word for each argument. Of its functions this is
  the one the script calls; without a result the call reverts.
\<close>

definition predictReceiverAddress :: "(addr \<Rightarrow> bytes \<Rightarrow> addr \<Rightarrow> addr) \<Rightarrow> addr \<Rightarrow> receiver_factory \<Rightarrow> bytes \<Rightarrow> bytes option" where
  "predictReceiverAddress clone_address self f data =
     (if take 4 data = take 4 (keccak256 (utf8 ''predictReceiverAddress(address,bytes32,bytes32)'')) \<and> 100 \<le> length data \<and>
         take 12 (drop 4 data) = replicate 12 0
      then Some (replicate 12 0 @ predict_receiver clone_address self f (take 20 (drop 16 data)) (take 32 (drop 36 data)) (take 32 (drop 68 data)))
      else None)"

text \<open>A source of \<open>onchain.js\<close> that answers calls of the contract at \<open>target\<close> as the chain does.\<close>

definition serves_calls :: "(string \<Rightarrow> json list \<Rightarrow> http) \<Rightarrow> string option \<Rightarrow> (bytes \<Rightarrow> bytes option) \<Rightarrow> bool" where
  "serves_calls src target call \<longleftrightarrow> (\<forall>s data out. hexToBytes s = Inr data \<longrightarrow> call data = Some out \<longrightarrow>
     src ''eth_call'' [JObj [(''to'', opt_string target), (''data'', JStr s)], JStr ''latest''] =
       Response 200 (Some (JObj [(''result'', JStr (''0x'' @ hex_of_bytes out))])))"

lemma hex_pairs_append: "even (length a) \<Longrightarrow> hex_pairs (a @ b) = hex_pairs a @ hex_pairs b"
  by (induction a rule: hex_pairs.induct) auto

lemma hexToBytes_0x: "hexToBytes (''0x'' @ h) = Inr b \<longleftrightarrow> even (length h) \<and> list_all is_hex h \<and> b = hex_pairs h"
  by (auto simp: hexToBytes_def Let_def simp del: append_Cons)

lemma hexToBytes_route: "take 2 s = ''0x'' \<Longrightarrow> hexToBytes s = Inr b \<longleftrightarrow> even (length (drop 2 s)) \<and> list_all is_hex (drop 2 s) \<and> b = hex_pairs (drop 2 s)"
  using hexToBytes_0x [of "drop 2 s" b] by (metis append_take_drop_id)

lemma hex_zero_pairs: "hex_pairs (replicate 24 CHR ''0'') = replicate 12 0" "list_all is_hex (replicate 24 CHR ''0'')"
  using hex_pairs_hex_of_bytes [of "replicate 12 0"] hex_zeros [of 12] hex_of_bytes_hex [of "replicate 12 0"] by simp_all

text \<open>The data of the script's call.\<close>

lemma predict_data:
  assumes "canonicalEvm v = Some m" "hexToBytes m = Inr mb"
    and "take 2 c32 = ''0x''" "hexToBytes c32 = Inr c" "length c = 32" "take 2 r32 = ''0x''" "hexToBytes r32 = Inr rp" "length rp = 32"
  shows "length mb = 20" "hexToBytes (EVM_PREDICT_SELECTOR @ pad32 m @ drop 2 c32 @ drop 2 r32) =
    Inr (take 4 (keccak256 (utf8 ''predictReceiverAddress(address,bytes32,bytes32)'')) @ replicate 12 0 @ mb @ c @ rp)"
proof -
  obtain h where h: "m = ''0x'' @ to_lower h" "length h = 40" "list_all is_hex (to_lower h)" "to_lower (to_lower h) = to_lower h"
    using assms(1) by (auto simp: canonicalEvm_Some)
  then have mb: "mb = hex_pairs (to_lower h)" using assms(2) by (simp only: hexToBytes_0x)
  then show "length mb = 20" by (simp add: length_hex_pairs h(2))
  have "strip_0x m = to_lower h" using h(1) by (simp only: strip_0x_0x)
  then have pad: "pad32 m = replicate 24 CHR ''0'' @ to_lower h" by (simp add: pad32_def pad_start_def h(2,4))
  define h4 where "h4 = hex_of_bytes (take 4 (keccak256 (utf8 ''predictReceiverAddress(address,bytes32,bytes32)'')))"
  have sel: "EVM_PREDICT_SELECTOR = ''0x'' @ h4"
    by (simp add: h4_def EVM_PREDICT_SELECTOR_def hash_predict_evm hex_byte_digits digit_char_def)
  have "hex_pairs h4 = take 4 (keccak256 (utf8 ''predictReceiverAddress(address,bytes32,bytes32)''))" "list_all is_hex h4" "even (length h4)"
    by (simp_all add: h4_def hex_of_bytes_hex)
  then show "hexToBytes (EVM_PREDICT_SELECTOR @ pad32 m @ drop 2 c32 @ drop 2 r32) =
    Inr (take 4 (keccak256 (utf8 ''predictReceiverAddress(address,bytes32,bytes32)'')) @ replicate 12 0 @ mb @ c @ rp)"
    using assms(4,7) h(2,3)
    unfolding sel pad mb append_assoc hexToBytes_0x hexToBytes_route [OF assms(3)] hexToBytes_route [OF assms(6)]
    by (simp add: hex_pairs_append hex_zero_pairs del: append_Cons replicate_Suc)
qed

lemma predict_called:
  assumes "length mb = 20" "length c = 32" "length rp = 32"
  shows "predictReceiverAddress clone_address self f
    (take 4 (keccak256 (utf8 ''predictReceiverAddress(address,bytes32,bytes32)'')) @ replicate 12 0 @ mb @ c @ rp) =
    Some (replicate 12 0 @ predict_receiver clone_address self f mb c rp)"
  using assms by (simp add: predictReceiverAddress_def hash_predict_evm)

text \<open>An answer of one source, and so what the script takes for the receiver.\<close>

lemma predictVia_answer:
  assumes "chainByKey s = Some ch" "ch_kind ch = ''evm''" "length k = 20"
    and "net (direct_url ch) ''eth_call'' [JObj [(''to'', opt_string (ch_factory ch)),
        (''data'', JStr (EVM_PREDICT_SELECTOR @ pad32 m @ drop 2 (chain32 x) @ drop 2 (recipient32 x)))], JStr ''latest''] = h \<and> src = Direct \<or>
      net (proxy_url ch) ''eth_call'' [JObj [(''to'', opt_string (ch_factory ch)),
        (''data'', JStr (EVM_PREDICT_SELECTOR @ pad32 m @ drop 2 (chain32 x) @ drop 2 (recipient32 x)))], JStr ''latest''] = h \<and> src = ProxyOnly"
    and "h = Response 200 (Some (JObj [(''result'', JStr (''0x'' @ hex_of_bytes (replicate 12 0 @ k)))]))"
  shows "predictVia net ch m x src = Inr (JStr (''0x'' @ hex_of_bytes k))"
proof -
  let ?out = "''0x'' @ hex_of_bytes (replicate 12 0 @ k)"
  have "answers h (JStr ?out)" by (simp add: answers_def assms(5))
  then have "rpc net (ch_key ch) ''eth_call'' [JObj [(''to'', opt_string (ch_factory ch)),
      (''data'', JStr (EVM_PREDICT_SELECTOR @ pad32 m @ drop 2 (chain32 x) @ drop 2 (recipient32 x)))], JStr ''latest''] src = Inr (Some (JStr ?out))"
    using assms(4) chainByKey_ch_key [OF assms(1)] rpc_outcome by auto
  moreover have "hex64 ?out" by (simp add: hex64_def assms(3) hex_of_bytes_hex)
  moreover have "drop (length ?out - 40) ?out = hex_of_bytes k"
    using drop_hex_of_bytes [of 12 "replicate 12 0 @ k"] by (simp add: assms(3))
  ultimately show ?thesis by (simp add: predictVia_def assms(2) Let_def template_def)
qed

lemma sources_answer:
  assumes "chainByKey s = Some ch" "ch_kind ch = ''evm''" "length k = 20"
    and "hexToBytes (EVM_PREDICT_SELECTOR @ pad32 m @ drop 2 (chain32 x) @ drop 2 (recipient32 x)) = Inr data" "call data = Some (replicate 12 0 @ k)"
  shows "serves_calls (net (direct_url ch)) (ch_factory ch) call \<Longrightarrow> predictVia net ch m x Direct = Inr (JStr (''0x'' @ hex_of_bytes k))"
    "serves_calls (net (proxy_url ch)) (ch_factory ch) call \<Longrightarrow> predictVia net ch m x ProxyOnly = Inr (JStr (''0x'' @ hex_of_bytes k))"
proof -
  show "predictVia net ch m x Direct = Inr (JStr (''0x'' @ hex_of_bytes k))" if "serves_calls (net (direct_url ch)) (ch_factory ch) call"
    using that assms(4,5) by (intro predictVia_answer [OF assms(1-3) _ refl]) (simp add: serves_calls_def)
  show "predictVia net ch m x ProxyOnly = Inr (JStr (''0x'' @ hex_of_bytes k))" if "serves_calls (net (proxy_url ch)) (ch_factory ch) call"
    using that assms(4,5) by (intro predictVia_answer [OF assms(1-3) _ refl]) (simp add: serves_calls_def)
qed

section \<open>The routes of the scripts\<close>

lemma literal32_seed: "length (utf8 s) \<le> 32 \<Longrightarrow> literal32 s = chain_name_seed (utf8 s)"
  by (simp add: literal32_def chain_name_seed_def Let_def)

lemma zero_32: "BYTES32_0 = ZERO_BYTES"
  by (simp add: BYTES32_0_def ZERO_BYTES_def)

lemma solana_name: "utf8 ''SOLANA'' = [83, 79, 76, 65, 78, 65]"
  by (simp add: utf8_def utf8_char_def code_def)

lemma names_32: "k \<in> set CHAIN_KEYS \<Longrightarrow> length (utf8 k) \<le> 32"
  by (auto simp: chain_keys chain_names solana_name)

lemma name_seed_inject:
  assumes "k \<in> set CHAIN_KEYS" "k' \<in> set CHAIN_KEYS"
  shows "chain_name_seed (utf8 k) = chain_name_seed (utf8 k') \<longleftrightarrow> k = k'"
proof -
  have "distinct (map (\<lambda>k. chain_name_seed (utf8 k)) CHAIN_KEYS)"
    unfolding chain_keys list.map chain_names solana_name by (simp add: chain_name_seed_inject)
  then have "inj_on (\<lambda>k. chain_name_seed (utf8 k)) (set CHAIN_KEYS)" by (simp add: distinct_map)
  then show ?thesis using assms by (auto dest: inj_onD)
qed

text \<open>The factory knows the chains of the table, each with the domain given for it.\<close>

lemma factory_domains:
  assumes "new_factory i token treasury messenger (domains ''STARKNET'') (domains ''BASE'') (domains ''SOLANA'') (domains ''ETHEREUM'') (domains ''ARBITRUM'') (domains ''MONAD'') = Inr f"
    and "k \<in> set CHAIN_KEYS"
  shows "rf_destinationDomain f (chain_name_seed (utf8 k)) = domains k" "rf_validDomains f (chain_name_seed (utf8 k))" "chain_name_seed (utf8 k) \<noteq> BYTES32_0"
proof -
  note f = new_factory_Inr(6,7) [OF assms(1)]
  have lit: "literal32 k = chain_name_seed (utf8 k)" if "k \<in> set CHAIN_KEYS" for k using literal32_seed names_32 that by simp
  have keys: "''STARKNET'' \<in> set CHAIN_KEYS" "''BASE'' \<in> set CHAIN_KEYS" "''SOLANA'' \<in> set CHAIN_KEYS" "''ETHEREUM'' \<in> set CHAIN_KEYS"
    "''ARBITRUM'' \<in> set CHAIN_KEYS" "''MONAD'' \<in> set CHAIN_KEYS" by (simp_all add: chain_keys)
  have "k \<in> {''BASE'', ''ETHEREUM'', ''ARBITRUM'', ''MONAD'', ''STARKNET'', ''SOLANA''}" using assms(2) by (simp add: chain_keys)
  then have "rf_destinationDomain f (chain_name_seed (utf8 k)) = domains k" "rf_validDomains f (chain_name_seed (utf8 k))"
    by (auto simp: f lit keys name_seed_inject)
  moreover have "chain_name_seed (utf8 k) \<noteq> BYTES32_0"
    using chain_name_seed_inject [of "utf8 k" "[]"] names_32 [OF assms(2)] assms(2)
    by (auto simp: zero_32 ZERO_BYTES_seed chain_keys chain_names solana_name)
  ultimately show "rf_destinationDomain f (chain_name_seed (utf8 k)) = domains k" "rf_validDomains f (chain_name_seed (utf8 k))" "chain_name_seed (utf8 k) \<noteq> BYTES32_0"
    by simp_all
qed

text \<open>The two values of a route as bytes.\<close>

lemma route_bytes:
  assumes "cctpRoute sha s t r = Inr x" "hexToBytes (chain32 x) = Inr c" "hexToBytes (recipient32 x) = Inr rp"
  shows "take 2 (chain32 x) = ''0x''" "take 2 (recipient32 x) = ''0x''" "length c = 32" "length rp = 32"
    "if wire s = wire t then c = BYTES32_0 \<and> rp = BYTES32_0 else wire t \<in> set CHAIN_KEYS \<and> c = chain_name_seed (utf8 (wire t))"
proof -
  have zero: "hexToBytes ZERO32 = Inr BYTES32_0"
    by (metis ZERO32_def hex_zeros hexToBytes_hex_of_bytes BYTES32_0_def numeral_Bit0 mult_2)
  have "take 2 (chain32 x) = ''0x'' \<and> take 2 (recipient32 x) = ''0x'' \<and> length c = 32 \<and> length rp = 32 \<and>
    (if wire s = wire t then c = BYTES32_0 \<and> rp = BYTES32_0 else wire t \<in> set CHAIN_KEYS \<and> c = chain_name_seed (utf8 (wire t)))"
    using assms(1)
  proof (cases rule: cctpRoute_cases)
    case same
    then have "c = BYTES32_0" "rp = BYTES32_0" using assms(2,3) zero by (simp_all add: zero_route_def)
    then show ?thesis using same by (simp add: zero_route_def ZERO32_def BYTES32_0_def)
  next
    case (other ct a h)
    have k: "wire t \<in> set CHAIN_KEYS" using chain_key_in [OF other(2)] .
    have "c = chain_name_seed (utf8 (wire t))"
      using assms(2) pad_name [OF names_32 [OF k]] by (simp add: other(6) remote_route_def Let_def)
    moreover have "rp = hex_pairs h" using assms(3) by (simp add: other(6) remote_route_def Let_def hexToBytes_def split: if_splits)
    ultimately show ?thesis
      using other(1,5) k names_32 [OF k] by (simp add: other(6) remote_route_def Let_def length_hex_pairs word64_def) (simp add: chain_name_seed_def Let_def)
  qed
  then show "take 2 (chain32 x) = ''0x''" "take 2 (recipient32 x) = ''0x''" "length c = 32" "length rp = 32"
    "if wire s = wire t then c = BYTES32_0 \<and> rp = BYTES32_0 else wire t \<in> set CHAIN_KEYS \<and> c = chain_name_seed (utf8 (wire t))"
    by blast+
qed

section \<open>A payment\<close>

abbreviation created :: "receiver_factory \<Rightarrow> evm_chain" where
  "created f \<equiv> \<lparr>ec_factory = f, ec_receivers = (\<lambda>k. None)\<rparr>"

text \<open>The script's prediction, when one source answers as a chain on which the factory has run.\<close>

lemma predicted_address:
  assumes "chainByKey s = Some ch" "ch_kind ch = ''evm''"
    and "cctpRoute sha s t r = Inr x" "hexToBytes (chain32 x) = Inr c" "hexToBytes (recipient32 x) = Inr rp"
    and "canonicalEvm identity = Some m" "hexToBytes m = Inr mb" "length k = 20" "k = predict_receiver clone_address self f mb c rp"
  shows "serves_calls (net (direct_url ch)) (ch_factory ch) (predictReceiverAddress clone_address self f) \<Longrightarrow>
      predictVia net ch m x Direct = Inr (JStr (''0x'' @ hex_of_bytes k))"
    "serves_calls (net (proxy_url ch)) (ch_factory ch) (predictReceiverAddress clone_address self f) \<Longrightarrow>
      predictVia net ch m x ProxyOnly = Inr (JStr (''0x'' @ hex_of_bytes k))"
    "serves_calls (net (direct_url ch)) (ch_factory ch) (predictReceiverAddress clone_address self f) \<or>
      serves_calls (net (proxy_url ch)) (ch_factory ch) (predictReceiverAddress clone_address self f) \<Longrightarrow>
      predictReceiver net s m x = Inr v \<Longrightarrow> \<exists>a. v = JStr a \<and> to_lower a = ''0x'' @ hex_of_bytes k"
proof -
  note route = route_bytes [OF assms(3-5)]
  note data = predict_data [OF assms(6,7) route(1) assms(4) route(3) route(2) assms(5) route(4)]
  note call = predict_called [OF data(1) route(3,4), of clone_address self f, folded assms(9)]
  note via = sources_answer [where m = m and x = x and net = net and k = k and call = "predictReceiverAddress clone_address self f", OF assms(1,2,8) data(2) call]
  show "predictVia net ch m x Direct = Inr (JStr (''0x'' @ hex_of_bytes k))"
    if "serves_calls (net (direct_url ch)) (ch_factory ch) (predictReceiverAddress clone_address self f)" using via(1) [OF that] .
  show "predictVia net ch m x ProxyOnly = Inr (JStr (''0x'' @ hex_of_bytes k))"
    if "serves_calls (net (proxy_url ch)) (ch_factory ch) (predictReceiverAddress clone_address self f)" using via(2) [OF that] .
  have low: "to_lower (''0x'' @ hex_of_bytes k) = ''0x'' @ hex_of_bytes k"
    by (simp add: to_lower_def [symmetric])
  show "\<exists>a. v = JStr a \<and> to_lower a = ''0x'' @ hex_of_bytes k"
    if "serves_calls (net (direct_url ch)) (ch_factory ch) (predictReceiverAddress clone_address self f) \<or>
        serves_calls (net (proxy_url ch)) (ch_factory ch) (predictReceiverAddress clone_address self f)" and predicted: "predictReceiver net s m x = Inr v"
  proof -
    obtain a where a: "predictVia net ch m x ProxyOnly = Inr a" "predictVia net ch m x Direct = Inr v" "sameAddress ''evm'' a v = Inr True"
      using predicted assms(1,2) by (auto simp: predictReceiver_Inr)
    from that(1) show ?thesis
    proof
      assume "serves_calls (net (direct_url ch)) (ch_factory ch) (predictReceiverAddress clone_address self f)"
      then have "v = JStr (''0x'' @ hex_of_bytes k)" using via(1) a(2) by simp
      then show ?thesis using low by blast
    next
      assume "serves_calls (net (proxy_url ch)) (ch_factory ch) (predictReceiverAddress clone_address self f)"
      then have "a = JStr (''0x'' @ hex_of_bytes k)" using via(2) a(1) by simp
      then obtain b where "v = JStr b" "to_lower b = to_lower (''0x'' @ hex_of_bytes k)"
        using a(3) by (auto simp: sameAddress_def split: json.splits)
      then show ?thesis using low by metis
    qed
  qed
qed

text \<open>
  C4: a payment into an EVM receiver ends where the lane says. Take the route of the scripts for a settlement chain and recipient, and the address that
  \<open>predictReceiver\<close> returns for it when at least one of the two sources answers as the chain does. If the factory registers this merchant and route, the
  clone is at that address; and whatever transactions follow, a sweep of its balance moves out exactly the balance, half a percent as the fee and the
  rest by its last call: to the merchant when the lane settles on the chain itself, and otherwise burned for the very chain of the route and its recipient.
\<close>

theorem evm_lane_settles:
  assumes "chainByKey s = Some ch" "ch_kind ch = ''evm''"
    and "cctpRoute sha s t r = Inr x" "hexToBytes (chain32 x) = Inr c" "hexToBytes (recipient32 x) = Inr rp"
    and "canonicalEvm identity = Some m" "hexToBytes m = Inr mb"
    and "\<And>i salt d. length (clone_address i salt d) = 20"
    and "new_factory implementation token treasury messenger (domains ''STARKNET'') (domains ''BASE'') (domains ''SOLANA'') (domains ''ETHEREUM'')
      (domains ''ARBITRUM'') (domains ''MONAD'') = Inr f"
    and "(evm_step clone_address self)\<^sup>*\<^sup>* (created f) ec"
    and "serves_calls (net (direct_url ch)) (ch_factory ch) (predictReceiverAddress clone_address self (ec_factory ec)) \<or>
      serves_calls (net (proxy_url ch)) (ch_factory ch) (predictReceiverAddress clone_address self (ec_factory ec))"
    and "predictReceiver net s m x = Inr v"
    and "(evm_step clone_address self)\<^sup>*\<^sup>* ec ec1" "registerMerchant_evm clone_address self mb c rp ec1 = Inr (k, ec2)"
    and "(evm_step clone_address self)\<^sup>*\<^sup>* ec2 ec3"
    and "0 < balance" "unat balance * 50 < 2 ^ 256"
  shows "\<exists>a rx calls ev n. v = JStr a \<and> to_lower a = ''0x'' @ hex_of_bytes k \<and> ec_receivers ec3 k = Some rx \<and>
    sweep_receiver origin balance rx = Inr (calls, ev) \<and> evm_sent token calls = unat balance \<and>
    unat n = unat balance - unat balance * 50 div 10000 \<and> calls \<noteq> [] \<and>
    last calls = (if wire s = wire t then SafeTransfer token mb n
      else DepositForBurn messenger n (domains (wire t)) rp token BYTES32_0 (balance * 2 div 10000) 1000)"
proof -
  have same: "same_terms f (ec_factory ec)" "same_terms f (ec_factory ec1)"
    using evm_steps_kept [OF assms(10)] evm_kept_trans [OF evm_steps_kept [OF assms(10)] evm_steps_kept [OF assms(13)]] by (simp_all add: evm_kept_def)
  have reg: "k = predict_receiver clone_address self (ec_factory ec1) mb c rp" "route_ok (ec_factory ec1) c rp"
      "ec_receivers ec2 k = Some (terms (ec_factory ec1) mb c rp)"
    using assms(14) by (auto simp: register_evm_Inr Let_def)
  have k: "k = predict_receiver clone_address self (ec_factory ec) mb c rp" using reg(1) same by (simp add: same_terms_uses)
  then have "length k = 20" by (simp add: predict_receiver_def assms(8))
  from predicted_address(3) [OF assms(1-7) this k assms(11,12)] obtain a where a: "v = JStr a" "to_lower a = ''0x'' @ hex_of_bytes k" by blast
  let ?rx = "terms f mb c rp"
  have rx: "ec_receivers ec3 k = Some ?rx"
    using evm_steps_kept [OF assms(15)] reg(3) same(2) by (simp add: evm_kept_def same_terms_uses)
  note f = new_factory_Inr(1-4) [OF assms(9)]
  have "rx_initialized ?rx" "rx_token ?rx = token" by (simp_all add: f)
  with sweep_receiver_exact [where rx = ?rx and origin = origin, OF _ assms(16,17)] obtain calls ev n where sweep: "sweep_receiver origin balance ?rx = Inr (calls, ev)"
      "unat n = unat balance - unat balance * 50 div 10000" "evm_sent token calls = unat balance" "calls \<noteq> []" "last calls = settling_call ?rx balance n"
    by metis
  have "settling_call ?rx balance n = (if wire s = wire t then SafeTransfer token mb n
      else DepositForBurn messenger n (domains (wire t)) rp token BYTES32_0 (balance * 2 div 10000) 1000)"
  proof (cases "wire s = wire t")
    case True
    then show ?thesis using route_bytes(5) [OF assms(3-5)] by (simp add: settling_call_def f)
  next
    case False
    then have c: "wire t \<in> set CHAIN_KEYS" "c = chain_name_seed (utf8 (wire t))" using route_bytes(5) [OF assms(3-5)] by simp_all
    note dom = factory_domains [OF assms(9) c(1), folded c(2)]
    have "rp \<noteq> BYTES32_0" using reg(2) dom(3) by (simp add: route_ok_def split: if_splits)
    then show ?thesis using False dom(1) by (simp add: settling_call_def f)
  qed
  then show ?thesis using a rx sweep by metis
qed

section \<open>An example\<close>

text \<open>The address that CREATE2 gives a minimal proxy of the implementation.\<close>

definition create2 :: "addr \<Rightarrow> bytes \<Rightarrow> addr \<Rightarrow> addr" where
  "create2 i salt deployer = drop 12 (keccak256 (0xff # deployer @ salt @ keccak256
     ([0x3d, 0x60, 0x2d, 0x80, 0x60, 0x0a, 0x3d, 0x39, 0x81, 0xf3, 0x36, 0x3d, 0x3d, 0x37, 0x3d, 0x3d, 0x3d, 0x36, 0x3d, 0x73] @ i @
      [0x5a, 0xf4, 0x3d, 0x82, 0x80, 0x3e, 0x90, 0x3d, 0x91, 0x60, 0x2b, 0x57, 0xfd, 0x5b, 0xf3])))"

text \<open>The domains of \<open>DeployBaseMainnet.s.sol\<close>.\<close>

definition base_domains :: "string \<Rightarrow> 32 word" where
  "base_domains k = (if k = ''ETHEREUM'' then 0 else if k = ''ARBITRUM'' then 3 else if k = ''SOLANA'' then 5 else if k = ''BASE'' then 6
     else if k = ''MONAD'' then 15 else 25)"

lemma base_domains_simps:
  "base_domains ''ETHEREUM'' = 0" "base_domains ''ARBITRUM'' = 3" "base_domains ''SOLANA'' = 5" "base_domains ''BASE'' = 6"
  "base_domains ''MONAD'' = 15" "base_domains ''STARKNET'' = 25"
  by (simp_all add: base_domains_def)

definition chain_source :: "(bytes \<Rightarrow> bytes option) \<Rightarrow> string \<Rightarrow> json list \<Rightarrow> http" where
  "chain_source call me p = (case p of
     [JObj [(n, target), (d, JStr s)], tag] \<Rightarrow>
       (case hexToBytes s of
          Inl e \<Rightarrow> Fetch_failed ''invalid''
        | Inr data \<Rightarrow> (case call data of
            None \<Rightarrow> Fetch_failed ''reverted''
          | Some out \<Rightarrow> Response 200 (Some (JObj [(''result'', JStr (''0x'' @ hex_of_bytes out))]))))
   | _ \<Rightarrow> Fetch_failed ''invalid'')"

lemma chain_source_serves: "serves_calls (chain_source call) target call"
  by (simp add: serves_calls_def chain_source_def)

lemma base_factory: "\<exists>f. new_factory (replicate 20 1) (replicate 20 2) (replicate 20 3) (replicate 20 4) (base_domains ''STARKNET'')
    (base_domains ''BASE'') (base_domains ''SOLANA'') (base_domains ''ETHEREUM'') (base_domains ''ARBITRUM'') (base_domains ''MONAD'') = Inr f"
  unfolding base_domains_simps by (rule new_factory_succeeds) (simp_all add: ADDRESS_0_def)

lemma hex_repeated:
  "hex_of_bytes (replicate n 0x11) = replicate (2 * n) CHR ''1''" "hex_of_bytes (replicate n 0x22) = replicate (2 * n) CHR ''2''"
  by (induction n) (simp_all add: hex_byte_digits digit_char_def)

lemma merchant_11: "hexToBytes (''0x'' @ replicate 40 CHR ''1'') = Inr (replicate 20 0x11)"
proof -
  have "replicate 40 CHR ''1'' = hex_of_bytes (replicate 20 0x11)" by (simp add: hex_repeated)
  then show ?thesis by (simp only: hexToBytes_hex_of_bytes)
qed

lemma recipient_22: "hexToBytes (''0x'' @ pad_start 64 CHR ''0'' (replicate 40 CHR ''2'')) = Inr (replicate 12 0 @ replicate 20 0x22)"
proof -
  have "pad_start 64 CHR ''0'' (replicate 40 CHR ''2'') = hex_of_bytes (replicate 12 0) @ hex_of_bytes (replicate 20 0x22)"
    by (simp add: hex_repeated(2) hex_zeros pad_start_def del: replicate_Suc)
  also have "\<dots> = hex_of_bytes (replicate 12 0 @ replicate 20 0x22)" by (simp add: hex_of_bytes_def)
  finally show ?thesis by (simp only: hexToBytes_hex_of_bytes)
qed

text \<open>A lane from Base to Monad: 9950 of 10000 are burned for the domain 15 and the recipient.\<close>

theorem evm_lane_settles_witness:
  "\<exists>x f a k ec rx calls ev n. cctpRoute keccak256 ''BASE'' ''MONAD'' (''0x'' @ replicate 40 CHR ''2'') = Inr x \<and>
     predictReceiver (\<lambda>url. chain_source (predictReceiverAddress create2 (replicate 20 5) f)) ''BASE'' (''0x'' @ replicate 40 CHR ''1'') x = Inr (JStr a) \<and>
     registerMerchant_evm create2 (replicate 20 5) (replicate 20 0x11) (chain_name_seed (utf8 ''MONAD'')) (replicate 12 0 @ replicate 20 0x22) (created f) = Inr (k, ec) \<and>
     to_lower a = ''0x'' @ hex_of_bytes k \<and> ec_receivers ec k = Some rx \<and> sweep_receiver (replicate 20 6) 10000 rx = Inr (calls, ev) \<and> unat n = 9950 \<and>
     last calls = DepositForBurn (replicate 20 4) n 15 (replicate 12 0 @ replicate 20 0x22) (replicate 20 2) BYTES32_0 2 1000"
proof -
  let ?r = "''0x'' @ replicate 40 CHR ''2''" and ?m = "''0x'' @ replicate 40 CHR ''1''" and ?self = "replicate 20 5 :: bytes"
  let ?rp = "replicate 12 0 @ replicate 20 0x22 :: bytes" and ?c = "chain_name_seed (utf8 ''MONAD'')" and ?mb = "replicate 20 0x11 :: bytes"
  have w: "wire ''BASE'' = ''BASE''" "wire ''MONAD'' = ''MONAD''" by (simp_all add: wire_def char_eval)
  obtain ch where ch: "chainByKey ''BASE'' = Some ch" "ch_kind ch = ''evm''" by (simp add: chainByKey_def CHAINS_def wire_def char_eval)
  obtain ct where ct: "chainByKey ''MONAD'' = Some ct" "ch_kind ct = ''evm''" using chain_MONAD by auto
  have "canonicalAddress ''MONAD'' ?r = Some ?r"
    unfolding canonicalAddress_evm [OF ct] by (subst canonicalEvm_form; simp add: list_all_iff char_eval)
  then obtain x where x: "cctpRoute keccak256 ''BASE'' ''MONAD'' ?r = Inr x" "x = remote_route ''MONAD'' (recipient_word ''evm'' ?r)"
    using cctpRoute_total [of "''BASE''" "''MONAD''" ct ?r ?r keccak256] ct w by simp
  have c: "hexToBytes (chain32 x) = Inr ?c" "hexToBytes (recipient32 x) = Inr ?rp"
    using pad_name [of "utf8 ''MONAD''"] recipient_22 by (simp_all add: x(2) remote_route_def Let_def recipient_word_def chain_names)
  have m: "canonicalEvm ?m = Some ?m" by (subst canonicalEvm_form; simp add: list_all_iff char_eval)
  obtain f where f: "new_factory (replicate 20 1) (replicate 20 2) (replicate 20 3) (replicate 20 4) (base_domains ''STARKNET'') (base_domains ''BASE'')
    (base_domains ''SOLANA'') (base_domains ''ETHEREUM'') (base_domains ''ARBITRUM'') (base_domains ''MONAD'') = Inr f"
    using base_factory by blast
  have len: "length (create2 i salt d) = 20" for i salt d by (simp add: create2_def)
  define net where "net = (\<lambda>url :: string. chain_source (predictReceiverAddress create2 ?self f))"
  define k where "k = predict_receiver create2 ?self f ?mb ?c ?rp"
  have k: "length k = 20" by (simp add: k_def predict_receiver_def len)
  have served: "serves_calls (net url) (ch_factory ch) (predictReceiverAddress create2 ?self f)" for url
    unfolding net_def by (rule chain_source_serves)
  note via = predicted_address(1,2) [OF ch x(1) c m merchant_11 k k_def served]
  have predicted: "predictReceiver net ''BASE'' ?m x = Inr (JStr (''0x'' @ hex_of_bytes k))"
    using via ch by (simp add: predictReceiver_Inr sameAddress_def)
  have "''MONAD'' \<in> set CHAIN_KEYS" by (simp add: chain_keys)
  note monad = factory_domains [OF f this]
  have "?rp \<noteq> BYTES32_0" "?mb \<noteq> ADDRESS_0"
    by (auto simp: BYTES32_0_def ADDRESS_0_def dest!: arg_cong [where f = last])
  then have "\<exists>ec. registerMerchant_evm create2 ?self ?mb ?c ?rp (created f) = Inr (k, ec)"
    using monad(2,3) by (simp add: register_evm_Inr Let_def route_ok_def new_factory_Inr [OF f] EVM_MAX_RECEIVERS_def k_def ADDRESS_0_def)
  then obtain ec where reg: "registerMerchant_evm create2 ?self ?mb ?c ?rp (created f) = Inr (k, ec)" by blast
  have "0 < (10000 :: 256 word)" "unat (10000 :: 256 word) * 50 < 2 ^ 256" by simp_all
  from evm_lane_settles [where origin = "replicate 20 6", OF ch x(1) c m merchant_11 len f rtranclp.rtrancl_refl _ predicted rtranclp.rtrancl_refl reg rtranclp.rtrancl_refl this] served
  obtain a rx calls ev n where "JStr (''0x'' @ hex_of_bytes k) = JStr a" "to_lower a = ''0x'' @ hex_of_bytes k" "ec_receivers ec k = Some rx"
      "sweep_receiver (replicate 20 6) 10000 rx = Inr (calls, ev)" "unat n = 9950"
      "last calls = DepositForBurn (replicate 20 4) n 15 ?rp (replicate 20 2) BYTES32_0 2 1000"
    by (auto simp: w base_domains_simps)
  then show ?thesis using x(1) predicted reg unfolding net_def by blast
qed

end
